(* ===== verification/Prelude.thy ===== *)
theory Prelude
  imports "HOL-Library.Word" "HOL-Library.Sublist"
begin

text \<open>
  Vocabulary shared by every component of the development: the machine types of
  the Go sources, the byte codecs of \<^verbatim>\<open>encoding/binary\<close> in both byte orders
  (Modbus is big-endian; EtherNet/IP, CIP and PCCC are little-endian), a
  \<^verbatim>\<open>bytes.Reader\<close> as a value of its remaining input, and the bit packing that
  Modbus uses for coils.  The collections \<^verbatim>\<open>codec_simps\<close> and \<^verbatim>\<open>res_simps\<close> carry
  the component proofs.
\<close>

named_theorems codec_simps \<open>encoders and decoders cancel\<close>
named_theorems res_simps \<open>unfolding of the result monad\<close>

unbundle bit_operations_syntax

section \<open>Machine types\<close>

type_synonym byte = "8 word"
type_synonym u16 = "16 word"
type_synonym u32 = "32 word"
type_synonym u64 = "64 word"

text \<open>A Go string is a sequence of bytes; literals of the sources are ASCII.\<close>

definition bytes_of :: "string \<Rightarrow> byte list" where
  "bytes_of s = map (\<lambda>c. word_of_nat (of_char c)) s"

section \<open>Results\<close>

text \<open>
  A Go function that returns \<^verbatim>\<open>(T, error)\<close> is a function into a sum: \<^const>\<open>Inl\<close>
  carries the error, \<^const>\<open>Inr\<close> the value.
\<close>

fun res_bind :: "'e + 'a \<Rightarrow> ('a \<Rightarrow> 'e + 'b) \<Rightarrow> 'e + 'b" where
  "res_bind (Inl e) f = Inl e"
| "res_bind (Inr x) f = f x"

definition guard_res :: "bool \<Rightarrow> 'e \<Rightarrow> 'e + unit" where
  "guard_res b e = (if b then Inr () else Inl e)"

text \<open>Errors of the \<^verbatim>\<open>io\<close> package, and a read deadline that passed.\<close>

datatype io_error = EOF | UnexpectedEOF | Timeout

section \<open>Byte codecs\<close>

definition le_put :: "nat \<Rightarrow> 'a::len word \<Rightarrow> byte list" where
  "le_put n w = map (\<lambda>i. ucast (drop_bit (8 * i) w)) [0..<n]"

definition le_get :: "byte list \<Rightarrow> 'a::len word" where
  "le_get bs = foldr (\<lambda>b acc. ucast b OR push_bit 8 acc) bs 0"

definition be16 :: "u16 \<Rightarrow> byte list" where
  "be16 w = [ucast (drop_bit 8 w), ucast w]"

definition get_be16 :: "byte \<Rightarrow> byte \<Rightarrow> u16" where
  "get_be16 hi lo = ucast lo OR push_bit 8 (ucast hi)"

definition be32 :: "u32 \<Rightarrow> byte list" where
  "be32 w = rev (le_put 4 w)"

definition le16 :: "u16 \<Rightarrow> byte list" where
  "le16 w = [ucast w, ucast (drop_bit 8 w)]"

definition get_le16 :: "byte \<Rightarrow> byte \<Rightarrow> u16" where
  "get_le16 lo hi = ucast lo OR push_bit 8 (ucast hi)"

definition le32 :: "u32 \<Rightarrow> byte list" where
  "le32 w = [ucast w, ucast (drop_bit 8 w), ucast (drop_bit 16 w), ucast (drop_bit 24 w)]"

definition get_le32 :: "byte \<Rightarrow> byte \<Rightarrow> byte \<Rightarrow> byte \<Rightarrow> u32" where
  "get_le32 b0 b1 b2 b3 =
     ucast b0 OR push_bit 8 (ucast b1) OR push_bit 16 (ucast b2) OR push_bit 24 (ucast b3)"

text \<open>A slice of consecutive big-endian registers, and its reader.\<close>

definition be16s :: "u16 list \<Rightarrow> byte list" where
  "be16s ws = concat (map be16 ws)"

text \<open>\<^verbatim>\<open>binary.BigEndian.Uint16(data[off : off+2])\<close> for an offset in range.\<close>

definition be16_at :: "byte list \<Rightarrow> nat \<Rightarrow> u16" where
  "be16_at data off = get_be16 (data ! off) (data ! (off + 1))"

definition le16_at :: "byte list \<Rightarrow> nat \<Rightarrow> u16" where
  "le16_at data off = get_le16 (data ! off) (data ! (off + 1))"

text \<open>A digit of \<^verbatim>\<open>%X\<close>.\<close>

definition hex_digit :: "nat \<Rightarrow> char" where
  "hex_digit n = char_of (if n < 10 then 48 + n else 55 + n)"

definition le32_at :: "byte list \<Rightarrow> nat \<Rightarrow> u32" where
  "le32_at data off =
     get_le32 (data ! off) (data ! (off + 1)) (data ! (off + 2)) (data ! (off + 3))"

section \<open>Readers\<close>

text \<open>
  \<^verbatim>\<open>io.ReadFull(r, buf)\<close> and \<^verbatim>\<open>binary.Read\<close> on a \<^verbatim>\<open>bytes.Reader\<close>, whose state is
  the input that is left: nothing at all is \<^const>\<open>EOF\<close>, too little is
  \<^const>\<open>UnexpectedEOF\<close>, and a read of no bytes succeeds.
\<close>

definition read_full :: "nat \<Rightarrow> byte list \<Rightarrow> io_error + byte list \<times> byte list" where
  "read_full n bs =
     (if n = 0 then Inr ([], bs)
      else if bs = [] then Inl EOF
      else if length bs < n then Inl UnexpectedEOF
      else Inr (take n bs, drop n bs))"

definition read_u8 :: "byte list \<Rightarrow> io_error + byte \<times> byte list" where
  "read_u8 bs = res_bind (read_full 1 bs) (\<lambda>(p, r). Inr (p ! 0, r))"

definition read_be16 :: "byte list \<Rightarrow> io_error + u16 \<times> byte list" where
  "read_be16 bs = res_bind (read_full 2 bs) (\<lambda>(p, r). Inr (be16_at p 0, r))"

definition read_le16 :: "byte list \<Rightarrow> io_error + u16 \<times> byte list" where
  "read_le16 bs = res_bind (read_full 2 bs) (\<lambda>(p, r). Inr (le16_at p 0, r))"

definition read_le32 :: "byte list \<Rightarrow> io_error + u32 \<times> byte list" where
  "read_le32 bs = res_bind (read_full 4 bs) (\<lambda>(p, r). Inr (le32_at p 0, r))"

text \<open>
  \<^verbatim>\<open>Read\<close> of a \<^verbatim>\<open>bytes.Reader\<close> into a buffer of \<^term>\<open>n\<close> zero bytes: at the end of the
  input it fails even for an empty buffer, and a short input fills only a prefix
  of the buffer without an error.
\<close>

definition read_some :: "nat \<Rightarrow> byte list \<Rightarrow> io_error + byte list \<times> byte list" where
  "read_some n bs =
     (if bs = [] then Inl EOF
      else Inr (take n bs @ replicate (n - length bs) 0, drop n bs))"

section \<open>Bit packing\<close>

text \<open>The bits of a byte sequence, least significant bit of the first byte first.\<close>

definition bit_at :: "byte list \<Rightarrow> nat \<Rightarrow> bool" where
  "bit_at bs i = bit (bs ! (i div 8)) (i mod 8)"

text \<open>\<^verbatim>\<open>int(math.Ceil(float64(n) / 8.0))\<close>: exact for the small counts it is used on.\<close>

definition bytes_for_bits :: "nat \<Rightarrow> nat" where
  "bytes_for_bits n = (n + 7) div 8"

text \<open>
  The packing loop of the sources: bit \<^term>\<open>i\<close> is or-ed into byte \<^term>\<open>i div 8\<close> behind a
  header of \<^term>\<open>off\<close> bytes; \<^const>\<open>None\<close> is Go's index-out-of-range panic.
\<close>

fun or_bits :: "nat \<Rightarrow> byte list \<Rightarrow> nat \<Rightarrow> bool list \<Rightarrow> byte list option" where
  "or_bits off data i [] = Some data"
| "or_bits off data i (v # vs) =
     (if v then
        (if off + i div 8 < length data
         then or_bits off (data[off + i div 8 := (data ! (off + i div 8)) OR push_bit (i mod 8) 1])
                (Suc i) vs
         else None)
      else or_bits off data (Suc i) vs)"

text \<open>The reference definition: byte \<^term>\<open>j\<close> holds the values \<^term>\<open>8 * j\<close> to \<^term>\<open>8 * j + 7\<close>.\<close>

definition pack_byte :: "bool list \<Rightarrow> nat \<Rightarrow> byte" where
  "pack_byte vs j =
     horner_sum of_bool 2 (map (\<lambda>k. 8 * j + k < length vs \<and> vs ! (8 * j + k)) [0..<8])"

definition pack_bits :: "bool list \<Rightarrow> byte list" where
  "pack_bits vs = map (pack_byte vs) [0..<bytes_for_bits (length vs)]"

text \<open>The unpacking loop: \<^term>\<open>n\<close> values from the bytes behind a header of \<^term>\<open>off\<close> bytes.\<close>

definition unpack_bits :: "nat \<Rightarrow> byte list \<Rightarrow> nat \<Rightarrow> bool list" where
  "unpack_bits off data n =
     map (\<lambda>i. (drop_bit (i mod 8) (data ! (off + i div 8))) AND 1 = 1) [0..<n]"

section \<open>Lemmas: results and codecs\<close>

declare res_bind.simps [res_simps]

lemma res_bind_Inr_iff [res_simps]:
  "res_bind r f = Inr y \<longleftrightarrow> (\<exists>x. r = Inr x \<and> f x = Inr y)"
  by (cases r) auto

lemma guard_res_Inr [res_simps]: "guard_res b e = Inr u \<longleftrightarrow> b"
  by (auto simp: guard_res_def)

lemma guard_res_simps [simp]:
  "b \<Longrightarrow> guard_res b e = Inr ()" "\<not> b \<Longrightarrow> guard_res b e = Inl e"
  by (auto simp: guard_res_def)

lemma unat_word_of_nat: "n < 2 ^ LENGTH('a) \<Longrightarrow> unat (word_of_nat n :: 'a::len word) = n"
  by (simp add: unat_of_nat)

lemma length_codecs [simp]:
  "length (be16 w) = 2" "length (le16 w) = 2" "length (le32 v) = 4"
  by (simp_all add: be16_def le16_def le32_def)

lemma get_be16_be16 [codec_simps]:
  "get_be16 (ucast (drop_bit 8 w)) (ucast w) = w"
  by (rule bit_word_eqI) (auto simp: get_be16_def bit_simps)

lemma get_le16_le16 [codec_simps]:
  "get_le16 (ucast w) (ucast (drop_bit 8 w)) = w"
  by (rule bit_word_eqI) (auto simp: get_le16_def bit_simps)

lemma get_le32_le32 [codec_simps]:
  "get_le32 (ucast w) (ucast (drop_bit 8 w)) (ucast (drop_bit 16 w)) (ucast (drop_bit 24 w)) = w"
proof (rule bit_word_eqI)
  fix n :: nat
  assume "n < LENGTH(32)"
  then consider "n < 8" | "8 \<le> n \<and> n < 16" | "16 \<le> n \<and> n < 24" | "24 \<le> n \<and> n < 32"
    by force
  then show "bit (get_le32 (ucast w) (ucast (drop_bit 8 w)) (ucast (drop_bit 16 w))
               (ucast (drop_bit 24 w))) n \<longleftrightarrow> bit w n"
    by cases (auto simp: get_le32_def bit_simps)
qed

lemma not_bit_byte [simp]: "8 \<le> n \<Longrightarrow> \<not> bit (b :: byte) n"
  using bit_imp_le_length [of b n] by auto

lemma be16_get_be16 [codec_simps]: "be16 (get_be16 hi lo) = [hi, lo]"
  by (auto simp: be16_def get_be16_def bit_simps intro!: bit_word_eqI)

lemma le16_get_le16 [codec_simps]: "le16 (get_le16 lo hi) = [lo, hi]"
  by (auto simp: le16_def get_le16_def bit_simps intro!: bit_word_eqI)

lemma le32_get_le32 [codec_simps]: "le32 (get_le32 b0 b1 b2 b3) = [b0, b1, b2, b3]"
  by (auto simp: le32_def get_le32_def bit_simps intro!: bit_word_eqI)

text \<open>Decoding at an offset, past a prefix whose length is known.\<close>

lemma be16_at_append [codec_simps]:
  "length xs = off \<Longrightarrow> be16_at (xs @ be16 w @ ys) off = w"
  by (simp add: be16_at_def be16_def nth_append get_be16_be16)

lemma le16_at_append [codec_simps]:
  "length xs = off \<Longrightarrow> le16_at (xs @ le16 w @ ys) off = w"
  by (simp add: le16_at_def le16_def nth_append get_le16_le16)

lemma le32_at_append [codec_simps]:
  "length xs = off \<Longrightarrow> le32_at (xs @ le32 w @ ys) off = w"
  by (simp add: le32_at_def le32_def nth_append get_le32_le32)

lemma length_be16s [simp]: "length (be16s ws) = 2 * length ws"
  by (induction ws) (simp_all add: be16s_def)

lemma be16s_Nil [simp]: "be16s [] = []"
  by (simp add: be16s_def)

lemma be16s_Cons [simp]: "be16s (w # ws) = be16 w @ be16s ws"
  by (simp add: be16s_def)

lemma be16s_append [simp]: "be16s (xs @ ys) = be16s xs @ be16s ys"
  by (simp add: be16s_def)

lemma be16_at_be16s [codec_simps]:
  assumes "length xs = off" "i < length ws"
  shows "be16_at (xs @ be16s ws @ ys) (off + 2 * i) = ws ! i"
proof -
  have "ws = take i ws @ ws ! i # drop (Suc i) ws"
    using assms by (simp add: id_take_nth_drop)
  then have "xs @ be16s ws @ ys =
      (xs @ be16s (take i ws)) @ be16 (ws ! i) @ (be16s (drop (Suc i) ws) @ ys)"
    by (metis append.assoc be16s_Cons be16s_append)
  with assms show ?thesis
    using be16_at_append [of "xs @ be16s (take i ws)" "off + 2 * i"] by simp
qed

lemma map_be16_at_be16s [codec_simps]:
  assumes "length xs = off" "n = length ws"
  shows "map (\<lambda>i. be16_at (xs @ be16s ws @ ys) (off + 2 * i)) [0..<n] = ws"
  using assms by (intro nth_equalityI) (simp_all add: be16_at_be16s)

section \<open>Lemmas: bit packing\<close>

lemma bit_pack_byte [simp]:
  "bit (pack_byte vs j) k \<longleftrightarrow> k < 8 \<and> 8 * j + k < length vs \<and> vs ! (8 * j + k)"
  by (auto simp: pack_byte_def bit_horner_sum_bit_word_iff)

lemma length_pack_bits [simp]: "length (pack_bits vs) = bytes_for_bits (length vs)"
  by (simp add: pack_bits_def)

lemma bytes_for_bits_less [simp]: "j < n \<Longrightarrow> j div 8 < bytes_for_bits n"
  by (auto simp: bytes_for_bits_def)

lemma bytes_for_bits_mono: "m \<le> n \<Longrightarrow> bytes_for_bits m \<le> bytes_for_bits n"
  by (auto simp: bytes_for_bits_def intro: div_le_mono)

lemma bytes_for_bits_0 [simp]: "bytes_for_bits 0 = 0"
  by (simp add: bytes_for_bits_def)

lemma unat_count_byte:
  "n < 256 \<Longrightarrow> unat (word_of_nat n :: byte) = n"
  by (simp add: unat_word_of_nat)

lemma or_bits_spec:
  assumes "off + bytes_for_bits (i + length vs) \<le> length data"
  shows "\<exists>data'. or_bits off data i vs = Some data' \<and> length data' = length data \<and>
    (\<forall>m < length data. \<forall>k < 8. bit (data' ! m) k \<longleftrightarrow> bit (data ! m) k \<or>
       (off \<le> m \<and> i \<le> 8 * (m - off) + k \<and> 8 * (m - off) + k < i + length vs \<and>
        vs ! (8 * (m - off) + k - i)))"
  using assms
proof (induction vs arbitrary: i data)
  case Nil
  then show ?case by auto
next
  case (Cons v vs)
  define d1 where "d1 = (if v then data[off + i div 8 := (data ! (off + i div 8)) OR push_bit (i mod 8) 1]
    else data)"
  have i: "i div 8 < bytes_for_bits (i + length (v # vs))" by simp
  then have len: "off + i div 8 < length data" using Cons.prems by linarith
  have eq: "or_bits off data i (v # vs) = or_bits off d1 (Suc i) vs"
    using len by (simp add: d1_def)
  have "off + bytes_for_bits (Suc i + length vs) \<le> length d1"
    using Cons.prems by (simp add: d1_def)
  from Cons.IH [OF this] obtain data' where d:
    "or_bits off d1 (Suc i) vs = Some data'" "length data' = length d1"
    "\<And>m k. m < length d1 \<Longrightarrow> k < 8 \<Longrightarrow> bit (data' ! m) k \<longleftrightarrow> bit (d1 ! m) k \<or>
       (off \<le> m \<and> Suc i \<le> 8 * (m - off) + k \<and> 8 * (m - off) + k < Suc i + length vs \<and>
        vs ! (8 * (m - off) + k - Suc i))"
    by blast
  have pos: "off \<le> m \<and> i = 8 * (m - off) + k \<longleftrightarrow> m = off + i div 8 \<and> k = i mod 8"
    if "k < 8" for m k
    using that by auto
  have one: "bit (d1 ! m) k \<longleftrightarrow> bit (data ! m) k \<or> (off \<le> m \<and> i = 8 * (m - off) + k \<and> v)"
    if "m < length data" "k < 8" for m k
    using that len pos [of k m] by (simp add: d1_def nth_list_update bit_simps)
  have "bit (data' ! m) k \<longleftrightarrow> bit (data ! m) k \<or>
       (off \<le> m \<and> i \<le> 8 * (m - off) + k \<and> 8 * (m - off) + k < i + length (v # vs) \<and>
        (v # vs) ! (8 * (m - off) + k - i))" if "m < length data" "k < 8" for m k
  proof -
    define p where "p = 8 * (m - off) + k"
    have "length d1 = length data" by (simp add: d1_def)
    with d(3) [of m k] one [OF that] that show ?thesis
      unfolding p_def [symmetric] by (cases "i = p") (auto simp: nth_Cons')
  qed
  then show ?case
    using d(1,2) eq by (auto simp: d1_def)
qed

lemma or_bits_pack:
  assumes "length hdr = off" "n = bytes_for_bits (length vs)"
  shows "or_bits off (hdr @ replicate n 0) 0 vs = Some (hdr @ pack_bits vs)"
proof -
  have "off + bytes_for_bits (0 + length vs) \<le> length (hdr @ replicate n 0)"
    using assms by simp
  from or_bits_spec [OF this] obtain d where d: "or_bits off (hdr @ replicate n 0) 0 vs = Some d"
    "length d = length (hdr @ replicate n 0)"
    "\<And>m k. m < off + n \<Longrightarrow> k < 8 \<Longrightarrow> bit (d ! m) k \<longleftrightarrow> bit ((hdr @ replicate n 0) ! m) k \<or>
       (off \<le> m \<and> 8 * (m - off) + k < length vs \<and> vs ! (8 * (m - off) + k))"
    using assms by auto
  have "d ! m = (hdr @ pack_bits vs) ! m" if "m < off + n" for m
  proof (rule bit_word_eqI)
    fix k assume "k < LENGTH(8)"
    then have "k < 8" by simp
    then show "bit (d ! m) k = bit ((hdr @ pack_bits vs) ! m) k"
      using d(3) [OF that] that assms
      by (auto simp: nth_append pack_bits_def)
  qed
  then have "d = hdr @ pack_bits vs"
    using d(2) assms by (intro nth_equalityI) auto
  with d(1) show ?thesis by simp
qed

lemma unpack_pack:
  assumes "length hdr = off" "n = length vs"
  shows "unpack_bits off (hdr @ pack_bits vs) n = vs"
proof (rule nth_equalityI)
  show "length (unpack_bits off (hdr @ pack_bits vs) n) = length vs"
    using assms by (simp add: unpack_bits_def)
next
  fix i assume "i < length (unpack_bits off (hdr @ pack_bits vs) n)"
  then have i: "i < length vs" using assms by (simp add: unpack_bits_def)
  then have "(hdr @ pack_bits vs) ! (off + i div 8) = pack_byte vs (i div 8)"
    using assms by (simp add: pack_bits_def nth_append)
  then show "unpack_bits off (hdr @ pack_bits vs) n ! i = vs ! i"
    using i assms by (simp add: unpack_bits_def and_one_eq mod_2_eq_odd bit_iff_odd_drop_bit [symmetric])
qed

section \<open>Lemmas: readers\<close>

lemma read_full_append [simp]:
  "length xs = n \<Longrightarrow> read_full n (xs @ ys) = Inr (xs, ys)"
  by (auto simp: read_full_def)

lemma read_full_exact [simp]: "length xs = n \<Longrightarrow> read_full n xs = Inr (xs, [])"
  using read_full_append [of xs n "[]"] by simp

lemma read_full_short: "length xs < n \<Longrightarrow> \<exists>e. read_full n xs = Inl e"
  by (auto simp: read_full_def)

lemma read_full_InrD [dest]:
  "read_full n bs = Inr (p, r) \<Longrightarrow> bs = p @ r \<and> length p = n"
  by (auto simp: read_full_def split: if_splits)

lemma read_u8_Cons [simp]: "read_u8 (b # bs) = Inr (b, bs)"
  by (simp add: read_u8_def read_full_def)

lemma read_be16_append [simp]: "read_be16 (be16 w @ bs) = Inr (w, bs)"
  using be16_at_append [of "[]" 0 w "[]"] by (simp add: read_be16_def)

lemma read_le16_append [simp]: "read_le16 (le16 w @ bs) = Inr (w, bs)"
  using le16_at_append [of "[]" 0 w "[]"] by (simp add: read_le16_def)

lemma read_le32_append [simp]: "read_le32 (le32 w @ bs) = Inr (w, bs)"
  using le32_at_append [of "[]" 0 w "[]"] by (simp add: read_le32_def)

lemma read_some_append [simp]:
  "length xs = n \<Longrightarrow> xs @ ys \<noteq> [] \<Longrightarrow> read_some n (xs @ ys) = Inr (xs, ys)"
  by (auto simp: read_some_def)

text \<open>Conversely, a read that succeeds has taken an encoding off the input.\<close>

lemma read_full_nths:
  "read_full 1 bs = Inr (p, r) \<Longrightarrow> bs = p ! 0 # r"
  "read_full 2 bs = Inr (p, r) \<Longrightarrow> bs = p ! 0 # p ! 1 # r"
  "read_full 4 bs = Inr (p, r) \<Longrightarrow> bs = p ! 0 # p ! 1 # p ! 2 # p ! 3 # r"
  by (drule read_full_InrD, auto simp: numeral_eq_Suc length_Suc_conv)+

lemma read_u8_InrD: "read_u8 bs = Inr (b, r) \<Longrightarrow> bs = b # r"
  by (auto simp: read_u8_def res_simps simp del: One_nat_def dest: read_full_nths(1))

lemma read_be16_InrD: "read_be16 bs = Inr (w, r) \<Longrightarrow> bs = be16 w @ r"
  by (auto simp: read_be16_def be16_at_def be16_get_be16 res_simps simp del: One_nat_def
      dest: read_full_nths(2))

lemma read_le16_InrD: "read_le16 bs = Inr (w, r) \<Longrightarrow> bs = le16 w @ r"
  by (auto simp: read_le16_def le16_at_def le16_get_le16 res_simps simp del: One_nat_def
      dest: read_full_nths(2))

lemma read_le32_InrD: "read_le32 bs = Inr (w, r) \<Longrightarrow> bs = le32 w @ r"
  by (auto simp: read_le32_def le32_at_def le32_get_le32 res_simps
      simp del: One_nat_def add_2_eq_Suc' dest: read_full_nths(3))

end
