(* ===== verification/Modbus_Types.thy ===== *)
theory Modbus_Types
  imports Prelude
begin

text \<open>
  \<^verbatim>\<open>src/protocol/modbus/types.go\<close>, \<^verbatim>\<open>errors.go\<close>, \<^verbatim>\<open>pdu.go\<close> and \<^verbatim>\<open>mbap.go\<close>: the scalar types,
  the function and exception codes, the specification limits, the errors the
  package returns as one datatype, and the MBAP header with its codec.
\<close>

unbundle bit_operations_syntax

section \<open>Scalar types and constants\<close>

type_synonym TransactionID = u16
type_synonym ProtocolID = u16
type_synonym UnitID = byte
type_synonym ExceptionCode = byte
type_synonym FunctionCode = byte
type_synonym Address = u16
type_synonym Quantity = u16
type_synonym RegisterValue = u16

abbreviation (input) FuncReadCoils :: FunctionCode where "FuncReadCoils \<equiv> 0x01"
abbreviation (input) FuncReadDiscreteInputs :: FunctionCode where "FuncReadDiscreteInputs \<equiv> 0x02"
abbreviation (input) FuncReadHoldingRegisters :: FunctionCode where "FuncReadHoldingRegisters \<equiv> 0x03"
abbreviation (input) FuncReadInputRegisters :: FunctionCode where "FuncReadInputRegisters \<equiv> 0x04"
abbreviation (input) FuncWriteSingleCoil :: FunctionCode where "FuncWriteSingleCoil \<equiv> 0x05"
abbreviation (input) FuncWriteSingleRegister :: FunctionCode where "FuncWriteSingleRegister \<equiv> 0x06"
abbreviation (input) FuncReadExceptionStatus :: FunctionCode where "FuncReadExceptionStatus \<equiv> 0x07"
abbreviation (input) FuncWriteMultipleCoils :: FunctionCode where "FuncWriteMultipleCoils \<equiv> 0x0F"
abbreviation (input) FuncWriteMultipleRegisters :: FunctionCode where "FuncWriteMultipleRegisters \<equiv> 0x10"
abbreviation (input) FuncReadWriteMultipleRegisters :: FunctionCode
  where "FuncReadWriteMultipleRegisters \<equiv> 0x17"
abbreviation (input) FuncReadDeviceIdentification :: FunctionCode
  where "FuncReadDeviceIdentification \<equiv> 0x2B"

abbreviation (input) ExceptionFunctionCodeNotSupported :: ExceptionCode
  where "ExceptionFunctionCodeNotSupported \<equiv> 0x01"
abbreviation (input) ExceptionDataAddressNotAvailable :: ExceptionCode
  where "ExceptionDataAddressNotAvailable \<equiv> 0x02"
abbreviation (input) ExceptionInvalidDataValue :: ExceptionCode where "ExceptionInvalidDataValue \<equiv> 0x03"
abbreviation (input) ExceptionServerDeviceFailure :: ExceptionCode
  where "ExceptionServerDeviceFailure \<equiv> 0x04"

abbreviation (input) MEIReadDeviceID :: byte where "MEIReadDeviceID \<equiv> 0x0E"
abbreviation (input) ReadDeviceIDBasicStream :: byte where "ReadDeviceIDBasicStream \<equiv> 0x01"
abbreviation (input) ReadDeviceIDRegularStream :: byte where "ReadDeviceIDRegularStream \<equiv> 0x02"
abbreviation (input) ReadDeviceIDExtendedStream :: byte where "ReadDeviceIDExtendedStream \<equiv> 0x03"
abbreviation (input) ReadDeviceIDSpecificObject :: byte where "ReadDeviceIDSpecificObject \<equiv> 0x04"
abbreviation (input) ConformityLevelBasic :: byte where "ConformityLevelBasic \<equiv> 0x01"
abbreviation (input) MoreFollowsNo :: byte where "MoreFollowsNo \<equiv> 0x00"

abbreviation (input) TCPHeaderLength :: nat where "TCPHeaderLength \<equiv> 7"
abbreviation (input) MaxPDULength :: nat where "MaxPDULength \<equiv> 253"
abbreviation (input) MaxADULength :: nat where "MaxADULength \<equiv> 260"
abbreviation (input) MaxCoilCount :: nat where "MaxCoilCount \<equiv> 2000"
abbreviation (input) MaxWriteCoilCount :: nat where "MaxWriteCoilCount \<equiv> 1968"
abbreviation (input) MaxRegisterCount :: nat where "MaxRegisterCount \<equiv> 125"
abbreviation (input) MaxWriteRegisterCount :: nat where "MaxWriteRegisterCount \<equiv> 123"
abbreviation (input) MaxReadWriteReadCount :: nat where "MaxReadWriteReadCount \<equiv> 125"
abbreviation (input) MaxReadWriteWriteCount :: nat where "MaxReadWriteWriteCount \<equiv> 121"
abbreviation (input) CoilOnU16 :: u16 where "CoilOnU16 \<equiv> 0xFF00"
abbreviation (input) CoilOffU16 :: u16 where "CoilOffU16 \<equiv> 0x0000"
abbreviation (input) TCPProtocolIdentifier :: ProtocolID where "TCPProtocolIdentifier \<equiv> 0"
abbreviation (input) ExceptionBit :: byte where "ExceptionBit \<equiv> 0x80"

definition IsException :: "byte \<Rightarrow> bool" where
  "IsException functionCode \<longleftrightarrow> functionCode AND ExceptionBit \<noteq> 0"

definition GetOriginalFunctionCode :: "byte \<Rightarrow> byte" where
  "GetOriginalFunctionCode exceptionCode = exceptionCode AND NOT ExceptionBit"

section \<open>Errors\<close>

text \<open>
  The sentinel errors of \<^verbatim>\<open>errors.go\<close>, the protocol exception \<^verbatim>\<open>ModbusError\<close>, the errors
  of the \<^verbatim>\<open>io\<close> package, errors made by \<^verbatim>\<open>fmt.Errorf\<close> (by their message without the
  formatted arguments; \<^verbatim>\<open>%w\<close> keeps the wrapped error, possibly nil), and a run-time panic, which ends the goroutine instead of returning.
\<close>

datatype merr =
    ErrNotConnected
  | ErrAlreadyConnected
  | ErrInvalidQuantity
  | ErrInvalidRequestLength
  | ErrInvalidResponseLength
  | ErrInvalidValue
  | ErrInvalidResponseFormat
  | ErrTimeout
  | ErrContextCanceled
  | ErrInvalidProtocolHeader
  | ErrEmptyResponse
  | ErrTransactionTimeout
  | ErrTransportClosing
  | ErrNoResponse
  | ModbusError FunctionCode ExceptionCode
  | IOError io_error
  | Errorf string
  | Wrap string "merr option"
  | GoPanic

fun IsModbusError :: "merr \<Rightarrow> bool" where
  "IsModbusError (ModbusError fc ec) = True"
| "IsModbusError _ = False"

fun IsExceptionError :: "merr \<Rightarrow> ExceptionCode \<Rightarrow> bool" where
  "IsExceptionError (ModbusError fc ec) exceptionCode = (ec = exceptionCode)"
| "IsExceptionError _ exceptionCode = False"

definition IsFunctionNotSupportedError :: "merr \<Rightarrow> bool" where
  "IsFunctionNotSupportedError err = IsExceptionError err ExceptionFunctionCodeNotSupported"

text \<open>An operation of the \<^verbatim>\<open>io\<close> package whose error is returned as it is.\<close>

fun io_res :: "io_error + 'a \<Rightarrow> merr + 'a" where
  "io_res (Inl e) = Inl (IOError e)"
| "io_res (Inr x) = Inr x"

section \<open>The protocol data unit and the MBAP header\<close>

record PDU =
  FunctionCode :: FunctionCode
  Data :: "byte list"

record MBAP =
  TransactionID :: TransactionID
  ProtocolID :: ProtocolID
  UnitID :: UnitID

text \<open>
  \<^verbatim>\<open>MBAP.Encode\<close>: the length field is \<^verbatim>\<open>uint16(1 + pduLength)\<close>, which wraps.
  Writing to a \<^verbatim>\<open>bytes.Buffer\<close> does not fail.
\<close>

definition MBAP_Encode :: "MBAP \<Rightarrow> nat \<Rightarrow> byte list" where
  "MBAP_Encode m pduLength =
     be16 (TransactionID m) @ be16 (ProtocolID m) @ be16 (word_of_nat (1 + pduLength)) @ [UnitID m]"

definition MBAP_Decode :: "byte list \<Rightarrow> io_error + (MBAP \<times> u16) \<times> byte list" where
  "MBAP_Decode buf =
     res_bind (read_be16 buf) (\<lambda>(tid, buf).
     res_bind (read_be16 buf) (\<lambda>(pid, buf).
     res_bind (read_be16 buf) (\<lambda>(length, buf).
     res_bind (read_u8 buf) (\<lambda>(uid, buf).
       Inr ((\<lparr>TransactionID = tid, ProtocolID = pid, UnitID = uid\<rparr>, length), buf)))))"

section \<open>Lemmas\<close>

lemma length_MBAP_Encode [simp]: "length (MBAP_Encode m n) = TCPHeaderLength"
  by (simp add: MBAP_Encode_def)

lemma MBAP_Decode_Encode [simp]:
  "MBAP_Decode (MBAP_Encode m n @ rest) = Inr ((m, word_of_nat (1 + n)), rest)"
  by (simp add: MBAP_Decode_def MBAP_Encode_def)

lemma MBAP_Decode_short:
  assumes "length buf < TCPHeaderLength"
  shows "\<exists>e. MBAP_Decode buf = Inl e"
proof (rule ccontr)
  assume "\<not> ?thesis"
  then obtain r where "MBAP_Decode buf = Inr r"
    by (cases "MBAP_Decode buf") auto
  then have "TCPHeaderLength \<le> length buf"
    by (auto simp: MBAP_Decode_def res_simps dest!: read_be16_InrD read_u8_InrD)
  with assms show False by simp
qed

text \<open>The exception bit: set by the server, recognised and cleared by the client.\<close>

lemma IsException_iff: "IsException fc \<longleftrightarrow> bit fc 7"
  using and_exp_eq_0_iff_not_bit [of fc 7] by (simp add: IsException_def)

lemma IsException_set [simp]: "IsException (fc OR ExceptionBit)"
  by (simp add: IsException_iff bit_simps)

lemma GetOriginalFunctionCode_set:
  assumes "\<not> IsException fc"
  shows "GetOriginalFunctionCode (fc OR ExceptionBit) = fc"
proof (rule bit_word_eqI)
  fix n :: nat
  have "n = 7" if "bit (0x80 :: byte) n"
    using that bit_exp_iff [of 7 n, where ?'a = byte] by simp
  then show "bit (GetOriginalFunctionCode (fc OR ExceptionBit)) n \<longleftrightarrow> bit fc n" if "n < LENGTH(8)"
    using assms that by (auto simp: GetOriginalFunctionCode_def IsException_iff bit_simps)
qed

end
