(* ===== verification/Modbus_Frame.thy ===== *)
theory Modbus_Frame
  imports Modbus_Types
begin

text \<open>
  \<^verbatim>\<open>src/protocol/modbus/request.go\<close> and \<^verbatim>\<open>response.go\<close>: the Modbus TCP frame (MBAP header
  and PDU), its encoder and decoder, and the exception view of a response.  The
  creation time of a request only feeds \<^verbatim>\<open>GetLifetime\<close> and is left out.
\<close>

unbundle bit_operations_syntax

section \<open>Requests\<close>

record Request =
  Request_MBAP :: MBAP
  Request_PDU :: PDU

definition NewRequest :: "UnitID \<Rightarrow> FunctionCode \<Rightarrow> byte list \<Rightarrow> Request" where
  "NewRequest unitID functionCode data =
     \<lparr>Request_MBAP = \<lparr>TransactionID = 0, ProtocolID = TCPProtocolIdentifier, UnitID = unitID\<rparr>,
      Request_PDU = \<lparr>FunctionCode = functionCode, Data = data\<rparr>\<rparr>"

definition Request_GetTransactionID :: "Request \<Rightarrow> TransactionID" where
  "Request_GetTransactionID r = TransactionID (Request_MBAP r)"

definition SetTransactionID :: "TransactionID \<Rightarrow> Request \<Rightarrow> Request" where
  "SetTransactionID tid r = r\<lparr>Request_MBAP := (Request_MBAP r)\<lparr>TransactionID := tid\<rparr>\<rparr>"

definition Request_GetUnitID :: "Request \<Rightarrow> UnitID" where
  "Request_GetUnitID r = UnitID (Request_MBAP r)"

definition Request_Encode :: "Request \<Rightarrow> byte list" where
  "Request_Encode r =
     MBAP_Encode (Request_MBAP r) (1 + length (Data (Request_PDU r))) @
     [FunctionCode (Request_PDU r)] @ Data (Request_PDU r)"

definition Request_Decode :: "byte list \<Rightarrow> merr + Request" where
  "Request_Decode data =
     (if length data < TCPHeaderLength then Inl ErrInvalidResponseLength
      else
        res_bind (io_res (MBAP_Decode data)) (\<lambda>((mbap, len), buf).
        res_bind (io_res (read_u8 buf)) (\<lambda>(functionCode, buf).
          if len < 2 then Inl ErrInvalidRequestLength
          else
            res_bind (io_res (read_full (unat (len - 2)) buf)) (\<lambda>(pduData, buf).
              Inr \<lparr>Request_MBAP = mbap,
                   Request_PDU = \<lparr>FunctionCode = functionCode, Data = pduData\<rparr>\<rparr>))))"

section \<open>Responses\<close>

record Response =
  Response_MBAP :: MBAP
  Response_PDU :: PDU

definition NewResponse :: "TransactionID \<Rightarrow> UnitID \<Rightarrow> FunctionCode \<Rightarrow> byte list \<Rightarrow> Response" where
  "NewResponse transactionID unitID functionCode data =
     \<lparr>Response_MBAP = \<lparr>TransactionID = transactionID, ProtocolID = TCPProtocolIdentifier,
                       UnitID = unitID\<rparr>,
      Response_PDU = \<lparr>FunctionCode = functionCode, Data = data\<rparr>\<rparr>"

definition Response_GetTransactionID :: "Response \<Rightarrow> TransactionID" where
  "Response_GetTransactionID r = TransactionID (Response_MBAP r)"

definition Response_Encode :: "Response \<Rightarrow> byte list" where
  "Response_Encode r =
     MBAP_Encode (Response_MBAP r) (1 + length (Data (Response_PDU r))) @
     [FunctionCode (Response_PDU r)] @ Data (Response_PDU r)"

definition Response_Decode :: "byte list \<Rightarrow> merr + Response" where
  "Response_Decode data =
     (if length data < TCPHeaderLength then Inl ErrInvalidResponseLength
      else
        res_bind (io_res (MBAP_Decode data)) (\<lambda>((mbap, len), buf).
        res_bind (io_res (read_u8 buf)) (\<lambda>(functionCode, buf).
          if unat len < 2 then Inl ErrInvalidResponseLength
          else
            res_bind (io_res (read_full (unat len - 2) buf)) (\<lambda>(pduData, buf).
              Inr \<lparr>Response_MBAP = mbap,
                   Response_PDU = \<lparr>FunctionCode = functionCode, Data = pduData\<rparr>\<rparr>))))"

definition Response_IsException :: "Response \<Rightarrow> bool" where
  "Response_IsException r = IsException (FunctionCode (Response_PDU r))"

definition GetException :: "Response \<Rightarrow> ExceptionCode" where
  "GetException r =
     (if Response_IsException r \<and> length (Data (Response_PDU r)) > 0
      then Data (Response_PDU r) ! 0 else 0)"

definition ToError :: "Response \<Rightarrow> merr option" where
  "ToError r =
     (if Response_IsException r
      then Some (ModbusError (FunctionCode (Response_PDU r)) (GetException r)) else None)"

section \<open>Lemmas\<close>

lemma io_res_Inr_iff [res_simps]: "io_res r = Inr x \<longleftrightarrow> r = Inr x"
  by (cases r) auto

lemma length_Request_Encode [simp]:
  "length (Request_Encode r) = TCPHeaderLength + 1 + length (Data (Request_PDU r))"
  by (simp add: Request_Encode_def)

lemma length_Response_Encode [simp]:
  "length (Response_Encode r) = TCPHeaderLength + 1 + length (Data (Response_PDU r))"
  by (simp add: Response_Encode_def)

lemma unat_len_field:
  assumes "length d + 2 < 2 ^ 16"
  shows "unat (word_of_nat (1 + (1 + length d)) :: u16) = length d + 2"
  using assms by (simp add: unat_word_of_nat del: of_nat_add of_nat_Suc)

lemma len_field_ok:
  assumes "length d + 2 < 2 ^ 16"
  shows "\<not> (word_of_nat (1 + (1 + length d)) :: u16) < 2"
    "unat ((word_of_nat (1 + (1 + length d)) :: u16) - 2) = length d"
proof -
  let ?l = "word_of_nat (1 + (1 + length d)) :: u16"
  have l: "unat ?l = length d + 2"
    using assms by (rule unat_len_field)
  then show n: "\<not> ?l < 2"
    by (simp add: word_less_nat_alt)
  then show "unat (?l - 2) = length d"
    using l by (subst unat_sub) (auto simp: word_le_nat_alt)
qed

text \<open>Decoding inverts encoding, whatever follows the frame in the buffer.\<close>

lemma Request_Decode_Encode:
  assumes "length (Data (Request_PDU r)) + 2 < 2 ^ 16"
  shows "Request_Decode (Request_Encode r @ rest) = Inr r"
  using len_field_ok [OF assms]
  by (simp add: Request_Decode_def Request_Encode_def del: of_nat_add of_nat_Suc)

lemma Response_Decode_Encode:
  assumes "length (Data (Response_PDU r)) + 2 < 2 ^ 16"
  shows "Response_Decode (Response_Encode r @ rest) = Inr r"
  using unat_len_field [OF assms]
  by (simp add: Response_Decode_def Response_Encode_def del: of_nat_add of_nat_Suc)

lemma MBAP_Decode_exact [simp]:
  "MBAP_Decode (MBAP_Encode m n) = Inr ((m, word_of_nat (1 + n)), [])"
  using MBAP_Decode_Encode [of m n "[]"] by simp

lemma Request_Decode_truncated:
  assumes "length (Data (Request_PDU r)) + 2 < 2 ^ 16" "n < length (Request_Encode r)"
  shows "\<exists>e. Request_Decode (take n (Request_Encode r)) = Inl e"
proof (cases "n < TCPHeaderLength")
  case True
  then show ?thesis using assms by (simp add: Request_Decode_def)
next
  case False
  then have t: "take n (Request_Encode r) =
      MBAP_Encode (Request_MBAP r) (1 + length (Data (Request_PDU r))) @
      take (n - TCPHeaderLength) (FunctionCode (Request_PDU r) # Data (Request_PDU r))"
    by (simp add: Request_Encode_def)
  show ?thesis
  proof (cases "n - TCPHeaderLength")
    case 0
    then show ?thesis
      unfolding t by (simp add: Request_Decode_def read_u8_def read_full_def)
  next
    case (Suc k)
    have "length (take k (Data (Request_PDU r))) < length (Data (Request_PDU r))"
      using assms(2) Suc by simp
    from read_full_short [OF this] obtain e
      where e: "read_full (length (Data (Request_PDU r))) (take k (Data (Request_PDU r))) = Inl e" ..
    then show ?thesis
      unfolding t Suc using len_field_ok [OF assms(1)]
      by (simp add: Request_Decode_def del: of_nat_add of_nat_Suc)
  qed
qed

lemma Response_Decode_truncated:
  assumes "length (Data (Response_PDU r)) + 2 < 2 ^ 16" "n < length (Response_Encode r)"
  shows "\<exists>e. Response_Decode (take n (Response_Encode r)) = Inl e"
proof (cases "n < TCPHeaderLength")
  case True
  then show ?thesis using assms by (simp add: Response_Decode_def)
next
  case False
  then have t: "take n (Response_Encode r) =
      MBAP_Encode (Response_MBAP r) (1 + length (Data (Response_PDU r))) @
      take (n - TCPHeaderLength) (FunctionCode (Response_PDU r) # Data (Response_PDU r))"
    by (simp add: Response_Encode_def)
  show ?thesis
  proof (cases "n - TCPHeaderLength")
    case 0
    then show ?thesis
      unfolding t by (simp add: Response_Decode_def read_u8_def read_full_def)
  next
    case (Suc k)
    have "length (take k (Data (Response_PDU r))) < length (Data (Response_PDU r))"
      using assms(2) Suc by simp
    from read_full_short [OF this] obtain e
      where e: "read_full (length (Data (Response_PDU r))) (take k (Data (Response_PDU r))) = Inl e" ..
    then show ?thesis
      unfolding t Suc using unat_len_field [OF assms(1)]
      by (simp add: Response_Decode_def del: of_nat_add of_nat_Suc)
  qed
qed

section \<open>Properties\<close>

text \<open>
  Framing.  Decoding a frame gives back the request, or the response, that was
  encoded, whatever follows it in the buffer, as long as the length field can hold
  the data; every strict prefix of the frame is an error.
\<close>

theorem modbus_frame_roundtrip:
  assumes "length (Data (Request_PDU q)) + 2 < 2 ^ 16" "length (Data (Response_PDU r)) + 2 < 2 ^ 16"
    "m < length (Request_Encode q)" "n < length (Response_Encode r)"
  shows "Request_Decode (Request_Encode q @ rest) = Inr q \<and>
    Response_Decode (Response_Encode r @ rest) = Inr r \<and>
    (\<exists>e. Request_Decode (take m (Request_Encode q)) = Inl e) \<and>
    (\<exists>e. Response_Decode (take n (Response_Encode r)) = Inl e)"
  using assms Request_Decode_Encode Response_Decode_Encode Request_Decode_truncated
    Response_Decode_truncated by blast

theorem modbus_frame_roundtrip_witness:
  "Request_Decode (Request_Encode (NewRequest 1 3 [0, 0, 0, 1]) @ [9]) = Inr (NewRequest 1 3 [0, 0, 0, 1]) \<and>
   Response_Decode (Response_Encode (NewResponse 5 1 3 [2, 0, 7]) @ [9]) =
     Inr (NewResponse 5 1 3 [2, 0, 7]) \<and>
   (\<exists>e. Request_Decode (take 11 (Request_Encode (NewRequest 1 3 [0, 0, 0, 1]))) = Inl e) \<and>
   (\<exists>e. Response_Decode (take 7 (Response_Encode (NewResponse 5 1 3 [2, 0, 7]))) = Inl e)"
  by (rule modbus_frame_roundtrip) (simp_all add: NewRequest_def NewResponse_def)

end
