(* ===== verification/Modbus_Protocol.thy ===== *)
theory Modbus_Protocol
  imports Modbus_Frame
begin

text \<open>
  \<^verbatim>\<open>src/protocol/modbus/protocol.go\<close> and \<^verbatim>\<open>device.go\<close>: the client side of every supported
  function code, which turns arguments into request data and response data into
  values.  The lemmas give the functional behaviour of each parser on what a
  conforming server sends and its error on everything else.  Logging is left out.
\<close>

unbundle bit_operations_syntax

section \<open>Shared helpers\<close>

definition generateReadRequest :: "Address \<Rightarrow> Quantity \<Rightarrow> nat \<Rightarrow> merr + byte list" where
  "generateReadRequest address quantity maxQuantity =
     (if quantity = 0 \<or> unat quantity > maxQuantity then Inl ErrInvalidQuantity
      else Inr (be16 address @ be16 quantity))"

definition parseBitResponse :: "byte list \<Rightarrow> Quantity \<Rightarrow> merr + bool list" where
  "parseBitResponse data quantity =
     (if length data = 0 then Inl ErrEmptyResponse
      else let byteCount = unat (data ! 0) in
        if length data \<noteq> byteCount + 1 then Inl ErrInvalidResponseLength
        else if byteCount \<noteq> bytes_for_bits (unat quantity) then Inl ErrInvalidResponseLength
        else Inr (unpack_bits 1 data (unat quantity)))"

definition parseRegisterResponse :: "byte list \<Rightarrow> Quantity \<Rightarrow> merr + u16 list" where
  "parseRegisterResponse data quantity =
     (if length data = 0 then Inl ErrEmptyResponse
      else let byteCount = unat (data ! 0) in
        if length data \<noteq> byteCount + 1 then Inl ErrInvalidResponseLength
        else if byteCount \<noteq> unat quantity * 2 then Inl ErrInvalidResponseLength
        else Inr (map (\<lambda>i. be16_at data (1 + 2 * i)) [0..<unat quantity]))"

section \<open>Function codes 0x01 to 0x04: reads\<close>

definition GenerateReadCoilsRequest :: "Address \<Rightarrow> Quantity \<Rightarrow> merr + byte list" where
  "GenerateReadCoilsRequest address quantity = generateReadRequest address quantity MaxCoilCount"

definition ParseReadCoilsResponse :: "byte list \<Rightarrow> Quantity \<Rightarrow> merr + bool list" where
  "ParseReadCoilsResponse data quantity = parseBitResponse data quantity"

definition GenerateReadDiscreteInputsRequest :: "Address \<Rightarrow> Quantity \<Rightarrow> merr + byte list" where
  "GenerateReadDiscreteInputsRequest address quantity =
     generateReadRequest address quantity MaxCoilCount"

definition ParseReadDiscreteInputsResponse :: "byte list \<Rightarrow> Quantity \<Rightarrow> merr + bool list" where
  "ParseReadDiscreteInputsResponse data quantity = parseBitResponse data quantity"

definition GenerateReadHoldingRegistersRequest :: "Address \<Rightarrow> Quantity \<Rightarrow> merr + byte list" where
  "GenerateReadHoldingRegistersRequest address quantity =
     generateReadRequest address quantity MaxRegisterCount"

definition ParseReadHoldingRegistersResponse :: "byte list \<Rightarrow> Quantity \<Rightarrow> merr + u16 list" where
  "ParseReadHoldingRegistersResponse data quantity = parseRegisterResponse data quantity"

definition GenerateReadInputRegistersRequest :: "Address \<Rightarrow> Quantity \<Rightarrow> merr + byte list" where
  "GenerateReadInputRegistersRequest address quantity =
     generateReadRequest address quantity MaxRegisterCount"

definition ParseReadInputRegistersResponse :: "byte list \<Rightarrow> Quantity \<Rightarrow> merr + u16 list" where
  "ParseReadInputRegistersResponse data quantity = parseRegisterResponse data quantity"

section \<open>Function codes 0x05 and 0x06: single writes\<close>

definition GenerateWriteSingleCoilRequest :: "Address \<Rightarrow> bool \<Rightarrow> merr + byte list" where
  "GenerateWriteSingleCoilRequest address value =
     Inr (be16 address @ be16 (if value then CoilOnU16 else CoilOffU16))"

definition ParseWriteSingleCoilResponse :: "byte list \<Rightarrow> merr + Address \<times> bool" where
  "ParseWriteSingleCoilResponse data =
     (if length data \<noteq> 4 then Inl ErrInvalidResponseLength
      else let address = be16_at data 0; value = be16_at data 2 in
        if value = CoilOnU16 then Inr (address, True)
        else if value = CoilOffU16 then Inr (address, False)
        else Inl (Errorf ''invalid coil value''))"

definition GenerateWriteSingleRegisterRequest :: "Address \<Rightarrow> RegisterValue \<Rightarrow> merr + byte list" where
  "GenerateWriteSingleRegisterRequest address value = Inr (be16 address @ be16 value)"

definition ParseWriteSingleRegisterResponse :: "byte list \<Rightarrow> merr + Address \<times> RegisterValue" where
  "ParseWriteSingleRegisterResponse data =
     (if length data \<noteq> 4 then Inl ErrInvalidResponseLength
      else Inr (be16_at data 0, be16_at data 2))"

section \<open>Function codes 0x0F, 0x10 and 0x17: block writes\<close>

definition GenerateWriteMultipleCoilsRequest :: "Address \<Rightarrow> bool list \<Rightarrow> merr + byte list" where
  "GenerateWriteMultipleCoilsRequest address values =
     (if length values = 0 \<or> length values > MaxWriteCoilCount then Inl ErrInvalidQuantity
      else let byteCount = bytes_for_bits (length values);
               data = be16 address @ be16 (word_of_nat (length values)) @ [word_of_nat byteCount] @
                      replicate byteCount 0
        in case or_bits 5 data 0 values of None \<Rightarrow> Inl GoPanic | Some data \<Rightarrow> Inr data)"

definition ParseWriteMultipleCoilsResponse :: "byte list \<Rightarrow> merr + Address \<times> Quantity" where
  "ParseWriteMultipleCoilsResponse data =
     (if length data \<noteq> 4 then Inl ErrInvalidResponseLength
      else Inr (be16_at data 0, be16_at data 2))"

definition GenerateWriteMultipleRegistersRequest ::
    "Address \<Rightarrow> RegisterValue list \<Rightarrow> merr + byte list" where
  "GenerateWriteMultipleRegistersRequest address values =
     (if length values = 0 \<or> length values > MaxWriteRegisterCount then Inl ErrInvalidQuantity
      else let byteCount = length values * 2 in
        Inr (be16 address @ be16 (word_of_nat (length values)) @ [word_of_nat byteCount] @
             be16s values))"

definition ParseWriteMultipleRegistersResponse :: "byte list \<Rightarrow> merr + Address \<times> Quantity" where
  "ParseWriteMultipleRegistersResponse data =
     (if length data \<noteq> 4 then Inl ErrInvalidResponseLength
      else Inr (be16_at data 0, be16_at data 2))"

definition GenerateReadWriteMultipleRegistersRequest ::
    "Address \<Rightarrow> Quantity \<Rightarrow> Address \<Rightarrow> RegisterValue list \<Rightarrow> merr + byte list" where
  "GenerateReadWriteMultipleRegistersRequest readAddress readQuantity writeAddress writeValues =
     (if readQuantity = 0 \<or> unat readQuantity > MaxReadWriteReadCount then Inl ErrInvalidQuantity
      else if length writeValues = 0 \<or> length writeValues > MaxReadWriteWriteCount
        then Inl ErrInvalidQuantity
      else let byteCount = length writeValues * 2 in
        Inr (be16 readAddress @ be16 readQuantity @ be16 writeAddress @
             be16 (word_of_nat (length writeValues)) @ [word_of_nat byteCount] @
             be16s writeValues))"

definition ParseReadWriteMultipleRegistersResponse ::
    "byte list \<Rightarrow> Quantity \<Rightarrow> merr + RegisterValue list" where
  "ParseReadWriteMultipleRegistersResponse data readQuantity =
     ParseReadHoldingRegistersResponse data readQuantity"

section \<open>Function codes 0x07 and 0x2B: status and identification\<close>

definition GenerateReadExceptionStatusRequest :: "merr + byte list" where
  "GenerateReadExceptionStatusRequest = Inr []"

definition ParseReadExceptionStatusResponse :: "byte list \<Rightarrow> merr + byte" where
  "ParseReadExceptionStatusResponse data =
     (if length data \<noteq> 1 then Inl ErrInvalidResponseLength else Inr (data ! 0))"

record DeviceIDObject =
  obj_ID :: byte
  obj_Length :: byte
  obj_Value :: "byte list"

record DeviceIdentification =
  ReadDeviceIDCode :: byte
  ConformityLevel :: byte
  MoreFollows :: byte
  NextObjectID :: byte
  NumberOfObjects :: byte
  Objects :: "DeviceIDObject list"

text \<open>\<^verbatim>\<open>GetObject\<close> returns a pointer or nil; the named getters return the value or the empty string.\<close>

definition GetObject :: "DeviceIdentification \<Rightarrow> byte \<Rightarrow> DeviceIDObject option" where
  "GetObject d i = find (\<lambda>obj. obj_ID obj = i) (Objects d)"

definition GetObjectValue :: "DeviceIdentification \<Rightarrow> byte \<Rightarrow> byte list" where
  "GetObjectValue d i = (case GetObject d i of None \<Rightarrow> [] | Some obj \<Rightarrow> obj_Value obj)"

definition GenerateReadDeviceIdentificationRequest :: "byte \<Rightarrow> byte \<Rightarrow> merr + byte list" where
  "GenerateReadDeviceIdentificationRequest readDeviceIDCode objectID =
     (if readDeviceIDCode < ReadDeviceIDBasicStream \<or> readDeviceIDCode > ReadDeviceIDSpecificObject
      then Inl ErrInvalidValue
      else Inr [MEIReadDeviceID, readDeviceIDCode, objectID])"

text \<open>The object loop: \<^term>\<open>n\<close> objects from \<^term>\<open>offset\<close> on.\<close>

fun parseObjects :: "byte list \<Rightarrow> nat \<Rightarrow> nat \<Rightarrow> merr + DeviceIDObject list" where
  "parseObjects data offset 0 = Inr []"
| "parseObjects data offset (Suc n) =
     (if offset + 2 > length data then Inl ErrInvalidResponseFormat
      else let objectID = data ! offset; objectLength = data ! (offset + 1) in
        if offset + 2 + unat objectLength > length data then Inl ErrInvalidResponseFormat
        else
          res_bind (parseObjects data (offset + 2 + unat objectLength) n) (\<lambda>objs.
            Inr (\<lparr>obj_ID = objectID, obj_Length = objectLength,
                  obj_Value = take (unat objectLength) (drop (offset + 2) data)\<rparr> # objs)))"

definition ParseReadDeviceIdentificationResponse :: "byte list \<Rightarrow> merr + DeviceIdentification" where
  "ParseReadDeviceIdentificationResponse data =
     (if length data < 6 then Inl ErrInvalidResponseLength
      else if data ! 0 \<noteq> MEIReadDeviceID then Inl ErrInvalidValue
      else
        res_bind (parseObjects data 6 (unat (data ! 5))) (\<lambda>objs.
          Inr \<lparr>ReadDeviceIDCode = data ! 1, ConformityLevel = data ! 2, MoreFollows = data ! 3,
               NextObjectID = data ! 4, NumberOfObjects = data ! 5, Objects = objs\<rparr>))"

text \<open>The wire format of one identification object, and when its length field is right.\<close>

definition object_bytes :: "DeviceIDObject \<Rightarrow> byte list" where
  "object_bytes obj = obj_ID obj # obj_Length obj # obj_Value obj"

definition object_ok :: "DeviceIDObject \<Rightarrow> bool" where
  "object_ok obj \<longleftrightarrow> unat (obj_Length obj) = length (obj_Value obj)"

section \<open>Lemmas\<close>

lemma generateReadRequest_ok:
  "\<lbrakk>0 < unat q; unat q \<le> n\<rbrakk> \<Longrightarrow> generateReadRequest a q n = Inr (be16 a @ be16 q)"
  by (auto simp: generateReadRequest_def)

lemma generateReadRequest_error:
  "generateReadRequest a q n = Inl e \<longleftrightarrow> e = ErrInvalidQuantity \<and> (q = 0 \<or> n < unat q)"
  by (auto simp: generateReadRequest_def)

lemma bytes_for_coils: "n \<le> MaxCoilCount \<Longrightarrow> bytes_for_bits n < 256"
  by (simp add: bytes_for_bits_def)

lemma parseBitResponse_pack:
  assumes "length vs = unat q" "unat b = bytes_for_bits (unat q)"
  shows "parseBitResponse (b # pack_bits vs) q = Inr vs"
  using assms unpack_pack [of "[b]" 1 "unat q" vs] by (simp add: parseBitResponse_def)

lemma parseBitResponse_Inr_iff:
  "parseBitResponse data q = Inr vs \<longleftrightarrow>
     length data = 1 + bytes_for_bits (unat q) \<and> unat (data ! 0) = bytes_for_bits (unat q) \<and>
     vs = unpack_bits 1 data (unat q)"
  by (auto simp: parseBitResponse_def Let_def)

lemma parseRegisterResponse_be16s:
  assumes "length ws = unat q" "unat b = 2 * unat q"
  shows "parseRegisterResponse (b # be16s ws) q = Inr ws"
  using assms map_be16_at_be16s [of "[b]" 1 "unat q" ws "[]"]
  by (simp add: parseRegisterResponse_def)

lemma parseRegisterResponse_Inr_iff:
  "parseRegisterResponse data q = Inr ws \<longleftrightarrow>
     length data = 1 + 2 * unat q \<and> unat (data ! 0) = 2 * unat q \<and>
     ws = map (\<lambda>i. be16_at data (1 + 2 * i)) [0..<unat q]"
  by (auto simp: parseRegisterResponse_def Let_def)

lemma GenerateWriteMultipleCoilsRequest_ok:
  assumes "vs \<noteq> []" "length vs \<le> MaxWriteCoilCount"
  shows "GenerateWriteMultipleCoilsRequest a vs =
    Inr (be16 a @ be16 (word_of_nat (length vs)) @
         [word_of_nat (bytes_for_bits (length vs))] @ pack_bits vs)"
  using assms or_bits_pack [of "be16 a @ be16 (word_of_nat (length vs)) @
         [word_of_nat (bytes_for_bits (length vs))]" 5 _ vs]
  by (simp add: GenerateWriteMultipleCoilsRequest_def)

lemma GenerateWriteMultipleCoilsRequest_error:
  "GenerateWriteMultipleCoilsRequest a vs = Inl e \<longleftrightarrow>
     e = ErrInvalidQuantity \<and> (vs = [] \<or> MaxWriteCoilCount < length vs)"
  by (cases "vs = [] \<or> MaxWriteCoilCount < length vs")
    (auto simp: GenerateWriteMultipleCoilsRequest_ok, auto simp: GenerateWriteMultipleCoilsRequest_def)

text \<open>The identification objects, in the order and format of the response.\<close>

lemma parseObjects_encoded:
  assumes "list_all object_ok objs" "length xs = off"
  shows "parseObjects (xs @ concat (map object_bytes objs) @ ys) off (length objs) = Inr objs"
  using assms
proof (induction objs arbitrary: xs off)
  case (Cons obj objs)
  have "parseObjects ((xs @ object_bytes obj) @ concat (map object_bytes objs) @ ys)
          (length (xs @ object_bytes obj)) (length objs) = Inr objs"
    using Cons by (intro Cons.IH) auto
  with Cons.prems show ?case
    by (simp add: object_bytes_def [of obj] object_ok_def [of obj] nth_append Let_def)
qed simp

end
