(* ===== verification/Modbus_Store.thy ===== *)
theory Modbus_Store
  imports Modbus_Types
begin

text \<open>
  \<^verbatim>\<open>src/protocol/modbus/datastore.go\<close>: the \<^verbatim>\<open>DataStore\<close> interface as a record of
  operations, what it promises as a locale over an abstract device (four banks of
  values, one per address), and \<^verbatim>\<open>MemoryStore\<close>, the implementation over four Go maps,
  with the interpretation that discharges the promises.  Addresses are 16 bits wide
  and wrap.  The store's mutex makes every operation atomic, so an operation is one
  function on the state.
\<close>

section \<open>The interface\<close>

record 's DataStore =
  ReadCoils :: "'s \<Rightarrow> Address \<Rightarrow> Quantity \<Rightarrow> merr + bool list"
  ReadDiscreteInputs :: "'s \<Rightarrow> Address \<Rightarrow> Quantity \<Rightarrow> merr + bool list"
  ReadHoldingRegisters :: "'s \<Rightarrow> Address \<Rightarrow> Quantity \<Rightarrow> merr + u16 list"
  ReadInputRegisters :: "'s \<Rightarrow> Address \<Rightarrow> Quantity \<Rightarrow> merr + u16 list"
  WriteSingleCoil :: "'s \<Rightarrow> Address \<Rightarrow> bool \<Rightarrow> merr option \<times> 's"
  WriteSingleRegister :: "'s \<Rightarrow> Address \<Rightarrow> u16 \<Rightarrow> merr option \<times> 's"
  WriteMultipleCoils :: "'s \<Rightarrow> Address \<Rightarrow> bool list \<Rightarrow> merr option \<times> 's"
  WriteMultipleRegisters :: "'s \<Rightarrow> Address \<Rightarrow> u16 list \<Rightarrow> merr option \<times> 's"

section \<open>The abstract device\<close>

record device =
  d_coils :: "Address \<Rightarrow> bool"
  d_inputs :: "Address \<Rightarrow> bool"
  d_holding :: "Address \<Rightarrow> u16"
  d_inregs :: "Address \<Rightarrow> u16"

definition read_range :: "(Address \<Rightarrow> 'v) \<Rightarrow> Address \<Rightarrow> nat \<Rightarrow> 'v list" where
  "read_range f a n = map (\<lambda>i. f (a + word_of_nat i)) [0..<n]"

definition write_range :: "(Address \<Rightarrow> 'v) \<Rightarrow> Address \<Rightarrow> 'v list \<Rightarrow> Address \<Rightarrow> 'v" where
  "write_range f a vs = (\<lambda>x. if unat (x - a) < length vs then vs ! unat (x - a) else f x)"

section \<open>The memory store\<close>

record MemoryStore =
  coils :: "Address \<rightharpoonup> bool"
  discreteInputs :: "Address \<rightharpoonup> bool"
  holdingRegisters :: "Address \<rightharpoonup> u16"
  inputRegisters :: "Address \<rightharpoonup> u16"

definition NewMemoryStore :: MemoryStore where
  "NewMemoryStore =
     \<lparr>coils = Map.empty, discreteInputs = Map.empty, holdingRegisters = Map.empty,
      inputRegisters = Map.empty\<rparr>"

text \<open>The read loop of all four reads: an address without an entry reads as Go's zero value.\<close>

definition read_map :: "(Address \<rightharpoonup> 'v) \<Rightarrow> 'v \<Rightarrow> Address \<Rightarrow> Quantity \<Rightarrow> 'v list" where
  "read_map m zero address quantity =
     map (\<lambda>i. case m (address + word_of_nat i) of Some value \<Rightarrow> value | None \<Rightarrow> zero)
       [0..<unat quantity]"

text \<open>The write loop of both block writes, from index \<^term>\<open>i\<close> on.\<close>

fun write_map :: "(Address \<rightharpoonup> 'v) \<Rightarrow> Address \<Rightarrow> nat \<Rightarrow> 'v list \<Rightarrow> (Address \<rightharpoonup> 'v)" where
  "write_map m address i [] = m"
| "write_map m address i (v # vs) = write_map (m(address + word_of_nat i \<mapsto> v)) address (Suc i) vs"

definition MemoryStore_ReadCoils :: "MemoryStore \<Rightarrow> Address \<Rightarrow> Quantity \<Rightarrow> merr + bool list" where
  "MemoryStore_ReadCoils s address quantity =
     (if quantity = 0 \<or> unat quantity > MaxCoilCount then Inl ErrInvalidQuantity
      else Inr (read_map (coils s) False address quantity))"

definition MemoryStore_ReadDiscreteInputs ::
    "MemoryStore \<Rightarrow> Address \<Rightarrow> Quantity \<Rightarrow> merr + bool list" where
  "MemoryStore_ReadDiscreteInputs s address quantity =
     (if quantity = 0 \<or> unat quantity > MaxCoilCount then Inl ErrInvalidQuantity
      else Inr (read_map (discreteInputs s) False address quantity))"

definition MemoryStore_ReadHoldingRegisters ::
    "MemoryStore \<Rightarrow> Address \<Rightarrow> Quantity \<Rightarrow> merr + u16 list" where
  "MemoryStore_ReadHoldingRegisters s address quantity =
     (if quantity = 0 \<or> unat quantity > MaxRegisterCount then Inl ErrInvalidQuantity
      else Inr (read_map (holdingRegisters s) 0 address quantity))"

definition MemoryStore_ReadInputRegisters ::
    "MemoryStore \<Rightarrow> Address \<Rightarrow> Quantity \<Rightarrow> merr + u16 list" where
  "MemoryStore_ReadInputRegisters s address quantity =
     (if quantity = 0 \<or> unat quantity > MaxRegisterCount then Inl ErrInvalidQuantity
      else Inr (read_map (inputRegisters s) 0 address quantity))"

definition MemoryStore_WriteSingleCoil ::
    "MemoryStore \<Rightarrow> Address \<Rightarrow> bool \<Rightarrow> merr option \<times> MemoryStore" where
  "MemoryStore_WriteSingleCoil s address value =
     (None, s\<lparr>coils := (coils s)(address \<mapsto> value)\<rparr>)"

definition MemoryStore_WriteSingleRegister ::
    "MemoryStore \<Rightarrow> Address \<Rightarrow> u16 \<Rightarrow> merr option \<times> MemoryStore" where
  "MemoryStore_WriteSingleRegister s address value =
     (None, s\<lparr>holdingRegisters := (holdingRegisters s)(address \<mapsto> value)\<rparr>)"

definition MemoryStore_WriteMultipleCoils ::
    "MemoryStore \<Rightarrow> Address \<Rightarrow> bool list \<Rightarrow> merr option \<times> MemoryStore" where
  "MemoryStore_WriteMultipleCoils s address values =
     (if length values = 0 \<or> length values > MaxWriteCoilCount then (Some ErrInvalidQuantity, s)
      else (None, s\<lparr>coils := write_map (coils s) address 0 values\<rparr>))"

definition MemoryStore_WriteMultipleRegisters ::
    "MemoryStore \<Rightarrow> Address \<Rightarrow> u16 list \<Rightarrow> merr option \<times> MemoryStore" where
  "MemoryStore_WriteMultipleRegisters s address values =
     (if length values = 0 \<or> length values > MaxWriteRegisterCount
      then (Some ErrInvalidQuantity, s)
      else (None, s\<lparr>holdingRegisters := write_map (holdingRegisters s) address 0 values\<rparr>))"

text \<open>The direct accessors an embedding program uses to publish its process image.\<close>

definition GetCoil :: "MemoryStore \<Rightarrow> Address \<Rightarrow> bool \<times> bool" where
  "GetCoil s address = (case coils s address of Some v \<Rightarrow> (v, True) | None \<Rightarrow> (False, False))"

definition SetCoil :: "MemoryStore \<Rightarrow> Address \<Rightarrow> bool \<Rightarrow> MemoryStore" where
  "SetCoil s address value = s\<lparr>coils := (coils s)(address \<mapsto> value)\<rparr>"

definition GetDiscreteInput :: "MemoryStore \<Rightarrow> Address \<Rightarrow> bool \<times> bool" where
  "GetDiscreteInput s address =
     (case discreteInputs s address of Some v \<Rightarrow> (v, True) | None \<Rightarrow> (False, False))"

definition SetDiscreteInput :: "MemoryStore \<Rightarrow> Address \<Rightarrow> bool \<Rightarrow> MemoryStore" where
  "SetDiscreteInput s address value = s\<lparr>discreteInputs := (discreteInputs s)(address \<mapsto> value)\<rparr>"

definition GetHoldingRegister :: "MemoryStore \<Rightarrow> Address \<Rightarrow> u16 \<times> bool" where
  "GetHoldingRegister s address =
     (case holdingRegisters s address of Some v \<Rightarrow> (v, True) | None \<Rightarrow> (0, False))"

definition SetHoldingRegister :: "MemoryStore \<Rightarrow> Address \<Rightarrow> u16 \<Rightarrow> MemoryStore" where
  "SetHoldingRegister s address value =
     s\<lparr>holdingRegisters := (holdingRegisters s)(address \<mapsto> value)\<rparr>"

definition GetInputRegister :: "MemoryStore \<Rightarrow> Address \<Rightarrow> u16 \<times> bool" where
  "GetInputRegister s address =
     (case inputRegisters s address of Some v \<Rightarrow> (v, True) | None \<Rightarrow> (0, False))"

definition SetInputRegister :: "MemoryStore \<Rightarrow> Address \<Rightarrow> u16 \<Rightarrow> MemoryStore" where
  "SetInputRegister s address value = s\<lparr>inputRegisters := (inputRegisters s)(address \<mapsto> value)\<rparr>"

text \<open>\<^verbatim>\<open>MemoryStore\<close> as a \<^verbatim>\<open>DataStore\<close>, and the device it presents.\<close>

definition memoryStore :: "MemoryStore DataStore" where
  "memoryStore =
     \<lparr>ReadCoils = MemoryStore_ReadCoils,
      ReadDiscreteInputs = MemoryStore_ReadDiscreteInputs,
      ReadHoldingRegisters = MemoryStore_ReadHoldingRegisters,
      ReadInputRegisters = MemoryStore_ReadInputRegisters,
      WriteSingleCoil = MemoryStore_WriteSingleCoil,
      WriteSingleRegister = MemoryStore_WriteSingleRegister,
      WriteMultipleCoils = MemoryStore_WriteMultipleCoils,
      WriteMultipleRegisters = MemoryStore_WriteMultipleRegisters\<rparr>"

definition bank :: "(Address \<rightharpoonup> 'v) \<Rightarrow> 'v \<Rightarrow> Address \<Rightarrow> 'v" where
  "bank m zero a = (case m a of Some v \<Rightarrow> v | None \<Rightarrow> zero)"

definition mem_device :: "MemoryStore \<Rightarrow> device" where
  "mem_device s =
     \<lparr>d_coils = bank (coils s) False, d_inputs = bank (discreteInputs s) False,
      d_holding = bank (holdingRegisters s) 0, d_inregs = bank (inputRegisters s) 0\<rparr>"

section \<open>Ranges of addresses\<close>

lemma length_read_range [simp]: "length (read_range f a n) = n"
  by (simp add: read_range_def)

lemma nth_read_range [simp]: "i < n \<Longrightarrow> read_range f a n ! i = f (a + word_of_nat i)"
  by (simp add: read_range_def)

lemma read_write_same:
  assumes "length vs \<le> 2 ^ 16"
  shows "read_range (write_range f a vs) a (length vs) = vs"
  using assms by (intro nth_equalityI) (simp_all add: write_range_def unat_word_of_nat)

lemma write_range_outside:
  "length vs \<le> unat (x - a) \<Longrightarrow> write_range f a vs x = f x"
  by (simp add: write_range_def)

lemma write_range_single: "write_range f a [v] = f(a := v)"
  by (auto simp: write_range_def fun_eq_iff unat_eq_0)

lemma read_map_bank: "read_map m z a q = read_range (bank m z) a (unat q)"
  by (simp add: read_map_def read_range_def bank_def)

lemma write_map_lookup:
  assumes "i + length vs \<le> 2 ^ 16"
  shows "write_map m a i vs x =
    (if i \<le> unat (x - a) \<and> unat (x - a) < i + length vs then Some (vs ! (unat (x - a) - i)) else m x)"
  using assms
proof (induction vs arbitrary: m i)
  case (Cons v vs)
  have "x = a + word_of_nat i \<longleftrightarrow> x - a = word_of_nat i"
    by (auto simp: algebra_simps)
  then have x: "x = a + word_of_nat i \<longleftrightarrow> unat (x - a) = i"
    using Cons.prems by (simp add: word_unat_eq_iff [of "x - a"] unat_word_of_nat)
  show ?case
    using Cons.prems x by (auto simp: Cons.IH nth_Cons' Suc_le_eq)
qed auto

lemma bank_write_map:
  assumes "length vs \<le> 2 ^ 16"
  shows "bank (write_map m a 0 vs) z = write_range (bank m z) a vs"
  using write_map_lookup [of 0 vs m a] assms by (auto simp: bank_def write_range_def fun_eq_iff)

lemma bank_update: "bank (m(a \<mapsto> v)) z = (bank m z)(a := v)"
  by (auto simp: bank_def fun_eq_iff)

section \<open>The contract of a data store\<close>

text \<open>
  What the handlers rely on: within the specification limits a read returns the
  addressed range of the device the store presents, and a write updates that range
  and nothing else.
\<close>

locale data_store =
  fixes store :: "'s DataStore" and view :: "'s \<Rightarrow> device"
  assumes read_coils: "\<lbrakk>0 < unat q; unat q \<le> MaxCoilCount\<rbrakk> \<Longrightarrow>
      ReadCoils store s a q = Inr (read_range (d_coils (view s)) a (unat q))"
    and read_inputs: "\<lbrakk>0 < unat q; unat q \<le> MaxCoilCount\<rbrakk> \<Longrightarrow>
      ReadDiscreteInputs store s a q = Inr (read_range (d_inputs (view s)) a (unat q))"
    and read_holding: "\<lbrakk>0 < unat q; unat q \<le> MaxRegisterCount\<rbrakk> \<Longrightarrow>
      ReadHoldingRegisters store s a q = Inr (read_range (d_holding (view s)) a (unat q))"
    and read_inregs: "\<lbrakk>0 < unat q; unat q \<le> MaxRegisterCount\<rbrakk> \<Longrightarrow>
      ReadInputRegisters store s a q = Inr (read_range (d_inregs (view s)) a (unat q))"
    and write_coil: "fst (WriteSingleCoil store s a c) = None \<and>
      view (snd (WriteSingleCoil store s a c)) =
        (view s)\<lparr>d_coils := write_range (d_coils (view s)) a [c]\<rparr>"
    and write_register: "fst (WriteSingleRegister store s a w) = None \<and>
      view (snd (WriteSingleRegister store s a w)) =
        (view s)\<lparr>d_holding := write_range (d_holding (view s)) a [w]\<rparr>"
    and write_coils: "\<lbrakk>cs \<noteq> []; length cs \<le> MaxWriteCoilCount\<rbrakk> \<Longrightarrow>
      fst (WriteMultipleCoils store s a cs) = None \<and>
      view (snd (WriteMultipleCoils store s a cs)) =
        (view s)\<lparr>d_coils := write_range (d_coils (view s)) a cs\<rparr>"
    and write_registers: "\<lbrakk>ws \<noteq> []; length ws \<le> MaxWriteRegisterCount\<rbrakk> \<Longrightarrow>
      fst (WriteMultipleRegisters store s a ws) = None \<and>
      view (snd (WriteMultipleRegisters store s a ws)) =
        (view s)\<lparr>d_holding := write_range (d_holding (view s)) a ws\<rparr>"

lemmas memory_store_defs =
  memoryStore_def mem_device_def read_map_bank bank_update write_range_single bank_write_map
  MemoryStore_ReadCoils_def MemoryStore_ReadDiscreteInputs_def MemoryStore_ReadHoldingRegisters_def
  MemoryStore_ReadInputRegisters_def MemoryStore_WriteSingleCoil_def
  MemoryStore_WriteSingleRegister_def MemoryStore_WriteMultipleCoils_def
  MemoryStore_WriteMultipleRegisters_def

interpretation mem_store: data_store memoryStore mem_device
  by unfold_locales (auto simp: memory_store_defs)

end
