(* ===== verification/Modbus_Handlers.thy ===== *)
theory Modbus_Handlers
  imports Modbus_Protocol Modbus_Store
begin

text \<open>
  \<^verbatim>\<open>src/protocol/modbus/server_protocol.go\<close>: the server's handler for every function
  code, over any \<^verbatim>\<open>DataStore\<close>.  A handler takes the request and the store's state and
  returns a response or an error together with the new state.
\<close>

unbundle bit_operations_syntax

type_synonym 's handler_res = "(merr + Response) \<times> 's"

section \<open>Reads\<close>

text \<open>The response every handler builds, and the exception it returns.\<close>

definition reply :: "Request \<Rightarrow> byte list \<Rightarrow> Response" where
  "reply req data =
     NewResponse (Request_GetTransactionID req) (Request_GetUnitID req)
       (FunctionCode (Request_PDU req)) data"

definition excn :: "Request \<Rightarrow> ExceptionCode \<Rightarrow> merr" where
  "excn req ec = ModbusError (FunctionCode (Request_PDU req)) ec"

text \<open>How a handler reports an error of the store.\<close>

definition store_excn :: "Request \<Rightarrow> merr \<Rightarrow> merr" where
  "store_excn req err =
     excn req (if err = ErrInvalidQuantity then ExceptionInvalidDataValue
               else ExceptionServerDeviceFailure)"

definition handleReadBitValues ::
    "Request \<Rightarrow> nat \<Rightarrow> (Address \<Rightarrow> Quantity \<Rightarrow> merr + bool list) \<Rightarrow> merr + Response" where
  "handleReadBitValues req maxQuantity readFunc =
     (let data = Data (Request_PDU req) in
      if length data \<noteq> 4 then Inl (excn req ExceptionInvalidDataValue)
      else let address = be16_at data 0; quantity = be16_at data 2 in
        if quantity = 0 \<or> unat quantity > maxQuantity
        then Inl (excn req ExceptionInvalidDataValue)
        else case readFunc address quantity of
            Inl err \<Rightarrow> Inl (store_excn req err)
          | Inr values \<Rightarrow>
              let byteCount = bytes_for_bits (unat quantity) in
              case or_bits 1 ([word_of_nat byteCount] @ replicate byteCount 0) 0 values of
                None \<Rightarrow> Inl GoPanic
              | Some responseData \<Rightarrow> Inr (reply req responseData))"

definition handleReadRegisterValues ::
    "Request \<Rightarrow> nat \<Rightarrow> (Address \<Rightarrow> Quantity \<Rightarrow> merr + u16 list) \<Rightarrow> merr + Response" where
  "handleReadRegisterValues req maxQuantity readFunc =
     (let data = Data (Request_PDU req) in
      if length data \<noteq> 4 then Inl (excn req ExceptionInvalidDataValue)
      else let address = be16_at data 0; quantity = be16_at data 2 in
        if quantity = 0 \<or> unat quantity > maxQuantity
        then Inl (excn req ExceptionInvalidDataValue)
        else case readFunc address quantity of
            Inl err \<Rightarrow> Inl (store_excn req err)
          | Inr values \<Rightarrow>
              Inr (reply req (word_of_nat (length values * 2) # be16s values)))"

definition HandleReadCoils :: "Request \<Rightarrow> 's DataStore \<Rightarrow> 's \<Rightarrow> 's handler_res" where
  "HandleReadCoils req store s =
     (handleReadBitValues req MaxCoilCount (ReadCoils store s), s)"

definition HandleReadDiscreteInputs :: "Request \<Rightarrow> 's DataStore \<Rightarrow> 's \<Rightarrow> 's handler_res" where
  "HandleReadDiscreteInputs req store s =
     (handleReadBitValues req MaxCoilCount (ReadDiscreteInputs store s), s)"

definition HandleReadHoldingRegisters :: "Request \<Rightarrow> 's DataStore \<Rightarrow> 's \<Rightarrow> 's handler_res" where
  "HandleReadHoldingRegisters req store s =
     (handleReadRegisterValues req MaxRegisterCount (ReadHoldingRegisters store s), s)"

definition HandleReadInputRegisters :: "Request \<Rightarrow> 's DataStore \<Rightarrow> 's \<Rightarrow> 's handler_res" where
  "HandleReadInputRegisters req store s =
     (handleReadRegisterValues req MaxRegisterCount (ReadInputRegisters store s), s)"

section \<open>Writes\<close>

definition HandleWriteSingleCoil :: "Request \<Rightarrow> 's DataStore \<Rightarrow> 's \<Rightarrow> 's handler_res" where
  "HandleWriteSingleCoil req store s =
     (let data = Data (Request_PDU req) in
      if length data \<noteq> 4 then (Inl (excn req ExceptionInvalidDataValue), s)
      else let address = be16_at data 0; value = be16_at data 2 in
        if value = CoilOnU16 \<or> value = CoilOffU16 then
          (case WriteSingleCoil store s address (value = CoilOnU16) of
             (Some err, s') \<Rightarrow> (Inl (excn req ExceptionServerDeviceFailure), s')
           | (None, s') \<Rightarrow> (Inr (reply req data), s'))
        else (Inl (excn req ExceptionInvalidDataValue), s))"

definition HandleWriteSingleRegister :: "Request \<Rightarrow> 's DataStore \<Rightarrow> 's \<Rightarrow> 's handler_res" where
  "HandleWriteSingleRegister req store s =
     (let data = Data (Request_PDU req) in
      if length data \<noteq> 4 then (Inl (excn req ExceptionInvalidDataValue), s)
      else
        (case WriteSingleRegister store s (be16_at data 0) (be16_at data 2) of
           (Some err, s') \<Rightarrow> (Inl (excn req ExceptionServerDeviceFailure), s')
         | (None, s') \<Rightarrow> (Inr (reply req data), s')))"

definition HandleWriteMultipleCoils :: "Request \<Rightarrow> 's DataStore \<Rightarrow> 's \<Rightarrow> 's handler_res" where
  "HandleWriteMultipleCoils req store s =
     (let data = Data (Request_PDU req) in
      if length data < 5 then (Inl (excn req ExceptionInvalidDataValue), s)
      else let address = be16_at data 0; quantity = be16_at data 2; byteCount = unat (data ! 4) in
        if length data \<noteq> 5 + byteCount then (Inl (excn req ExceptionInvalidDataValue), s)
        else if quantity = 0 \<or> unat quantity > MaxWriteCoilCount
          then (Inl (excn req ExceptionInvalidDataValue), s)
        else if byteCount \<noteq> bytes_for_bits (unat quantity)
          then (Inl (excn req ExceptionInvalidDataValue), s)
        else
          (case WriteMultipleCoils store s address (unpack_bits 5 data (unat quantity)) of
             (Some err, s') \<Rightarrow> (Inl (store_excn req err), s')
           | (None, s') \<Rightarrow> (Inr (reply req (be16 address @ be16 quantity)), s')))"

definition HandleWriteMultipleRegisters :: "Request \<Rightarrow> 's DataStore \<Rightarrow> 's \<Rightarrow> 's handler_res" where
  "HandleWriteMultipleRegisters req store s =
     (let data = Data (Request_PDU req) in
      if length data < 5 then (Inl (excn req ExceptionInvalidDataValue), s)
      else let address = be16_at data 0; quantity = be16_at data 2; byteCount = unat (data ! 4) in
        if length data \<noteq> 5 + byteCount then (Inl (excn req ExceptionInvalidDataValue), s)
        else if quantity = 0 \<or> unat quantity > MaxWriteRegisterCount
          then (Inl (excn req ExceptionInvalidDataValue), s)
        else if byteCount \<noteq> unat quantity * 2
          then (Inl (excn req ExceptionInvalidDataValue), s)
        else
          (case WriteMultipleRegisters store s address
                  (map (\<lambda>i. be16_at data (5 + 2 * i)) [0..<unat quantity]) of
             (Some err, s') \<Rightarrow> (Inl (store_excn req err), s')
           | (None, s') \<Rightarrow> (Inr (reply req (be16 address @ be16 quantity)), s')))"

definition HandleReadWriteMultipleRegisters ::
    "Request \<Rightarrow> 's DataStore \<Rightarrow> 's \<Rightarrow> 's handler_res" where
  "HandleReadWriteMultipleRegisters req store s =
     (let data = Data (Request_PDU req) in
      if length data < 9 then (Inl (excn req ExceptionInvalidDataValue), s)
      else let readAddress = be16_at data 0; readQuantity = be16_at data 2;
               writeAddress = be16_at data 4; writeQuantity = be16_at data 6;
               byteCount = unat (data ! 8) in
        if length data \<noteq> 9 + byteCount then (Inl (excn req ExceptionInvalidDataValue), s)
        else if readQuantity = 0 \<or> unat readQuantity > MaxReadWriteReadCount \<or>
                writeQuantity = 0 \<or> unat writeQuantity > MaxReadWriteWriteCount
          then (Inl (excn req ExceptionInvalidDataValue), s)
        else if byteCount \<noteq> unat writeQuantity * 2
          then (Inl (excn req ExceptionInvalidDataValue), s)
        else
          (case WriteMultipleRegisters store s writeAddress
                  (map (\<lambda>i. be16_at data (9 + 2 * i)) [0..<unat writeQuantity]) of
             (Some err, s') \<Rightarrow> (Inl (store_excn req err), s')
           | (None, s') \<Rightarrow>
               (case ReadHoldingRegisters store s' readAddress readQuantity of
                  Inl err \<Rightarrow> (Inl (store_excn req err), s')
                | Inr readValues \<Rightarrow>
                    (Inr (reply req (word_of_nat (length readValues * 2) # be16s readValues)), s'))))"

section \<open>Device identification\<close>

definition objectValues :: "byte \<rightharpoonup> byte list" where
  "objectValues i =
     (if i = 0x00 then Some (bytes_of ''goindustrial'')
      else if i = 0x01 then Some (bytes_of ''GI-001'')
      else if i = 0x02 then Some (bytes_of ''1.0'')
      else if i = 0x03 then Some (bytes_of ''https://github.com/iceisfun/goindustrial'')
      else if i = 0x04 then Some (bytes_of ''goindustrial Modbus Server'')
      else if i = 0x05 then Some (bytes_of ''Modbus TCP Server'')
      else if i = 0x06 then Some (bytes_of ''Modbus Server'')
      else if i = 0x80 then Some (bytes_of ''Extended Object'')
      else None)"

definition objectsToInclude :: "byte \<Rightarrow> byte \<Rightarrow> byte list" where
  "objectsToInclude readDeviceIDCode objectID =
     (if readDeviceIDCode = ReadDeviceIDSpecificObject then [objectID]
      else if readDeviceIDCode = ReadDeviceIDRegularStream
        then [0x00, 0x01, 0x02, 0x03, 0x04, 0x05, 0x06]
      else if readDeviceIDCode = ReadDeviceIDExtendedStream
        then [0x00, 0x01, 0x02, 0x03, 0x04, 0x05, 0x06, 0x80]
      else [0x00, 0x01, 0x02])"

definition includedObjects :: "byte \<Rightarrow> byte \<Rightarrow> DeviceIDObject list" where
  "includedObjects readDeviceIDCode objectID =
     concat (map (\<lambda>i. case objectValues i of
         None \<Rightarrow> []
       | Some value \<Rightarrow>
           [\<lparr>obj_ID = i, obj_Length = word_of_nat (length value), obj_Value = value\<rparr>])
       (objectsToInclude readDeviceIDCode objectID))"

text \<open>One object of the response: the copy into a slice of \<^verbatim>\<open>obj.Length\<close> zero bytes.\<close>

definition encodeObject :: "DeviceIDObject \<Rightarrow> byte list" where
  "encodeObject obj =
     (let n = unat (obj_Length obj) in
      [obj_ID obj, obj_Length obj] @ take n (obj_Value obj) @
      replicate (n - length (obj_Value obj)) 0)"

definition HandleReadDeviceIdentification ::
    "Request \<Rightarrow> 's DataStore \<Rightarrow> 's \<Rightarrow> 's handler_res" where
  "HandleReadDeviceIdentification req store s =
     (let data = Data (Request_PDU req) in
      if length data < 3 then (Inl (excn req ExceptionInvalidDataValue), s)
      else if data ! 0 \<noteq> MEIReadDeviceID then (Inl (excn req ExceptionInvalidDataValue), s)
      else let readDeviceIDCode = data ! 1; objectID = data ! 2;
               objs = includedObjects readDeviceIDCode objectID in
        (Inr (reply req
           ([MEIReadDeviceID, readDeviceIDCode, ConformityLevelBasic, MoreFollowsNo, 0x00,
             word_of_nat (length objs)] @ concat (map encodeObject objs))), s))"

end
