(* ===== verification/Byte_Stream.thy ===== *)
theory Byte_Stream
  imports Prelude
begin

text \<open>
  A network connection as its reader sees it: the bytes that arrive, in order, and
  the points at which a read deadline passes.  The end of the list is the end of the
  stream (the peer closed, or the socket was closed locally).  \<^verbatim>\<open>read_conn\<close> is
  \<^verbatim>\<open>io.ReadFull\<close> on it; the bytes a failed read has already taken are gone.
\<close>

datatype net_event = Rx byte | RxTimeout

fun read_conn :: "nat \<Rightarrow> byte list \<Rightarrow> net_event list \<Rightarrow> (io_error + byte list) \<times> net_event list" where
  "read_conn 0 acc evs = (Inr acc, evs)"
| "read_conn (Suc n) acc [] = (Inl (if acc = [] then EOF else UnexpectedEOF), [])"
| "read_conn (Suc n) acc (Rx b # evs) = read_conn n (acc @ [b]) evs"
| "read_conn (Suc n) acc (RxTimeout # evs) = (Inl Timeout, evs)"

abbreviation rx :: "byte list \<Rightarrow> net_event list" where
  "rx bs \<equiv> map Rx bs"

lemma read_conn_length: "length (snd (read_conn n acc evs)) \<le> length evs"
  by (induction n acc evs rule: read_conn.induct) auto

lemma read_conn_less: "\<lbrakk>0 < n; evs \<noteq> []\<rbrakk> \<Longrightarrow> length (snd (read_conn n acc evs)) < length evs"
proof (induction n acc evs rule: read_conn.induct)
  case (3 n acc b evs)
  then show ?case
    using read_conn_length [of n "acc @ [b]" evs] by simp
qed auto

lemma read_conn_rx:
  "length bs = n \<Longrightarrow> read_conn n acc (rx bs @ evs) = (Inr (acc @ bs), evs)"
  by (induction bs arbitrary: n acc) auto

lemma read_conn_short:
  "length bs < n \<Longrightarrow> read_conn n acc (rx bs) = (Inl (if acc @ bs = [] then EOF else UnexpectedEOF), [])"
proof (induction bs arbitrary: n acc)
  case Nil
  then show ?case by (cases n) auto
next
  case (Cons b bs)
  then show ?case by (cases n) auto
qed

lemma read_conn_Inr_length: "read_conn n acc evs = (Inr bs, evs') \<Longrightarrow> length bs = length acc + n"
  by (induction n acc evs rule: read_conn.induct) auto

lemma read_conn_Inr: "read_conn n acc evs = (Inr bs, evs') \<Longrightarrow>
    \<exists>ys. bs = acc @ ys \<and> length ys = n \<and> evs = rx ys @ evs'"
  by (induction n acc evs rule: read_conn.induct) fastforce+

text \<open>A deadline that passes in the middle of a read loses the bytes before it.\<close>

lemma read_conn_timeout:
  "length bs < n \<Longrightarrow> read_conn n acc (rx bs @ RxTimeout # evs) = (Inl Timeout, evs)"
proof (induction bs arbitrary: n acc)
  case Nil
  then show ?case by (cases n) auto
next
  case (Cons b bs)
  then show ?case by (cases n) auto
qed

text \<open>Progress of a loop whose body starts with a read of at least one byte.\<close>

lemma read_conn_progress:
  "\<lbrakk>read_conn n acc evs = (r, evs'); 0 < n; evs \<noteq> [] \<or> r = Inl Timeout \<or> (\<exists>x. r = Inr x)\<rbrakk> \<Longrightarrow>
     length evs' < length evs"
proof (cases evs)
  case Nil
  assume "read_conn n acc evs = (r, evs')" "0 < n"
    "evs \<noteq> [] \<or> r = Inl Timeout \<or> (\<exists>x. r = Inr x)"
  with Nil show ?thesis by (cases n) (auto split: if_splits)
next
  case (Cons e es)
  assume "read_conn n acc evs = (r, evs')" "0 < n"
  with Cons show ?thesis using read_conn_less [of n evs acc] by simp
qed

end
