(* ===== verification/Modbus_Server.thy ===== *)
theory Modbus_Server
  imports Modbus_Handlers Byte_Stream
begin

text \<open>
  \<^verbatim>\<open>src/protocol/modbus/server.go\<close>: the handler table and dispatch, the loop that serves
  one connection, and the server's life cycle with its table of connected clients.
  A connection is served over the events of \<^verbatim>\<open>Byte_Stream\<close>; what the server writes is
  the list of bytes the loop returns (a failed write is only logged by the code).
  Callbacks and connection times are left out.
\<close>

unbundle bit_operations_syntax

section \<open>Handlers and dispatch\<close>

type_synonym 's handler = "Request \<Rightarrow> 's \<Rightarrow> 's handler_res"
type_synonym 's handlers = "FunctionCode \<rightharpoonup> 's handler"

definition SetHandler :: "FunctionCode \<Rightarrow> 's handler \<Rightarrow> 's handlers \<Rightarrow> 's handlers" where
  "SetHandler functionCode handler hs = hs(functionCode \<mapsto> handler)"

definition setupDefaultHandlers :: "'s DataStore \<Rightarrow> 's handlers" where
  "setupDefaultHandlers store =
     (SetHandler FuncReadDeviceIdentification (\<lambda>req. HandleReadDeviceIdentification req store) \<circ>
      SetHandler FuncReadWriteMultipleRegisters (\<lambda>req. HandleReadWriteMultipleRegisters req store) \<circ>
      SetHandler FuncWriteMultipleRegisters (\<lambda>req. HandleWriteMultipleRegisters req store) \<circ>
      SetHandler FuncWriteMultipleCoils (\<lambda>req. HandleWriteMultipleCoils req store) \<circ>
      SetHandler FuncWriteSingleRegister (\<lambda>req. HandleWriteSingleRegister req store) \<circ>
      SetHandler FuncWriteSingleCoil (\<lambda>req. HandleWriteSingleCoil req store) \<circ>
      SetHandler FuncReadInputRegisters (\<lambda>req. HandleReadInputRegisters req store) \<circ>
      SetHandler FuncReadHoldingRegisters (\<lambda>req. HandleReadHoldingRegisters req store) \<circ>
      SetHandler FuncReadDiscreteInputs (\<lambda>req. HandleReadDiscreteInputs req store) \<circ>
      SetHandler FuncReadCoils (\<lambda>req. HandleReadCoils req store)) Map.empty"

definition dispatchRequest :: "'s handlers \<Rightarrow> Request \<Rightarrow> 's \<Rightarrow> 's handler_res" where
  "dispatchRequest hs request s =
     (let functionCode = FunctionCode (Request_PDU request) in
      case hs functionCode of
        None \<Rightarrow> (Inl (ModbusError functionCode ExceptionFunctionCodeNotSupported), s)
      | Some handler \<Rightarrow> handler request s)"

section \<open>One connection\<close>

record clientConn =
  rxCount :: u64
  txCount :: u64
  fcCount :: "FunctionCode \<Rightarrow> u64"

definition new_clientConn :: clientConn where
  "new_clientConn = \<lparr>rxCount = 0, txCount = 0, fcCount = (\<lambda>_. 0)\<rparr>"

definition count_rx :: "FunctionCode \<Rightarrow> clientConn \<Rightarrow> clientConn" where
  "count_rx fc client =
     client\<lparr>rxCount := rxCount client + 1, fcCount := (fcCount client)(fc := fcCount client fc + 1)\<rparr>"

definition count_tx :: "clientConn \<Rightarrow> clientConn" where
  "count_tx client = client\<lparr>txCount := txCount client + 1\<rparr>"

text \<open>
  What one request does: the bytes of the reply, or \<^const>\<open>None\<close> when the connection is
  dropped because the handler failed with something that is not a Modbus exception.
\<close>

definition serve_request :: "'s handlers \<Rightarrow> TransactionID \<Rightarrow> UnitID \<Rightarrow> byte list \<Rightarrow> 's \<Rightarrow>
    byte list option \<times> 's" where
  "serve_request hs transactionID unitID data s =
     (let functionCode = data ! 0;
          request = SetTransactionID transactionID (NewRequest unitID functionCode (drop 1 data))
      in case dispatchRequest hs request s of
           (Inl (ModbusError fc exceptionCode), s') \<Rightarrow>
             (Some (Response_Encode (NewResponse transactionID unitID
                      (functionCode OR ExceptionBit) [exceptionCode])), s')
         | (Inl err, s') \<Rightarrow> (None, s')
         | (Inr response, s') \<Rightarrow> (Some (Response_Encode response), s'))"

lemma read_conn_step:
  assumes "(r, evs') = read_conn n acc evs" "0 < n" "r = Inl Timeout \<or> (\<exists>x. r = Inr x)"
  shows "length evs' < length evs"
  using assms by (intro read_conn_progress [of n acc evs r]) auto

text \<open>
  The loop: the bytes written, the counters and the store's state when the
  connection ends.
\<close>

function handleConnection :: "'s handlers \<Rightarrow> net_event list \<Rightarrow> clientConn \<Rightarrow> 's \<Rightarrow>
    byte list \<times> clientConn \<times> 's" where
  "handleConnection hs evs client s =
     (case read_conn TCPHeaderLength [] evs of
        (Inl Timeout, evs') \<Rightarrow> handleConnection hs evs' client s
      | (Inl err, evs') \<Rightarrow> ([], client, s)
      | (Inr header, evs') \<Rightarrow>
          (let transactionID = be16_at header 0; protocolID = be16_at header 2;
               len = be16_at header 4; unitID = header ! 6 in
           if protocolID \<noteq> TCPProtocolIdentifier then handleConnection hs evs' client s
           else if unat len \<le> 1 then handleConnection hs evs' client s
           else
             (case read_conn (unat len - 1) [] evs' of
                (Inl err, evs'') \<Rightarrow> ([], client, s)
              | (Inr data, evs'') \<Rightarrow>
                  (case serve_request hs transactionID unitID data s of
                     (None, s') \<Rightarrow> ([], count_rx (data ! 0) client, s')
                   | (Some out, s') \<Rightarrow>
                       (case handleConnection hs evs'' (count_tx (count_rx (data ! 0) client)) s' of
                          (rest, client', s'') \<Rightarrow> (out @ rest, client', s''))))))"
  by pat_completeness auto

termination
proof (relation "measure (\<lambda>(hs, evs, client, s). length evs)", goal_cases)
  case (5 hs evs client s x evs' header y z u v x' evs'' data p s' out)
  have "length evs' < length evs"
    by (rule read_conn_step [of x evs' 7 "[]" evs]) (use 5 in auto)
  moreover have "length evs'' \<le> length evs'"
    using 5 read_conn_length [of "unat (be16_at header 4) - 1" "[]" evs'] by (metis snd_conv)
  ultimately show ?case by simp
qed (auto dest: read_conn_step)

declare handleConnection.simps [simp del]

definition fcSnapshot :: "clientConn \<Rightarrow> FunctionCode \<rightharpoonup> u64" where
  "fcSnapshot c = (\<lambda>fc. if fcCount c fc > 0 then Some (fcCount c fc) else None)"

section \<open>Life cycle and connected clients\<close>

text \<open>
  Connections are keyed by their remote address, as in the code's map.  The record
  keeps the addresses of the sockets the server has closed, so that a rejected or
  stopped connection can be told from a lost one.
\<close>

record Server =
  running :: bool
  listener :: bool
  clients :: "string \<rightharpoonup> clientConn"
  maxClients :: int
  injectedConn :: "string option"
  closed :: "string list"

text \<open>\<^verbatim>\<open>Start\<close>; \<^term>\<open>listen\<close> is the error of \<^verbatim>\<open>net.Listen\<close>, used when no listener was supplied.\<close>

definition Start :: "merr option \<Rightarrow> Server \<Rightarrow> merr option \<times> Server" where
  "Start listen s =
     (if running s then (Some (Errorf ''server already running''), s)
      else case injectedConn s of
        Some remoteAddr \<Rightarrow>
          (None, s\<lparr>running := True, clients := (clients s)(remoteAddr \<mapsto> new_clientConn)\<rparr>)
      | None \<Rightarrow>
          if \<not> listener s \<and> listen \<noteq> None then (listen, s)
          else (None, s\<lparr>listener := True, running := True\<rparr>))"

text \<open>\<^verbatim>\<open>Stop\<close> closes every client connection, in the map's iteration order \<^term>\<open>order\<close>.\<close>

definition Stop :: "string list \<Rightarrow> Server \<Rightarrow> Server" where
  "Stop order s =
     (if \<not> running s then s
      else s\<lparr>listener := False, clients := Map.empty, injectedConn := None, running := False,
             closed := closed s @ order\<rparr>)"

text \<open>One turn of \<^verbatim>\<open>acceptLoop\<close> that accepts a connection from \<^term>\<open>remoteAddr\<close>.\<close>

definition acceptConn :: "string \<Rightarrow> Server \<Rightarrow> Server" where
  "acceptConn remoteAddr s =
     (if maxClients s > 0 \<and> int (card (dom (clients s))) \<ge> maxClients s
      then s\<lparr>closed := closed s @ [remoteAddr]\<rparr>
      else s\<lparr>clients := (clients s)(remoteAddr \<mapsto> new_clientConn)\<rparr>)"

text \<open>The deferred clean-up of \<^verbatim>\<open>handleConnection\<close>.\<close>

definition finishConn :: "string \<Rightarrow> Server \<Rightarrow> Server" where
  "finishConn remoteAddr s =
     s\<lparr>clients := (clients s)(remoteAddr := None), closed := closed s @ [remoteAddr]\<rparr>"

text \<open>The server's steps: the accept loop runs while the server does.\<close>

inductive server_step :: "Server \<Rightarrow> Server \<Rightarrow> bool" where
  step_start: "injectedConn s = None \<Longrightarrow> Start listen s = (err, s') \<Longrightarrow> server_step s s'"
| step_accept: "running s \<Longrightarrow> server_step s (acceptConn remoteAddr s)"
| step_finish: "server_step s (finishConn remoteAddr s)"
| step_stop: "set order = dom (clients s) \<Longrightarrow> server_step s (Stop order s)"

definition within_limit :: "Server \<Rightarrow> bool" where
  "within_limit s \<longleftrightarrow>
     finite (dom (clients s)) \<and>
     (maxClients s > 0 \<longrightarrow> int (card (dom (clients s))) \<le> maxClients s)"

lemmas server_defs = Start_def Stop_def acceptConn_def finishConn_def within_limit_def

lemma card_dom_insert_le:
  "finite (dom m) \<Longrightarrow> card (dom (m(k \<mapsto> v))) \<le> Suc (card (dom m))"
  by (simp add: card_insert_le_m1 card_insert_if)

lemma server_step_within_limit:
  assumes "server_step s s'" "within_limit s"
  shows "within_limit s' \<and> maxClients s' = maxClients s"
  using assms
proof cases
  case (step_accept remoteAddr)
  with assms(2) card_dom_insert_le [of "clients s" remoteAddr new_clientConn] show ?thesis
    by (auto simp: server_defs)
next
  case (step_finish remoteAddr)
  then have "card (dom ((clients s)(remoteAddr := None))) \<le> card (dom (clients s))"
    using assms(2) by (intro card_mono) (auto simp: within_limit_def)
  with step_finish assms(2) show ?thesis
    by (auto simp: server_defs)
qed (auto simp: server_defs split: if_splits option.splits)

lemma server_steps_within_limit:
  assumes "server_step\<^sup>*\<^sup>* s s'" "within_limit s"
  shows "within_limit s' \<and> maxClients s' = maxClients s"
  using assms by (induction rule: rtranclp_induct) (auto dest: server_step_within_limit)

section \<open>Properties\<close>

text \<open>
  The client limit holds.  A server created with a positive \<^verbatim>\<open>maxClients\<close> never has
  more connections in its table, through any sequence of starts, accepts, finished
  connections and stops; and a stopped server has none.
\<close>

theorem server_client_limit:
  assumes "server_step\<^sup>*\<^sup>* \<lparr>running = False, listener = l, clients = Map.empty, maxClients = n,
      injectedConn = None, closed = []\<rparr> s" "0 < n"
  shows "int (card (dom (clients s))) \<le> n \<and> clients (Stop order (s\<lparr>running := True\<rparr>)) = Map.empty"
proof -
  have "within_limit s \<and> maxClients s = n"
    using server_steps_within_limit [OF assms(1)] by (auto simp: within_limit_def)
  with assms(2) show ?thesis by (auto simp: within_limit_def Stop_def)
qed

theorem server_client_limit_witness:
  "let s = acceptConn ''b'' (acceptConn ''a'' (snd (Start None
       \<lparr>running = False, listener = True, clients = Map.empty, maxClients = 1, injectedConn = None,
        closed = []\<rparr>))) in
   int (card (dom (clients s))) \<le> 1 \<and> closed s = [''b'']"
proof -
  let ?init = "\<lparr>running = False, listener = True, clients = Map.empty, maxClients = 1,
    injectedConn = None, closed = []\<rparr>"
  let ?up = "snd (Start None ?init)"
  let ?s = "acceptConn ''b'' (acceptConn ''a'' ?up)"
  have "server_step ?init ?up"
    by (rule step_start [of _ None "fst (Start None ?init)"]) simp_all
  moreover have "server_step ?up (acceptConn ''a'' ?up)"
    by (rule step_accept) (simp add: Start_def)
  moreover have "server_step (acceptConn ''a'' ?up) ?s"
    by (rule step_accept) (simp add: Start_def acceptConn_def)
  ultimately have "server_step\<^sup>*\<^sup>* ?init ?s"
    by (meson converse_rtranclp_into_rtranclp rtranclp.rtrancl_refl)
  from server_client_limit [OF this] show ?thesis
    by (simp add: Start_def acceptConn_def)
qed

end
