(* ===== verification/Plc_Value.thy ===== *)
theory Plc_Value
  imports Prelude
begin

text \<open>
  \<^verbatim>\<open>src/plc/plc.go\<close>: the protocol-agnostic value, raw bytes with a type hint and a byte
  order, and its interpretations.  A Go \<^verbatim>\<open>int64\<close> is a 64-bit word read by \<^const>\<open>sint\<close>;
  a float is its bit pattern, which is what \<^verbatim>\<open>math.Float32frombits\<close> is given.
\<close>

unbundle bit_operations_syntax

datatype DataType =
    TypeUnknown | TypeBool | TypeInt16 | TypeUint16 | TypeInt32 | TypeUint32 | TypeInt64
  | TypeUint64 | TypeFloat32 | TypeFloat64 | TypeString | TypeBytes

fun DataType_String :: "DataType \<Rightarrow> string" where
  "DataType_String TypeUnknown = ''unknown''"
| "DataType_String TypeBool = ''bool''"
| "DataType_String TypeInt16 = ''int16''"
| "DataType_String TypeUint16 = ''uint16''"
| "DataType_String TypeInt32 = ''int32''"
| "DataType_String TypeUint32 = ''uint32''"
| "DataType_String TypeInt64 = ''int64''"
| "DataType_String TypeUint64 = ''uint64''"
| "DataType_String TypeFloat32 = ''float32''"
| "DataType_String TypeFloat64 = ''float64''"
| "DataType_String TypeString = ''string''"
| "DataType_String TypeBytes = ''bytes''"

datatype ByteOrder = ByteOrderUnspecified | ByteOrderBigEndian | ByteOrderLittleEndian

fun ByteOrder_String :: "ByteOrder \<Rightarrow> string" where
  "ByteOrder_String ByteOrderBigEndian = ''big-endian''"
| "ByteOrder_String ByteOrderLittleEndian = ''little-endian''"
| "ByteOrder_String ByteOrderUnspecified = ''unspecified''"

record 'dp Value =
  DataPoint :: "'dp option"
  Raw :: "byte list"
  Type :: DataType
  ByteOrder :: ByteOrder

datatype value_error = ByteOrderRequired nat | CannotInterpret nat

text \<open>\<^verbatim>\<open>order.Uint16\<close>, \<^verbatim>\<open>Uint32\<close> and \<^verbatim>\<open>Uint64\<close> of the selected order; \<^const>\<open>None\<close> is the nil order.\<close>

fun order_uint :: "ByteOrder \<Rightarrow> byte list \<Rightarrow> ('a::len word) option" where
  "order_uint ByteOrderBigEndian raw = Some (le_get (rev raw))"
| "order_uint ByteOrderLittleEndian raw = Some (le_get raw)"
| "order_uint ByteOrderUnspecified raw = None"

definition Value_Bool :: "'dp Value \<Rightarrow> bool" where
  "Value_Bool v = list_ex (\<lambda>b. b \<noteq> 0) (Raw v)"

text \<open>The sign-extending conversion \<^verbatim>\<open>int64(intN(x))\<close> or the zero-extending \<^verbatim>\<open>uint64(x)\<close>.\<close>

definition with_order :: "nat \<Rightarrow> 'b option \<Rightarrow> value_error + 'b" where
  "with_order n r = (case r of None \<Rightarrow> Inl (ByteOrderRequired n) | Some x \<Rightarrow> Inr x)"

definition Value_Int :: "'dp Value \<Rightarrow> value_error + u64" where
  "Value_Int v =
     (let raw = Raw v; ord = ByteOrder v; n = length raw in
      if n = 1 then Inr (scast (raw ! 0))
      else if n = 2 then with_order n (map_option scast (order_uint ord raw :: u16 option))
      else if n = 4 then with_order n (map_option scast (order_uint ord raw :: u32 option))
      else if n = 8 then with_order n (order_uint ord raw)
      else Inl (CannotInterpret n))"

definition Value_Uint :: "'dp Value \<Rightarrow> value_error + u64" where
  "Value_Uint v =
     (let raw = Raw v; ord = ByteOrder v; n = length raw in
      if n = 1 then Inr (ucast (raw ! 0))
      else if n = 2 then with_order n (map_option ucast (order_uint ord raw :: u16 option))
      else if n = 4 then with_order n (map_option ucast (order_uint ord raw :: u32 option))
      else if n = 8 then with_order n (order_uint ord raw)
      else Inl (CannotInterpret n))"

definition Value_Float32 :: "'dp Value \<Rightarrow> value_error + u32" where
  "Value_Float32 v =
     (if length (Raw v) \<noteq> 4 then Inl (CannotInterpret (length (Raw v)))
      else with_order 4 (order_uint (ByteOrder v) (Raw v)))"

definition Value_Float64 :: "'dp Value \<Rightarrow> value_error + u64" where
  "Value_Float64 v =
     (if length (Raw v) \<noteq> 8 then Inl (CannotInterpret (length (Raw v)))
      else with_order 8 (order_uint (ByteOrder v) (Raw v)))"

text \<open>The bytes of a word in a given order, for stating the round trips.\<close>

fun order_bytes :: "ByteOrder \<Rightarrow> nat \<Rightarrow> 'a::len word \<Rightarrow> byte list" where
  "order_bytes ByteOrderBigEndian n w = rev (le_put n w)"
| "order_bytes _ n w = le_put n w"

section \<open>Lemmas\<close>

lemma length_le_put [simp]: "length (le_put n w) = n"
  by (simp add: le_put_def)

lemma le_put_Suc: "le_put (Suc n) w = ucast w # le_put n (drop_bit 8 w)"
  by (simp add: le_put_def map_upt_Suc drop_bit_drop_bit add.commute del: upt_Suc)

lemma le_get_Cons: "le_get (b # bs) = ucast b OR push_bit 8 (le_get bs)"
  by (simp add: le_get_def)

lemma bit_le_get_put:
  "bit (le_get (le_put n (w :: 'a::len word)) :: 'a word) i \<longleftrightarrow> i < 8 * n \<and> bit w i"
proof (induction n arbitrary: w i)
  case 0
  then show ?case by (simp add: le_put_def le_get_def)
next
  case (Suc n)
  show ?case
    using bit_imp_le_length [of w i]
    by (cases "i < 8") (auto simp: le_put_Suc le_get_Cons bit_simps Suc)
qed

lemma le_get_put:
  assumes "LENGTH('a) \<le> 8 * n"
  shows "le_get (le_put n w) = (w :: 'a::len word)"
  using assms by (intro bit_word_eqI) (auto simp: bit_le_get_put)

lemma length_order_bytes [simp]: "length (order_bytes ord n w) = n"
  by (cases ord) auto

lemma order_uint_bytes:
  assumes "LENGTH('a) \<le> 8 * n" "ord \<noteq> ByteOrderUnspecified"
  shows "order_uint ord (order_bytes ord n w) = Some (w :: 'a::len word)"
  using assms by (cases ord) (auto simp: le_get_put)

section \<open>Properties\<close>

text \<open>
  Values keep their number.  For a 16-, 32- or 64-bit word stored in either byte
  order, \<^verbatim>\<open>Uint\<close> returns the unsigned and \<^verbatim>\<open>Int\<close> the sign-extended number, and the float
  accessors return the stored bit pattern; a single byte needs no byte order.
\<close>

theorem plc_value_roundtrip:
  fixes a :: u16 and b :: u32 and c :: u64 and d :: byte
    and dp :: "'dp option" and t :: DataType
  assumes "ord \<noteq> ByteOrderUnspecified"
  defines "val raw \<equiv> \<lparr>DataPoint = dp, Raw = raw, Type = t, ByteOrder = ord\<rparr>"
  shows "map_sum id uint (Value_Uint (val (order_bytes ord 2 a))) = Inr (uint a) \<and>
    map_sum id uint (Value_Uint (val (order_bytes ord 4 b))) = Inr (uint b) \<and>
    Value_Uint (val (order_bytes ord 8 c)) = Inr c \<and>
    map_sum id sint (Value_Int (val (order_bytes ord 2 a))) = Inr (sint a) \<and>
    map_sum id sint (Value_Int (val (order_bytes ord 4 b))) = Inr (sint b) \<and>
    Value_Int (val (order_bytes ord 8 c)) = Inr c \<and>
    map_sum id sint (Value_Int (val [d])) = Inr (sint d) \<and>
    Value_Float32 (val (order_bytes ord 4 b)) = Inr b \<and>
    Value_Float64 (val (order_bytes ord 8 c)) = Inr c"
  using assms(1)
  by (simp add: val_def Value_Uint_def Value_Int_def Value_Float32_def Value_Float64_def Let_def
      order_uint_bytes with_order_def uint_up_ucast sint_up_scast is_up)

theorem plc_value_roundtrip_witness:
  "map_sum id sint (Value_Int \<lparr>DataPoint = None :: unit option,
      Raw = order_bytes ByteOrderBigEndian 2 (0xFFFE :: u16), Type = TypeInt16,
      ByteOrder = ByteOrderBigEndian\<rparr>) = Inr (-2)"
  using plc_value_roundtrip [where ord = ByteOrderBigEndian and dp = "None :: unit option" and
      t = TypeInt16 and a = "0xFFFE"]
  by simp

end
