(* ===== verification/Modbus_Client.thy ===== *)
theory Modbus_Client
  imports Modbus_Protocol Plc_Value
begin

text \<open>
  \<^verbatim>\<open>src/protocol/modbus/client.go\<close>: the retry loop, one method per function code, and the
  \<^verbatim>\<open>plc.PLC\<close> interface over data points.  The transport is a record of operations on a
  world \<^typ>\<open>'w\<close>: obtaining a connection, one exchange on it (\<^verbatim>\<open>TCPConn.Send\<close>), and
  \<^verbatim>\<open>Reset\<close> of a connection that failed.  Delays and deadlines are part of the world.
\<close>

unbundle bit_operations_syntax

section \<open>The retry loop\<close>

record ('c, 'w) transport =
  tp_Conn :: "'w \<Rightarrow> (merr + 'c) \<times> 'w"
  tp_Send :: "'c \<Rightarrow> Request \<Rightarrow> 'w \<Rightarrow> (merr + Response) \<times> 'w"
  tp_Reset :: "'c \<Rightarrow> 'w \<Rightarrow> 'w"

record Client =
  unitID :: UnitID
  retries :: int

fun send_loop :: "('c, 'w) transport \<Rightarrow> Request \<Rightarrow> nat \<Rightarrow> merr option \<Rightarrow> 'w \<Rightarrow>
    (merr + Response) \<times> 'w" where
  "send_loop tp request 0 lastErr w = (Inl (Wrap ''modbus: all attempts failed'' lastErr), w)"
| "send_loop tp request (Suc n) lastErr w =
     (case tp_Conn tp w of
        (Inl err, w) \<Rightarrow> send_loop tp request n (Some err) w
      | (Inr conn, w) \<Rightarrow>
          (case tp_Send tp conn request w of
             (Inl err, w) \<Rightarrow>
               if IsModbusError err then (Inl err, w)
               else send_loop tp request n (Some err) (tp_Reset tp conn w)
           | (Inr response, w) \<Rightarrow>
               (case ToError response of
                  Some err \<Rightarrow> (Inl err, w)
                | None \<Rightarrow> (Inr response, w))))"

definition send :: "Client \<Rightarrow> ('c, 'w) transport \<Rightarrow> FunctionCode \<Rightarrow> byte list \<Rightarrow> 'w \<Rightarrow>
    (merr + Response) \<times> 'w" where
  "send c tp functionCode data w =
     send_loop tp (NewRequest (unitID c) functionCode data) (nat (1 + retries c)) None w"

section \<open>One method per function code\<close>

text \<open>
  The shape all methods share: generate the request data, exchange, parse the data of
  the response.
\<close>

definition call :: "Client \<Rightarrow> ('c, 'w) transport \<Rightarrow> FunctionCode \<Rightarrow> merr + byte list \<Rightarrow>
    (byte list \<Rightarrow> merr + 'r) \<Rightarrow> 'w \<Rightarrow> (merr + 'r) \<times> 'w" where
  "call c tp functionCode requestData parse w =
     (case requestData of
        Inl err \<Rightarrow> (Inl err, w)
      | Inr data \<Rightarrow>
          (case send c tp functionCode data w of
             (Inl err, w') \<Rightarrow> (Inl err, w')
           | (Inr response, w') \<Rightarrow> (parse (Data (Response_PDU response)), w')))"

text \<open>A parser whose values the method drops: only the error remains.\<close>

definition check :: "(byte list \<Rightarrow> merr + 'r) \<Rightarrow> byte list \<Rightarrow> merr + unit" where
  "check parse data = res_bind (parse data) (\<lambda>_. Inr ())"

definition Client_ReadCoils where
  "Client_ReadCoils c tp address quantity w =
     call c tp FuncReadCoils (GenerateReadCoilsRequest address quantity)
       (\<lambda>data. ParseReadCoilsResponse data quantity) w"

definition Client_ReadDiscreteInputs where
  "Client_ReadDiscreteInputs c tp address quantity w =
     call c tp FuncReadDiscreteInputs (GenerateReadDiscreteInputsRequest address quantity)
       (\<lambda>data. ParseReadDiscreteInputsResponse data quantity) w"

definition Client_ReadHoldingRegisters where
  "Client_ReadHoldingRegisters c tp address quantity w =
     call c tp FuncReadHoldingRegisters (GenerateReadHoldingRegistersRequest address quantity)
       (\<lambda>data. ParseReadHoldingRegistersResponse data quantity) w"

definition Client_ReadInputRegisters where
  "Client_ReadInputRegisters c tp address quantity w =
     call c tp FuncReadInputRegisters (GenerateReadInputRegistersRequest address quantity)
       (\<lambda>data. ParseReadInputRegistersResponse data quantity) w"

definition Client_WriteSingleCoil where
  "Client_WriteSingleCoil c tp address value w =
     call c tp FuncWriteSingleCoil (GenerateWriteSingleCoilRequest address value)
       (check ParseWriteSingleCoilResponse) w"

definition Client_WriteSingleRegister where
  "Client_WriteSingleRegister c tp address value w =
     call c tp FuncWriteSingleRegister (GenerateWriteSingleRegisterRequest address value)
       (check ParseWriteSingleRegisterResponse) w"

definition Client_WriteMultipleCoils where
  "Client_WriteMultipleCoils c tp address values w =
     call c tp FuncWriteMultipleCoils (GenerateWriteMultipleCoilsRequest address values)
       (check ParseWriteMultipleCoilsResponse) w"

definition Client_WriteMultipleRegisters where
  "Client_WriteMultipleRegisters c tp address values w =
     call c tp FuncWriteMultipleRegisters (GenerateWriteMultipleRegistersRequest address values)
       (check ParseWriteMultipleRegistersResponse) w"

definition Client_ReadWriteMultipleRegisters where
  "Client_ReadWriteMultipleRegisters c tp readAddress readQuantity writeAddress writeValues w =
     call c tp FuncReadWriteMultipleRegisters
       (GenerateReadWriteMultipleRegistersRequest readAddress readQuantity writeAddress writeValues)
       (\<lambda>data. ParseReadWriteMultipleRegistersResponse data readQuantity) w"

definition Client_ReadExceptionStatus where
  "Client_ReadExceptionStatus c tp w =
     call c tp FuncReadExceptionStatus GenerateReadExceptionStatusRequest
       ParseReadExceptionStatusResponse w"

definition Client_ReadDeviceIdentification where
  "Client_ReadDeviceIdentification c tp readDeviceIDCode objectID w =
     call c tp FuncReadDeviceIdentification
       (GenerateReadDeviceIdentificationRequest readDeviceIDCode objectID)
       ParseReadDeviceIdentificationResponse w"

lemmas client_defs =
  Client_ReadCoils_def Client_ReadDiscreteInputs_def Client_ReadHoldingRegisters_def
  Client_ReadInputRegisters_def Client_WriteSingleCoil_def Client_WriteSingleRegister_def
  Client_WriteMultipleCoils_def Client_WriteMultipleRegisters_def
  Client_ReadWriteMultipleRegisters_def Client_ReadExceptionStatus_def
  Client_ReadDeviceIdentification_def

section \<open>Data points\<close>

text \<open>The concrete data points of \<^verbatim>\<open>datapoint.go\<close>, and any other type a caller may pass.\<close>

datatype point =
    HoldingRegister Address Quantity
  | InputRegister Address Quantity
  | Coil Address Quantity
  | DiscreteInput Address Quantity
  | OtherPoint string

definition registersToBytes :: "u16 list \<Rightarrow> byte list" where
  "registersToBytes regs = be16s regs"

text \<open>\<^const>\<open>None\<close> would be an index out of range; \<^verbatim>\<open>boolsToBytes_pack\<close> excludes it.\<close>

definition boolsToBytes :: "bool list \<Rightarrow> byte list option" where
  "boolsToBytes vals = or_bits 0 (replicate ((length vals + 7) div 8) 0) 0 vals"

definition mk_value :: "byte list \<Rightarrow> DataType \<Rightarrow> point Value" where
  "mk_value raw dt = \<lparr>DataPoint = None, Raw = raw, Type = dt, ByteOrder = ByteOrderBigEndian\<rparr>"

definition registers_value :: "Quantity \<Rightarrow> u16 list \<Rightarrow> merr + point Value" where
  "registers_value qty regs =
     Inr (mk_value (registersToBytes regs) (if unat qty > 1 then TypeBytes else TypeUint16))"

definition bools_value :: "bool list \<Rightarrow> merr + point Value" where
  "bools_value vals =
     (case boolsToBytes vals of None \<Rightarrow> Inl GoPanic | Some raw \<Rightarrow> Inr (mk_value raw TypeBool))"

definition map_res :: "(merr + 'a) \<times> 'w \<Rightarrow> ('a \<Rightarrow> merr + 'b) \<Rightarrow> (merr + 'b) \<times> 'w" where
  "map_res r f = (case r of (x, w) \<Rightarrow> (res_bind x f, w))"

fun readDataPoint :: "Client \<Rightarrow> ('c, 'w) transport \<Rightarrow> point \<Rightarrow> 'w \<Rightarrow> (merr + point Value) \<times> 'w" where
  "readDataPoint c tp (HoldingRegister addr qty) w =
     map_res (Client_ReadHoldingRegisters c tp addr qty w) (registers_value qty)"
| "readDataPoint c tp (InputRegister addr qty) w =
     map_res (Client_ReadInputRegisters c tp addr qty w) (registers_value qty)"
| "readDataPoint c tp (Coil addr qty) w =
     map_res (Client_ReadCoils c tp addr qty w) bools_value"
| "readDataPoint c tp (DiscreteInput addr qty) w =
     map_res (Client_ReadDiscreteInputs c tp addr qty w) bools_value"
| "readDataPoint c tp (OtherPoint t) w =
     (Inl (Errorf ''modbus read: unsupported data point type''), w)"

fun Client_Read :: "Client \<Rightarrow> ('c, 'w) transport \<Rightarrow> point list \<Rightarrow> 'w \<Rightarrow>
    (merr + point Value list) \<times> 'w" where
  "Client_Read c tp [] w = (Inr [], w)"
| "Client_Read c tp (dp # points) w =
     (case readDataPoint c tp dp w of
        (Inl err, w') \<Rightarrow> (Inl err, w')
      | (Inr val, w') \<Rightarrow>
          map_res (Client_Read c tp points w') (\<lambda>vals. Inr (val\<lparr>DataPoint := Some dp\<rparr> # vals)))"

text \<open>The coil values \<^verbatim>\<open>Write\<close> takes from packed bytes; bits past the data are off.\<close>

definition coil_values :: "byte list \<Rightarrow> nat \<Rightarrow> bool list" where
  "coil_values data n =
     map (\<lambda>i. i div 8 < length data \<and> drop_bit (i mod 8) (data ! (i div 8)) AND 1 = 1) [0..<n]"

fun Client_Write :: "Client \<Rightarrow> ('c, 'w) transport \<Rightarrow> point \<Rightarrow> byte list \<Rightarrow> 'w \<Rightarrow> (merr + unit) \<times> 'w" where
  "Client_Write c tp (HoldingRegister addr qty) data w =
     (if qty = 1 \<and> length data = 2 then Client_WriteSingleRegister c tp addr (be16_at data 0) w
      else if length data mod 2 \<noteq> 0
        then (Inl (Errorf ''modbus write: data length is not a multiple of 2''), w)
      else Client_WriteMultipleRegisters c tp addr
             (map (\<lambda>i. be16_at data (2 * i)) [0..<length data div 2]) w)"
| "Client_Write c tp (Coil addr qty) data w =
     (if qty = 1 \<and> length data \<ge> 1 then Client_WriteSingleCoil c tp addr (data ! 0 \<noteq> 0) w
      else Client_WriteMultipleCoils c tp addr (coil_values data (unat qty)) w)"
| "Client_Write c tp dp data w =
     (Inl (Errorf ''modbus write: unsupported data point type''), w)"

section \<open>Lemmas\<close>

lemma boolsToBytes_pack: "boolsToBytes vals = Some (pack_bits vals)"
  using or_bits_pack [of "[]" 0 "bytes_for_bits (length vals)" vals]
  by (simp add: boolsToBytes_def bytes_for_bits_def)

lemma bools_value_eq [simp]: "bools_value vals = Inr (mk_value (pack_bits vals) TypeBool)"
  by (simp add: bools_value_def boolsToBytes_pack)

lemma map_res_Inr [simp]: "map_res (Inr x, w) f = (f x, w)"
  by (simp add: map_res_def)

lemma map_res_Inl [simp]: "map_res (Inl e, w) f = (Inl e, w)"
  by (simp add: map_res_def)

text \<open>An exchange that succeeds at once returns its response and leaves the rest untouched.\<close>

lemma send_first:
  assumes "tp_Conn tp w = (Inr conn, w1)" "0 \<le> retries c"
    "tp_Send tp conn (NewRequest (unitID c) fc data) w1 = (Inr response, w2)"
  shows "send c tp fc data w =
    (case ToError response of Some err \<Rightarrow> (Inl err, w2) | None \<Rightarrow> (Inr response, w2))"
proof -
  obtain n where "nat (1 + retries c) = Suc n"
    using assms(2) by (metis Suc_nat_eq_nat_zadd1 add.commute)
  with assms show ?thesis by (simp add: send_def)
qed

section \<open>Counting exchanges\<close>

text \<open>
  A transport that counts exchanges and resets beside the world of another.
\<close>

definition counted :: "('c, 'w) transport \<Rightarrow> ('c, 'w \<times> nat \<times> nat) transport" where
  "counted tp =
     \<lparr>tp_Conn = (\<lambda>(w, n, k). case tp_Conn tp w of (r, w') \<Rightarrow> (r, w', n, k)),
      tp_Send = (\<lambda>c req (w, n, k). case tp_Send tp c req w of (r, w') \<Rightarrow> (r, w', Suc n, k)),
      tp_Reset = (\<lambda>c (w, n, k). (tp_Reset tp c w, n, Suc k))\<rparr>"

lemma send_loop_counted:
  "\<exists>n' k'. send_loop (counted tp) req m e (w, n, k) =
     (fst (send_loop tp req m e w), snd (send_loop tp req m e w), n', k') \<and>
     n' \<le> n + m \<and> k' - k \<le> n' - n \<and> n \<le> n' \<and> k \<le> k'"
proof (induction m arbitrary: e w n k)
  case (Suc m)
  show ?case
  proof (cases "tp_Conn tp w")
    case (Pair c w1)
    show ?thesis
    proof (cases c)
      case (Inl err)
      with Pair Suc [of "Some err" w1 n k] show ?thesis
        by (auto simp: counted_def)
    next
      case (Inr conn)
      obtain r w2 where s: "tp_Send tp conn req w1 = (r, w2)" by fastforce
      show ?thesis
      proof (cases r)
        case (Inr resp)
        with Pair \<open>c = Inr conn\<close> s show ?thesis
          by (auto simp: counted_def split: option.splits)
      next
        case (Inl err)
        show ?thesis
        proof (cases "IsModbusError err")
          case True
          with Inl Pair \<open>c = Inr conn\<close> s show ?thesis by (auto simp: counted_def)
        next
          case False
          from Suc [of "Some err" "tp_Reset tp conn w2" "Suc n" "Suc k"]
          obtain n' k' where "send_loop (counted tp) req m (Some err) (tp_Reset tp conn w2, Suc n, Suc k) =
            (fst (send_loop tp req m (Some err) (tp_Reset tp conn w2)),
             snd (send_loop tp req m (Some err) (tp_Reset tp conn w2)), n', k')"
            "n' \<le> Suc n + m" "k' - Suc k \<le> n' - Suc n" "Suc n \<le> n'" "Suc k \<le> k'" by blast
          with False Inl Pair \<open>c = Inr conn\<close> s show ?thesis by (auto simp: counted_def)
        qed
      qed
    qed
  qed
qed auto

section \<open>Properties\<close>

text \<open>
  C30: retries are bounded.  On any transport, \<^verbatim>\<open>send\<close> makes at most one exchange more than
  the configured number of retries and resets the transport at most once per exchange;
  counting does not change its result.
\<close>

theorem client_send_bounded:
  "case send c (counted tp) fc data (w, 0, 0) of
     (r, w', sends, resets) \<Rightarrow>
       (r, w') = send c tp fc data w \<and> sends \<le> nat (1 + retries c) \<and> resets \<le> sends"
  using send_loop_counted [of tp "NewRequest (unitID c) fc data" "nat (1 + retries c)" None w 0 0]
  by (auto simp: send_def)

text \<open>
  A Modbus exception is final.  When the connection is available and the server
  answers with an exception response, \<^verbatim>\<open>send\<close> returns that exception, with the response's
  function code and exception code, after exactly one exchange: no retry and no reset.
\<close>

theorem client_exception_final:
  assumes "tp_Conn tp w = (Inr conn, w1)" "0 \<le> retries c" "IsException rfc"
    "tp_Send tp conn (NewRequest (unitID c) fc data) w1 = (Inr (NewResponse tid u rfc (ec # rest)), w2)"
  shows "send c (counted tp) fc data (w, 0, 0) = (Inl (ModbusError rfc ec), w2, 1, 0)"
proof -
  have "ToError (NewResponse tid u rfc (ec # rest)) = Some (ModbusError rfc ec)"
    using assms(3) by (simp add: ToError_def Response_IsException_def GetException_def NewResponse_def)
  moreover obtain n where "nat (1 + retries c) = Suc n"
    using assms(2) by (metis Suc_nat_eq_nat_zadd1 add.commute)
  ultimately show ?thesis
    using assms(1,4) by (simp add: send_def counted_def)
qed

theorem client_exception_final_witness:
  "send \<lparr>unitID = 1, retries = 3\<rparr>
     (counted \<lparr>tp_Conn = (\<lambda>w. (Inr (), w)),
               tp_Send = (\<lambda>_ req w. (Inr (NewResponse 0 1 0x83 [0x02]), w)),
               tp_Reset = (\<lambda>_ w. w)\<rparr>) 3 [0, 0, 0, 1] ((), 0, 0) =
   (Inl (ModbusError 0x83 0x02), (), 1, 0)"
  by (rule client_exception_final) (simp_all add: IsException_def)

text \<open>
  When every attempt fails in transport, the client reports so with the last
  error after using all of them.
\<close>

theorem client_send_exhausted:
  assumes "\<And>w. \<exists>w'. tp_Conn tp w = (Inr conn, w')"
    "\<And>w. \<exists>w'. tp_Send tp conn (NewRequest (unitID c) fc data) w = (Inl err, w')"
    "\<not> IsModbusError err" "0 \<le> retries c"
  shows "\<exists>w'. send c (counted tp) fc data (w, 0, 0) =
    (Inl (Wrap ''modbus: all attempts failed'' (Some err)), w', nat (1 + retries c), nat (1 + retries c))"
proof -
  have loop: "\<exists>w'. send_loop (counted tp) (NewRequest (unitID c) fc data) m e (w, n, k) =
      (Inl (Wrap ''modbus: all attempts failed'' (if m = 0 then e else Some err)), w', n + m, k + m)"
    for m e w n k
  proof (induction m arbitrary: e w n k)
    case (Suc m)
    obtain w1 w2 where "tp_Conn tp w = (Inr conn, w1)"
      "tp_Send tp conn (NewRequest (unitID c) fc data) w1 = (Inl err, w2)"
      using assms(1,2) by meson
    with Suc [of "Some err" "tp_Reset tp conn w2" "Suc n" "Suc k"] assms(3) show ?case
      by (auto simp: counted_def split: if_splits)
  qed simp
  have "nat (1 + retries c) \<noteq> 0" using assms(4) by simp
  with loop [of "nat (1 + retries c)" None w 0 0] show ?thesis
    by (auto simp: send_def)
qed

theorem client_send_exhausted_witness:
  "\<exists>w'. send \<lparr>unitID = 1, retries = 2\<rparr>
     (counted \<lparr>tp_Conn = (\<lambda>w. (Inr (), w)), tp_Send = (\<lambda>_ req w. (Inl ErrNotConnected, w)),
               tp_Reset = (\<lambda>_ w. w)\<rparr>) 3 [0, 0, 0, 1] ((), 0, 0) =
   (Inl (Wrap ''modbus: all attempts failed'' (Some ErrNotConnected)), w', 3, 3)"
  using client_send_exhausted [of "\<lparr>tp_Conn = (\<lambda>w. (Inr (), w)),
      tp_Send = (\<lambda>_ req w. (Inl ErrNotConnected, w)), tp_Reset = (\<lambda>_ w. w)\<rparr>" "()"
      "\<lparr>unitID = 1, retries = 2\<rparr>" 3 "[0, 0, 0, 1]" ErrNotConnected "()"]
  by simp

end
