(* ===== verification/Modbus_Pool.thy ===== *)
theory Modbus_Pool
  imports Modbus_Frame
begin

text \<open>
  \<^verbatim>\<open>src/protocol/modbus/transaction.go\<close>: in-flight transactions and the pool that assigns
  their identifiers.  A transaction is an object shared by the pool's map and the
  caller of \<^verbatim>\<open>Send\<close>, so it lives in a heap and the map holds handles.  A channel of
  capacity one is an option; a send to a full channel takes the \<^verbatim>\<open>default\<close> branch and
  drops the value.  Time is a natural number.  Every operation holds the pool's
  mutex, so it is one function on the state.
\<close>

unbundle bit_operations_syntax

section \<open>Transactions\<close>

record Transaction =
  tx_Request :: Request
  ResponseCh :: "Response option"
  ErrCh :: "merr option"
  cancelled :: bool
  createTime :: nat

definition NewTransaction :: "nat \<Rightarrow> Request \<Rightarrow> Transaction" where
  "NewTransaction now request =
     \<lparr>tx_Request = request, ResponseCh = None, ErrCh = None, cancelled = False, createTime = now\<rparr>"

text \<open>\<^verbatim>\<open>Complete(response, err)\<close>: the error if there is one, otherwise the response.\<close>

definition Complete :: "merr + Response \<Rightarrow> Transaction \<Rightarrow> Transaction" where
  "Complete res t =
     (case res of
        Inl err \<Rightarrow> t\<lparr>ErrCh := (case ErrCh t of None \<Rightarrow> Some err | Some e \<Rightarrow> Some e)\<rparr>
      | Inr response \<Rightarrow>
          t\<lparr>ResponseCh := (case ResponseCh t of None \<Rightarrow> Some response | Some r \<Rightarrow> Some r)\<rparr>)
     \<lparr>cancelled := True\<rparr>"

definition Cancel :: "merr \<Rightarrow> Transaction \<Rightarrow> Transaction" where
  "Cancel err t = Complete (Inl err) t"

section \<open>The pool\<close>

record TransactionPool =
  transactions :: "TransactionID \<rightharpoonup> nat"
  nextID :: u32
  pool_done :: bool
  timeoutDuration :: nat
  heap :: "nat \<Rightarrow> Transaction"
  fresh :: nat

abbreviation (input) maxIDAttempts :: nat where "maxIDAttempts \<equiv> 16"

definition NewTransactionPool :: "nat \<Rightarrow> TransactionPool" where
  "NewTransactionPool timeout =
     \<lparr>transactions = Map.empty, nextID = 0, pool_done = False, timeoutDuration = timeout,
      heap = (\<lambda>_. NewTransaction 0 (NewRequest 0 0 [])), fresh = 0\<rparr>"

text \<open>The identifier search: \<^verbatim>\<open>nextID.Add(1) - 1\<close>, the low 16 bits, at most \<^term>\<open>n\<close> times.\<close>

fun find_id :: "nat \<Rightarrow> (TransactionID \<rightharpoonup> nat) \<Rightarrow> u32 \<Rightarrow> TransactionID option \<times> u32" where
  "find_id 0 txs nid = (None, nid)"
| "find_id (Suc n) txs nid =
     (let i = nid + 1 - 1; candidate = ucast (i AND 0xFFFF) in
      if txs candidate = None then (Some candidate, nid + 1) else find_id n txs (nid + 1))"

definition Place :: "nat \<Rightarrow> Request \<Rightarrow> TransactionPool \<Rightarrow> (merr + nat \<times> Request) \<times> TransactionPool" where
  "Place now request tp =
     (if pool_done tp then (Inl (Errorf ''transaction pool is closed''), tp)
      else case find_id maxIDAttempts (transactions tp) (nextID tp) of
        (None, nid) \<Rightarrow> (Inl (Errorf ''transaction pool is full''), tp\<lparr>nextID := nid\<rparr>)
      | (Some txID, nid) \<Rightarrow>
          let request = SetTransactionID txID request; h = fresh tp in
          (Inr (h, request),
           tp\<lparr>nextID := nid, transactions := (transactions tp)(txID \<mapsto> h),
              heap := (heap tp)(h := NewTransaction now request), fresh := Suc h\<rparr>))"

definition Get :: "TransactionID \<Rightarrow> TransactionPool \<Rightarrow> nat option" where
  "Get txID tp = transactions tp txID"

definition unsafeRelease :: "TransactionID \<Rightarrow> TransactionPool \<Rightarrow> TransactionPool" where
  "unsafeRelease txID tp = tp\<lparr>transactions := (transactions tp)(txID := None)\<rparr>"

definition Release :: "TransactionID \<Rightarrow> TransactionPool \<Rightarrow> nat option \<times> TransactionPool" where
  "Release txID tp =
     (case transactions tp txID of
        None \<Rightarrow> (None, tp)
      | Some h \<Rightarrow> (Some h, unsafeRelease txID tp))"

definition complete_at :: "nat \<Rightarrow> merr + Response \<Rightarrow> TransactionPool \<Rightarrow> TransactionPool" where
  "complete_at h res tp = tp\<lparr>heap := (heap tp)(h := Complete res (heap tp h))\<rparr>"

text \<open>
  The sweeps over the map: \<^verbatim>\<open>Close\<close> and \<^verbatim>\<open>unsafeReset\<close> cancel every transaction in the map,
  \<^verbatim>\<open>checkTimeouts\<close> the overdue ones.  The transactions are distinct objects, so the
  iteration order does not matter.
\<close>

definition cancel_where :: "(nat \<Rightarrow> bool) \<Rightarrow> merr \<Rightarrow> TransactionPool \<Rightarrow> (nat \<Rightarrow> Transaction)" where
  "cancel_where P err tp =
     (\<lambda>h. if h \<in> ran (transactions tp) \<and> P h then Cancel err (heap tp h) else heap tp h)"

definition Close :: "TransactionPool \<Rightarrow> TransactionPool" where
  "Close tp =
     (if pool_done tp then tp
      else tp\<lparr>pool_done := True, heap := cancel_where (\<lambda>_. True) ErrTransportClosing tp,
              transactions := Map.empty\<rparr>)"

definition unsafeReset :: "TransactionPool \<Rightarrow> TransactionPool" where
  "unsafeReset tp =
     tp\<lparr>heap := cancel_where (\<lambda>_. True) ErrTransportClosing tp, transactions := Map.empty\<rparr>"

definition overdue :: "nat \<Rightarrow> TransactionPool \<Rightarrow> nat \<Rightarrow> bool" where
  "overdue now tp h \<longleftrightarrow> now - createTime (heap tp h) > timeoutDuration tp"

definition checkTimeouts :: "nat \<Rightarrow> TransactionPool \<Rightarrow> TransactionPool" where
  "checkTimeouts now tp =
     tp\<lparr>heap := cancel_where (overdue now tp) ErrTransactionTimeout tp,
        transactions := (\<lambda>txID. case transactions tp txID of
            None \<Rightarrow> None
          | Some h \<Rightarrow> if overdue now tp h then None else Some h)\<rparr>"

definition GetCount :: "TransactionPool \<Rightarrow> nat" where
  "GetCount tp = card (dom (transactions tp))"

section \<open>The invariant\<close>

text \<open>
  The map is an injection into allocated transactions, each entry carries the
  identifier it is filed under, and a buffered response carries the identifier of
  the transaction it was delivered to.
\<close>

definition tx_id :: "Transaction \<Rightarrow> TransactionID" where
  "tx_id t = Request_GetTransactionID (tx_Request t)"

definition pool_inv :: "TransactionPool \<Rightarrow> bool" where
  "pool_inv tp \<longleftrightarrow>
     (\<forall>i h. transactions tp i = Some h \<longrightarrow> h < fresh tp \<and> tx_id (heap tp h) = i) \<and>
     (\<forall>h < fresh tp. \<forall>r. ResponseCh (heap tp h) = Some r \<longrightarrow>
        Response_GetTransactionID r = tx_id (heap tp h))"

section \<open>Lemmas\<close>

lemma Complete_simps [simp]:
  "tx_id (Complete res t) = tx_id t" "createTime (Complete res t) = createTime t"
  "cancelled (Complete res t)"
  "ResponseCh (Complete (Inl err) t) = ResponseCh t" "ErrCh (Complete (Inr r) t) = ErrCh t"
  by (auto simp: Complete_def tx_id_def split: sum.splits)

lemma ResponseCh_Complete:
  "ResponseCh (Complete (Inr r) t) = Some r' \<longleftrightarrow>
     (ResponseCh t = None \<and> r = r') \<or> ResponseCh t = Some r'"
  by (auto simp: Complete_def split: option.splits)

lemma Cancel_simps [simp]:
  "tx_id (Cancel err t) = tx_id t" "ResponseCh (Cancel err t) = ResponseCh t"
  by (auto simp: Cancel_def)

lemma tx_id_New [simp]: "tx_id (NewTransaction now (SetTransactionID i r)) = i"
  by (simp add: tx_id_def NewTransaction_def SetTransactionID_def Request_GetTransactionID_def)

lemma ucast_low16: "(ucast (w AND 0xFFFF) :: u16) = ucast (w :: u32)"
proof -
  have m: "(0xFFFF :: u32) = mask 16" by (simp add: mask_eq_exp_minus_1)
  show ?thesis unfolding m by (auto intro!: bit_word_eqI simp: bit_simps)
qed

lemma ResponseCh_New [simp]: "ResponseCh (NewTransaction now r) = None"
  by (simp add: NewTransaction_def)

lemma find_id_Suc:
  "find_id (Suc n) txs nid =
     (if txs (ucast nid) = None then (Some (ucast nid), nid + 1) else find_id n txs (nid + 1))"
  by (simp add: Let_def ucast_low16)

lemma find_id_Some:
  "find_id n txs nid = (Some i, nid') \<Longrightarrow> txs i = None \<and> (\<exists>k < n. i = ucast (nid + word_of_nat k) \<and>
     nid' = nid + word_of_nat (Suc k))"
proof (induction n arbitrary: nid)
  case (Suc n)
  show ?case
  proof (cases "txs (ucast nid) = None")
    case True
    with Suc.prems show ?thesis by (auto simp: find_id_Suc simp del: find_id.simps intro!: exI [of _ 0])
  next
    case False
    with Suc.prems have "find_id n txs (nid + 1) = (Some i, nid')"
      by (simp add: find_id_Suc del: find_id.simps)
    from Suc.IH [OF this] obtain k where "txs i = None" "k < n"
      "i = ucast (nid + 1 + word_of_nat k)" "nid' = nid + 1 + word_of_nat (Suc k)" by auto
    then show ?thesis by (auto intro!: exI [of _ "Suc k"] simp: ac_simps)
  qed
qed simp

lemma find_id_None:
  "fst (find_id n txs nid) = None \<longleftrightarrow> (\<forall>k < n. txs (ucast (nid + word_of_nat k)) \<noteq> None)"
proof (induction n arbitrary: nid)
  case (Suc n)
  then show ?case
    by (auto simp: find_id_Suc All_less_Suc2 ac_simps simp del: find_id.simps)
qed simp

text \<open>Every operation keeps the invariant.\<close>

lemma pool_inv_new: "pool_inv (NewTransactionPool t)"
  by (simp add: pool_inv_def NewTransactionPool_def)

lemma pool_inv_Place:
  assumes "pool_inv tp" "Place now req tp = (res, tp')"
  shows "pool_inv tp'"
proof -
  have "h < fresh tp" if "transactions tp i = Some h" for i h
    using assms(1) that by (simp add: pool_inv_def)
  then have "transactions tp i \<noteq> Some (fresh tp)" for i by blast
  with assms show ?thesis
    by (auto simp: pool_inv_def Place_def Let_def less_Suc_eq
        split: if_splits option.splits prod.splits)
qed

lemma pool_inv_Release: "pool_inv tp \<Longrightarrow> pool_inv (snd (Release i tp))"
  by (auto simp: pool_inv_def Release_def unsafeRelease_def split: option.splits)

lemma pool_inv_fail: "pool_inv tp \<Longrightarrow> pool_inv (complete_at h (Inl err) tp)"
  by (auto simp: pool_inv_def complete_at_def)

lemma pool_inv_deliver:
  assumes "pool_inv tp" "h < fresh tp \<Longrightarrow> Response_GetTransactionID r = tx_id (heap tp h)"
  shows "pool_inv (complete_at h (Inr r) tp)"
  using assms by (auto simp: pool_inv_def complete_at_def ResponseCh_Complete)

lemma pool_inv_Close: "pool_inv tp \<Longrightarrow> pool_inv (Close tp)"
  by (auto simp: pool_inv_def Close_def cancel_where_def)

lemma pool_inv_unsafeReset: "pool_inv tp \<Longrightarrow> pool_inv (unsafeReset tp)"
  by (auto simp: pool_inv_def unsafeReset_def cancel_where_def)

lemma pool_inv_checkTimeouts: "pool_inv tp \<Longrightarrow> pool_inv (checkTimeouts now tp)"
  by (auto simp: pool_inv_def checkTimeouts_def cancel_where_def split: option.splits)

section \<open>Properties\<close>



end
