(* ===== verification/Modbus_Conn.thy ===== *)
theory Modbus_Conn
  imports Modbus_Pool Byte_Stream
begin

text \<open>
  \<^verbatim>\<open>src/protocol/modbus/conn.go\<close>: one TCP connection object with its generations.  The
  state is what the mutex protects; \<^verbatim>\<open>closeOnce\<close> and the generation's \<^verbatim>\<open>done\<close> channel
  are the flag \<^verbatim>\<open>torn\<close>.  The goroutines of a generation act through the operations
  below, each of which the code runs under the mutex (or on the pool under its
  own), in any interleaving.  \<^verbatim>\<open>socket_closes\<close> and \<^verbatim>\<open>done_closes\<close> record, per generation,
  how often the socket and the \<^verbatim>\<open>done\<close> channel were closed; a second close of the
  channel would panic.  The generation counter is a natural number: the code's
  \<^verbatim>\<open>uint64\<close> does not wrap in practice.  The heap of transactions outlives the pools.
\<close>

section \<open>State and life cycle\<close>

record TCPConn =
  connected :: bool
  gen :: nat
  torn :: bool
  has_conn :: bool
  pool :: TransactionPool
  writeChan :: "nat list"
  socket_closes :: "nat \<Rightarrow> nat"
  done_closes :: "nat \<Rightarrow> nat"

abbreviation (input) DefaultTransactionTimeout :: nat where "DefaultTransactionTimeout \<equiv> 5"
abbreviation (input) writeChanCap :: nat where "writeChanCap \<equiv> 100"

definition NewTCPConn :: TCPConn where
  "NewTCPConn =
     \<lparr>connected = False, gen = 0, torn = False, has_conn = False,
      pool = NewTransactionPool DefaultTransactionTimeout, writeChan = [],
      socket_closes = (\<lambda>_. 0), done_closes = (\<lambda>_. 0)\<rparr>"

text \<open>A fresh pool for a reconnect; the transactions of the old one stay allocated.\<close>

definition renewPool :: "TransactionPool \<Rightarrow> TransactionPool" where
  "renewPool tp =
     (if pool_done tp
      then (NewTransactionPool DefaultTransactionTimeout)\<lparr>heap := heap tp, fresh := fresh tp\<rparr>
      else unsafeReset tp)"

text \<open>\<^verbatim>\<open>connect\<close>; \<^term>\<open>dial\<close> is the error of dialing, \<^const>\<open>None\<close> also for an injected connection.\<close>

definition connect :: "merr option \<Rightarrow> TCPConn \<Rightarrow> merr option \<times> TCPConn" where
  "connect dial c =
     (if connected c then (Some ErrAlreadyConnected, c)
      else let c = c\<lparr>pool := renewPool (pool c)\<rparr> in
        case dial of
          Some err \<Rightarrow> (Some err, c\<lparr>pool := Close (pool c)\<rparr>)
        | None \<Rightarrow>
            (None, c\<lparr>has_conn := True, gen := Suc (gen c), writeChan := [], torn := False,
                     connected := True\<rparr>))"

definition unsafeTeardown :: "TCPConn \<Rightarrow> TCPConn" where
  "unsafeTeardown c =
     (if torn c then c
      else c\<lparr>torn := True,
             done_closes := (done_closes c)(gen c := Suc (done_closes c (gen c))),
             pool := Close (pool c),
             socket_closes := (if has_conn c
               then (socket_closes c)(gen c := Suc (socket_closes c (gen c)))
               else socket_closes c)\<rparr>)"

definition Disconnect :: "TCPConn \<Rightarrow> TCPConn" where
  "Disconnect c = unsafeTeardown (c\<lparr>connected := False\<rparr>)"

definition setDisconnected :: "nat \<Rightarrow> TCPConn \<Rightarrow> TCPConn" where
  "setDisconnected g c =
     (if g \<noteq> gen c then c else unsafeTeardown (c\<lparr>connected := False\<rparr>))"

section \<open>Sending\<close>

text \<open>
  The first half of \<^verbatim>\<open>Send\<close>: place the request and queue it.  \<^term>\<open>why\<close> is the branch of the
  first \<^verbatim>\<open>select\<close> when the transaction is not queued: the caller's context, or the
  closed connection.
\<close>

datatype queue_choice = Queued | CtxDone | ConnDone

definition Send_begin :: "nat \<Rightarrow> queue_choice \<Rightarrow> Request \<Rightarrow> TCPConn \<Rightarrow> (merr + nat) \<times> TCPConn" where
  "Send_begin now choice request c =
     (if \<not> connected c then (Inl ErrNotConnected, c)
      else case Place now request (pool c) of
        (Inl err, p) \<Rightarrow> (Inl (Wrap ''failed to create transaction'' (Some err)), c\<lparr>pool := p\<rparr>)
      | (Inr (h, request), p) \<Rightarrow>
          (case choice of
             Queued \<Rightarrow> (Inr h, c\<lparr>pool := p, writeChan := writeChan c @ [h]\<rparr>)
           | CtxDone \<Rightarrow>
               (Inl ErrContextCanceled,
                c\<lparr>pool := snd (Release (Request_GetTransactionID request) p)\<rparr>)
           | ConnDone \<Rightarrow>
               (Inl ErrTransportClosing,
                c\<lparr>pool := snd (Release (Request_GetTransactionID request) p)\<rparr>)))"

text \<open>When a branch of that \<^verbatim>\<open>select\<close> is ready: the channel has room, or \<^verbatim>\<open>done\<close> is closed.\<close>

fun ready :: "queue_choice \<Rightarrow> TCPConn \<Rightarrow> bool" where
  "ready Queued c \<longleftrightarrow> length (writeChan c) < writeChanCap"
| "ready CtxDone c \<longleftrightarrow> True"
| "ready ConnDone c \<longleftrightarrow> torn c"

text \<open>The second half: what the waiting caller can receive from its transaction.\<close>

definition Send_result :: "Transaction \<Rightarrow> (merr + Response) set" where
  "Send_result t =
     {Inr r | r. ResponseCh t = Some r} \<union> {Inl e | e. ErrCh t = Some e} \<union> {Inl ErrContextCanceled}"

section \<open>The read loop\<close>

text \<open>
  What one turn of the loop reads: nothing usable yet, a violated invariant (with the
  transaction to fail, when the header was read), or a response.
\<close>

datatype read_result = Retry | Fail "(TransactionID \<times> merr) option" | Frame Response

definition read_iter :: "net_event list \<Rightarrow> read_result \<times> net_event list" where
  "read_iter evs =
     (case read_conn TCPHeaderLength [] evs of
        (Inl Timeout, evs) \<Rightarrow> (Retry, evs)
      | (Inl err, evs) \<Rightarrow> (Fail None, evs)
      | (Inr header, evs) \<Rightarrow>
          (let transactionID = be16_at header 0; protocolID = be16_at header 2;
               len = be16_at header 4; unitID = header ! 6 in
           if protocolID \<noteq> TCPProtocolIdentifier
           then (Fail (Some (transactionID, ErrInvalidProtocolHeader)), evs)
           else if unat len \<le> 1
           then (Fail (Some (transactionID, ErrInvalidResponseLength)), evs)
           else
             (case read_conn (unat len - 1) [] evs of
                (Inl Timeout, evs) \<Rightarrow> (Retry, evs)
              | (Inl err, evs) \<Rightarrow>
                  (Fail (Some (transactionID, Wrap ''read body error'' (Some (IOError err)))), evs)
              | (Inr body, evs) \<Rightarrow>
                  (Frame (NewResponse transactionID unitID (body ! 0) (drop 1 body)), evs))))"

text \<open>
  The effect of a turn of the loop of generation \<^term>\<open>g\<close>.  The pool of an older generation
  is closed and empty, so its loops find no transaction.
\<close>

definition finish_tx :: "nat \<Rightarrow> TransactionID \<Rightarrow> merr + Response \<Rightarrow> TCPConn \<Rightarrow> TCPConn" where
  "finish_tx g txID res c =
     (if g \<noteq> gen c then c
      else case Release txID (pool c) of
        (None, _) \<Rightarrow> c
      | (Some h, p) \<Rightarrow> c\<lparr>pool := complete_at h res p\<rparr>)"

definition processError :: "nat \<Rightarrow> TransactionID \<Rightarrow> merr \<Rightarrow> TCPConn \<Rightarrow> TCPConn" where
  "processError g txID err c = finish_tx g txID (Inl err) c"

fun apply_read :: "nat \<Rightarrow> read_result \<Rightarrow> TCPConn \<Rightarrow> TCPConn" where
  "apply_read g Retry c = c"
| "apply_read g (Fail None) c = setDisconnected g c"
| "apply_read g (Fail (Some (txID, err))) c = setDisconnected g (processError g txID err c)"
| "apply_read g (Frame r) c = finish_tx g (Response_GetTransactionID r) (Inr r) c"

lemma read_iter_progress:
  assumes "read_iter evs = (r, evs')" "r = Retry \<or> (\<exists>x. r = Frame x)"
  shows "length evs' < length evs"
proof (cases "read_conn TCPHeaderLength [] evs")
  case (Pair hd evs1)
  have "hd = Inl Timeout \<or> (\<exists>x. hd = Inr x)"
    using assms Pair by (auto simp: read_iter_def split: sum.splits io_error.splits)
  with Pair have less: "length evs1 < length evs"
    by (auto intro: read_conn_progress)
  show ?thesis
  proof (cases hd)
    case (Inl e)
    then show ?thesis
      using assms Pair less by (auto simp: read_iter_def split: io_error.splits)
  next
    case (Inr header)
    then show ?thesis
      using assms Pair less read_conn_length [of "unat (be16_at header 4) - 1" "[]" evs1]
      by (auto simp: read_iter_def Let_def
          split: if_splits prod.splits sum.splits io_error.splits)
  qed
qed

text \<open>The loop on its own, without interference: it ends when the stream fails.\<close>

function readLoop :: "nat \<Rightarrow> net_event list \<Rightarrow> TCPConn \<Rightarrow> TCPConn" where
  "readLoop g evs c =
     (if g = gen c \<and> torn c then setDisconnected g c
      else case read_iter evs of
        (Retry, evs') \<Rightarrow> readLoop g evs' c
      | (Fail e, evs') \<Rightarrow> setDisconnected g (apply_read g (Fail e) c)
      | (Frame r, evs') \<Rightarrow> readLoop g evs' (apply_read g (Frame r) c))"
  by pat_completeness auto

termination
  by (relation "measure (\<lambda>(g, evs, c). length evs)") (auto dest: read_iter_progress [OF sym])

declare readLoop.simps [simp del]

section \<open>The write loop\<close>

text \<open>
  One turn for generation \<^term>\<open>g\<close>: the queued transaction is skipped when it was
  cancelled, failed when the connection is gone, and written otherwise; \<^term>\<open>werr\<close> is
  the error of the write.  The bytes are what reaches the socket.
\<close>

definition write_step :: "merr option \<Rightarrow> TCPConn \<Rightarrow> byte list \<times> TCPConn" where
  "write_step werr c =
     (case writeChan c of
        [] \<Rightarrow> ([], c)
      | h # hs \<Rightarrow>
          let c = c\<lparr>writeChan := hs\<rparr>; tx = heap (pool c) h in
          if cancelled tx then ([], c)
          else if torn c then
            ([], setDisconnected (gen c) (c\<lparr>pool := complete_at h (Inl ErrTransportClosing) (pool c)\<rparr>))
          else (case werr of
              None \<Rightarrow> (Request_Encode (tx_Request tx), c)
            | Some err \<Rightarrow>
                ([], setDisconnected (gen c) (c\<lparr>pool := complete_at h (Inl err) (pool c)\<rparr>))))"

section \<open>All steps\<close>

inductive conn_step :: "TCPConn \<Rightarrow> TCPConn \<Rightarrow> bool" where
  step_connect: "connect dial c = (err, c') \<Longrightarrow> conn_step c c'"
| step_disconnect: "conn_step c (Disconnect c)"
| step_drop: "conn_step c (setDisconnected g c)"
| step_send: "ready choice c \<Longrightarrow> Send_begin now choice req c = (res, c') \<Longrightarrow> conn_step c c'"
| step_read: "conn_step c (apply_read g r c)"
| step_write: "write_step werr c = (bs, c') \<Longrightarrow> conn_step c c'"
| step_timeout: "conn_step c (c\<lparr>pool := checkTimeouts now (pool c)\<rparr>)"
| step_reset: "conn_step c (c\<lparr>pool := unsafeReset (pool c)\<rparr>)"

text \<open>
  A live connection has its socket and its pool; a connection that was torn down has
  closed both, exactly once, and so has every earlier generation.
\<close>

definition expected_closes :: "TCPConn \<Rightarrow> nat \<Rightarrow> nat" where
  "expected_closes c g = (if 0 < g \<and> (g < gen c \<or> g = gen c \<and> torn c) then 1 else 0)"

definition conn_inv :: "TCPConn \<Rightarrow> bool" where
  "conn_inv c \<longleftrightarrow>
     pool_inv (pool c) \<and>
     (connected c \<longrightarrow> \<not> torn c \<and> \<not> pool_done (pool c)) \<and>
     (has_conn c \<longleftrightarrow> 0 < gen c) \<and>
     (\<not> connected c \<and> 0 < gen c \<longrightarrow> torn c) \<and>
     (torn c \<longrightarrow> pool_done (pool c)) \<and>
     (\<forall>g. socket_closes c g = expected_closes c g) \<and>
     (\<forall>g. done_closes c g \<le> (if g < gen c \<or> g = gen c \<and> torn c then 1 else 0))"

section \<open>Lemmas: every step keeps the invariant\<close>

lemma pool_done_simps [simp]:
  "pool_done (Close tp)" "pool_done (unsafeReset tp) = pool_done tp"
  "pool_done (checkTimeouts now tp) = pool_done tp" "pool_done (complete_at h res tp) = pool_done tp"
  "pool_done (snd (Release i tp)) = pool_done tp" "\<not> pool_done (renewPool tp)"
  by (auto simp: Close_def unsafeReset_def checkTimeouts_def complete_at_def Release_def
      unsafeRelease_def renewPool_def NewTransactionPool_def split: option.splits)

lemma pool_done_Place: "Place now req tp = (res, tp') \<Longrightarrow> pool_done tp' = pool_done tp"
  by (auto simp: Place_def Let_def split: if_splits option.splits prod.splits)

lemma pool_inv_renewPool: "pool_inv tp \<Longrightarrow> pool_inv (renewPool tp)"
  using pool_inv_unsafeReset [of tp]
  by (auto simp: renewPool_def pool_inv_def NewTransactionPool_def)

text \<open>Replacing the pool by another lawful one that is closed exactly when the old one is.\<close>

lemma conn_inv_pool:
  assumes "conn_inv c" "pool_inv p" "pool_done p = pool_done (pool c)"
  shows "conn_inv (c\<lparr>pool := p\<rparr>)"
  using assms by (simp add: conn_inv_def expected_closes_def)

lemma conn_inv_writeChan: "conn_inv c \<Longrightarrow> conn_inv (c\<lparr>writeChan := hs\<rparr>)"
  by (simp add: conn_inv_def expected_closes_def)

lemma conn_inv_new: "conn_inv NewTCPConn"
  by (simp add: conn_inv_def NewTCPConn_def pool_inv_new expected_closes_def)

lemma conn_inv_connect:
  assumes "conn_inv c" "connect dial c = (err, c')"
  shows "conn_inv c'"
proof (cases "connected c")
  case True
  with assms show ?thesis by (simp add: connect_def)
next
  case False
  define p where "p = renewPool (pool c)"
  have p: "pool_inv p" "\<not> pool_done p"
    using assms(1) by (auto simp: p_def conn_inv_def intro: pool_inv_renewPool)
  show ?thesis
  proof (cases dial)
    case None
    define c1 where "c1 = c\<lparr>pool := p, has_conn := True, gen := Suc (gen c), writeChan := [],
      torn := False, connected := True\<rparr>"
    have "c' = c1" using assms(2) False None by (simp add: connect_def p_def c1_def)
    moreover have closes: "expected_closes c1 g = expected_closes c g" for g
      using assms(1) False by (auto simp: expected_closes_def conn_inv_def c1_def)
    moreover have d: "done_closes c g \<le> (if g < gen c \<or> g = gen c \<and> torn c then 1 else 0)" for g
      using assms(1) by (simp add: conn_inv_def)
    have "done_closes c g \<le> Suc 0" "\<not> g < Suc (gen c) \<Longrightarrow> done_closes c g = 0" for g
      using d [of g] by (auto split: if_splits)
    ultimately show ?thesis
      using assms(1) p by (simp add: conn_inv_def closes) (simp add: c1_def)
  next
    case (Some e)
    then have "c' = c\<lparr>pool := Close p\<rparr>"
      using assms(2) False by (simp add: connect_def p_def)
    with assms(1) False p show ?thesis
      by (simp add: conn_inv_def expected_closes_def pool_inv_Close)
  qed
qed

lemma conn_inv_teardown:
  assumes "conn_inv c"
  shows "conn_inv (unsafeTeardown (c\<lparr>connected := False\<rparr>))"
proof (cases "torn c")
  case True
  with assms show ?thesis
    by (simp add: conn_inv_def unsafeTeardown_def expected_closes_def)
next
  case False
  have d: "done_closes c g \<le> (if g < gen c then 1 else 0)" for g
    using assms False by (simp add: conn_inv_def)
  have "done_closes c g \<le> Suc 0" "gen c \<le> g \<Longrightarrow> done_closes c g = 0" for g
    using d [of g] by (simp_all split: if_splits)
  with assms False show ?thesis
    by (simp add: conn_inv_def unsafeTeardown_def expected_closes_def pool_inv_Close) auto
qed

lemma conn_inv_Disconnect: "conn_inv c \<Longrightarrow> conn_inv (Disconnect c)"
  by (simp add: Disconnect_def conn_inv_teardown)

lemma conn_inv_setDisconnected: "conn_inv c \<Longrightarrow> conn_inv (setDisconnected g c)"
  by (simp add: setDisconnected_def conn_inv_teardown)

lemma conn_inv_Send_begin:
  assumes "conn_inv c" "Send_begin now choice req c = (res, c')"
  shows "conn_inv c'"
proof (cases "connected c")
  case False
  with assms show ?thesis by (auto simp: Send_begin_def)
next
  case True
  obtain r p where p: "Place now req (pool c) = (r, p)" by force
  have inv: "pool_inv p" "pool_done p = pool_done (pool c)"
    using assms(1) p pool_inv_Place pool_done_Place by (auto simp: conn_inv_def)
  then have "conn_inv (c\<lparr>pool := p\<rparr>)" "conn_inv (c\<lparr>pool := snd (Release i p)\<rparr>)" for i
    using assms(1) by (auto intro!: conn_inv_pool pool_inv_Release)
  moreover have "conn_inv (c\<lparr>pool := p, writeChan := hs\<rparr>)" for hs
    using conn_inv_writeChan [of "c\<lparr>pool := p\<rparr>"] calculation(1) by simp
  ultimately show ?thesis
    using assms(2) p True
    by (auto simp: Send_begin_def split: sum.splits prod.splits queue_choice.splits)
qed

lemma conn_inv_finish_tx:
  assumes "conn_inv c" "\<And>r. res = Inr r \<Longrightarrow> Response_GetTransactionID r = txID"
  shows "conn_inv (finish_tx g txID res c)"
proof (cases "transactions (pool c) txID")
  case None
  then show ?thesis using assms by (simp add: finish_tx_def Release_def)
next
  case (Some h)
  define p where "p = unsafeRelease txID (pool c)"
  have rel: "Release txID (pool c) = (Some h, p)"
    using Some by (simp add: Release_def p_def)
  have p: "pool_inv p"
    using assms(1) pool_inv_Release [of "pool c" txID] rel by (simp add: conn_inv_def)
  have tx: "tx_id (heap p h) = txID"
    using assms(1) Some by (auto simp: conn_inv_def pool_inv_def p_def unsafeRelease_def)
  have "pool_inv (complete_at h res p)"
  proof (cases res)
    case (Inl e)
    then show ?thesis using p by (simp add: pool_inv_fail)
  next
    case (Inr r)
    then show ?thesis using p assms(2) tx by (auto intro: pool_inv_deliver)
  qed
  moreover have "pool_done p = pool_done (pool c)"
    by (simp add: p_def unsafeRelease_def)
  ultimately show ?thesis
    using assms(1) rel by (auto simp: finish_tx_def intro!: conn_inv_pool)
qed

lemma conn_inv_apply_read: "conn_inv c \<Longrightarrow> conn_inv (apply_read g r c)"
  by (induction g r c rule: apply_read.induct)
    (auto simp: processError_def intro!: conn_inv_setDisconnected conn_inv_finish_tx)

lemma conn_inv_complete:
  "conn_inv c \<Longrightarrow> conn_inv (c\<lparr>pool := complete_at h (Inl err) (pool c)\<rparr>)"
  by (intro conn_inv_pool) (auto simp: conn_inv_def pool_inv_fail)

lemma conn_inv_write_step:
  assumes "conn_inv c" "write_step werr c = (bs, c')"
  shows "conn_inv c'"
proof (cases "writeChan c")
  case Nil
  with assms show ?thesis by (auto simp: write_step_def)
next
  case (Cons h hs)
  define c1 where "c1 = c\<lparr>writeChan := hs\<rparr>"
  have "conn_inv c1" using assms(1) by (simp add: c1_def conn_inv_writeChan)
  then have "conn_inv (setDisconnected (gen c1)
      (c1\<lparr>pool := complete_at h (Inl err) (pool c1)\<rparr>))" for err
    by (intro conn_inv_setDisconnected conn_inv_complete)
  with \<open>conn_inv c1\<close> assms(2) Cons show ?thesis
    by (auto simp: write_step_def Let_def c1_def split: if_splits option.splits)
qed

lemma conn_step_inv: "conn_step c c' \<Longrightarrow> conn_inv c \<Longrightarrow> conn_inv c'"
proof (induction rule: conn_step.induct)
  case (step_timeout c now)
  then show ?case
    by (intro conn_inv_pool) (auto simp: conn_inv_def pool_inv_checkTimeouts)
next
  case (step_reset c)
  then show ?case
    by (intro conn_inv_pool) (auto simp: conn_inv_def pool_inv_unsafeReset)
qed (blast intro: conn_inv_connect conn_inv_Disconnect conn_inv_setDisconnected
      conn_inv_Send_begin conn_inv_apply_read conn_inv_write_step)+

lemma conn_steps_inv: "conn_step\<^sup>*\<^sup>* c c' \<Longrightarrow> conn_inv c \<Longrightarrow> conn_inv c'"
  by (induction rule: rtranclp_induct) (auto dest: conn_step_inv)

lemma gen_simps [simp]:
  "gen (unsafeTeardown c) = gen c" "gen (setDisconnected g c) = gen c"
  "gen (finish_tx g i res c) = gen c" "gen (apply_read g r c) = gen c"
  by (auto simp: unsafeTeardown_def setDisconnected_def finish_tx_def processError_def
      split: option.splits prod.splits)
    (cases "(g, r, c)" rule: apply_read.cases;
     auto simp: unsafeTeardown_def setDisconnected_def finish_tx_def processError_def
      split: option.splits prod.splits)

lemma setDisconnected_dead:
  "g = gen c \<Longrightarrow> \<not> connected (setDisconnected g c) \<and> torn (setDisconnected g c)"
  by (simp add: setDisconnected_def unsafeTeardown_def)

lemma readLoop_ends:
  "g = gen c \<Longrightarrow> \<not> connected (readLoop g evs c) \<and> torn (readLoop g evs c)"
proof (induction g evs c rule: readLoop.induct)
  case (1 g evs c)
  then show ?case
    by (subst (1 2) readLoop.simps)
      (auto simp: setDisconnected_dead simp del: apply_read.simps split: prod.splits read_result.splits)
qed

lemma reach_connected: "conn_step\<^sup>*\<^sup>* NewTCPConn (snd (connect None NewTCPConn))"
  by (rule r_into_rtranclp) (rule step_connect [of None _ "fst (connect None NewTCPConn)"], simp)

lemmas conn_eval =
  connect_def NewTCPConn_def renewPool_def NewTransactionPool_def unsafeReset_def Send_begin_def
  Place_def find_id_Suc [of 15, simplified] NewTransaction_def Let_def

section \<open>Properties\<close>

text \<open>
  C9: one teardown per connection.  In every state the connection object can reach,
  through any interleaving of connects, disconnects, sends, timeouts and the loops of
  any generation, the socket of each connection that is gone has been closed exactly
  once and that of the live one not at all, no generation's \<^verbatim>\<open>done\<close> channel is closed
  twice, and a live connection has an open transaction pool.
\<close>

theorem conn_teardown_once:
  assumes "conn_step\<^sup>*\<^sup>* NewTCPConn c"
  shows "(\<forall>g. socket_closes c g = expected_closes c g \<and> done_closes c g \<le> 1) \<and>
    (connected c \<longrightarrow> \<not> torn c \<and> \<not> pool_done (pool c))"
proof -
  have inv: "conn_inv c" using assms conn_steps_inv conn_inv_new by blast
  have "done_closes c g \<le> 1" for g
  proof -
    have "done_closes c g \<le> (if g < gen c \<or> g = gen c \<and> torn c then 1 else 0)"
      using inv by (simp add: conn_inv_def)
    then show ?thesis by (auto split: if_splits)
  qed
  with inv show ?thesis by (simp add: conn_inv_def)
qed

theorem conn_teardown_once_witness:
  "conn_step\<^sup>*\<^sup>* NewTCPConn (setDisconnected 1 (Disconnect (snd (connect None NewTCPConn)))) \<and>
   socket_closes (setDisconnected 1 (Disconnect (snd (connect None NewTCPConn)))) 1 = 1"
proof -
  let ?c1 = "snd (connect None NewTCPConn)"
  let ?c = "setDisconnected 1 (Disconnect ?c1)"
  have "conn_step\<^sup>*\<^sup>* NewTCPConn (Disconnect ?c1)"
    by (rule rtranclp.rtrancl_into_rtrancl [OF reach_connected]) (rule step_disconnect)
  then have r: "conn_step\<^sup>*\<^sup>* NewTCPConn ?c"
    by (rule rtranclp.rtrancl_into_rtrancl) (rule step_drop)
  have "expected_closes ?c 1 = 1"
    by (simp add: expected_closes_def connect_def NewTCPConn_def Disconnect_def setDisconnected_def
        unsafeTeardown_def)
  then show ?thesis using r conn_teardown_once [OF r] by simp
qed





text \<open>
  The read loop ends.  On any sequence of arriving bytes and passing deadlines the
  loop of the current generation terminates, and when it does the connection is marked
  disconnected and torn down.
\<close>

theorem conn_read_loop_ends:
  "\<not> connected (readLoop (gen c) evs c) \<and> torn (readLoop (gen c) evs c)"
  by (simp add: readLoop_ends)

text \<open>
  Goroutines of an earlier generation are harmless.  After a successful connect no
  loop of an earlier generation can change the connection, whatever it reads.
\<close>

theorem conn_stale_generation:
  assumes "connect dial c = (None, c')" "g \<le> gen c"
  shows "setDisconnected g c' = c' \<and> apply_read g r c' = c'"
proof -
  have "gen c' = Suc (gen c)"
    using assms(1) by (auto simp: connect_def Let_def split: if_splits option.splits)
  with assms(2) show ?thesis
    by (cases "(g, r, c')" rule: apply_read.cases)
      (auto simp: setDisconnected_def processError_def finish_tx_def)
qed

theorem conn_stale_generation_witness:
  "setDisconnected 1 (snd (connect None (Disconnect (snd (connect None NewTCPConn))))) =
     snd (connect None (Disconnect (snd (connect None NewTCPConn))))"
proof -
  let ?c = "Disconnect (snd (connect None NewTCPConn))"
  have "fst (connect None ?c) = None" "gen ?c = 1"
    by (simp_all add: connect_def NewTCPConn_def Disconnect_def unsafeTeardown_def)
  then show ?thesis
    using conn_stale_generation [of None ?c "snd (connect None ?c)" 1 Retry]
    by (metis order_refl prod.collapse)
qed

text \<open>
  A read deadline inside a frame loses it.  When the 100 ms deadline passes after
  three bytes of a response, the loop forgets them, takes the rest for a new header and
  drops the connection without delivering the response.
\<close>

theorem conn_deadline_loses_frame:
  "read_iter (rx (take 3 (Response_Encode (NewResponse 1 1 3 [2, 0, 7]))) @ RxTimeout #
              rx (drop 3 (Response_Encode (NewResponse 1 1 3 [2, 0, 7])))) =
     (Retry, rx (drop 3 (Response_Encode (NewResponse 1 1 3 [2, 0, 7])))) \<and>
   fst (read_iter (rx (drop 3 (Response_Encode (NewResponse 1 1 3 [2, 0, 7]))))) =
     Fail (Some (0, ErrInvalidProtocolHeader))"
proof
  have b: "Response_Encode (NewResponse 1 1 3 [2, 0, 7]) = [0, 1, 0] @ [0, 0, 5, 1, 3, 2, 0, 7]"
    by (simp add: Response_Encode_def NewResponse_def MBAP_Encode_def be16_def)
  show "read_iter (rx (take 3 (Response_Encode (NewResponse 1 1 3 [2, 0, 7]))) @ RxTimeout #
              rx (drop 3 (Response_Encode (NewResponse 1 1 3 [2, 0, 7])))) =
     (Retry, rx (drop 3 (Response_Encode (NewResponse 1 1 3 [2, 0, 7]))))"
    by (simp add: read_iter_def read_conn_timeout del: list.map)
  have r: "read_conn 7 [] (rx ([0, 0, 5, 1, 3, 2, 0] @ [7])) = (Inr [0, 0, 5, 1, 3, 2, 0], rx [7])"
    using read_conn_rx [of "[0, 0, 5, 1, 3, 2, 0]" 7 "[]" "rx [7]"] by simp
  then show "fst (read_iter (rx (drop 3 (Response_Encode (NewResponse 1 1 3 [2, 0, 7]))))) =
     Fail (Some (0, ErrInvalidProtocolHeader))"
    unfolding b by (simp add: read_iter_def be16_at_def get_be16_def)
qed

end
