(* ===== verification/Modbus_System.thy ===== *)
theory Modbus_System
  imports Modbus_Server Modbus_Client Modbus_Conn
begin

text \<open>
  The Modbus client and server put together.  An exchange runs a request through the
  client's connection (pool, write loop), the server's connection loop and handlers,
  and the client's read loop; with it the client's methods act on the server's data
  store.  An abstract device with one atomic step per command is the specification,
  and the lemmas show that client, wire and server together implement it.
\<close>

unbundle bit_operations_syntax

section \<open>Commands and the abstract device\<close>

datatype command =
    CReadCoils Address Quantity
  | CReadInputs Address Quantity
  | CReadHolding Address Quantity
  | CReadInRegs Address Quantity
  | CWriteCoil Address bool
  | CWriteRegister Address u16
  | CWriteCoils Address "bool list"
  | CWriteRegisters Address "u16 list"
  | CReadWrite Address Quantity Address "u16 list"

datatype outcome = Bits "bool list" | Regs "u16 list" | Done

text \<open>What each command does to the device.  The combined command writes before it reads.\<close>

fun exec_device :: "command \<Rightarrow> device \<Rightarrow> outcome \<times> device" where
  "exec_device (CReadCoils a q) d = (Bits (read_range (d_coils d) a (unat q)), d)"
| "exec_device (CReadInputs a q) d = (Bits (read_range (d_inputs d) a (unat q)), d)"
| "exec_device (CReadHolding a q) d = (Regs (read_range (d_holding d) a (unat q)), d)"
| "exec_device (CReadInRegs a q) d = (Regs (read_range (d_inregs d) a (unat q)), d)"
| "exec_device (CWriteCoil a v) d = (Done, d\<lparr>d_coils := write_range (d_coils d) a [v]\<rparr>)"
| "exec_device (CWriteRegister a v) d = (Done, d\<lparr>d_holding := write_range (d_holding d) a [v]\<rparr>)"
| "exec_device (CWriteCoils a vs) d = (Done, d\<lparr>d_coils := write_range (d_coils d) a vs\<rparr>)"
| "exec_device (CWriteRegisters a vs) d = (Done, d\<lparr>d_holding := write_range (d_holding d) a vs\<rparr>)"
| "exec_device (CReadWrite ra rq wa vs) d =
     (let h = write_range (d_holding d) wa vs in
      (Regs (read_range h ra (unat rq)), d\<lparr>d_holding := h\<rparr>))"

text \<open>The limits of the specification.\<close>

fun command_ok :: "command \<Rightarrow> bool" where
  "command_ok (CReadCoils a q) \<longleftrightarrow> 0 < unat q \<and> unat q \<le> MaxCoilCount"
| "command_ok (CReadInputs a q) \<longleftrightarrow> 0 < unat q \<and> unat q \<le> MaxCoilCount"
| "command_ok (CReadHolding a q) \<longleftrightarrow> 0 < unat q \<and> unat q \<le> MaxRegisterCount"
| "command_ok (CReadInRegs a q) \<longleftrightarrow> 0 < unat q \<and> unat q \<le> MaxRegisterCount"
| "command_ok (CWriteCoil a v) \<longleftrightarrow> True"
| "command_ok (CWriteRegister a v) \<longleftrightarrow> True"
| "command_ok (CWriteCoils a vs) \<longleftrightarrow> vs \<noteq> [] \<and> length vs \<le> MaxWriteCoilCount"
| "command_ok (CWriteRegisters a vs) \<longleftrightarrow> vs \<noteq> [] \<and> length vs \<le> MaxWriteRegisterCount"
| "command_ok (CReadWrite ra rq wa vs) \<longleftrightarrow>
     0 < unat rq \<and> unat rq \<le> MaxReadWriteReadCount \<and>
     vs \<noteq> [] \<and> length vs \<le> MaxReadWriteWriteCount"

text \<open>The client method that issues the command.\<close>

fun Client_exec :: "Client \<Rightarrow> ('c, 'w) transport \<Rightarrow> command \<Rightarrow> 'w \<Rightarrow> (merr + outcome) \<times> 'w" where
  "Client_exec c tp (CReadCoils a q) w = map_res (Client_ReadCoils c tp a q w) (\<lambda>v. Inr (Bits v))"
| "Client_exec c tp (CReadInputs a q) w =
     map_res (Client_ReadDiscreteInputs c tp a q w) (\<lambda>v. Inr (Bits v))"
| "Client_exec c tp (CReadHolding a q) w =
     map_res (Client_ReadHoldingRegisters c tp a q w) (\<lambda>v. Inr (Regs v))"
| "Client_exec c tp (CReadInRegs a q) w =
     map_res (Client_ReadInputRegisters c tp a q w) (\<lambda>v. Inr (Regs v))"
| "Client_exec c tp (CWriteCoil a v) w =
     map_res (Client_WriteSingleCoil c tp a v w) (\<lambda>_. Inr Done)"
| "Client_exec c tp (CWriteRegister a v) w =
     map_res (Client_WriteSingleRegister c tp a v w) (\<lambda>_. Inr Done)"
| "Client_exec c tp (CWriteCoils a vs) w =
     map_res (Client_WriteMultipleCoils c tp a vs w) (\<lambda>_. Inr Done)"
| "Client_exec c tp (CWriteRegisters a vs) w =
     map_res (Client_WriteMultipleRegisters c tp a vs w) (\<lambda>_. Inr Done)"
| "Client_exec c tp (CReadWrite ra rq wa vs) w =
     map_res (Client_ReadWriteMultipleRegisters c tp ra rq wa vs w) (\<lambda>v. Inr (Regs v))"

section \<open>An exchange over the wire\<close>

text \<open>
  \<^verbatim>\<open>TCPConn.Send\<close> against a server: place and queue, write, serve, read one frame, and
  receive from the transaction.  A caller that finds neither channel ready waits for
  its context.
\<close>

definition wire_Send :: "'s handlers \<Rightarrow> nat \<Rightarrow> Request \<Rightarrow> TCPConn \<times> 's \<Rightarrow>
    (merr + Response) \<times> (TCPConn \<times> 's)" where
  "wire_Send hs now req = (\<lambda>(c, s).
     (case Send_begin now Queued req c of
        (Inl err, c) \<Rightarrow> (Inl err, (c, s))
      | (Inr h, c) \<Rightarrow>
          (case write_step None c of (bytes, c) \<Rightarrow>
          (case handleConnection hs (rx bytes) new_clientConn s of (out, client, s) \<Rightarrow>
          (case read_iter (rx out) of (r, evs) \<Rightarrow>
             let c = apply_read (gen c) r c; t = heap (pool c) h in
             (case ResponseCh t of
                Some response \<Rightarrow> (Inr response, (c, s))
              | None \<Rightarrow> (Inl (case ErrCh t of Some e \<Rightarrow> e | None \<Rightarrow> ErrContextCanceled), (c, s))))))))"

definition wire :: "'s handlers \<Rightarrow> nat \<Rightarrow> (unit, TCPConn \<times> 's) transport" where
  "wire hs now =
     \<lparr>tp_Conn = (\<lambda>w. (Inr (), w)), tp_Send = (\<lambda>_ req w. wire_Send hs now req w),
      tp_Reset = (\<lambda>_ (c, s). (Disconnect c, s))\<rparr>"

text \<open>A connection with nothing in flight.\<close>

definition quiescent :: "TCPConn \<Rightarrow> bool" where
  "quiescent c \<longleftrightarrow>
     connected c \<and> \<not> torn c \<and> \<not> pool_done (pool c) \<and> writeChan c = [] \<and>
     transactions (pool c) = Map.empty"

text \<open>A run of commands by one client, stopping at the first error.\<close>

fun Client_run :: "Client \<Rightarrow> ('c, 'w) transport \<Rightarrow> command list \<Rightarrow> 'w \<Rightarrow> (merr + outcome list) \<times> 'w" where
  "Client_run c tp [] w = (Inr [], w)"
| "Client_run c tp (cmd # cmds) w =
     (case Client_exec c tp cmd w of
        (Inl err, w') \<Rightarrow> (Inl err, w')
      | (Inr out, w') \<Rightarrow> map_res (Client_run c tp cmds w') (\<lambda>outs. Inr (out # outs)))"

fun device_run :: "command list \<Rightarrow> device \<Rightarrow> outcome list \<times> device" where
  "device_run [] d = ([], d)"
| "device_run (cmd # cmds) d =
     (case exec_device cmd d of (out, d') \<Rightarrow>
      (case device_run cmds d' of (outs, d'') \<Rightarrow> (out # outs, d'')))"

text \<open>
  How a command travels: its function code, the request data the client generates, the
  reply data the server owes, and how the client reads that.
\<close>

fun command_code :: "command \<Rightarrow> FunctionCode" where
  "command_code (CReadCoils a q) = FuncReadCoils"
| "command_code (CReadInputs a q) = FuncReadDiscreteInputs"
| "command_code (CReadHolding a q) = FuncReadHoldingRegisters"
| "command_code (CReadInRegs a q) = FuncReadInputRegisters"
| "command_code (CWriteCoil a v) = FuncWriteSingleCoil"
| "command_code (CWriteRegister a v) = FuncWriteSingleRegister"
| "command_code (CWriteCoils a vs) = FuncWriteMultipleCoils"
| "command_code (CWriteRegisters a vs) = FuncWriteMultipleRegisters"
| "command_code (CReadWrite ra rq wa vs) = FuncReadWriteMultipleRegisters"

fun request_data :: "command \<Rightarrow> merr + byte list" where
  "request_data (CReadCoils a q) = GenerateReadCoilsRequest a q"
| "request_data (CReadInputs a q) = GenerateReadDiscreteInputsRequest a q"
| "request_data (CReadHolding a q) = GenerateReadHoldingRegistersRequest a q"
| "request_data (CReadInRegs a q) = GenerateReadInputRegistersRequest a q"
| "request_data (CWriteCoil a v) = GenerateWriteSingleCoilRequest a v"
| "request_data (CWriteRegister a v) = GenerateWriteSingleRegisterRequest a v"
| "request_data (CWriteCoils a vs) = GenerateWriteMultipleCoilsRequest a vs"
| "request_data (CWriteRegisters a vs) = GenerateWriteMultipleRegistersRequest a vs"
| "request_data (CReadWrite ra rq wa vs) = GenerateReadWriteMultipleRegistersRequest ra rq wa vs"

fun response_data :: "command \<Rightarrow> device \<Rightarrow> byte list" where
  "response_data (CReadCoils a q) d =
     word_of_nat (bytes_for_bits (unat q)) # pack_bits (read_range (d_coils d) a (unat q))"
| "response_data (CReadInputs a q) d =
     word_of_nat (bytes_for_bits (unat q)) # pack_bits (read_range (d_inputs d) a (unat q))"
| "response_data (CReadHolding a q) d =
     word_of_nat (unat q * 2) # be16s (read_range (d_holding d) a (unat q))"
| "response_data (CReadInRegs a q) d =
     word_of_nat (unat q * 2) # be16s (read_range (d_inregs d) a (unat q))"
| "response_data (CWriteCoil a v) d = be16 a @ be16 (if v then CoilOnU16 else CoilOffU16)"
| "response_data (CWriteRegister a v) d = be16 a @ be16 v"
| "response_data (CWriteCoils a vs) d = be16 a @ be16 (word_of_nat (length vs))"
| "response_data (CWriteRegisters a vs) d = be16 a @ be16 (word_of_nat (length vs))"
| "response_data (CReadWrite ra rq wa vs) d =
     word_of_nat (unat rq * 2) #
     be16s (read_range (write_range (d_holding d) wa vs) ra (unat rq))"

fun parse_outcome :: "command \<Rightarrow> byte list \<Rightarrow> merr + outcome" where
  "parse_outcome (CReadCoils a q) data =
     res_bind (ParseReadCoilsResponse data q) (\<lambda>v. Inr (Bits v))"
| "parse_outcome (CReadInputs a q) data =
     res_bind (ParseReadDiscreteInputsResponse data q) (\<lambda>v. Inr (Bits v))"
| "parse_outcome (CReadHolding a q) data =
     res_bind (ParseReadHoldingRegistersResponse data q) (\<lambda>v. Inr (Regs v))"
| "parse_outcome (CReadInRegs a q) data =
     res_bind (ParseReadInputRegistersResponse data q) (\<lambda>v. Inr (Regs v))"
| "parse_outcome (CWriteCoil a v) data =
     res_bind (ParseWriteSingleCoilResponse data) (\<lambda>_. Inr Done)"
| "parse_outcome (CWriteRegister a v) data =
     res_bind (ParseWriteSingleRegisterResponse data) (\<lambda>_. Inr Done)"
| "parse_outcome (CWriteCoils a vs) data =
     res_bind (ParseWriteMultipleCoilsResponse data) (\<lambda>_. Inr Done)"
| "parse_outcome (CWriteRegisters a vs) data =
     res_bind (ParseWriteMultipleRegistersResponse data) (\<lambda>_. Inr Done)"
| "parse_outcome (CReadWrite ra rq wa vs) data =
     res_bind (ParseReadWriteMultipleRegistersResponse data rq) (\<lambda>v. Inr (Regs v))"

text \<open>
  A reply the protocol allows: it answers the transaction and unit of the request,
  echoes the function code or sets the exception bit and carries one exception code,
  and its PDU fits the limit.
\<close>

definition good_reply :: "TransactionID \<Rightarrow> UnitID \<Rightarrow> FunctionCode \<Rightarrow> byte list \<Rightarrow> bool" where
  "good_reply tid u fc out \<longleftrightarrow>
     (\<exists>rdata. out = Response_Encode (NewResponse tid u fc rdata) \<and> length rdata + 1 \<le> MaxPDULength) \<or>
     (\<exists>ec \<in> {ExceptionFunctionCodeNotSupported, ExceptionInvalidDataValue}.
        out = Response_Encode (NewResponse tid u (fc OR ExceptionBit) [ec]))"

text \<open>Outcomes of a handler that keep the server within the protocol.\<close>

definition good_result :: "Request \<Rightarrow> merr + Response \<Rightarrow> bool" where
  "good_result req res \<longleftrightarrow>
     (case res of
        Inl e \<Rightarrow> e = excn req ExceptionInvalidDataValue
      | Inr r \<Rightarrow> \<exists>rdata. r = reply req rdata \<and> length rdata + 1 \<le> MaxPDULength)"

text \<open>The bytes of a request with a given transaction, unit, function code and data.\<close>

definition request_bytes :: "TransactionID \<times> UnitID \<times> FunctionCode \<times> byte list \<Rightarrow> byte list" where
  "request_bytes = (\<lambda>(tid, u, fc, data).
     Request_Encode (SetTransactionID tid (NewRequest u fc data)))"

text \<open>The identification the server reports, as the client sees it and on the wire.\<close>

definition identification :: "byte \<Rightarrow> byte \<Rightarrow> DeviceIdentification" where
  "identification code oid =
     \<lparr>ReadDeviceIDCode = code, ConformityLevel = ConformityLevelBasic, MoreFollows = MoreFollowsNo,
      NextObjectID = 0, NumberOfObjects = word_of_nat (length (includedObjects code oid)),
      Objects = includedObjects code oid\<rparr>"

definition identification_data :: "byte \<Rightarrow> byte \<Rightarrow> byte list" where
  "identification_data code oid =
     [MEIReadDeviceID, code, ConformityLevelBasic, MoreFollowsNo, 0x00,
      word_of_nat (length (includedObjects code oid))] @
     concat (map encodeObject (includedObjects code oid))"

section \<open>One frame through the server\<close>

lemma frame_bytes:
  "Request_Encode (SetTransactionID tid (NewRequest u fc data)) =
     be16 tid @ be16 0 @ be16 (word_of_nat (1 + (1 + length data))) @ [u] @ (fc # data)"
  by (simp add: Request_Encode_def MBAP_Encode_def SetTransactionID_def NewRequest_def)

lemma header_fields:
  fixes tid pid len :: u16
  shows "be16_at (be16 tid @ be16 pid @ be16 len @ [u]) 0 = tid"
    "be16_at (be16 tid @ be16 pid @ be16 len @ [u]) 2 = pid"
    "be16_at (be16 tid @ be16 pid @ be16 len @ [u]) 4 = len"
    "(be16 tid @ be16 pid @ be16 len @ [u]) ! 6 = u"
  by (simp_all add: be16_at_def be16_def nth_append get_be16_be16)

lemma handleConnection_frame:
  assumes "length data + 2 < 2 ^ 16"
    and "serve_request hs tid u (fc # data) s = (Some out, s')"
  shows "handleConnection hs
      (rx (Request_Encode (SetTransactionID tid (NewRequest u fc data))) @ evs) client s =
    (case handleConnection hs evs (count_tx (count_rx fc client)) s' of
       (rest, client', s'') \<Rightarrow> (out @ rest, client', s''))"
proof -
  let ?l = "word_of_nat (1 + (1 + length data)) :: u16"
  let ?h = "be16 tid @ be16 0 @ be16 ?l @ [u]"
  have l: "unat ?l = length data + 2" using unat_len_field [OF assms(1)] .
  have "read_conn 7 [] (rx ?h @ rx (fc # data) @ evs) = (Inr ?h, rx (fc # data) @ evs)"
    using read_conn_rx [of ?h 7 "[]"] by simp
  moreover have "read_conn (unat ?l - 1) [] (rx (fc # data) @ evs) = (Inr (fc # data), evs)"
    unfolding l using read_conn_rx [of "fc # data" "length data + 2 - 1" "[]"] by simp
  ultimately show ?thesis
    unfolding frame_bytes using l assms(2)
    by (subst handleConnection.simps)
      (simp add: header_fields del: of_nat_add of_nat_Suc)
qed

lemma handleConnection_Nil [simp]: "handleConnection hs [] client s = ([], client, s)"
  by (subst handleConnection.simps) (simp add: numeral_eq_Suc)

section \<open>One frame through the client\<close>

lemma read_iter_frame:
  assumes "length data + 2 < 2 ^ 16"
  shows "read_iter (rx (Response_Encode (NewResponse tid u fc data)) @ evs) =
    (Frame (NewResponse tid u fc data), evs)"
proof -
  let ?l = "word_of_nat (1 + (1 + length data)) :: u16"
  let ?h = "be16 tid @ be16 0 @ be16 ?l @ [u]"
  have l: "unat ?l = length data + 2" using unat_len_field [OF assms(1)] .
  have b: "Response_Encode (NewResponse tid u fc data) = ?h @ (fc # data)"
    by (simp add: Response_Encode_def MBAP_Encode_def NewResponse_def)
  have "read_conn 7 [] (rx ?h @ rx (fc # data) @ evs) = (Inr ?h, rx (fc # data) @ evs)"
    using read_conn_rx [of ?h 7 "[]"] by simp
  moreover have "read_conn (unat ?l - 1) [] (rx (fc # data) @ evs) = (Inr (fc # data), evs)"
    unfolding l using read_conn_rx [of "fc # data" "length data + 2 - 1" "[]"] by simp
  ultimately show ?thesis
    unfolding b using l by (simp add: read_iter_def header_fields del: of_nat_add of_nat_Suc)
qed

lemma NewResponse_tid [simp]: "Response_GetTransactionID (NewResponse tid u fc data) = tid"
  by (simp add: Response_GetTransactionID_def NewResponse_def)

section \<open>An exchange\<close>

lemma SetTransactionID_twice [simp]: "SetTransactionID i (SetTransactionID j r) = SetTransactionID i r"
  by (simp add: SetTransactionID_def)

lemma Place_empty:
  assumes "\<not> pool_done p" "transactions p = Map.empty"
  shows "Place now req p =
    (Inr (fresh p, SetTransactionID (ucast (nextID p)) req),
     p\<lparr>nextID := nextID p + 1, transactions := [ucast (nextID p) \<mapsto> fresh p],
       heap := (heap p)(fresh p := NewTransaction now (SetTransactionID (ucast (nextID p)) req)),
       fresh := Suc (fresh p)\<rparr>)"
  using assms find_id_Suc [of 15 "transactions p" "nextID p"]
  by (simp add: Place_def Let_def)

lemma wire_exchange:
  assumes q: "quiescent c" and len: "length data + 2 < 2 ^ 16" "length rdata + 2 < 2 ^ 16"
    and srv: "serve_request hs (ucast (nextID (pool c))) u (fc # data) s =
      (Some (Response_Encode (NewResponse (ucast (nextID (pool c))) u rfc rdata)), s')"
  obtains c' where "quiescent c'"
    "wire_Send hs now (NewRequest u fc data) (c, s) =
       (Inr (NewResponse (ucast (nextID (pool c))) u rfc rdata), (c', s'))"
proof -
  let ?tid = "ucast (nextID (pool c)) :: u16"
  let ?req = "SetTransactionID ?tid (NewRequest u fc data)"
  let ?h = "fresh (pool c)"
  let ?res = "NewResponse ?tid u rfc rdata"
  define p1 where "p1 = (pool c)\<lparr>nextID := nextID (pool c) + 1, transactions := [?tid \<mapsto> ?h],
       heap := (heap (pool c))(?h := NewTransaction now ?req), fresh := Suc ?h\<rparr>"
  define c2 where "c2 = c\<lparr>pool := p1\<rparr>"
  have place: "Place now (NewRequest u fc data) (pool c) = (Inr (?h, ?req), p1)"
    using q by (simp add: Place_empty quiescent_def p1_def)
  have sb: "Send_begin now Queued (NewRequest u fc data) c = (Inr ?h, c2\<lparr>writeChan := [?h]\<rparr>)"
    using q place by (simp add: Send_begin_def quiescent_def c2_def)
  have wr: "write_step None (c2\<lparr>writeChan := [?h]\<rparr>) = (Request_Encode ?req, c2)"
    using q by (simp add: write_step_def quiescent_def c2_def p1_def NewTransaction_def)
  have serve: "handleConnection hs (rx (Request_Encode ?req)) new_clientConn s =
      (Response_Encode ?res, count_tx (count_rx fc new_clientConn), s')"
    using handleConnection_frame [OF len(1) srv, where evs = "[]" and client = new_clientConn] by simp
  have read: "read_iter (rx (Response_Encode ?res)) = (Frame ?res, [])"
    using read_iter_frame [OF len(2), where evs = "[]"] by simp
  define c3 where "c3 = apply_read (gen c2) (Frame ?res) c2"
  have c3: "c3 = c2\<lparr>pool := complete_at ?h (Inr ?res) (unsafeRelease ?tid p1)\<rparr>"
    by (simp add: c3_def finish_tx_def Release_def c2_def) (simp add: p1_def)
  have "ResponseCh (heap (pool c3) ?h) = Some ?res"
    by (simp add: c3 complete_at_def unsafeRelease_def p1_def NewTransaction_def Complete_def)
  then have "wire_Send hs now (NewRequest u fc data) (c, s) = (Inr ?res, (c3, s'))"
    unfolding wire_Send_def
    by (simp add: sb wr serve read c3_def [symmetric] del: apply_read.simps)
  moreover have "quiescent c3"
    using q by (simp add: quiescent_def c3 c2_def p1_def complete_at_def unsafeRelease_def)
  ultimately show thesis using that by blast
qed

section \<open>Encoding and decoding agree\<close>

lemma map_res_call:
  "map_res (call c tp fc rd parse w) f = call c tp fc rd (\<lambda>data. res_bind (parse data) f) w"
  by (auto simp: call_def map_res_def split: sum.splits prod.splits)

lemma call_cong: "(\<And>data. p data = p' data) \<Longrightarrow> call c tp fc rd p w = call c tp fc rd p' w"
  by (rule arg_cong [of p p']) (rule ext)

lemma check_bind: "res_bind (check parse data) (\<lambda>_. Inr x) = res_bind (parse data) (\<lambda>_. Inr x)"
  by (cases "parse data") (auto simp: check_def)

lemma Client_exec_call:
  "Client_exec c tp cmd w = call c tp (command_code cmd) (request_data cmd) (parse_outcome cmd) w"
  by (cases cmd) (auto simp: client_defs map_res_call check_bind intro!: call_cong)

lemmas parse_defs =
  ParseReadCoilsResponse_def ParseReadDiscreteInputsResponse_def
  ParseReadHoldingRegistersResponse_def ParseReadInputRegistersResponse_def
  ParseReadWriteMultipleRegistersResponse_def

lemmas echo_defs =
  ParseWriteSingleCoilResponse_def ParseWriteSingleRegisterResponse_def
  ParseWriteMultipleCoilsResponse_def ParseWriteMultipleRegistersResponse_def

lemma be16_pair:
  "be16_at (be16 a @ be16 b) 0 = a" "be16_at (be16 a @ be16 b) 2 = b"
  using be16_at_append [of "[]" 0 a "be16 b"] be16_at_append [of "be16 a" 2 b "[]"] by simp_all

lemma parse_response_data:
  assumes "command_ok cmd"
  shows "parse_outcome cmd (response_data cmd d) = Inr (fst (exec_device cmd d))"
proof (cases cmd)
  case (CReadCoils a q)
  then show ?thesis using assms bytes_for_coils [of "unat q"]
    by (simp add: parse_defs parseBitResponse_pack unat_count_byte)
next
  case (CReadInputs a q)
  then show ?thesis using assms bytes_for_coils [of "unat q"]
    by (simp add: parse_defs parseBitResponse_pack unat_count_byte)
next
  case (CReadHolding a q)
  then show ?thesis using assms
    by (simp add: parse_defs parseRegisterResponse_be16s unat_count_byte del: of_nat_mult)
next
  case (CReadInRegs a q)
  then show ?thesis using assms
    by (simp add: parse_defs parseRegisterResponse_be16s unat_count_byte del: of_nat_mult)
next
  case (CReadWrite ra rq wa vs)
  then show ?thesis using assms
    by (simp add: parse_defs parseRegisterResponse_be16s unat_count_byte Let_def del: of_nat_mult)
qed (auto simp: echo_defs be16_pair)

section \<open>The default handlers\<close>

text \<open>A request as the server builds it from the wire, and the reply to it.\<close>

lemma server_request [simp]:
  "Data (Request_PDU (SetTransactionID tid (NewRequest u fc data))) = data"
  "FunctionCode (Request_PDU (SetTransactionID tid (NewRequest u fc data))) = fc"
  "reply (SetTransactionID tid (NewRequest u fc data)) rdata = NewResponse tid u fc rdata"
  by (simp_all add: SetTransactionID_def NewRequest_def reply_def Request_GetTransactionID_def
      Request_GetUnitID_def)

lemma default_handlers [simp]:
  "setupDefaultHandlers store 0x01 = Some (\<lambda>req. HandleReadCoils req store)"
  "setupDefaultHandlers store 0x02 = Some (\<lambda>req. HandleReadDiscreteInputs req store)"
  "setupDefaultHandlers store 0x03 = Some (\<lambda>req. HandleReadHoldingRegisters req store)"
  "setupDefaultHandlers store 0x04 = Some (\<lambda>req. HandleReadInputRegisters req store)"
  "setupDefaultHandlers store 0x05 = Some (\<lambda>req. HandleWriteSingleCoil req store)"
  "setupDefaultHandlers store 0x06 = Some (\<lambda>req. HandleWriteSingleRegister req store)"
  "setupDefaultHandlers store 0x0F = Some (\<lambda>req. HandleWriteMultipleCoils req store)"
  "setupDefaultHandlers store 0x10 = Some (\<lambda>req. HandleWriteMultipleRegisters req store)"
  "setupDefaultHandlers store 0x17 = Some (\<lambda>req. HandleReadWriteMultipleRegisters req store)"
  "setupDefaultHandlers store 0x2B = Some (\<lambda>req. HandleReadDeviceIdentification req store)"
  by (simp_all add: setupDefaultHandlers_def SetHandler_def)

lemma default_handlers_dom:
  "dom (setupDefaultHandlers store) =
     {0x2B, 0x17, 0x10, 0x0F, 0x06, 0x05, 0x04, 0x03, 0x02, 0x01}"
  by (simp add: setupDefaultHandlers_def SetHandler_def)

lemma serve_ok:
  assumes "setupDefaultHandlers store fc = Some handler"
    "handler (SetTransactionID tid (NewRequest u fc data)) s = (Inr (NewResponse tid u fc rdata), s')"
  shows "serve_request (setupDefaultHandlers store) tid u (fc # data) s =
    (Some (Response_Encode (NewResponse tid u fc rdata)), s')"
  using assms by (simp add: serve_request_def dispatchRequest_def)

lemma read_bits_ok:
  assumes "0 < unat q" "unat q \<le> m" "readFunc a q = Inr vs" "length vs = unat q"
  shows "handleReadBitValues (SetTransactionID tid (NewRequest u fc (be16 a @ be16 q))) m readFunc =
    Inr (NewResponse tid u fc (word_of_nat (bytes_for_bits (unat q)) # pack_bits vs))"
proof -
  let ?n = "bytes_for_bits (unat q)"
  have "or_bits 1 ([word_of_nat ?n] @ replicate ?n 0) 0 vs = Some ([word_of_nat ?n] @ pack_bits vs)"
    using assms by (intro or_bits_pack) simp_all
  then show ?thesis
    using assms by (auto simp: handleReadBitValues_def be16_pair Let_def)
qed

lemma read_registers_ok:
  assumes "0 < unat q" "unat q \<le> m" "readFunc a q = Inr vs" "length vs = unat q"
  shows "handleReadRegisterValues (SetTransactionID tid (NewRequest u fc (be16 a @ be16 q))) m readFunc =
    Inr (NewResponse tid u fc (word_of_nat (unat q * 2) # be16s vs))"
  using assms by (auto simp: handleReadRegisterValues_def be16_pair Let_def simp del: of_nat_mult)

lemma request_data_ok:
  assumes "command_ok cmd"
  obtains data where "request_data cmd = Inr data" "length data + 2 < 2 ^ 16"
proof (cases cmd)
  case (CWriteCoils a vs)
  have "bytes_for_bits (length vs) < 256"
    using assms CWriteCoils by (intro bytes_for_coils) simp
  with CWriteCoils show ?thesis
    using assms that by (simp add: GenerateWriteMultipleCoilsRequest_ok)
next
  case (CReadWrite ra rq wa vs)
  then have "rq \<noteq> 0" using assms by auto
  with CReadWrite assms that show ?thesis
    by (simp add: GenerateReadWriteMultipleRegistersRequest_def Let_def)
qed (use assms that in \<open>auto simp: GenerateReadCoilsRequest_def GenerateReadDiscreteInputsRequest_def
      GenerateReadHoldingRegistersRequest_def GenerateReadInputRegistersRequest_def
      GenerateWriteSingleCoilRequest_def GenerateWriteSingleRegisterRequest_def
      GenerateWriteMultipleRegistersRequest_def generateReadRequest_ok\<close>)

lemma response_data_length:
  assumes "command_ok cmd"
  shows "length (response_data cmd d) + 1 \<le> MaxPDULength"
proof -
  have "bytes_for_bits n \<le> 251" if "n \<le> MaxCoilCount" for n
    using that by (simp add: bytes_for_bits_def)
  then show ?thesis using assms by (cases cmd) auto
qed

lemmas generate_defs =
  GenerateReadCoilsRequest_def GenerateReadDiscreteInputsRequest_def
  GenerateReadHoldingRegistersRequest_def GenerateReadInputRegistersRequest_def
  GenerateWriteSingleCoilRequest_def GenerateWriteSingleRegisterRequest_def

lemma block_header:
  fixes a :: u16 and n m :: nat
  assumes "n < 2 ^ 16" "m < 256"
  defines "hdr \<equiv> be16 a @ be16 (word_of_nat n) @ [word_of_nat m]"
  shows "be16_at (hdr @ body) 0 = a" "be16_at (hdr @ body) 2 = word_of_nat n"
    "unat ((hdr @ body) ! 4) = m"
  using assms be16_at_append [of "[]" 0 a] be16_at_append [of "be16 a" 2]
  by (simp_all add: nth_append unat_word_of_nat)

context data_store
begin

lemma serve_write_coils:
  assumes "vs \<noteq> []" "length vs \<le> MaxWriteCoilCount"
    "GenerateWriteMultipleCoilsRequest a vs = Inr data"
  shows "\<exists>s'. HandleWriteMultipleCoils (SetTransactionID tid (NewRequest u fc data)) store s =
      (Inr (NewResponse tid u fc (be16 a @ be16 (word_of_nat (length vs)))), s') \<and>
    view s' = (view s)\<lparr>d_coils := write_range (d_coils (view s)) a vs\<rparr>"
proof -
  let ?n = "length vs" and ?m = "bytes_for_bits (length vs)"
  let ?hdr = "be16 a @ be16 (word_of_nat ?n) @ [word_of_nat ?m]"
  have m: "?m < 256" using assms by (intro bytes_for_coils) simp
  have d: "data = ?hdr @ pack_bits vs"
    using assms by (simp add: GenerateWriteMultipleCoilsRequest_ok)
  have h: "be16_at data 0 = a" "be16_at data 2 = word_of_nat ?n" "unat (data ! 4) = ?m"
      "unat (word_of_nat ?n :: u16) = ?n" "length data = 5 + ?m"
    using block_header [of ?n ?m a "pack_bits vs"] m assms d
    by (simp_all add: unat_word_of_nat)
  have v: "unpack_bits 5 data ?n = vs"
    unfolding d by (intro unpack_pack) simp_all
  have "word_of_nat ?n \<noteq> (0 :: u16)"
    using h(4) assms(1) by (metis length_0_conv unat_0)
  then show ?thesis
    using write_coils [OF assms(1,2), of s a] h v assms
    by (auto simp: HandleWriteMultipleCoils_def Let_def split: option.splits prod.splits
        simp del: of_nat_add)
qed

lemma serve_write_registers:
  assumes "vs \<noteq> []" "length vs \<le> MaxWriteRegisterCount"
    "GenerateWriteMultipleRegistersRequest a vs = Inr data"
  shows "\<exists>s'. HandleWriteMultipleRegisters (SetTransactionID tid (NewRequest u fc data)) store s =
      (Inr (NewResponse tid u fc (be16 a @ be16 (word_of_nat (length vs)))), s') \<and>
    view s' = (view s)\<lparr>d_holding := write_range (d_holding (view s)) a vs\<rparr>"
proof -
  let ?n = "length vs"
  let ?hdr = "be16 a @ be16 (word_of_nat ?n) @ [word_of_nat (?n * 2)]"
  have d: "data = ?hdr @ be16s vs"
    using assms by (simp add: GenerateWriteMultipleRegistersRequest_def Let_def del: of_nat_mult)
  have h: "be16_at data 0 = a" "be16_at data 2 = word_of_nat ?n" "unat (data ! 4) = ?n * 2"
      "unat (word_of_nat ?n :: u16) = ?n" "length data = 5 + ?n * 2"
    using block_header [of ?n "?n * 2" a "be16s vs"] assms d
    by (simp_all add: unat_word_of_nat del: of_nat_mult)
  have v: "map (\<lambda>i. be16_at data (5 + 2 * i)) [0..<?n] = vs"
    unfolding d using map_be16_at_be16s [of ?hdr 5 ?n vs "[]"] by (simp del: of_nat_mult)
  have "word_of_nat ?n \<noteq> (0 :: u16)"
    using h(4) assms(1) by (metis length_0_conv unat_0)
  then show ?thesis
    using write_registers [OF assms(1,2), of s a] h v assms
    by (auto simp: HandleWriteMultipleRegisters_def Let_def split: option.splits prod.splits
        simp del: of_nat_mult)
qed
end

context data_store
begin

lemma serve_read_write:
  assumes "command_ok (CReadWrite ra rq wa vs)"
    "GenerateReadWriteMultipleRegistersRequest ra rq wa vs = Inr data"
  shows "\<exists>s'. HandleReadWriteMultipleRegisters (SetTransactionID tid (NewRequest u fc data)) store s =
      (Inr (NewResponse tid u fc (response_data (CReadWrite ra rq wa vs) (view s))), s') \<and>
    view s' = (view s)\<lparr>d_holding := write_range (d_holding (view s)) wa vs\<rparr>"
proof -
  let ?n = "length vs"
  let ?hdr = "be16 ra @ be16 rq @ be16 wa @ be16 (word_of_nat ?n) @ [word_of_nat (?n * 2)]"
  have rq: "rq \<noteq> 0" using assms(1) by auto
  have d: "data = ?hdr @ be16s vs"
    using assms rq
    by (simp add: GenerateReadWriteMultipleRegistersRequest_def Let_def del: of_nat_mult)
  have h: "be16_at data 0 = ra" "be16_at data 2 = rq" "be16_at data 4 = wa"
      "be16_at data 6 = word_of_nat ?n" "unat (data ! 8) = ?n * 2"
      "unat (word_of_nat ?n :: u16) = ?n" "length data = 9 + ?n * 2"
    using assms be16_at_append [of "[]" 0 ra] be16_at_append [of "be16 ra" 2 rq]
      be16_at_append [of "be16 ra @ be16 rq" 4 wa]
      be16_at_append [of "be16 ra @ be16 rq @ be16 wa" 6 "word_of_nat ?n"]
    by (simp_all add: d nth_append unat_word_of_nat del: of_nat_mult)
  have v: "map (\<lambda>i. be16_at data (9 + 2 * i)) [0..<?n] = vs"
    unfolding d using map_be16_at_be16s [of ?hdr 9 ?n vs "[]"] by (simp del: of_nat_mult)
  have n0: "word_of_nat ?n \<noteq> (0 :: u16)"
    using h(6) assms(1) by (metis command_ok.simps(9) length_0_conv unat_0)
  obtain s' where w: "WriteMultipleRegisters store s wa vs = (None, s')"
      "view s' = (view s)\<lparr>d_holding := write_range (d_holding (view s)) wa vs\<rparr>"
    using write_registers [of vs s wa] assms(1) by (cases "WriteMultipleRegisters store s wa vs") auto
  have "ReadHoldingRegisters store s' ra rq = Inr (read_range (d_holding (view s')) ra (unat rq))"
    using assms(1) by (intro read_holding) simp_all
  with h v w n0 rq assms(1) show ?thesis
    by (simp add: HandleReadWriteMultipleRegisters_def Let_def del: of_nat_mult)
qed

lemma serve_command:
  assumes ok: "command_ok cmd" and data: "request_data cmd = Inr data"
  obtains s' where
    "serve_request (setupDefaultHandlers store) tid u (command_code cmd # data) s =
       (Some (Response_Encode (NewResponse tid u (command_code cmd) (response_data cmd (view s)))), s')"
    "view s' = snd (exec_device cmd (view s))"
proof -
  have "\<exists>s'. the (setupDefaultHandlers store (command_code cmd))
        (SetTransactionID tid (NewRequest u (command_code cmd) data)) s =
      (Inr (NewResponse tid u (command_code cmd) (response_data cmd (view s))), s') \<and>
      view s' = snd (exec_device cmd (view s))"
  proof (cases cmd)
    case (CReadCoils a q)
    then show ?thesis using ok data read_coils [of q s a]
      by (auto simp: generate_defs generateReadRequest_ok HandleReadCoils_def intro!: read_bits_ok)
  next
    case (CReadInputs a q)
    then show ?thesis using ok data read_inputs [of q s a]
      by (auto simp: generate_defs generateReadRequest_ok HandleReadDiscreteInputs_def
          intro!: read_bits_ok)
  next
    case (CReadHolding a q)
    then show ?thesis using ok data read_holding [of q s a]
      by (auto simp: generate_defs generateReadRequest_ok HandleReadHoldingRegisters_def
          intro!: read_registers_ok simp del: of_nat_mult)
  next
    case (CReadInRegs a q)
    then show ?thesis using ok data read_inregs [of q s a]
      by (auto simp: generate_defs generateReadRequest_ok HandleReadInputRegisters_def
          intro!: read_registers_ok simp del: of_nat_mult)
  next
    case (CWriteCoil a v)
    then show ?thesis using data write_coil [of s a v]
      by (cases "WriteSingleCoil store s a v")
        (auto simp: generate_defs HandleWriteSingleCoil_def be16_pair Let_def split: if_splits)
  next
    case (CWriteRegister a v)
    then show ?thesis using data write_register [of s a v]
      by (cases "WriteSingleRegister store s a v")
        (auto simp: generate_defs HandleWriteSingleRegister_def be16_pair Let_def)
  next
    case (CWriteCoils a vs)
    then show ?thesis using ok data serve_write_coils [of vs a data] by simp
  next
    case (CWriteRegisters a vs)
    then show ?thesis using ok data serve_write_registers [of vs a data] by simp
  next
    case (CReadWrite ra rq wa vs)
    then show ?thesis using ok data serve_read_write [of ra rq wa vs data]
      by (simp add: Let_def del: response_data.simps command_ok.simps)
  qed
  moreover obtain handler where "setupDefaultHandlers store (command_code cmd) = Some handler"
    by (cases cmd) auto
  ultimately show thesis using that serve_ok by (metis option.sel)
qed
end

section \<open>Refinement of the device\<close>

lemma ToError_ok: "\<not> IsException fc \<Longrightarrow> ToError (NewResponse tid u fc data) = None"
  by (simp add: ToError_def Response_IsException_def NewResponse_def)

lemma command_code_no_exception [simp]: "\<not> IsException (command_code cmd)"
  by (cases cmd) (simp_all add: IsException_def)

context data_store
begin

text \<open>One command through client, wire and server is one step of the device.\<close>

lemma client_refines_device:
  assumes "command_ok cmd" "quiescent c" "0 \<le> retries cl"
  obtains c' s' where "quiescent c'" "view s' = snd (exec_device cmd (view s))"
    "Client_exec cl (wire (setupDefaultHandlers store) now) cmd (c, s) =
       (Inr (fst (exec_device cmd (view s))), (c', s'))"
proof -
  let ?hs = "setupDefaultHandlers store" and ?fc = "command_code cmd"
  let ?rd = "response_data cmd (view s)"
  obtain data where data: "request_data cmd = Inr data" "length data + 2 < 2 ^ 16"
    using request_data_ok [OF assms(1)] .
  obtain s' where s': "view s' = snd (exec_device cmd (view s))"
    "serve_request ?hs (ucast (nextID (pool c))) (unitID cl) (?fc # data) s =
       (Some (Response_Encode (NewResponse (ucast (nextID (pool c))) (unitID cl) ?fc ?rd)), s')"
    using serve_command [OF assms(1) data(1)] by metis
  have "length ?rd + 2 < 2 ^ 16"
    using response_data_length [OF assms(1), of "view s"] by simp
  from wire_exchange [OF assms(2) data(2) this s'(2), of now] obtain c' where c': "quiescent c'"
    "wire_Send ?hs now (NewRequest (unitID cl) ?fc data) (c, s) =
       (Inr (NewResponse (ucast (nextID (pool c))) (unitID cl) ?fc ?rd), (c', s'))" .
  have "send cl (wire ?hs now) ?fc data (c, s) =
      (Inr (NewResponse (ucast (nextID (pool c))) (unitID cl) ?fc ?rd), (c', s'))"
    using send_first [of "wire ?hs now" "(c, s)" "()" "(c, s)" cl ?fc data] c'(2) assms(3)
    by (simp add: wire_def ToError_ok)
  then have "Client_exec cl (wire ?hs now) cmd (c, s) =
      (Inr (fst (exec_device cmd (view s))), (c', s'))"
    using data(1) parse_response_data [OF assms(1), of "view s"]
    by (simp add: Client_exec_call call_def) (simp add: NewResponse_def)
  with c'(1) s'(1) show thesis using that by blast
qed

text \<open>A whole run of commands is a run of the device.\<close>

lemma client_run_refines_device:
  assumes "list_all command_ok cmds" "quiescent c" "0 \<le> retries cl"
  obtains c' s' where "quiescent c'" "view s' = snd (device_run cmds (view s))"
    "Client_run cl (wire (setupDefaultHandlers store) now) cmds (c, s) =
       (Inr (fst (device_run cmds (view s))), (c', s'))"
proof -
  have "\<exists>c' s'. quiescent c' \<and> view s' = snd (device_run cmds (view s)) \<and>
      Client_run cl (wire (setupDefaultHandlers store) now) cmds (c, s) =
        (Inr (fst (device_run cmds (view s))), (c', s'))"
    using assms
  proof (induction cmds arbitrary: c s)
    case (Cons cmd cmds)
    have "command_ok cmd" using Cons.prems by simp
    from client_refines_device [OF this Cons.prems(2,3), of s now]
    obtain c1 s1 where 1: "quiescent c1" "view s1 = snd (exec_device cmd (view s))"
      "Client_exec cl (wire (setupDefaultHandlers store) now) cmd (c, s) =
         (Inr (fst (exec_device cmd (view s))), (c1, s1))" .
    with Cons.IH [of c1 s1] Cons.prems show ?case
      by (auto split: prod.splits)
  qed auto
  with that show thesis by blast
qed
end

section \<open>Every request gets a reply the protocol allows\<close>

lemma unat_pos [simp]: "(w :: 'a::len word) \<noteq> 0 \<Longrightarrow> 0 < unat w"
  by (simp add: unat_gt_0)

lemma good_result_simps [simp]:
  "good_result req (Inl (excn req ExceptionInvalidDataValue))"
  "length rdata < MaxPDULength \<Longrightarrow> good_result req (Inr (reply req rdata))"
  by (auto simp: good_result_def)

lemma good_read_bits:
  assumes "\<And>a q. \<lbrakk>0 < unat q; unat q \<le> MaxCoilCount\<rbrakk> \<Longrightarrow>
    \<exists>vs. readFunc a q = Inr vs \<and> length vs = unat q"
  shows "good_result req (handleReadBitValues req MaxCoilCount readFunc)"
proof -
  define data where "data = Data (Request_PDU req)"
  define a where "a = be16_at data 0"
  define q where "q = be16_at data 2"
  let ?n = "bytes_for_bits (unat q)"
  consider "length data \<noteq> 4 \<or> q = 0 \<or> unat q > MaxCoilCount"
    | "length data = 4" "q \<noteq> 0" "unat q \<le> MaxCoilCount" by linarith
  then show ?thesis
  proof cases
    case 1
    then show ?thesis
      by (auto simp: handleReadBitValues_def Let_def data_def a_def q_def)
  next
    case 2
    then obtain vs where vs: "readFunc a q = Inr vs" "length vs = unat q"
      using assms [of q a] by auto
    have "or_bits 1 ([word_of_nat ?n] @ replicate ?n 0) 0 vs = Some ([word_of_nat ?n] @ pack_bits vs)"
      using vs by (intro or_bits_pack) simp_all
    then have "handleReadBitValues req MaxCoilCount readFunc =
        Inr (reply req (word_of_nat ?n # pack_bits vs))"
      using 2 vs by (simp add: handleReadBitValues_def Let_def data_def a_def q_def)
    moreover have "?n < 252" using 2 by (simp add: bytes_for_bits_def)
    ultimately show ?thesis using vs by simp
  qed
qed

lemma good_read_registers:
  assumes "\<And>a q. \<lbrakk>0 < unat q; unat q \<le> MaxRegisterCount\<rbrakk> \<Longrightarrow>
    \<exists>vs. readFunc a q = Inr vs \<and> length vs = unat q"
  shows "good_result req (handleReadRegisterValues req MaxRegisterCount readFunc)"
proof -
  define data where "data = Data (Request_PDU req)"
  define a where "a = be16_at data 0"
  define q where "q = be16_at data 2"
  consider "length data \<noteq> 4 \<or> q = 0 \<or> unat q > MaxRegisterCount"
    | "length data = 4" "q \<noteq> 0" "unat q \<le> MaxRegisterCount" by linarith
  then show ?thesis
  proof cases
    case 1
    then show ?thesis
      by (auto simp: handleReadRegisterValues_def Let_def data_def a_def q_def)
  next
    case 2
    then obtain vs where vs: "readFunc a q = Inr vs" "length vs = unat q"
      using assms [of q a] by auto
    with 2 show ?thesis
      by (simp add: handleReadRegisterValues_def Let_def data_def a_def q_def del: of_nat_mult)
  qed
qed

lemma includedObjects_small:
  "length (concat (map encodeObject (includedObjects code oid))) + 7 \<le> MaxPDULength"
proof -
  have one: "length (concat (map encodeObject (case objectValues i of None \<Rightarrow> [] | Some value \<Rightarrow>
      [\<lparr>obj_ID = i, obj_Length = word_of_nat (length value), obj_Value = value\<rparr>]))) \<le> 42" for i
    by (simp add: objectValues_def encodeObject_def bytes_of_def Let_def)
  show ?thesis
    using one [of oid]
    by (simp add: includedObjects_def objectsToInclude_def objectValues_def encodeObject_def
        bytes_of_def Let_def)
qed

context data_store
begin

lemma good_write_coil: "good_result req (fst (HandleWriteSingleCoil req store s))"
  using write_coil [of s]
  by (auto simp: HandleWriteSingleCoil_def Let_def split: prod.splits option.splits)
    (metis fst_conv option.distinct(1))+

lemma good_write_register: "good_result req (fst (HandleWriteSingleRegister req store s))"
  using write_register [of s]
  by (auto simp: HandleWriteSingleRegister_def Let_def split: prod.splits option.splits)
    (metis fst_conv option.distinct(1))+

lemma good_write_coils: "good_result req (fst (HandleWriteMultipleCoils req store s))"
proof -
  define data where "data = Data (Request_PDU req)"
  define q where "q = be16_at data 2"
  have w: "fst (WriteMultipleCoils store s a (unpack_bits 5 data (unat q))) = None"
    if "q \<noteq> 0" "unat q \<le> MaxWriteCoilCount" for a
    using that by (intro conjunct1 [OF write_coils]) (auto simp: unpack_bits_def)
  show ?thesis
    using w [of "be16_at data 0"]
    by (auto simp: HandleWriteMultipleCoils_def Let_def data_def [symmetric] q_def [symmetric]
        not_less split: prod.splits option.splits)
qed

lemma good_write_registers: "good_result req (fst (HandleWriteMultipleRegisters req store s))"
proof -
  define data where "data = Data (Request_PDU req)"
  define q where "q = be16_at data 2"
  have w: "fst (WriteMultipleRegisters store s a (map f [0..<unat q])) = None"
    if "q \<noteq> 0" "unat q \<le> MaxWriteRegisterCount" for a f
    using that by (intro conjunct1 [OF write_registers]) auto
  show ?thesis
    using w [of "be16_at data 0"]
    by (auto simp: HandleWriteMultipleRegisters_def Let_def data_def [symmetric] q_def [symmetric]
        not_less split: prod.splits option.splits)
      (metis fst_conv option.distinct(1))
qed

lemma good_read_write: "good_result req (fst (HandleReadWriteMultipleRegisters req store s))"
proof -
  define data where "data = Data (Request_PDU req)"
  define rq where "rq = be16_at data 2"
  define q where "q = be16_at data 6"
  have w: "fst (WriteMultipleRegisters store s a (map f [0..<unat q])) = None"
    if "q \<noteq> 0" "unat q \<le> MaxReadWriteWriteCount" for a f
    using that by (intro conjunct1 [OF write_registers]) auto
  have r: "ReadHoldingRegisters store s' a rq = Inr (read_range (d_holding (view s')) a (unat rq))"
    if "rq \<noteq> 0" "unat rq \<le> MaxReadWriteReadCount" for a s'
    using that by (intro read_holding) auto
  show ?thesis
    using w [of "be16_at data 4"] r
    by (auto simp: HandleReadWriteMultipleRegisters_def Let_def data_def [symmetric]
        q_def [symmetric] rq_def [symmetric] not_less split: prod.splits option.splits
        simp del: of_nat_mult)
      (metis fst_conv option.distinct(1))
qed

lemma default_handler_good:
  assumes "setupDefaultHandlers store (FunctionCode (Request_PDU req)) = Some handler"
  shows "good_result req (fst (handler req s))"
proof -
  have "FunctionCode (Request_PDU req) \<in> dom (setupDefaultHandlers store)" using assms by auto
  then consider "FunctionCode (Request_PDU req) = 0x2B" | "FunctionCode (Request_PDU req) = 0x17"
    | "FunctionCode (Request_PDU req) = 0x10" | "FunctionCode (Request_PDU req) = 0x0F"
    | "FunctionCode (Request_PDU req) = 0x06" | "FunctionCode (Request_PDU req) = 0x05"
    | "FunctionCode (Request_PDU req) = 0x04" | "FunctionCode (Request_PDU req) = 0x03"
    | "FunctionCode (Request_PDU req) = 0x02" | "FunctionCode (Request_PDU req) = 0x01"
    unfolding default_handlers_dom by auto
  then show ?thesis
  proof cases
    case 1
    with assms includedObjects_small show ?thesis
      by (auto simp: HandleReadDeviceIdentification_def Let_def less_eq_Suc_le)
  next
    case 2
    with assms show ?thesis by (auto simp: good_read_write)
  next
    case 3
    with assms show ?thesis by (auto simp: good_write_registers)
  next
    case 4
    with assms show ?thesis by (auto simp: good_write_coils)
  next
    case 5
    with assms show ?thesis by (auto simp: good_write_register)
  next
    case 6
    with assms show ?thesis by (auto simp: good_write_coil)
  next
    case 7
    with assms read_inregs show ?thesis
      by (auto simp: HandleReadInputRegisters_def intro!: good_read_registers)
  next
    case 8
    with assms read_holding show ?thesis
      by (auto simp: HandleReadHoldingRegisters_def intro!: good_read_registers)
  next
    case 9
    with assms read_inputs show ?thesis
      by (auto simp: HandleReadDiscreteInputs_def intro!: good_read_bits)
  next
    case 10
    with assms read_coils show ?thesis
      by (auto simp: HandleReadCoils_def intro!: good_read_bits)
  qed
qed

lemma serve_good:
  "\<exists>out s'. serve_request (setupDefaultHandlers store) tid u (fc # data) s = (Some out, s') \<and>
     good_reply tid u fc out"
proof (cases "setupDefaultHandlers store fc")
  case None
  then show ?thesis
    by (auto simp: serve_request_def dispatchRequest_def good_reply_def)
next
  case (Some handler)
  let ?req = "SetTransactionID tid (NewRequest u fc data)"
  obtain r s' where h: "handler ?req s = (r, s')" by fastforce
  have "good_result ?req r"
    using default_handler_good [of ?req handler s] Some h by simp
  with Some h show ?thesis
    by (cases r) (auto simp: serve_request_def dispatchRequest_def good_reply_def good_result_def
        excn_def)
qed
end

section \<open>Requests in sequence\<close>

context data_store
begin

lemma serve_stream:
  assumes "\<forall>(tid, u, fc, data) \<in> set reqs. length data + 2 < 2 ^ 16"
  shows "\<exists>outs client' s'.
    handleConnection (setupDefaultHandlers store)
      (rx (concat (map request_bytes reqs))) client s = (concat outs, client', s') \<and>
    list_all2 (\<lambda>(tid, u, fc, data) out. good_reply tid u fc out) reqs outs \<and>
    rxCount client' = rxCount client + word_of_nat (length reqs) \<and>
    txCount client' = txCount client + word_of_nat (length reqs)"
  using assms
proof (induction reqs arbitrary: client s)
  case Nil
  then show ?case by (intro exI [of _ "[]"]) simp
next
  case (Cons r reqs)
  obtain tid u fc data where r: "r = (tid, u, fc, data)" by (cases r) auto
  let ?hs = "setupDefaultHandlers store"
  obtain out s1 where 1: "serve_request ?hs tid u (fc # data) s = (Some out, s1)"
    "good_reply tid u fc out"
    using serve_good by blast
  let ?cl = "count_tx (count_rx fc client)"
  obtain outs client' s' where 2:
    "handleConnection ?hs (rx (concat (map request_bytes reqs))) ?cl s1 = (concat outs, client', s')"
    "list_all2 (\<lambda>(tid, u, fc, data) out. good_reply tid u fc out) reqs outs"
    "rxCount client' = rxCount ?cl + word_of_nat (length reqs)"
    "txCount client' = txCount ?cl + word_of_nat (length reqs)"
    using Cons.IH [of ?cl s1] Cons.prems by auto
  have "handleConnection ?hs (rx (concat (map request_bytes (r # reqs)))) client s =
      (concat (out # outs), client', s')"
    using handleConnection_frame [OF _ 1(1), where client = client and
        evs = "rx (concat (map request_bytes reqs))"] Cons.prems 2(1)
    by (simp add: r request_bytes_def)
  then show ?case
    using 1(2) 2(2-4) r
    by (intro exI [of _ "out # outs"] exI [of _ client'] exI [of _ s'])
      (simp add: count_tx_def count_rx_def ac_simps)
qed
end

lemma quiescent_connect: "quiescent (snd (connect None NewTCPConn))"
  by (simp add: quiescent_def connect_def NewTCPConn_def renewPool_def NewTransactionPool_def
      unsafeReset_def)

lemma call_exchange:
  assumes "quiescent c" "0 \<le> retries cl" "length data + 2 < 2 ^ 16" "length rdata + 2 < 2 ^ 16"
    and "serve_request hs (ucast (nextID (pool c))) (unitID cl) (fc # data) s =
      (Some (Response_Encode (NewResponse (ucast (nextID (pool c))) (unitID cl) rfc rdata)), s')"
  obtains c' where "quiescent c'"
    "call cl (wire hs now) fc (Inr data) parse (c, s) =
       ((if IsException rfc then Inl (ModbusError rfc (if rdata = [] then 0 else rdata ! 0))
         else parse rdata), (c', s'))"
proof -
  let ?r = "NewResponse (ucast (nextID (pool c))) (unitID cl) rfc rdata"
  obtain c' where c': "quiescent c'"
    "wire_Send hs now (NewRequest (unitID cl) fc data) (c, s) = (Inr ?r, (c', s'))"
    using wire_exchange [OF assms(1,3,4,5), of now] by metis
  have "send cl (wire hs now) fc data (c, s) =
      (case ToError ?r of Some err \<Rightarrow> (Inl err, (c', s')) | None \<Rightarrow> (Inr ?r, (c', s')))"
    using send_first [of "wire hs now" "(c, s)" "()" "(c, s)" cl fc data] c'(2) assms(2)
    by (simp add: wire_def)
  then have "call cl (wire hs now) fc (Inr data) parse (c, s) =
       ((if IsException rfc then Inl (ModbusError rfc (if rdata = [] then 0 else rdata ! 0))
         else parse rdata), (c', s'))"
    by (auto simp: call_def ToError_def Response_IsException_def GetException_def NewResponse_def)
  with c'(1) show thesis using that by blast
qed

lemma includedObjects_ok: "list_all object_ok (includedObjects code oid)"
  by (simp add: includedObjects_def objectsToInclude_def objectValues_def object_ok_def bytes_of_def)

lemma encodeObject_ok: "object_ok obj \<Longrightarrow> encodeObject obj = object_bytes obj"
  by (simp add: encodeObject_def object_ok_def object_bytes_def Let_def)

lemma includedObjects_count: "length (includedObjects code oid) < 256"
  by (simp add: includedObjects_def objectsToInclude_def objectValues_def)

lemma parse_identification:
  "ParseReadDeviceIdentificationResponse (identification_data code oid) =
     Inr (identification code oid)"
proof -
  let ?objs = "includedObjects code oid"
  let ?hdr = "[MEIReadDeviceID, code, ConformityLevelBasic, MoreFollowsNo, 0x00,
      word_of_nat (length ?objs)]"
  have "concat (map encodeObject ?objs) = concat (map object_bytes ?objs)"
    using includedObjects_ok [of code oid]
    by (intro arg_cong [of _ _ concat] map_cong) (auto simp: list_all_iff encodeObject_ok)
  then have "parseObjects (?hdr @ concat (map encodeObject ?objs)) 6 (length ?objs) = Inr ?objs"
    using parseObjects_encoded [OF includedObjects_ok, of ?hdr 6 code oid "[]"] by simp
  then show ?thesis
    using unat_count_byte [OF includedObjects_count [of code oid]]
    by (simp add: ParseReadDeviceIdentificationResponse_def identification_data_def
        identification_def)
qed

section \<open>Properties\<close>

text \<open>
  C1: the whole Modbus stack refines the abstract device.  For every sequence of
  commands within the limits of the specification, issued by a client whose
  connection is idle against a server with the memory store, each client method
  returns what the device returns for the same commands in the same order, the store
  ends up presenting the device's final state, and the connection is idle again.
  This covers request encoding, transaction placement, framing in both directions,
  dispatch, the handlers, the store (addresses wrap at 65536) and response parsing.
\<close>

theorem modbus_run_refines_device:
  assumes "list_all command_ok cmds" "quiescent c" "0 \<le> retries cl"
  shows "\<exists>c' s'. quiescent c' \<and> mem_device s' = snd (device_run cmds (mem_device s)) \<and>
    Client_run cl (wire (setupDefaultHandlers memoryStore) now) cmds (c, s) =
      (Inr (fst (device_run cmds (mem_device s))), (c', s'))"
  using mem_store.client_run_refines_device [OF assms, of s now] by metis

theorem modbus_run_refines_device_witness:
  "fst (device_run [CWriteRegisters 0xFFFF [7, 8], CReadHolding 0 1] (mem_device NewMemoryStore)) =
     [Done, Regs [8]] \<and>
   (\<exists>c' s'. quiescent c' \<and>
      mem_device s' = snd (device_run [CWriteRegisters 0xFFFF [7, 8], CReadHolding 0 1]
        (mem_device NewMemoryStore)) \<and>
      Client_run \<lparr>unitID = 1, retries = 0\<rparr> (wire (setupDefaultHandlers memoryStore) 0)
        [CWriteRegisters 0xFFFF [7, 8], CReadHolding 0 1]
        (snd (connect None NewTCPConn), NewMemoryStore) =
      (Inr (fst (device_run [CWriteRegisters 0xFFFF [7, 8], CReadHolding 0 1]
        (mem_device NewMemoryStore))), (c', s')))"
proof
  show "fst (device_run [CWriteRegisters 0xFFFF [7, 8], CReadHolding 0 1] (mem_device NewMemoryStore)) =
     [Done, Regs [8]]"
    by (simp add: write_range_def read_range_def)
  show "\<exists>c' s'. quiescent c' \<and>
      mem_device s' = snd (device_run [CWriteRegisters 0xFFFF [7, 8], CReadHolding 0 1]
        (mem_device NewMemoryStore)) \<and>
      Client_run \<lparr>unitID = 1, retries = 0\<rparr> (wire (setupDefaultHandlers memoryStore) 0)
        [CWriteRegisters 0xFFFF [7, 8], CReadHolding 0 1]
        (snd (connect None NewTCPConn), NewMemoryStore) =
      (Inr (fst (device_run [CWriteRegisters 0xFFFF [7, 8], CReadHolding 0 1]
        (mem_device NewMemoryStore))), (c', s'))"
    by (rule modbus_run_refines_device [OF _ quiescent_connect]) simp_all
qed

text \<open>
  C7: the server answers every request.  Whatever function codes and data a client
  sends (frames within the 16-bit length field), the server writes exactly one reply
  per request, in order, each with the transaction and unit of its request, with
  either the same function code and a PDU of at most 253 bytes or the exception bit
  and one of the exception codes 1 and 3; and its counters count them.  It never
  drops the connection and never panics.
\<close>

theorem modbus_server_replies:
  assumes "\<forall>(tid, u, fc, data) \<in> set reqs. length data + 2 < 2 ^ 16"
  shows "\<exists>outs client s'.
    handleConnection (setupDefaultHandlers memoryStore)
      (rx (concat (map request_bytes reqs))) new_clientConn s = (concat outs, client, s') \<and>
    list_all2 (\<lambda>(tid, u, fc, data) out. good_reply tid u fc out) reqs outs \<and>
    rxCount client = word_of_nat (length reqs) \<and> txCount client = word_of_nat (length reqs)"
  using mem_store.serve_stream [OF assms, of new_clientConn s] by (simp add: new_clientConn_def)

theorem modbus_server_replies_witness:
  "\<exists>outs client s'.
    handleConnection (setupDefaultHandlers memoryStore)
      (rx (concat (map request_bytes [(1, 1, 0x07, []), (2, 1, 0x03, [0, 0, 0, 1])])))
      new_clientConn NewMemoryStore = (concat outs, client, s') \<and>
    list_all2 (\<lambda>(tid, u, fc, data) out. good_reply tid u fc out)
      [(1, 1, 0x07, [] :: byte list), (2, 1, 0x03, [0, 0, 0, 1])] outs \<and>
    rxCount client = 2 \<and> txCount client = 2"
  using modbus_server_replies [of "[(1, 1, 0x07, []), (2, 1, 0x03, [0, 0, 0, 1])]" NewMemoryStore]
  by simp

text \<open>
  C29: a command outside the limits of the specification is refused by the client
  itself, with \<^verbatim>\<open>ErrInvalidQuantity\<close>, before the transport is touched.
\<close>

theorem modbus_client_validates:
  "\<not> command_ok cmd \<Longrightarrow> Client_exec cl tp cmd w = (Inl ErrInvalidQuantity, w)"
  unfolding Client_exec_call call_def
  by (cases cmd) (auto simp: generate_defs generateReadRequest_def
      GenerateWriteMultipleCoilsRequest_def GenerateWriteMultipleRegistersRequest_def
      GenerateReadWriteMultipleRegistersRequest_def not_less unat_eq_0)
theorem modbus_client_validates_witness:
  "Client_exec \<lparr>unitID = 1, retries = 0\<rparr> (wire (setupDefaultHandlers memoryStore) 0)
     (CReadHolding 0 126) (NewTCPConn, NewMemoryStore) =
   (Inl ErrInvalidQuantity, (NewTCPConn, NewMemoryStore))"
  by (rule modbus_client_validates) simp

text \<open>
  Read Device Identification end to end.  For each of the four access codes the
  client receives exactly the identification objects the server selects for it, with
  their values and lengths intact.
\<close>

theorem modbus_device_identification:
  assumes "1 \<le> code" "code \<le> 4" "quiescent c" "0 \<le> retries cl"
  shows "\<exists>c'. quiescent c' \<and>
    Client_ReadDeviceIdentification cl (wire (setupDefaultHandlers memoryStore) now) code oid (c, s) =
      (Inr (identification code oid), (c', s))"
proof -
  let ?hs = "setupDefaultHandlers memoryStore" and ?tid = "ucast (nextID (pool c)) :: u16"
  have g: "GenerateReadDeviceIdentificationRequest code oid = Inr [MEIReadDeviceID, code, oid]"
    using assms(1,2) by (auto simp: GenerateReadDeviceIdentificationRequest_def not_less)
  have s: "serve_request ?hs ?tid (unitID cl) (0x2B # [MEIReadDeviceID, code, oid]) s =
     (Some (Response_Encode (NewResponse ?tid (unitID cl) 0x2B (identification_data code oid))), s)"
    by (intro serve_ok [OF default_handlers(10)])
      (simp add: HandleReadDeviceIdentification_def identification_data_def Let_def)
  have "length (identification_data code oid) + 2 < 2 ^ 16"
    using includedObjects_small [of code oid] by (simp add: identification_data_def)
  from call_exchange [OF assms(3,4) _ this s, of now ParseReadDeviceIdentificationResponse]
  show ?thesis
    by (auto simp: Client_ReadDeviceIdentification_def g parse_identification IsException_def)
qed

theorem modbus_device_identification_witness:
  "\<exists>c'. quiescent c' \<and>
    Client_ReadDeviceIdentification \<lparr>unitID = 1, retries = 0\<rparr>
      (wire (setupDefaultHandlers memoryStore) 0) ReadDeviceIDSpecificObject 0x80
      (snd (connect None NewTCPConn), NewMemoryStore) =
    (Inr (identification ReadDeviceIDSpecificObject 0x80), (c', NewMemoryStore))"
  by (rule modbus_device_identification [OF _ _ quiescent_connect]) simp_all

text \<open>
  Read Exception Status has no default handler.  The client method exists, but
  against the default server it always ends in the exception "function code not
  supported" with the exception bit set on function code 7, and the connection stays
  usable.
\<close>

theorem modbus_exception_status_unsupported:
  assumes "quiescent c" "0 \<le> retries cl"
  shows "\<exists>c'. quiescent c' \<and>
    Client_ReadExceptionStatus cl (wire (setupDefaultHandlers memoryStore) now) (c, s) =
      (Inl (ModbusError 0x87 ExceptionFunctionCodeNotSupported), (c', s))"
proof -
  let ?hs = "setupDefaultHandlers memoryStore" and ?tid = "ucast (nextID (pool c)) :: u16"
  have "0x07 \<notin> dom ?hs" unfolding default_handlers_dom by simp
  then have "?hs 0x07 = None" by (simp add: domIff)
  then have "serve_request ?hs ?tid (unitID cl) (0x07 # []) s =
     (Some (Response_Encode (NewResponse ?tid (unitID cl) 0x87 [0x01])), s)"
    by (simp add: serve_request_def dispatchRequest_def)
  from call_exchange [OF assms _ _ this, of now ParseReadExceptionStatusResponse] show ?thesis
    by (auto simp: Client_ReadExceptionStatus_def GenerateReadExceptionStatusRequest_def
        IsException_def)
qed

theorem modbus_exception_status_unsupported_witness:
  "\<exists>c'. quiescent c' \<and>
    Client_ReadExceptionStatus \<lparr>unitID = 1, retries = 2\<rparr>
      (wire (setupDefaultHandlers memoryStore) 0)
      (snd (connect None NewTCPConn), NewMemoryStore) =
    (Inl (ModbusError 0x87 ExceptionFunctionCodeNotSupported), (c', NewMemoryStore))"
  by (rule modbus_exception_status_unsupported [OF quiescent_connect]) simp

text \<open>
  A frame with a wrong protocol identifier desynchronises the server.  The loop
  skips the header but not the body, so the next, well-formed request is read from an
  offset inside it and is never answered.
\<close>

theorem modbus_server_desync:
  "handleConnection (setupDefaultHandlers memoryStore)
     (rx ([0, 1, 0, 1, 0, 2, 1, 3] @ request_bytes (2, 1, 3, [0, 0, 0, 1]))) new_clientConn s =
   ([], new_clientConn, s)"
proof -
  have b: "rx ([0, 1, 0, 1, 0, 2, 1, 3] @ request_bytes (2, 1, 3, [0, 0, 0, 1])) =
      rx [0, 1, 0, 1, 0, 2, 1] @ rx [3, 0, 2, 0, 0, 0, 6] @ rx [1, 3, 0, 0, 0, 1]"
    by (simp add: request_bytes_def frame_bytes be16_def)
  have r: "read_conn 7 [] (rx [0, 1, 0, 1, 0, 2, 1] @ evs) = (Inr [0, 1, 0, 1, 0, 2, 1], evs)"
    "read_conn 7 [] (rx [3, 0, 2, 0, 0, 0, 6] @ evs) = (Inr [3, 0, 2, 0, 0, 0, 6], evs)" for evs
    by (subst read_conn_rx; simp)+
  have t: "read_conn 7 [] (rx [1, 3, 0, 0, 0, 1]) = (Inl UnexpectedEOF, [])"
    by (subst read_conn_short; simp)
  have "handleConnection hs (rx [1, 3, 0, 0, 0, 1]) cl s = ([], cl, s)" for hs cl
    by (subst handleConnection.simps) (simp only: t prod.case sum.case io_error.case)
  then have "handleConnection hs (rx [3, 0, 2, 0, 0, 0, 6] @ rx [1, 3, 0, 0, 0, 1]) cl s = ([], cl, s)"
    for hs cl
    by (subst handleConnection.simps, subst r) (simp add: be16_at_def get_be16_def)
  then show ?thesis
    unfolding b by (subst handleConnection.simps, subst r) (simp add: be16_at_def get_be16_def)
qed
end
