(* ===== verification/Cluster.thy ===== *)
theory Cluster
  imports Modbus_System "HOL-Library.Multiset" "HOL-Library.Char_ord" "HOL-Library.List_Lexorder"
begin

text \<open>
  \<^verbatim>\<open>src/monitor/cluster_plan.go\<close> and \<^verbatim>\<open>cluster.go\<close>: the clustering reader, which merges nearby
  data points into block reads, with the \<^verbatim>\<open>Cluster*\<close> methods of
  \<^verbatim>\<open>src/protocol/modbus/datapoint.go\<close>.  Addresses and counts are 16-bit words and wrap as in
  the source.  \<^verbatim>\<open>sort.Slice\<close> is not stable, so the sorter is an argument, and so is the
  order in which Go ranges over a map.  The inner \<^verbatim>\<open>plc.Reader\<close> is an operation on a world.
\<close>

unbundle bit_operations_syntax

section \<open>The clusterable points\<close>

text \<open>The type assertion \<^verbatim>\<open>p.(Clusterable)\<close>; the methods exist for these points only.\<close>

fun Clusterable :: "point \<Rightarrow> bool" where
  "Clusterable (OtherPoint t) = False"
| "Clusterable p = True"

fun ClusterKey :: "point \<Rightarrow> string" where
  "ClusterKey (HoldingRegister addr qty) = ''holding_register''"
| "ClusterKey (InputRegister addr qty) = ''input_register''"
| "ClusterKey (Coil addr qty) = ''coil''"
| "ClusterKey (DiscreteInput addr qty) = ''discrete_input''"

fun ClusterAddr :: "point \<Rightarrow> u16" where
  "ClusterAddr (HoldingRegister addr qty) = addr"
| "ClusterAddr (InputRegister addr qty) = addr"
| "ClusterAddr (Coil addr qty) = addr"
| "ClusterAddr (DiscreteInput addr qty) = addr"

fun ClusterQty :: "point \<Rightarrow> u16" where
  "ClusterQty (HoldingRegister addr qty) = qty"
| "ClusterQty (InputRegister addr qty) = qty"
| "ClusterQty (Coil addr qty) = qty"
| "ClusterQty (DiscreteInput addr qty) = qty"

fun ClusterBitsPerUnit :: "point \<Rightarrow> u16" where
  "ClusterBitsPerUnit (HoldingRegister addr qty) = 16"
| "ClusterBitsPerUnit (InputRegister addr qty) = 16"
| "ClusterBitsPerUnit (Coil addr qty) = 1"
| "ClusterBitsPerUnit (DiscreteInput addr qty) = 1"

fun ClusterMerge :: "point \<Rightarrow> u16 \<Rightarrow> u16 \<Rightarrow> point" where
  "ClusterMerge (HoldingRegister addr qty) start cnt = HoldingRegister start cnt"
| "ClusterMerge (InputRegister addr qty) start cnt = InputRegister start cnt"
| "ClusterMerge (Coil addr qty) start cnt = Coil start cnt"
| "ClusterMerge (DiscreteInput addr qty) start cnt = DiscreteInput start cnt"

text \<open>
  Extraction from a block.  A slice or index past the block is a panic; the blocks come
  from \<^verbatim>\<open>make\<close>, so that their capacity is their length.
\<close>

definition extractRegisters :: "point Value \<Rightarrow> u16 \<Rightarrow> u16 \<Rightarrow> u16 \<Rightarrow> merr + point Value" where
  "extractRegisters val addr qty clusterStart =
     (let offset = unat (addr - clusterStart) * 2; size = unat qty * 2 in
      if offset + size \<le> length (Raw val)
      then Inr \<lparr>DataPoint = None, Raw = take size (drop offset (Raw val)),
                Type = (if unat qty > 1 then TypeBytes else TypeUint16), ByteOrder = ByteOrder val\<rparr>
      else Inl GoPanic)"

text \<open>The bits from \<^term>\<open>bitOffset\<close> on, or a panic at the first index past the block.\<close>

definition source_bits :: "byte list \<Rightarrow> nat \<Rightarrow> nat \<Rightarrow> bool list option" where
  "source_bits raw bitOffset n =
     (if n = 0 \<or> (bitOffset + n - 1) div 8 < length raw
      then Some (map (\<lambda>i. raw ! ((bitOffset + i) div 8) AND push_bit ((bitOffset + i) mod 8) 1 \<noteq> 0) [0..<n])
      else None)"

definition extractBits :: "point Value \<Rightarrow> u16 \<Rightarrow> u16 \<Rightarrow> u16 \<Rightarrow> merr + point Value" where
  "extractBits val addr qty clusterStart =
     (case source_bits (Raw val) (unat (addr - clusterStart)) (unat qty) of
        None \<Rightarrow> Inl GoPanic
      | Some bits \<Rightarrow>
          (case or_bits 0 (replicate ((unat qty + 7) div 8) 0) 0 bits of
             None \<Rightarrow> Inl GoPanic
           | Some raw \<Rightarrow>
               Inr \<lparr>DataPoint = None, Raw = raw, Type = TypeBool, ByteOrder = ByteOrder val\<rparr>))"

fun ClusterExtract :: "point \<Rightarrow> point Value \<Rightarrow> u16 \<Rightarrow> merr + point Value" where
  "ClusterExtract (HoldingRegister addr qty) val clusterStart = extractRegisters val addr qty clusterStart"
| "ClusterExtract (InputRegister addr qty) val clusterStart = extractRegisters val addr qty clusterStart"
| "ClusterExtract (Coil addr qty) val clusterStart = extractBits val addr qty clusterStart"
| "ClusterExtract (DiscreteInput addr qty) val clusterStart = extractBits val addr qty clusterStart"

section \<open>The read plan\<close>

record ClusterConfig =
  GapThreshold :: u16
  MaxRegistersPerRead :: u16
  MaxCoilsPerRead :: u16
  CacheTTL :: int
  Enabled :: bool

record readWindow =
  w_key :: string
  w_start :: u16
  w_count :: u16
  w_merged :: point
  w_points :: "point list"

definition flush :: "string \<Rightarrow> u16 \<Rightarrow> u16 \<Rightarrow> point list \<Rightarrow> readWindow" where
  "flush key winStart winEnd winPoints =
     \<lparr>w_key = key, w_start = winStart, w_count = winEnd - winStart,
      w_merged = ClusterMerge (hd winPoints) winStart (winEnd - winStart), w_points = winPoints\<rparr>"

definition canMerge :: "ClusterConfig \<Rightarrow> u16 \<Rightarrow> u16 \<Rightarrow> u16 \<Rightarrow> point \<Rightarrow> bool" where
  "canMerge cfg maxPerRead winStart winEnd p =
     (let pEnd = ClusterAddr p + ClusterQty p;
          gap = (if ClusterAddr p > winEnd then ClusterAddr p - winEnd else 0);
          mergedCount = (if pEnd < winStart then winEnd - winStart else pEnd - winStart)
      in gap \<le> GapThreshold cfg \<and> mergedCount \<le> maxPerRead)"

fun merge_pass :: "ClusterConfig \<Rightarrow> u16 \<Rightarrow> string \<Rightarrow> u16 \<Rightarrow> u16 \<Rightarrow> point list \<Rightarrow> point list \<Rightarrow>
    readWindow list" where
  "merge_pass cfg maxPerRead key winStart winEnd winPoints [] = [flush key winStart winEnd winPoints]"
| "merge_pass cfg maxPerRead key winStart winEnd winPoints (p # pts) =
     (let pEnd = ClusterAddr p + ClusterQty p in
      if canMerge cfg maxPerRead winStart winEnd p
      then merge_pass cfg maxPerRead key winStart (if pEnd > winEnd then pEnd else winEnd)
             (winPoints @ [p]) pts
      else flush key winStart winEnd winPoints #
           merge_pass cfg maxPerRead key (ClusterAddr p) pEnd [p] pts)"

definition maxPerRead :: "ClusterConfig \<Rightarrow> point \<Rightarrow> u16" where
  "maxPerRead cfg p =
     (if ClusterBitsPerUnit p = 1 then MaxCoilsPerRead cfg else MaxRegistersPerRead cfg)"

fun group_windows :: "ClusterConfig \<Rightarrow> string \<Rightarrow> point list \<Rightarrow> readWindow list" where
  "group_windows cfg key [] = []"
| "group_windows cfg key (p # pts) =
     merge_pass cfg (maxPerRead cfg p) key (ClusterAddr p) (ClusterAddr p + ClusterQty p) [p] pts"

definition buildWindows :: "(point list \<Rightarrow> point list) \<Rightarrow> point list \<Rightarrow> ClusterConfig \<Rightarrow>
    readWindow list" where
  "buildWindows srt points cfg =
     concat (map (\<lambda>key. group_windows cfg key (srt (filter (\<lambda>p. ClusterKey p = key) points)))
       (sort (remdups (map ClusterKey points))))"

text \<open>\<^const>\<open>None\<close> is the index -1.\<close>

fun findWindow :: "readWindow list \<Rightarrow> point \<Rightarrow> nat option" where
  "findWindow [] p = None"
| "findWindow (w # ws) p =
     (if w_key w = ClusterKey p \<and> ClusterAddr p \<ge> w_start w \<and>
         ClusterAddr p + ClusterQty p \<le> w_start w + w_count w
      then Some 0 else map_option Suc (findWindow ws p))"

section \<open>The clustering reader\<close>

record cachedRead =
  c_val :: "point Value"
  c_timestamp :: int

record ClusteringReader =
  config :: ClusterConfig
  points :: "point list"
  windows :: "readWindow list"
  cache :: "nat \<rightharpoonup> cachedRead"
  flights :: "(nat \<times> nat) set"
  cgen :: nat
  ReadCount :: nat

definition NewClusteringReader :: "(ClusterConfig \<Rightarrow> ClusterConfig) list \<Rightarrow> ClusteringReader" where
  "NewClusteringReader opts =
     \<lparr>config = fold (\<lambda>opt. opt)
        opts \<lparr>GapThreshold = 32, MaxRegistersPerRead = 120, MaxCoilsPerRead = 2000, CacheTTL = 0, Enabled = True\<rparr>,
      points = [], windows = [], cache = Map.empty, flights = {}, cgen = 0, ReadCount = 0\<rparr>"

definition replan :: "(point list \<Rightarrow> point list) \<Rightarrow> ClusteringReader \<Rightarrow> ClusteringReader" where
  "replan srt r =
     r\<lparr>windows := buildWindows srt (points r) (config r), cgen := cgen r + 1, cache := Map.empty\<rparr>"

definition Register :: "(point list \<Rightarrow> point list) \<Rightarrow> point list \<Rightarrow> ClusteringReader \<Rightarrow> ClusteringReader" where
  "Register srt ps r = replan srt (r\<lparr>points := points r @ filter Clusterable ps\<rparr>)"

definition same_range :: "point \<Rightarrow> point \<Rightarrow> bool" where
  "same_range existing c \<longleftrightarrow> ClusterKey existing = ClusterKey c \<and>
     ClusterAddr existing = ClusterAddr c \<and> ClusterQty existing = ClusterQty c"

fun remove_point :: "point \<Rightarrow> point list \<Rightarrow> point list" where
  "remove_point c [] = []"
| "remove_point c (existing # ps) = (if same_range existing c then ps else existing # remove_point c ps)"

definition Unregister :: "(point list \<Rightarrow> point list) \<Rightarrow> point list \<Rightarrow> ClusteringReader \<Rightarrow> ClusteringReader" where
  "Unregister srt ps r = replan srt (r\<lparr>points := fold remove_point (filter Clusterable ps) (points r)\<rparr>)"

text \<open>
  \<^verbatim>\<open>readWindow\<close> in its two critical sections: the cache and flight check, and the
  bookkeeping after the inner read.
\<close>

datatype lookup = Cached "point Value" | Joined | Leads

definition readWindow_begin :: "int \<Rightarrow> nat \<Rightarrow> nat \<Rightarrow> ClusteringReader \<Rightarrow> lookup \<times> ClusteringReader" where
  "readWindow_begin now winIdx pgen r =
     (case (if CacheTTL (config r) > 0 then cache r winIdx else None) of
        Some cached \<Rightarrow>
          (if now - c_timestamp cached < CacheTTL (config r) then (Cached (c_val cached), r)
           else if (pgen, winIdx) \<in> flights r then (Joined, r)
           else (Leads, r\<lparr>flights := insert (pgen, winIdx) (flights r)\<rparr>))
      | None \<Rightarrow>
          (if (pgen, winIdx) \<in> flights r then (Joined, r)
           else (Leads, r\<lparr>flights := insert (pgen, winIdx) (flights r)\<rparr>)))"

definition zero_value :: "point Value" where
  "zero_value = \<lparr>DataPoint = None, Raw = [], Type = TypeUnknown, ByteOrder = ByteOrderUnspecified\<rparr>"

definition readWindow_finish :: "int \<Rightarrow> nat \<Rightarrow> nat \<Rightarrow> merr + point Value list \<Rightarrow> ClusteringReader \<Rightarrow>
    (merr + point Value) \<times> ClusteringReader" where
  "readWindow_finish now winIdx pgen res r =
     (let r = r\<lparr>ReadCount := ReadCount r + 1\<rparr>;
          r = (case res of
                 Inr (v # vs) \<Rightarrow>
                   (if CacheTTL (config r) > 0
                    then r\<lparr>cache := (cache r)(winIdx \<mapsto> \<lparr>c_val = v, c_timestamp = now\<rparr>)\<rparr> else r)
               | _ \<Rightarrow> r);
          r = r\<lparr>flights := flights r - {(pgen, winIdx)}\<rparr>
      in (case res of
            Inl err \<Rightarrow> (Inl err, r)
          | Inr [] \<Rightarrow> (Inr zero_value, r)
          | Inr (v # vs) \<Rightarrow> (Inr v, r)))"

type_synonym 'w reader = "point list \<Rightarrow> 'w \<Rightarrow> (merr + point Value list) \<times> 'w"

text \<open>A caller that joins a flight gets that flight's outcome, \<^term>\<open>wait (pgen, winIdx)\<close>.\<close>

definition readWindow_op :: "'w reader \<Rightarrow> (nat \<times> nat \<Rightarrow> merr + point Value) \<Rightarrow> int \<Rightarrow> readWindow list \<Rightarrow>
    nat \<Rightarrow> nat \<Rightarrow> ClusteringReader \<times> 'w \<Rightarrow> (merr + point Value) \<times> ClusteringReader \<times> 'w" where
  "readWindow_op inner wait now ws winIdx pgen = (\<lambda>(r, w).
     (case readWindow_begin now winIdx pgen r of
        (Cached v, r) \<Rightarrow> (Inr v, r, w)
      | (Joined, r) \<Rightarrow> (wait (pgen, winIdx), r, w)
      | (Leads, r) \<Rightarrow>
          (case inner [w_merged (ws ! winIdx)] w of (res, w) \<Rightarrow>
           (case readWindow_finish now winIdx pgen res r of (out, r) \<Rightarrow> (out, r, w)))))"

fun read_direct :: "'w reader \<Rightarrow> (nat \<times> point) list \<Rightarrow> point Value list \<Rightarrow> ClusteringReader \<times> 'w \<Rightarrow>
    (merr + point Value list) \<times> ClusteringReader \<times> 'w" where
  "read_direct inner [] results (r, w) = (Inr results, r, w)"
| "read_direct inner ((idx, p) # ps) results (r, w) =
     (case inner [p] w of (res, w) \<Rightarrow>
      let r = r\<lparr>ReadCount := ReadCount r + 1\<rparr> in
      (case res of
         Inl err \<Rightarrow> (Inl err, r, w)
       | Inr [] \<Rightarrow> read_direct inner ps results (r, w)
       | Inr (v # vs) \<Rightarrow> read_direct inner ps (results[idx := v]) (r, w)))"

fun read_windows :: "'w reader \<Rightarrow> (nat \<times> nat \<Rightarrow> merr + point Value) \<Rightarrow> int \<Rightarrow> readWindow list \<Rightarrow>
    nat \<Rightarrow> nat list \<Rightarrow> (nat \<rightharpoonup> point Value) \<Rightarrow> ClusteringReader \<times> 'w \<Rightarrow>
    (merr + (nat \<rightharpoonup> point Value)) \<times> ClusteringReader \<times> 'w" where
  "read_windows inner wait now ws pgen [] vals rw = (Inr vals, rw)"
| "read_windows inner wait now ws pgen (i # is) vals rw =
     (case readWindow_op inner wait now ws i pgen rw of
        (Inl err, rw) \<Rightarrow> (Inl err, rw)
      | (Inr v, rw) \<Rightarrow> read_windows inner wait now ws pgen is (vals(i \<mapsto> v)) rw)"

fun extract_points :: "readWindow list \<Rightarrow> (nat \<rightharpoonup> point Value) \<Rightarrow> (nat \<times> nat \<times> point) list \<Rightarrow>
    point Value list \<Rightarrow> merr + point Value list" where
  "extract_points ws vals [] results = Inr results"
| "extract_points ws vals ((idx, winIdx, p) # cs) results =
     res_bind (ClusterExtract p (case vals winIdx of None \<Rightarrow> zero_value | Some v \<Rightarrow> v) (w_start (ws ! winIdx)))
       (\<lambda>v. extract_points ws vals cs (results[idx := v\<lparr>DataPoint := Some p\<rparr>]))"

definition covering :: "readWindow list \<Rightarrow> point \<Rightarrow> nat option" where
  "covering ws p = (if Clusterable p then findWindow ws p else None)"

definition directPoints :: "readWindow list \<Rightarrow> point list \<Rightarrow> (nat \<times> point) list" where
  "directPoints ws ps = filter (\<lambda>(i, p). covering ws p = None) (enumerate 0 ps)"

definition clusteredPoints :: "readWindow list \<Rightarrow> point list \<Rightarrow> (nat \<times> nat \<times> point) list" where
  "clusteredPoints ws ps =
     List.map_filter (\<lambda>(i, p). map_option (\<lambda>w. (i, w, p)) (covering ws p)) (enumerate 0 ps)"

definition ClusteringReader_Read :: "'w reader \<Rightarrow> (nat \<times> nat \<Rightarrow> merr + point Value) \<Rightarrow>
    (nat list \<Rightarrow> nat list) \<Rightarrow> int \<Rightarrow> point list \<Rightarrow> ClusteringReader \<times> 'w \<Rightarrow>
    (merr + point Value list) \<times> ClusteringReader \<times> 'w" where
  "ClusteringReader_Read inner wait rng now ps = (\<lambda>(r, w).
     if \<not> Enabled (config r) then
       (case inner ps w of (res, w) \<Rightarrow> (res, r\<lparr>ReadCount := ReadCount r + length ps\<rparr>, w))
     else
       (let ws = windows r; pgen = cgen r; cs = clusteredPoints ws ps in
        case read_direct inner (directPoints ws ps) (replicate (length ps) zero_value) (r, w) of
          (Inl err, rw) \<Rightarrow> (Inl err, rw)
        | (Inr results, rw) \<Rightarrow>
            (case read_windows inner wait now ws pgen (rng (remdups (map (\<lambda>(i, win, p). win) cs)))
                    Map.empty rw of
               (Inl err, rw) \<Rightarrow> (Inl err, rw)
             | (Inr vals, rw) \<Rightarrow> (extract_points ws vals cs results, rw))))"

section \<open>Extraction\<close>

text \<open>The value a reader returns for a point of a device.\<close>

fun device_value :: "device \<Rightarrow> point \<Rightarrow> point Value" where
  "device_value d (HoldingRegister a q) =
     (mk_value (be16s (read_range (d_holding d) a (unat q))) (if unat q > 1 then TypeBytes else TypeUint16))
       \<lparr>DataPoint := Some (HoldingRegister a q)\<rparr>"
| "device_value d (InputRegister a q) =
     (mk_value (be16s (read_range (d_inregs d) a (unat q))) (if unat q > 1 then TypeBytes else TypeUint16))
       \<lparr>DataPoint := Some (InputRegister a q)\<rparr>"
| "device_value d (Coil a q) =
     (mk_value (pack_bits (read_range (d_coils d) a (unat q))) TypeBool)\<lparr>DataPoint := Some (Coil a q)\<rparr>"
| "device_value d (DiscreteInput a q) =
     (mk_value (pack_bits (read_range (d_inputs d) a (unat q))) TypeBool)
       \<lparr>DataPoint := Some (DiscreteInput a q)\<rparr>"
| "device_value d (OtherPoint t) = zero_value"

lemma be16s_take_drop: "take (n * 2) (drop (k * 2) (be16s ws)) = be16s (take n (drop k ws))"
proof (induction k arbitrary: ws)
  case 0
  show ?case
  proof (simp, induction n arbitrary: ws)
    case (Suc n)
    then show ?case by (cases ws) (simp_all add: be16_def)
  qed simp
next
  case (Suc k)
  then show ?case by (cases ws) (simp_all add: be16_def)
qed

lemma read_range_sub:
  assumes "unat (addr - start) + n \<le> m"
  shows "take n (drop (unat (addr - start)) (read_range f start m)) = read_range f addr n"
proof (rule nth_equalityI)
  show "length (take n (drop (unat (addr - start)) (read_range f start m))) = length (read_range f addr n)"
    using assms by simp
next
  fix i assume "i < length (take n (drop (unat (addr - start)) (read_range f start m)))"
  then show "take n (drop (unat (addr - start)) (read_range f start m)) ! i = read_range f addr n ! i"
    using assms by simp
qed

lemma extractRegisters_sub:
  assumes "unat (addr - start) + unat qty \<le> m"
  shows "extractRegisters ((mk_value (be16s (read_range f start m)) t)\<lparr>DataPoint := dp\<rparr>) addr qty start =
    Inr (mk_value (be16s (read_range f addr (unat qty))) (if unat qty > 1 then TypeBytes else TypeUint16))"
proof -
  have "unat (addr - start) * 2 + unat qty * 2 \<le> 2 * m" using assms by simp
  then show ?thesis
    by (simp add: extractRegisters_def mk_value_def be16s_take_drop read_range_sub [OF assms])
qed

lemma and_push_bit_one: "(b :: byte) AND push_bit k 1 \<noteq> 0 \<longleftrightarrow> bit b k"
proof -
  have "bit b k \<Longrightarrow> bit (b AND push_bit k 1) k"
    using bit_imp_le_length [of b k] by (simp add: bit_simps)
  moreover have "\<not> bit b k \<Longrightarrow> b AND push_bit k 1 = 0"
    by (rule bit_word_eqI) (auto simp: bit_simps)
  ultimately show ?thesis by auto
qed

lemma bit_at_pack: "i < length vs \<Longrightarrow> bit (pack_bits vs ! (i div 8)) (i mod 8) = vs ! i"
  by (simp add: pack_bits_def)

lemma source_bits_pack:
  assumes "k + n \<le> length vs"
  shows "source_bits (pack_bits vs) k n = Some (take n (drop k vs))"
proof -
  have "n = 0 \<or> (k + n - 1) div 8 < bytes_for_bits (length vs)"
    using assms bytes_for_bits_less [of "k + n - 1" "length vs"] by (cases n) auto
  moreover have "map (\<lambda>i. pack_bits vs ! ((k + i) div 8) AND push_bit ((k + i) mod 8) 1 \<noteq> 0) [0..<n] =
      take n (drop k vs)"
    using assms by (intro nth_equalityI) (simp_all add: and_push_bit_one bit_at_pack del: push_bit_of_1)
  ultimately show ?thesis by (simp add: source_bits_def)
qed

lemma extractBits_sub:
  assumes "unat (addr - start) + unat qty \<le> m"
  shows "extractBits ((mk_value (pack_bits (read_range f start m)) t)\<lparr>DataPoint := dp\<rparr>) addr qty start =
    Inr (mk_value (pack_bits (read_range f addr (unat qty))) TypeBool)"
proof -
  have "source_bits (pack_bits (read_range f start m)) (unat (addr - start)) (unat qty) =
      Some (read_range f addr (unat qty))"
    using source_bits_pack [of "unat (addr - start)" "unat qty" "read_range f start m"] assms
    by (simp add: read_range_sub)
  moreover have "or_bits 0 (replicate ((unat qty + 7) div 8) 0) 0 (read_range f addr (unat qty)) =
      Some (pack_bits (read_range f addr (unat qty)))"
    using or_bits_pack [of "[]" 0 "(unat qty + 7) div 8" "read_range f addr (unat qty)"]
    by (simp add: bytes_for_bits_def)
  ultimately show ?thesis by (simp add: extractBits_def mk_value_def)
qed

text \<open>A block read answers every point inside the block as a read of its own would.\<close>

lemma ClusterExtract_block:
  assumes "Clusterable p" "Clusterable q" "ClusterKey p = ClusterKey q"
    "unat (ClusterAddr p - start) + unat (ClusterQty p) \<le> unat cnt"
  shows "res_bind (ClusterExtract p (device_value d (ClusterMerge q start cnt)) start)
      (\<lambda>v. Inr (v\<lparr>DataPoint := Some p\<rparr>)) = Inr (device_value d p)"
  using assms
  by (cases p; cases q) (simp_all add: extractRegisters_sub extractBits_sub)

section \<open>The plan covers the registered points\<close>

text \<open>Points that end below the top of the address space, and the sorters of the standard library.\<close>

definition in_range :: "point \<Rightarrow> bool" where
  "in_range p \<longleftrightarrow> unat (ClusterAddr p) + unat (ClusterQty p) < 2 ^ 16"

definition sort_ok :: "(point list \<Rightarrow> point list) \<Rightarrow> bool" where
  "sort_ok srt \<longleftrightarrow> (\<forall>ps. mset (srt ps) = mset ps \<and> sorted (map ClusterAddr (srt ps)))"

text \<open>A point inside a window, without wrap-around.\<close>

definition covers :: "readWindow \<Rightarrow> point \<Rightarrow> bool" where
  "covers w p \<longleftrightarrow> w_key w = ClusterKey p \<and> unat (w_start w) \<le> unat (ClusterAddr p) \<and>
     unat (ClusterAddr p) + unat (ClusterQty p) \<le> unat (w_start w) + unat (w_count w)"

text \<open>
  A window of a plan: it stays inside the address space, reads the area of its first
  point, starts there, and is within the read limit unless that point alone exceeds it.
\<close>

definition window_ok :: "ClusterConfig \<Rightarrow> readWindow \<Rightarrow> bool" where
  "window_ok cfg w \<longleftrightarrow>
     unat (w_start w) + unat (w_count w) < 2 ^ 16 \<and> w_points w \<noteq> [] \<and>
     w_key w = ClusterKey (hd (w_points w)) \<and>
     w_merged w = ClusterMerge (hd (w_points w)) (w_start w) (w_count w) \<and>
     ClusterQty (hd (w_points w)) \<le> w_count w \<and>
     (w_count w \<le> maxPerRead cfg (hd (w_points w)) \<or> w_count w = ClusterQty (hd (w_points w))) \<and>
     list_all (covers w) (w_points w)"

text \<open>The loop invariant of the merge pass.\<close>

definition open_window :: "ClusterConfig \<Rightarrow> u16 \<Rightarrow> string \<Rightarrow> u16 \<Rightarrow> u16 \<Rightarrow> point list \<Rightarrow> bool" where
  "open_window cfg mx key winStart winEnd ps \<longleftrightarrow>
     winStart \<le> winEnd \<and> ps \<noteq> [] \<and> ClusterAddr (hd ps) = winStart \<and> maxPerRead cfg (hd ps) = mx \<and>
     (winEnd - winStart \<le> mx \<or> winEnd - winStart = ClusterQty (hd ps)) \<and>
     list_all (\<lambda>p. ClusterKey p = key \<and> in_range p \<and> winStart \<le> ClusterAddr p \<and>
       ClusterAddr p + ClusterQty p \<le> winEnd) ps"

lemma unat_end: "in_range p \<Longrightarrow> unat (ClusterAddr p + ClusterQty p) = unat (ClusterAddr p) + unat (ClusterQty p)"
  by (simp add: in_range_def unat_plus_if_size word_size)

lemma end_ge: "in_range p \<Longrightarrow> ClusterAddr p \<le> ClusterAddr p + ClusterQty p"
  by (simp add: word_le_nat_alt unat_end)

lemma open_window_flush:
  assumes "open_window cfg mx key winStart winEnd ps"
  shows "window_ok cfg (flush key winStart winEnd ps)"
proof -
  have le: "unat winStart \<le> unat winEnd" and cnt: "unat (winEnd - winStart) = unat winEnd - unat winStart"
    using assms by (simp_all add: open_window_def word_le_nat_alt unat_sub)
  have cov: "covers (flush key winStart winEnd ps) p" if "p \<in> set ps" for p
    using assms that le cnt unat_end [of p]
    by (auto simp: open_window_def covers_def flush_def list_all_iff word_le_nat_alt)
  have "hd ps \<in> set ps" using assms by (simp add: open_window_def)
  with cov have "covers (flush key winStart winEnd ps) (hd ps)" .
  then have "ClusterQty (hd ps) \<le> winEnd - winStart"
    using assms by (simp add: covers_def flush_def open_window_def word_le_nat_alt)
  then show ?thesis
    using assms cov le unsigned_less [of winEnd] \<open>hd ps \<in> set ps\<close>
    by (auto simp: window_ok_def flush_def open_window_def list_all_iff cnt)
qed

lemma open_window_first:
  "\<lbrakk>in_range p; ClusterKey p = key\<rbrakk> \<Longrightarrow>
     open_window cfg (maxPerRead cfg p) key (ClusterAddr p) (ClusterAddr p + ClusterQty p) [p]"
  by (simp add: open_window_def end_ge)

lemma open_window_extend:
  assumes "open_window cfg mx key winStart winEnd ps" "in_range p" "ClusterKey p = key"
    "winStart \<le> ClusterAddr p" "canMerge cfg mx winStart winEnd p"
  shows "open_window cfg mx key winStart (if ClusterAddr p + ClusterQty p > winEnd
    then ClusterAddr p + ClusterQty p else winEnd) (ps @ [p])"
proof -
  let ?e = "ClusterAddr p + ClusterQty p"
  have "winStart \<le> ?e" using assms(4) end_ge [OF assms(2)] by (rule order_trans)
  then have "?e - winStart \<le> mx" using assms(5) by (simp add: canMerge_def Let_def linorder_not_less [symmetric] split: if_splits)
  with assms \<open>winStart \<le> ?e\<close> show ?thesis
    by (auto simp: open_window_def list_all_iff)
qed

lemma maxPerRead_key:
  "\<lbrakk>Clusterable p; Clusterable q; ClusterKey p = ClusterKey q\<rbrakk> \<Longrightarrow> maxPerRead cfg p = maxPerRead cfg q"
  by (cases p; cases q) (simp_all add: maxPerRead_def)

lemma merge_pass_ok:
  assumes "open_window cfg mx key winStart winEnd ps"
    "list_all (\<lambda>p. ClusterKey p = key \<and> in_range p \<and> maxPerRead cfg p = mx) pts"
    "sorted (winStart # map ClusterAddr pts)"
  shows "list_all (window_ok cfg) (merge_pass cfg mx key winStart winEnd ps pts) \<and>
    concat (map w_points (merge_pass cfg mx key winStart winEnd ps pts)) = ps @ pts"
  using assms
proof (induction cfg mx key winStart winEnd ps pts rule: merge_pass.induct)
  case (1 cfg mx key winStart winEnd ps)
  then show ?case using open_window_flush by (simp add: flush_def)
next
  case (2 cfg mx key winStart winEnd ps p pts)
  show ?case
  proof (cases "canMerge cfg mx winStart winEnd p")
    case True
    with 2 show ?thesis
      using open_window_extend [OF "2.prems"(1), of p] by (simp add: Let_def)
  next
    case False
    have "open_window cfg mx key (ClusterAddr p) (ClusterAddr p + ClusterQty p) [p]"
      using open_window_first [of p key cfg] "2.prems"(2) by auto
    with 2 False show ?thesis
      using open_window_flush [OF "2.prems"(1)] by (simp add: Let_def flush_def)
  qed
qed

lemma group_windows_ok:
  assumes "list_all (\<lambda>p. ClusterKey p = key \<and> in_range p \<and> Clusterable p) ps" "sorted (map ClusterAddr ps)"
  shows "list_all (window_ok cfg) (group_windows cfg key ps) \<and>
    concat (map w_points (group_windows cfg key ps)) = ps"
proof (cases ps)
  case (Cons p pts)
  have "list_all (\<lambda>q. ClusterKey q = key \<and> in_range q \<and> maxPerRead cfg q = maxPerRead cfg p) pts"
    unfolding list_all_iff
  proof
    fix q assume "q \<in> set pts"
    with assms(1) Cons have "Clusterable q" "Clusterable p" "ClusterKey q = key" "in_range q" "ClusterKey p = key"
      by (auto simp: list_all_iff)
    then show "ClusterKey q = key \<and> in_range q \<and> maxPerRead cfg q = maxPerRead cfg p"
      using maxPerRead_key [of q p cfg] by metis
  qed
  moreover have "in_range p" "ClusterKey p = key" "sorted (ClusterAddr p # map ClusterAddr pts)"
    using assms Cons by simp_all
  ultimately show ?thesis
    using merge_pass_ok [OF open_window_first] Cons by simp
qed simp

lemma mset_groups:
  "distinct keys \<Longrightarrow> mset (concat (map (\<lambda>k. filter (\<lambda>p. f p = k) ps) keys)) =
     filter_mset (\<lambda>p. f p \<in> set keys) (mset ps)"
proof (induction keys)
  case (Cons k keys)
  have "filter_mset (\<lambda>p. f p = k) (mset ps) + filter_mset (\<lambda>p. f p \<in> set keys) (mset ps) =
      filter_mset (\<lambda>p. f p = k \<or> f p \<in> set keys) (mset ps)"
    using Cons.prems by (intro multiset_eqI) auto
  with Cons show ?case by simp
qed simp

lemma concat_map_mset_cong:
  "(\<And>x. x \<in> set xs \<Longrightarrow> mset (f x) = mset (g x)) \<Longrightarrow> mset (concat (map f xs)) = mset (concat (map g xs))"
  by (induction xs) auto

lemma buildWindows_ok:
  assumes srt: "sort_ok srt" and ps: "list_all (\<lambda>p. Clusterable p \<and> in_range p) ps"
  shows "list_all (window_ok cfg) (buildWindows srt ps cfg)" (is ?ok)
    and "mset (concat (map w_points (buildWindows srt ps cfg))) = mset ps" (is ?part)
proof -
  let ?g = "\<lambda>k. srt (filter (\<lambda>p. ClusterKey p = k) ps)"
  have m: "mset (?g k) = mset (filter (\<lambda>p. ClusterKey p = k) ps)" for k
    using srt by (simp add: sort_ok_def)
  then have "set (?g k) = set (filter (\<lambda>p. ClusterKey p = k) ps)" for k
    by (rule mset_eq_setD)
  then have "list_all (\<lambda>p. ClusterKey p = k \<and> in_range p \<and> Clusterable p) (?g k)" for k
    using ps by (auto simp: list_all_iff)
  moreover have "sorted (map ClusterAddr (?g k))" for k
    using srt by (simp add: sort_ok_def)
  ultimately have g: "list_all (window_ok cfg) (group_windows cfg k (?g k))"
    "concat (map w_points (group_windows cfg k (?g k))) = ?g k" for k
    using group_windows_ok [of k "?g k" cfg] by auto
  show ?ok using g(1) by (auto simp: buildWindows_def list_all_iff)
  let ?keys = "sort (remdups (map ClusterKey ps))"
  have c: "concat (map w_points (concat (map h ks))) = concat (map (\<lambda>k. concat (map w_points (h k))) ks)"
    for h :: "string \<Rightarrow> readWindow list" and ks
    by (induction ks) auto
  have "concat (map w_points (buildWindows srt ps cfg)) = concat (map ?g ?keys)"
    unfolding buildWindows_def c g(2) ..
  then have "mset (concat (map w_points (buildWindows srt ps cfg))) =
      mset (concat (map (\<lambda>k. filter (\<lambda>p. ClusterKey p = k) ps) ?keys))"
    using concat_map_mset_cong [of ?keys ?g, OF m] by simp
  also have "\<dots> = filter_mset (\<lambda>p. ClusterKey p \<in> set ?keys) (mset ps)"
    by (rule mset_groups) simp
  also have "\<dots> = mset ps"
    by (simp add: filter_mset_eq_conv)
  finally show ?part .
qed

lemma findWindow_Some:
  "findWindow ws p = Some i \<Longrightarrow> i < length ws \<and> w_key (ws ! i) = ClusterKey p \<and>
     w_start (ws ! i) \<le> ClusterAddr p \<and>
     ClusterAddr p + ClusterQty p \<le> w_start (ws ! i) + w_count (ws ! i)"
  by (induction ws arbitrary: i) (auto split: if_splits)

lemma findWindow_None:
  "findWindow ws p = None \<Longrightarrow> w \<in> set ws \<Longrightarrow> \<not> (w_key w = ClusterKey p \<and> w_start w \<le> ClusterAddr p \<and>
     ClusterAddr p + ClusterQty p \<le> w_start w + w_count w)"
  by (induction ws) (auto split: if_splits)

lemma covers_iff:
  assumes "window_ok cfg w" "in_range p"
  shows "covers w p \<longleftrightarrow> w_key w = ClusterKey p \<and> w_start w \<le> ClusterAddr p \<and>
     ClusterAddr p + ClusterQty p \<le> w_start w + w_count w"
proof -
  have "unat (w_start w + w_count w) = unat (w_start w) + unat (w_count w)"
    using assms(1) by (simp add: window_ok_def unat_plus_if_size word_size)
  then show ?thesis
    using unat_end [OF assms(2)] by (simp add: covers_def word_le_nat_alt)
qed

lemma findWindow_covers:
  assumes "list_all (window_ok cfg) ws" "in_range p" "findWindow ws p = Some i"
  shows "i < length ws \<and> window_ok cfg (ws ! i) \<and> covers (ws ! i) p"
  using findWindow_Some [OF assms(3)] assms(1) covers_iff [OF _ assms(2)]
  by (auto simp: list_all_length)

lemma findWindow_registered:
  assumes "sort_ok srt" "list_all (\<lambda>p. Clusterable p \<and> in_range p) ps" "p \<in> set ps"
  obtains i where "findWindow (buildWindows srt ps cfg) p = Some i"
    "i < length (buildWindows srt ps cfg)" "covers (buildWindows srt ps cfg ! i) p"
proof -
  let ?ws = "buildWindows srt ps cfg"
  note ok = buildWindows_ok [OF assms(1,2), of cfg]
  have r: "in_range p" using assms(2,3) by (auto simp: list_all_iff)
  have "p \<in> set (concat (map w_points ?ws))"
    using mset_eq_setD [OF ok(2)] assms(3) by simp
  then obtain w where w: "w \<in> set ?ws" "p \<in> set (w_points w)" by auto
  then have "covers w p" "window_ok cfg w" using ok(1) by (auto simp: list_all_iff window_ok_def)
  then have "findWindow ?ws p \<noteq> None"
    using findWindow_None [of ?ws p w] w(1) covers_iff [OF _ r, of cfg w] by auto
  then obtain i where "findWindow ?ws p = Some i" by auto
  with that findWindow_covers [OF ok(1) r] show thesis by blast
qed

section \<open>The contract of the inner reader\<close>

text \<open>The command that reads a point; points within the limits of the protocol.\<close>

fun read_command :: "point \<Rightarrow> command" where
  "read_command (HoldingRegister a q) = CReadHolding a q"
| "read_command (InputRegister a q) = CReadInRegs a q"
| "read_command (Coil a q) = CReadCoils a q"
| "read_command (DiscreteInput a q) = CReadInputs a q"

definition point_ok :: "point \<Rightarrow> bool" where
  "point_ok p \<longleftrightarrow> Clusterable p \<and> command_ok (read_command p)"

text \<open>
  What the clustering reader relies on: a read of points within the limits returns the
  values of the device behind the reader, in order, and does not change the device.
\<close>

locale snapshot_reader =
  fixes inner :: "'w reader" and ready :: "'w \<Rightarrow> bool" and behind :: "'w \<Rightarrow> device"
  assumes read_points: "\<lbrakk>ready w; list_all point_ok ps\<rbrakk> \<Longrightarrow>
    \<exists>w'. inner ps w = (Inr (map (device_value (behind w)) ps), w') \<and> ready w' \<and> behind w' = behind w"

definition modbus_reader :: "Client \<Rightarrow> nat \<Rightarrow> (TCPConn \<times> MemoryStore) reader" where
  "modbus_reader cl now = Client_Read cl (wire (setupDefaultHandlers memoryStore) now)"

lemma readDataPoint_device:
  assumes "point_ok p" "quiescent c" "0 \<le> retries cl"
  shows "\<exists>c' s'. quiescent c' \<and> mem_device s' = mem_device s \<and>
    readDataPoint cl (wire (setupDefaultHandlers memoryStore) now) p (c, s) =
      (Inr ((device_value (mem_device s) p)\<lparr>DataPoint := None\<rparr>), (c', s'))"
proof -
  have "command_ok (read_command p)" using assms(1) by (simp add: point_ok_def)
  from mem_store.client_refines_device [OF this assms(2,3), of s now] obtain c' s' where
    *: "quiescent c'" "mem_device s' = snd (exec_device (read_command p) (mem_device s))"
    "Client_exec cl (wire (setupDefaultHandlers memoryStore) now) (read_command p) (c, s) =
       (Inr (fst (exec_device (read_command p) (mem_device s))), (c', s'))" .
  have inv: "r = (Inr v, w')" if "map_res r (\<lambda>v. Inr (K v)) = (Inr (K v), w')" "inj K"
    for r :: "(merr + 'x) \<times> TCPConn \<times> MemoryStore" and v w' and K :: "'x \<Rightarrow> outcome"
    using that by (cases r; cases "fst r") (auto simp: map_res_def dest: injD)
  have "inj Bits" "inj Regs" by (auto intro: injI)
  then show ?thesis
    using * assms(1)
    by (cases p) (auto simp: point_ok_def registers_value_def registersToBytes_def mk_value_def dest!: inv)
qed

lemma Client_Read_device:
  assumes "list_all point_ok ps" "quiescent c" "0 \<le> retries cl"
  shows "\<exists>c' s'. quiescent c' \<and> mem_device s' = mem_device s \<and>
    Client_Read cl (wire (setupDefaultHandlers memoryStore) now) ps (c, s) =
      (Inr (map (device_value (mem_device s)) ps), (c', s'))"
  using assms
proof (induction ps arbitrary: c s)
  case (Cons p ps)
  obtain c1 s1 where 1: "quiescent c1" "mem_device s1 = mem_device s"
    "readDataPoint cl (wire (setupDefaultHandlers memoryStore) now) p (c, s) =
      (Inr ((device_value (mem_device s) p)\<lparr>DataPoint := None\<rparr>), (c1, s1))"
    using readDataPoint_device [of p c cl s now] Cons.prems by auto
  have "(device_value (mem_device s) p)\<lparr>DataPoint := None\<rparr>\<lparr>DataPoint := Some p\<rparr> = device_value (mem_device s) p"
    using Cons.prems(1) by (cases p) (simp_all add: point_ok_def mk_value_def)
  with 1 Cons.IH [of c1 s1] Cons.prems show ?case by auto
qed auto

interpretation modbus_read: snapshot_reader "modbus_reader cl now"
  "\<lambda>(c, s). quiescent c \<and> 0 \<le> retries cl" "\<lambda>(c, s). mem_device s" for cl now
  using Client_Read_device by unfold_locales (fastforce simp: modbus_reader_def)

section \<open>Clustered reads are transparent\<close>

definition limits_ok :: "ClusterConfig \<Rightarrow> bool" where
  "limits_ok cfg \<longleftrightarrow> unat (MaxRegistersPerRead cfg) \<le> MaxRegisterCount \<and>
     unat (MaxCoilsPerRead cfg) \<le> MaxCoilCount"

text \<open>
  The invariant of a reader with no read in flight: the plan is the plan of the
  registered points, and what caching may return is the value of its window.
\<close>

definition reader_inv :: "(point list \<Rightarrow> point list) \<Rightarrow> device \<Rightarrow> ClusteringReader \<Rightarrow> bool" where
  "reader_inv srt d r \<longleftrightarrow>
     sort_ok srt \<and> limits_ok (config r) \<and> windows r = buildWindows srt (points r) (config r) \<and>
     list_all (\<lambda>p. point_ok p \<and> in_range p) (points r) \<and> flights r = {} \<and>
     (CacheTTL (config r) > 0 \<longrightarrow>
       (\<forall>i c. cache r i = Some c \<longrightarrow> c_val c = device_value d (w_merged (windows r ! i))))"

definition range_ok :: "(nat list \<Rightarrow> nat list) \<Rightarrow> bool" where
  "range_ok rng \<longleftrightarrow> (\<forall>is. mset (rng is) = mset is)"

lemma ClusterMerge_same:
  "Clusterable p \<Longrightarrow> Clusterable (ClusterMerge p a n) \<and> ClusterKey (ClusterMerge p a n) = ClusterKey p"
  by (cases p) auto

lemma window_point_ok:
  assumes "window_ok cfg w" "limits_ok cfg" "list_all point_ok (w_points w)"
  shows "point_ok (w_merged w)"
proof -
  let ?p = "hd (w_points w)"
  have p: "point_ok ?p" using assms(1,3) by (cases "w_points w") (auto simp: window_ok_def)
  have m: "w_merged w = ClusterMerge ?p (w_start w) (w_count w)"
    and q: "unat (ClusterQty ?p) \<le> unat (w_count w)"
    and mx: "unat (w_count w) \<le> unat (maxPerRead cfg ?p) \<or> w_count w = ClusterQty ?p"
    using assms(1) by (auto simp: window_ok_def word_le_nat_alt)
  show ?thesis
    using p q mx assms(2) unfolding m
    by (cases ?p) (auto simp: point_ok_def maxPerRead_def limits_ok_def)
qed

lemma reader_window:
  assumes "reader_inv srt d r" "i < length (windows r)"
  shows "window_ok (config r) (windows r ! i)" "point_ok (w_merged (windows r ! i))"
    "list_all point_ok (w_points (windows r ! i))"
proof -
  have "list_all (\<lambda>p. Clusterable p \<and> in_range p) (points r)"
    using assms(1) by (auto simp: reader_inv_def list_all_iff point_ok_def)
  from buildWindows_ok [OF _ this, of srt "config r"] have
    ok: "list_all (window_ok (config r)) (windows r)" and
    part: "mset (concat (map w_points (windows r))) = mset (points r)"
    using assms(1) by (auto simp: reader_inv_def)
  show w: "window_ok (config r) (windows r ! i)" using ok assms(2) by (simp add: list_all_length)
  have "set (w_points (windows r ! i)) \<subseteq> set (points r)"
    using mset_eq_setD [OF part] assms(2) by force
  then show "list_all point_ok (w_points (windows r ! i))"
    using assms(1) by (auto simp: reader_inv_def list_all_iff)
  with w show "point_ok (w_merged (windows r ! i))"
    using assms(1) by (intro window_point_ok) (auto simp: reader_inv_def)
qed

text \<open>What a read of windows keeps.\<close>

definition same_plan :: "ClusteringReader \<Rightarrow> ClusteringReader \<Rightarrow> bool" where
  "same_plan r r' \<longleftrightarrow> config r' = config r \<and> points r' = points r \<and> windows r' = windows r \<and> cgen r' = cgen r"

lemma same_plan_refl [simp]: "same_plan r r"
  by (simp add: same_plan_def)

lemma same_plan_trans: "same_plan r r' \<Longrightarrow> same_plan r' r'' \<Longrightarrow> same_plan r r''"
  by (simp add: same_plan_def)

lemma reader_inv_count:
  "reader_inv srt d r \<Longrightarrow> reader_inv srt d (r\<lparr>ReadCount := n\<rparr>) \<and> same_plan r (r\<lparr>ReadCount := n\<rparr>)"
  by (simp add: reader_inv_def same_plan_def)

lemma readWindow_begin_idle:
  assumes "flights r = {}"
  shows "readWindow_begin now i g r = (Leads, r\<lparr>flights := {(g, i)}\<rparr>) \<or>
    (\<exists>c. CacheTTL (config r) > 0 \<and> cache r i = Some c \<and> readWindow_begin now i g r = (Cached (c_val c), r))"
  using assms by (auto simp: readWindow_begin_def split: option.splits)

lemma readWindow_finish_value:
  assumes "reader_inv srt d r" "v = device_value d (w_merged (windows r ! i))"
  shows "\<exists>r'. readWindow_finish now i g (Inr [v]) (r\<lparr>flights := {(g, i)}\<rparr>) = (Inr v, r') \<and>
    reader_inv srt d r' \<and> same_plan r r'"
  using assms by (auto simp: readWindow_finish_def Let_def reader_inv_def same_plan_def)

context snapshot_reader
begin

lemma readWindow_op_ok:
  assumes "reader_inv srt (behind w) r" "ready w" "i < length (windows r)"
  shows "\<exists>r' w'. readWindow_op inner wait now (windows r) i g (r, w) =
      (Inr (device_value (behind w) (w_merged (windows r ! i))), r', w') \<and>
    reader_inv srt (behind w) r' \<and> same_plan r r' \<and> ready w' \<and> behind w' = behind w"
proof -
  have "flights r = {}" using assms(1) by (simp add: reader_inv_def)
  from readWindow_begin_idle [OF this, of now i g] show ?thesis
  proof
    assume lead: "readWindow_begin now i g r = (Leads, r\<lparr>flights := {(g, i)}\<rparr>)"
    have "point_ok (w_merged (windows r ! i))" by (rule reader_window [OF assms(1,3)])
    with read_points [of w "[w_merged (windows r ! i)]"] assms(2) obtain w' where w':
      "inner [w_merged (windows r ! i)] w = (Inr [device_value (behind w) (w_merged (windows r ! i))], w')"
      "ready w'" "behind w' = behind w" by auto
    from readWindow_finish_value [OF assms(1) refl, of now i g] lead w' show ?thesis
      by (auto simp: readWindow_op_def)
  next
    assume "\<exists>c. CacheTTL (config r) > 0 \<and> cache r i = Some c \<and>
      readWindow_begin now i g r = (Cached (c_val c), r)"
    with assms show ?thesis by (auto simp: readWindow_op_def reader_inv_def)
  qed
qed

lemma read_windows_ok:
  assumes "reader_inv srt (behind w) r" "ready w" "\<forall>i \<in> set is. i < length (windows r)" "ws = windows r"
  shows "\<exists>r' w' vals'. read_windows inner wait now ws g is vals (r, w) = (Inr vals', r', w') \<and>
    (\<forall>i. vals' i = (if i \<in> set is then Some (device_value (behind w) (w_merged (ws ! i))) else vals i)) \<and>
    reader_inv srt (behind w) r' \<and> same_plan r r' \<and> ready w' \<and> behind w' = behind w"
  using assms
proof (induction "is" arbitrary: vals r w)
  case (Cons i "is")
  obtain r1 w1 where 1: "readWindow_op inner wait now (windows r) i g (r, w) =
      (Inr (device_value (behind w) (w_merged (windows r ! i))), r1, w1)"
    "reader_inv srt (behind w) r1" "same_plan r r1" "ready w1" "behind w1 = behind w"
    using readWindow_op_ok [OF Cons.prems(1,2), of i wait now g] Cons.prems(3) by auto
  have "\<forall>i \<in> set is. i < length (windows r1)" "ws = windows r1"
    using Cons.prems(3,4) 1(3) by (auto simp: same_plan_def)
  from Cons.IH [of w1 r1 "vals(i \<mapsto> device_value (behind w) (w_merged (ws ! i)))", unfolded 1(5),
      OF 1(2,4) this]
  obtain r2 w2 vals' where
    "read_windows inner wait now ws g is (vals(i \<mapsto> device_value (behind w) (w_merged (ws ! i)))) (r1, w1) =
       (Inr vals', r2, w2)"
    "\<forall>j. vals' j = (if j \<in> set is then Some (device_value (behind w) (w_merged (ws ! j)))
       else (vals(i \<mapsto> device_value (behind w) (w_merged (ws ! i)))) j)"
    "reader_inv srt (behind w) r2" "same_plan r1 r2" "ready w2" "behind w2 = behind w"
    by blast
  moreover from this(4) 1(3) have "same_plan r r2" using same_plan_trans by blast
  ultimately show ?case using 1(1) Cons.prems(4) by auto
qed auto

lemma read_direct_ok:
  assumes "reader_inv srt (behind w) r" "ready w" "\<forall>(i, p) \<in> set ps. point_ok p"
  shows "\<exists>r' w'. read_direct inner ps results (r, w) =
      (Inr (fold (\<lambda>(i, p) rs. rs[i := device_value (behind w) p]) ps results), r', w') \<and>
    reader_inv srt (behind w) r' \<and> same_plan r r' \<and> ready w' \<and> behind w' = behind w"
  using assms
proof (induction ps arbitrary: results r w)
  case (Cons ip ps)
  obtain i p where ip: "ip = (i, p)" by fastforce
  with Cons.prems read_points [of w "[p]"] obtain w1 where 1:
    "inner [p] w = (Inr [device_value (behind w) p], w1)" "ready w1" "behind w1 = behind w" by auto
  let ?r = "r\<lparr>ReadCount := ReadCount r + 1\<rparr>"
  have "reader_inv srt (behind w1) ?r" "same_plan r ?r"
    using reader_inv_count [OF Cons.prems(1)] 1(3) by auto
  with Cons.IH [of w1 ?r "results[i := device_value (behind w) p]"] Cons.prems(3) 1 same_plan_trans [of r ?r]
  show ?case by (auto simp: ip Let_def)
qed auto

end

lemma set_directPoints:
  "(i, p) \<in> set (directPoints ws ps) \<longleftrightarrow> i < length ps \<and> p = ps ! i \<and> covering ws p = None"
  by (auto simp: directPoints_def in_set_enumerate_eq)

lemma set_clusteredPoints:
  "(i, win, p) \<in> set (clusteredPoints ws ps) \<longleftrightarrow>
     i < length ps \<and> p = ps ! i \<and> covering ws p = Some win"
  by (auto simp: clusteredPoints_def List.map_filter_def in_set_enumerate_eq image_iff)

lemma fold_update:
  assumes "\<forall>x \<in> set xs. g x = f (idx x)"
  shows "length (fold (\<lambda>x rs. rs[idx x := g x]) xs rs) = length rs \<and>
    (\<forall>k < length rs. fold (\<lambda>x rs. rs[idx x := g x]) xs rs ! k = (if k \<in> idx ` set xs then f k else rs ! k))"
  using assms by (induction xs arbitrary: rs) (auto simp: nth_list_update)

lemma split_updates:
  "(\<lambda>(i, p) rs. rs[i := h p]) = (\<lambda>x rs. rs[fst x := h (snd x)])"
  "(\<lambda>(i, win, p) rs. rs[i := h p]) = (\<lambda>x rs. rs[fst x := h (snd (snd x))])"
  by (auto simp: fun_eq_iff)

text \<open>The two passes together fill every slot with the value of its point.\<close>

lemma both_passes:
  "fold (\<lambda>(i, win, p) rs. rs[i := h p]) (clusteredPoints ws ps)
     (fold (\<lambda>(i, p) rs. rs[i := h p]) (directPoints ws ps) (replicate (length ps) z)) = map h ps"
    (is "fold _ ?cs ?mid = _")
proof (rule nth_equalityI)
  have d: "\<forall>x \<in> set (directPoints ws ps). h (snd x) = h (ps ! fst x)"
    using set_directPoints by fastforce
  have c: "\<forall>x \<in> set ?cs. h (snd (snd x)) = h (ps ! fst x)"
    using set_clusteredPoints by fastforce
  note D = fold_update [OF d, of "replicate (length ps) z"]
  note C = fold_update [OF c, of ?mid]
  show "length (fold (\<lambda>(i, win, p) rs. rs[i := h p]) ?cs ?mid) = length (map h ps)"
    using C D unfolding split_updates by simp
  fix k assume "k < length (fold (\<lambda>(i, win, p) rs. rs[i := h p]) ?cs ?mid)"
  then have k: "k < length ps" using C D unfolding split_updates by simp
  have "k \<in> fst ` set ?cs \<or> k \<in> fst ` set (directPoints ws ps)"
  proof (cases "covering ws (ps ! k)")
    case None
    with k have "(k, ps ! k) \<in> set (directPoints ws ps)" by (simp add: set_directPoints)
    then show ?thesis by force
  next
    case (Some win)
    with k have "(k, win, ps ! k) \<in> set ?cs" by (simp add: set_clusteredPoints)
    then show ?thesis by force
  qed
  with C D k show "fold (\<lambda>(i, win, p) rs. rs[i := h p]) ?cs ?mid ! k = map h ps ! k"
    unfolding split_updates by auto
qed

lemma extract_points_ok:
  assumes "\<forall>(idx, i, p) \<in> set cs. Clusterable p \<and> covers (ws ! i) p \<and> window_ok cfg (ws ! i) \<and>
      Clusterable (hd (w_points (ws ! i))) \<and> vals i = Some (device_value d (w_merged (ws ! i)))"
  shows "extract_points ws vals cs results =
    Inr (fold (\<lambda>(idx, i, p) rs. rs[idx := device_value d p]) cs results)"
  using assms
proof (induction cs arbitrary: results)
  case (Cons c cs)
  obtain idx i p where c: "c = (idx, i, p)" by (cases c)
  let ?w = "ws ! i"
  have h: "Clusterable p" "covers ?w p" "window_ok cfg ?w" "Clusterable (hd (w_points ?w))"
    "vals i = Some (device_value d (w_merged ?w))"
    using Cons.prems by (auto simp: c)
  have "unat (ClusterAddr p - w_start ?w) = unat (ClusterAddr p) - unat (w_start ?w)"
    using h(2) by (simp add: covers_def unat_sub word_le_nat_alt)
  then have "unat (ClusterAddr p - w_start ?w) + unat (ClusterQty p) \<le> unat (w_count ?w)"
    using h(2) unfolding covers_def by linarith
  moreover have "ClusterKey p = ClusterKey (hd (w_points ?w))"
    "w_merged ?w = ClusterMerge (hd (w_points ?w)) (w_start ?w) (w_count ?w)"
    using h(2,3) by (auto simp: covers_def window_ok_def)
  ultimately have "res_bind (ClusterExtract p (device_value d (w_merged ?w)) (w_start ?w))
      (\<lambda>v. Inr (v\<lparr>DataPoint := Some p\<rparr>)) = Inr (device_value d p)"
    using ClusterExtract_block [OF h(1,4)] by simp
  then obtain v where "ClusterExtract p (device_value d (w_merged ?w)) (w_start ?w) = Inr v"
    "v\<lparr>DataPoint := Some p\<rparr> = device_value d p"
    by (auto simp: res_simps)
  with Cons h(5) show ?case by (simp add: c)
qed simp

lemma covering_window:
  assumes "reader_inv srt d r" "in_range p" "covering (windows r) p = Some i"
  shows "i < length (windows r)" "covers (windows r ! i) p" "Clusterable p"
    "window_ok (config r) (windows r ! i)" "Clusterable (hd (w_points (windows r ! i)))"
proof -
  have f: "findWindow (windows r) p = Some i" and c: "Clusterable p"
    using assms(3) by (auto simp: covering_def split: if_splits)
  then show "Clusterable p" by simp
  show i: "i < length (windows r)" using findWindow_Some [OF f] by simp
  note w = reader_window [OF assms(1)]
  show "covers (windows r ! i) p"
    using findWindow_covers [of "config r" "windows r" p i] w(1) assms(2) f by (simp add: list_all_length)
  show "window_ok (config r) (windows r ! i)" by (rule w(1) [OF i])
  with w(3) [OF i] show "Clusterable (hd (w_points (windows r ! i)))"
    by (cases "w_points (windows r ! i)") (auto simp: window_ok_def point_ok_def)
qed

context snapshot_reader
begin

lemma Read_ok:
  assumes inv: "reader_inv srt (behind w) r" "ready w" "range_ok rng"
    and ps: "list_all (\<lambda>p. point_ok p \<and> in_range p) ps"
  shows "\<exists>r' w'. ClusteringReader_Read inner wait rng now ps (r, w) =
      (Inr (map (device_value (behind w)) ps), r', w') \<and>
    reader_inv srt (behind w) r' \<and> same_plan r r' \<and> ready w' \<and> behind w' = behind w"
proof (cases "Enabled (config r)")
  case False
  have "list_all point_ok ps" using ps by (simp add: list_all_iff)
  from read_points [OF inv(2) this] obtain w' where
    "inner ps w = (Inr (map (device_value (behind w)) ps), w')" "ready w'" "behind w' = behind w" by blast
  with False reader_inv_count [OF inv(1)] show ?thesis
    by (simp add: ClusteringReader_Read_def)
next
  case True
  let ?ws = "windows r" and ?cs = "clusteredPoints (windows r) ps" and ?d = "behind w"
  have clustered: "i < length ?ws \<and> Clusterable p \<and> covers (?ws ! i) p \<and> window_ok (config r) (?ws ! i) \<and>
      Clusterable (hd (w_points (?ws ! i)))" if "(idx, i, p) \<in> set ?cs" for idx i p
  proof -
    have "in_range p" "covering ?ws p = Some i"
      using that ps by (auto simp: set_clusteredPoints list_all_length)
    from covering_window [OF inv(1) this] show ?thesis by simp
  qed
  have "\<forall>(i, p) \<in> set (directPoints ?ws ps). point_ok p"
    using ps by (auto simp: set_directPoints list_all_length)
  from read_direct_ok [OF inv(1,2) this] obtain results r1 w1 where 1:
    "read_direct inner (directPoints ?ws ps) (replicate (length ps) zero_value) (r, w) = (Inr results, r1, w1)"
    "results = fold (\<lambda>(i, p) rs. rs[i := device_value ?d p]) (directPoints ?ws ps) (replicate (length ps) zero_value)"
    "reader_inv srt ?d r1" "same_plan r r1" "ready w1" "behind w1 = ?d" by blast
  let ?is = "rng (remdups (map (\<lambda>(i, win, p). win) ?cs))"
  have "mset ?is = mset (remdups (map (\<lambda>(i, win, p). win) ?cs))"
    using inv(3) by (simp add: range_ok_def)
  then have "set ?is = set (remdups (map (\<lambda>(i, win, p). win) ?cs))" by (rule mset_eq_setD)
  then have needed: "set ?is = (\<lambda>(i, win, p). win) ` set ?cs" by simp
  then have "\<forall>i \<in> set ?is. i < length (windows r1)"
    using clustered 1(4) by (auto simp: same_plan_def)
  moreover have "?ws = windows r1" using 1(4) by (simp add: same_plan_def)
  ultimately obtain r2 w2 vals where 2:
    "read_windows inner wait now ?ws (cgen r) ?is Map.empty (r1, w1) = (Inr vals, r2, w2)"
    "\<forall>i. vals i = (if i \<in> set ?is then Some (device_value ?d (w_merged (?ws ! i))) else None)"
    "reader_inv srt ?d r2" "same_plan r1 r2" "ready w2" "behind w2 = ?d"
    using read_windows_ok [of srt w1 r1 ?is ?ws wait now "cgen r" Map.empty] 1(3,5,6) by auto
  have "\<forall>(idx, i, p) \<in> set ?cs. Clusterable p \<and> covers (?ws ! i) p \<and> window_ok (config r) (?ws ! i) \<and>
      Clusterable (hd (w_points (?ws ! i))) \<and> vals i = Some (device_value ?d (w_merged (?ws ! i)))"
  proof clarify
    fix idx i p assume c: "(idx, i, p) \<in> set ?cs"
    then have "i \<in> set ?is" unfolding needed by force
    with clustered [OF c] 2(2) show "Clusterable p \<and> covers (?ws ! i) p \<and> window_ok (config r) (?ws ! i) \<and>
      Clusterable (hd (w_points (?ws ! i))) \<and> vals i = Some (device_value ?d (w_merged (?ws ! i)))" by simp
  qed
  from extract_points_ok [OF this, of results] have
    "extract_points ?ws vals ?cs results = Inr (map (device_value ?d) ps)"
    unfolding 1(2) both_passes .
  moreover have "same_plan r r2" using 1(4) 2(4) by (rule same_plan_trans)
  ultimately show ?thesis
    using True 1(1) 2(1,3,5,6) by (simp add: ClusteringReader_Read_def Let_def)
qed

end

section \<open>Runs of a clustering reader over the Modbus client\<close>

text \<open>
  A user of the reader registers and unregisters points, reads, and in between sends
  commands to the device through the same client.
\<close>

datatype cluster_op =
    OpRegister "point list" | OpUnregister "point list" | OpRead int "point list" | OpCommand command

fun cluster_run :: "Client \<Rightarrow> nat \<Rightarrow> (point list \<Rightarrow> point list) \<Rightarrow> (nat \<times> nat \<Rightarrow> merr + point Value) \<Rightarrow>
    (nat list \<Rightarrow> nat list) \<Rightarrow> cluster_op list \<Rightarrow> ClusteringReader \<times> TCPConn \<times> MemoryStore \<Rightarrow>
    (merr + point Value list) list" where
  "cluster_run cl t srt wait rng [] (r, w) = []"
| "cluster_run cl t srt wait rng (OpRegister ps # ops) (r, w) =
     cluster_run cl t srt wait rng ops (Register srt ps r, w)"
| "cluster_run cl t srt wait rng (OpUnregister ps # ops) (r, w) =
     cluster_run cl t srt wait rng ops (Unregister srt ps r, w)"
| "cluster_run cl t srt wait rng (OpRead now ps # ops) (r, w) =
     (case ClusteringReader_Read (modbus_reader cl t) wait rng now ps (r, w) of
        (out, r, w) \<Rightarrow> out # cluster_run cl t srt wait rng ops (r, w))"
| "cluster_run cl t srt wait rng (OpCommand cmd # ops) (r, w) =
     (case Client_exec cl (wire (setupDefaultHandlers memoryStore) t) cmd w of
        (out, w) \<Rightarrow> cluster_run cl t srt wait rng ops (r, w))"

text \<open>What the reads should return: the device's values at the time of each read.\<close>

fun device_reads :: "cluster_op list \<Rightarrow> device \<Rightarrow> point Value list list" where
  "device_reads [] d = []"
| "device_reads (OpRead now ps # ops) d = map (device_value d) ps # device_reads ops d"
| "device_reads (OpCommand cmd # ops) d = device_reads ops (snd (exec_device cmd d))"
| "device_reads (op # ops) d = device_reads ops d"

fun op_ok :: "bool \<Rightarrow> cluster_op \<Rightarrow> bool" where
  "op_ok caching (OpRegister ps) \<longleftrightarrow> list_all (\<lambda>p. Clusterable p \<longrightarrow> point_ok p \<and> in_range p) ps"
| "op_ok caching (OpUnregister ps) \<longleftrightarrow> True"
| "op_ok caching (OpRead now ps) \<longleftrightarrow> list_all (\<lambda>p. point_ok p \<and> in_range p) ps"
| "op_ok caching (OpCommand cmd) \<longleftrightarrow> \<not> caching \<and> command_ok cmd"

lemma set_remove_point: "set (remove_point c ps) \<subseteq> set ps"
  by (induction ps) auto

lemma set_fold_remove: "set (fold remove_point cs ps) \<subseteq> set ps"
proof (induction cs arbitrary: ps)
  case (Cons c cs)
  then show ?case using set_remove_point [of c ps] by fastforce
qed simp

lemma reader_inv_Register:
  assumes "reader_inv srt d r" "list_all (\<lambda>p. Clusterable p \<longrightarrow> point_ok p \<and> in_range p) ps"
  shows "reader_inv srt d (Register srt ps r)" "config (Register srt ps r) = config r"
  using assms by (auto simp: reader_inv_def Register_def replan_def list_all_iff)

lemma reader_inv_Unregister:
  assumes "reader_inv srt d r"
  shows "reader_inv srt d (Unregister srt ps r)" "config (Unregister srt ps r) = config r"
  using assms set_fold_remove [of "filter Clusterable ps" "points r"]
  by (auto simp: reader_inv_def Unregister_def replan_def list_all_iff)

lemma reader_inv_New:
  assumes "sort_ok srt" "limits_ok (config (NewClusteringReader opts))"
  shows "reader_inv srt d (NewClusteringReader opts)"
  using assms by (simp add: reader_inv_def NewClusteringReader_def buildWindows_def)

lemma reader_inv_device: "\<lbrakk>reader_inv srt d r; CacheTTL (config r) \<le> 0\<rbrakk> \<Longrightarrow> reader_inv srt d' r"
  by (simp add: reader_inv_def)

lemma cluster_run_ok:
  assumes "range_ok rng" "0 \<le> retries cl" "reader_inv srt (mem_device s) r" "quiescent c"
    "list_all (op_ok (CacheTTL (config r) > 0)) ops"
  shows "cluster_run cl t srt wait rng ops (r, c, s) = map Inr (device_reads ops (mem_device s))"
  using assms(3-5)
proof (induction ops arbitrary: r c s)
  case (Cons op ops)
  show ?case
  proof (cases op)
    case (OpRegister ps)
    with Cons show ?thesis using reader_inv_Register [OF Cons.prems(1), of ps] by simp
  next
    case (OpUnregister ps)
    with Cons show ?thesis using reader_inv_Unregister [OF Cons.prems(1), of ps] by simp
  next
    case (OpRead now ps)
    with Cons.prems(3) have "list_all (\<lambda>p. point_ok p \<and> in_range p) ps" by simp
    then obtain r' c' s' where
      "ClusteringReader_Read (modbus_reader cl t) wait rng now ps (r, c, s) =
         (Inr (map (device_value (mem_device s)) ps), r', c', s')"
      "reader_inv srt (mem_device s) r'" "config r' = config r" "quiescent c'" "mem_device s' = mem_device s"
      using modbus_read.Read_ok [of srt "(c, s)" r cl rng ps t wait now] Cons.prems(1,2) assms(1,2)
      by (auto simp: same_plan_def)
    with Cons.IH [of s' r' c'] Cons.prems(3) show ?thesis by (simp add: OpRead)
  next
    case (OpCommand cmd)
    with Cons.prems(3) have cmd: "command_ok cmd" "CacheTTL (config r) \<le> 0" by auto
    from mem_store.client_refines_device [OF cmd(1) Cons.prems(2) assms(2), of s t] obtain c' s' where
      "quiescent c'" "mem_device s' = snd (exec_device cmd (mem_device s))"
      "Client_exec cl (wire (setupDefaultHandlers memoryStore) t) cmd (c, s) =
         (Inr (fst (exec_device cmd (mem_device s))), c', s')" .
    with Cons.IH [OF reader_inv_device [OF Cons.prems(1) cmd(2)], of c' s'] Cons.prems(3) show ?thesis
      by (auto simp: OpCommand)
  qed
qed simp

section \<open>Properties\<close>


lemma sort_ok_sort_key: "sort_ok (sort_key ClusterAddr)"
  by (simp add: sort_ok_def)




text \<open>An inner reader that answers from a device that does not change.\<close>

definition device_reader :: "device \<Rightarrow> 'w reader" where
  "device_reader d ps w = (Inr (map (device_value d) ps), w)"

text \<open>
  The bound on addresses is needed.  With registers 65530 and 65535 registered, the end
  of the second wraps to 0, the plan puts it in a window that does not reach it, and reading
  this valid register panics, while a reader with nothing registered returns its value.
\<close>

theorem cluster_wrap_panics:
  "let r = Register (sort_key ClusterAddr) [HoldingRegister 65530 1, HoldingRegister 65535 1]
             (NewClusteringReader [])
   in fst (ClusteringReader_Read (device_reader d) wait id now [HoldingRegister 65535 1] (r, w)) = Inl GoPanic \<and>
      fst (ClusteringReader_Read (device_reader d) wait id now [HoldingRegister 65535 1]
             (NewClusteringReader [], w)) = Inr [device_value d (HoldingRegister 65535 1)]"
  by (simp add: Register_def replan_def NewClusteringReader_def buildWindows_def maxPerRead_def canMerge_def
      flush_def ClusteringReader_Read_def clusteredPoints_def directPoints_def covering_def
      List.map_filter_def readWindow_op_def readWindow_begin_def readWindow_finish_def device_reader_def
      mk_value_def extractRegisters_def read_range_def be16_def)

text \<open>
  A plan change does not invalidate reads in flight.  A read of window 0 that started
  under an old plan stores its result under index 0 of the new plan's cache, so that within
  the cache's life time reading register 10 returns the contents of register 100.
\<close>

theorem cluster_stale_cache:
  "let opts = [\<lambda>cfg. cfg\<lparr>CacheTTL := 1000\<rparr>]; srt = sort_key ClusterAddr;
       r1 = Register srt [HoldingRegister 100 1] (NewClusteringReader opts);
       (found, r2) = readWindow_begin 0 0 (cgen r1) r1;
       r3 = Register srt [HoldingRegister 10 1] r2;
       (out, r4) = readWindow_finish 1 0 (cgen r1) (Inr [device_value d (w_merged (windows r1 ! 0))]) r3
   in found = Leads \<and> cgen r3 \<noteq> cgen r1 \<and>
      fst (ClusteringReader_Read (device_reader d) wait id 2 [HoldingRegister 10 1] (r4, w)) =
        Inr [(device_value d (HoldingRegister 100 1))\<lparr>DataPoint := Some (HoldingRegister 10 1)\<rparr>]"
  by (simp add: Register_def replan_def NewClusteringReader_def buildWindows_def maxPerRead_def canMerge_def
      flush_def ClusteringReader_Read_def clusteredPoints_def directPoints_def covering_def
      List.map_filter_def readWindow_op_def readWindow_begin_def readWindow_finish_def device_reader_def
      mk_value_def extractRegisters_def read_range_def be16_def)

end
