(* ===== verification/Transport.thy ===== *)
theory Transport
  imports Prelude
begin

text \<open>
  \<^verbatim>\<open>src/transport\<close>: \<^verbatim>\<open>DirectTransport\<close>, which connects once, and \<^verbatim>\<open>ReconnectingTransport\<close>,
  which connects on demand.  Go's zero connection is \<^const>\<open>None\<close>.  The connector's and
  the closer's outcomes are arguments of the operations; a connector that succeeds
  returns a connection other than the zero value.  Each operation runs under the
  transport's lock; the fast path of \<^verbatim>\<open>Conn\<close> reads the same state.  The callbacks and
  the closer's calls are recorded in order.
\<close>

datatype terr = TransportClosed | ConnReset | ConnectFailed

datatype 'c tevent = Opened 'c | ClosedConn 'c "terr option"

section \<open>Direct transport\<close>

record 'c DirectTransport =
  dt_conn :: "'c option"
  dt_active :: bool
  dt_closed :: bool
  dt_events :: "'c tevent list"

definition NewDirectTransport :: "terr + 'c \<Rightarrow> terr + 'c DirectTransport" where
  "NewDirectTransport connect =
     (case connect of
        Inl err \<Rightarrow> Inl err
      | Inr conn \<Rightarrow>
          Inr \<lparr>dt_conn = Some conn, dt_active = True, dt_closed = False, dt_events = [Opened conn]\<rparr>)"

definition Direct_Conn :: "'c DirectTransport \<Rightarrow> terr + 'c" where
  "Direct_Conn d =
     (if dt_closed d then Inl TransportClosed
      else if \<not> dt_active d then Inl ConnReset
      else Inr (the (dt_conn d)))"

definition Direct_Peek :: "'c DirectTransport \<Rightarrow> bool" where
  "Direct_Peek d \<longleftrightarrow> dt_active d \<and> \<not> dt_closed d"

definition Direct_Reset :: "terr option \<Rightarrow> 'c \<Rightarrow> 'c DirectTransport \<Rightarrow> 'c DirectTransport" where
  "Direct_Reset err stale d =
     (if \<not> dt_active d \<or> dt_conn d \<noteq> Some stale then d
      else d\<lparr>dt_conn := None, dt_active := False,
             dt_events := dt_events d @ [ClosedConn stale err]\<rparr>)"

definition Direct_Close :: "terr option \<Rightarrow> 'c DirectTransport \<Rightarrow> terr option \<times> 'c DirectTransport" where
  "Direct_Close err d =
     (if dt_closed d then (None, d)
      else if \<not> dt_active d then (None, d\<lparr>dt_closed := True\<rparr>)
      else (err, d\<lparr>dt_closed := True, dt_active := False, dt_conn := None,
                   dt_events := dt_events d @ [ClosedConn (the (dt_conn d)) err]\<rparr>))"

section \<open>Reconnecting transport\<close>

record 'c ReconnectingTransport =
  rt_conn :: "'c option"
  rt_closed :: bool
  rt_events :: "'c tevent list"

definition NewReconnectingTransport :: "'c ReconnectingTransport" where
  "NewReconnectingTransport = \<lparr>rt_conn = None, rt_closed = False, rt_events = []\<rparr>"

definition Reconnecting_Conn :: "terr + 'c \<Rightarrow> 'c ReconnectingTransport \<Rightarrow>
    (terr + 'c) \<times> 'c ReconnectingTransport" where
  "Reconnecting_Conn connect r =
     (if rt_closed r then (Inl TransportClosed, r)
      else case rt_conn r of
        Some conn \<Rightarrow> (Inr conn, r)
      | None \<Rightarrow>
          (case connect of
             Inl err \<Rightarrow> (Inl err, r)
           | Inr conn \<Rightarrow>
               (Inr conn, r\<lparr>rt_conn := Some conn, rt_events := rt_events r @ [Opened conn]\<rparr>)))"

definition DialReconnectingTransport :: "terr + 'c \<Rightarrow> terr + 'c ReconnectingTransport" where
  "DialReconnectingTransport connect =
     (case Reconnecting_Conn connect NewReconnectingTransport of
        (Inl err, r) \<Rightarrow> Inl err
      | (Inr conn, r) \<Rightarrow> Inr r)"

definition Reconnecting_Peek :: "'c ReconnectingTransport \<Rightarrow> bool" where
  "Reconnecting_Peek r \<longleftrightarrow> \<not> rt_closed r \<and> rt_conn r \<noteq> None"

definition Reconnecting_Reset :: "terr option \<Rightarrow> 'c \<Rightarrow> 'c ReconnectingTransport \<Rightarrow>
    'c ReconnectingTransport" where
  "Reconnecting_Reset err stale r =
     (if rt_conn r = None \<or> rt_conn r \<noteq> Some stale then r
      else r\<lparr>rt_conn := None, rt_events := rt_events r @ [ClosedConn stale err]\<rparr>)"

definition Reconnecting_Close :: "terr option \<Rightarrow> 'c ReconnectingTransport \<Rightarrow>
    terr option \<times> 'c ReconnectingTransport" where
  "Reconnecting_Close err r =
     (if rt_closed r then (None, r)
      else case rt_conn r of
        None \<Rightarrow> (None, r\<lparr>rt_closed := True\<rparr>)
      | Some conn \<Rightarrow>
          (err, r\<lparr>rt_closed := True, rt_conn := None,
                  rt_events := rt_events r @ [ClosedConn conn err]\<rparr>))"

section \<open>The contract of a transport\<close>

text \<open>
  What the protocol clients rely on, for either implementation: the current
  connection is shared until someone resets exactly it, and closing is final.
\<close>

locale transport_contract =
  fixes conn :: "terr + 'c \<Rightarrow> 's \<Rightarrow> (terr + 'c) \<times> 's"
    and reset :: "terr option \<Rightarrow> 'c \<Rightarrow> 's \<Rightarrow> 's"
    and close :: "terr option \<Rightarrow> 's \<Rightarrow> terr option \<times> 's"
    and current :: "'s \<Rightarrow> 'c option"
    and shut :: "'s \<Rightarrow> bool"
    and ok :: "'s \<Rightarrow> bool"
  assumes conn_current: "\<lbrakk>ok s; \<not> shut s; current s = Some c\<rbrakk> \<Longrightarrow> conn r s = (Inr c, s)"
    and conn_shut: "\<lbrakk>ok s; shut s\<rbrakk> \<Longrightarrow> conn r s = (Inl TransportClosed, s)"
    and conn_result: "\<lbrakk>ok s; conn r s = (Inr c, s')\<rbrakk> \<Longrightarrow> current s' = Some c \<and> shut s' = shut s"
    and reset_other: "\<lbrakk>ok s; current s \<noteq> Some c\<rbrakk> \<Longrightarrow> reset e c s = s"
    and reset_current: "\<lbrakk>ok s; current s = Some c\<rbrakk> \<Longrightarrow>
      current (reset e c s) = None \<and> shut (reset e c s) = shut s"
    and close_shut: "ok s \<Longrightarrow> shut (snd (close e s)) \<and> current (snd (close e s)) = None"
    and shut_current: "\<lbrakk>ok s; shut s\<rbrakk> \<Longrightarrow> current s = None"
    and ok_conn: "ok s \<Longrightarrow> ok (snd (conn r s))"
    and ok_reset: "ok s \<Longrightarrow> ok (reset e c s)"
    and ok_close: "ok s \<Longrightarrow> ok (snd (close e s))"
begin

text \<open>
  Two users of one connection that both see it fail: the second reset cannot hurt the
  connection that replaced it.
\<close>

lemma late_reset_harmless:
  assumes "ok s" "current s = Some c" "conn r (reset e c s) = (Inr c', s')" "c' \<noteq> c"
  shows "reset e' c s' = s' \<and> conn r' s' = (Inr c', s')"
proof -
  have ok: "ok (reset e c s)" by (rule ok_reset) (rule assms)
  then have s': "current s' = Some c'" "shut s' = shut (reset e c s)" "ok s'"
    using conn_result [OF ok assms(3)] ok_conn [OF ok, of r] assms(3) by auto
  moreover have "\<not> shut (reset e c s)"
    using conn_shut [OF ok, of r] assms(3) by auto
  ultimately show ?thesis
    using assms(4) by (auto intro: reset_other conn_current)
qed

text \<open>Closing is final: no later use brings a connection back.\<close>

lemma close_final:
  assumes "ok s"
  shows "conn r (snd (close e s)) = (Inl TransportClosed, snd (close e s))"
    "reset e' c (snd (close e s)) = snd (close e s)"
    "current (snd (close e' (snd (close e s)))) = None"
  using close_shut [OF assms, of e] ok_close [OF assms, of e]
  by (auto intro: conn_shut reset_other simp: close_shut)

end

interpretation reconnecting: transport_contract Reconnecting_Conn Reconnecting_Reset
  Reconnecting_Close rt_conn rt_closed "\<lambda>r. rt_closed r \<longrightarrow> rt_conn r = None"
  by unfold_locales
    (auto simp: Reconnecting_Conn_def Reconnecting_Reset_def Reconnecting_Close_def
      split: option.splits sum.splits if_splits)

interpretation direct: transport_contract "\<lambda>_ d. (Direct_Conn d, d)" Direct_Reset Direct_Close
  dt_conn dt_closed "\<lambda>d. (dt_active d \<longleftrightarrow> dt_conn d \<noteq> None) \<and> (dt_closed d \<longrightarrow> dt_conn d = None)"
  by unfold_locales
    (auto simp: Direct_Conn_def Direct_Reset_def Direct_Close_def split: if_splits)

section \<open>Histories\<close>

text \<open>Every way a program can use a reconnecting transport.\<close>

inductive rt_step :: "'c ReconnectingTransport \<Rightarrow> 'c ReconnectingTransport \<Rightarrow> bool" where
  rt_conn_step: "rt_step r (snd (Reconnecting_Conn connect r))"
| rt_reset_step: "rt_step r (Reconnecting_Reset err stale r)"
| rt_close_step: "rt_step r (snd (Reconnecting_Close err r))"

text \<open>
  Replaying the recorded events: a connection is opened only when none is open and
  closed only when it is the open one; \<^const>\<open>None\<close> is a violation.
\<close>

fun replay :: "'c option \<Rightarrow> 'c tevent list \<Rightarrow> 'c option option" where
  "replay cur [] = Some cur"
| "replay cur (Opened c # es) = (if cur = None then replay (Some c) es else None)"
| "replay cur (ClosedConn c e # es) = (if cur = Some c then replay None es else None)"

lemma replay_append:
  "replay cur (es @ fs) = (case replay cur es of None \<Rightarrow> None | Some cur' \<Rightarrow> replay cur' fs)"
  by (induction cur es rule: replay.induct) auto

lemma rt_step_replay:
  "\<lbrakk>rt_step r r'; replay None (rt_events r) = Some (rt_conn r)\<rbrakk> \<Longrightarrow>
     replay None (rt_events r') = Some (rt_conn r')"
  by (induction rule: rt_step.induct)
    (auto simp: Reconnecting_Conn_def Reconnecting_Reset_def Reconnecting_Close_def replay_append
      split: option.splits sum.splits if_splits)

lemma rt_step_closed: "\<lbrakk>rt_step r r'; rt_closed r; rt_conn r = None\<rbrakk> \<Longrightarrow> r' = r"
  by (induction rule: rt_step.induct)
    (auto simp: Reconnecting_Conn_def Reconnecting_Reset_def Reconnecting_Close_def)

lemma rt_shut_facts:
  assumes "rt_closed r \<and> rt_conn r = None"
  shows "Reconnecting_Conn k r = (Inl TransportClosed, r) \<and> \<not> Reconnecting_Peek r \<and>
    Reconnecting_Reset e c r = r \<and> Reconnecting_Close e r = (None, r)"
  using assms
  by (simp add: Reconnecting_Conn_def Reconnecting_Peek_def Reconnecting_Reset_def Reconnecting_Close_def)

lemma dt_shut_facts:
  assumes "dt_closed d \<and> dt_conn d = None"
  shows "Direct_Conn d = Inl TransportClosed \<and> \<not> Direct_Peek d \<and>
    Direct_Reset e c d = d \<and> Direct_Close e d = (None, d)"
  using assms
  by (simp add: Direct_Conn_def Direct_Peek_def Direct_Reset_def Direct_Close_def)

section \<open>Properties\<close>

text \<open>
  C8: connections are opened one at a time and each is closed exactly once.  In every
  state a reconnecting transport can reach, replaying its connects and closes never
  opens a second connection or closes one that is not open, and ends with exactly the
  connection the transport holds.
\<close>

theorem transport_history:
  assumes "rt_step\<^sup>*\<^sup>* NewReconnectingTransport r"
  shows "replay None (rt_events r) = Some (rt_conn r)"
  using assms
proof (induction rule: rtranclp_induct)
  case base
  then show ?case by (simp add: NewReconnectingTransport_def)
qed (rule rt_step_replay)

theorem transport_history_witness:
  "let r = Reconnecting_Reset None (1 :: nat)
             (snd (Reconnecting_Conn (Inr 1) NewReconnectingTransport))
   in replay None (rt_events r) = Some (rt_conn r) \<and> length (rt_events r) = 2"
proof -
  let ?r = "snd (Reconnecting_Conn (Inr (1 :: nat)) NewReconnectingTransport)"
  have "rt_step\<^sup>*\<^sup>* NewReconnectingTransport (Reconnecting_Reset None 1 ?r)"
    by (rule rtranclp.rtrancl_into_rtrancl, rule r_into_rtranclp, rule rt_conn_step, rule rt_reset_step)
  from transport_history [OF this] show ?thesis
    by (simp add: Reconnecting_Conn_def Reconnecting_Reset_def NewReconnectingTransport_def)
qed

text \<open>
  A late reset is harmless.  When two callers share a connection that failed and the
  first has reset it and reconnected, the reset of the second leaves the new connection
  in place, and both get it from then on.
\<close>

theorem transport_late_reset:
  assumes "\<not> rt_closed r" "rt_conn r = Some c"
    "Reconnecting_Conn k (Reconnecting_Reset e c r) = (Inr c', r')" "c' \<noteq> c"
  shows "Reconnecting_Reset e' c r' = r' \<and> Reconnecting_Conn k' r' = (Inr c', r')"
  by (rule reconnecting.late_reset_harmless [OF _ assms(2-4)]) (simp add: assms(1))

theorem transport_late_reset_witness:
  "let r = snd (Reconnecting_Conn (Inr (1 :: nat)) NewReconnectingTransport);
       r' = snd (Reconnecting_Conn (Inr 2) (Reconnecting_Reset None 1 r))
   in Reconnecting_Reset None 1 r' = r' \<and> Reconnecting_Conn (Inr 3) r' = (Inr 2, r')"
proof -
  let ?r = "snd (Reconnecting_Conn (Inr (1 :: nat)) NewReconnectingTransport)"
  have conn: "Reconnecting_Conn (Inr 2) (Reconnecting_Reset None 1 ?r) =
      (Inr 2, snd (Reconnecting_Conn (Inr 2) (Reconnecting_Reset None 1 ?r)))"
    by (simp add: Reconnecting_Conn_def Reconnecting_Reset_def NewReconnectingTransport_def)
  have "\<not> rt_closed ?r" "rt_conn ?r = Some 1" "(2 :: nat) \<noteq> 1"
    by (simp_all add: Reconnecting_Conn_def NewReconnectingTransport_def)
  from transport_late_reset [OF this(1,2) conn this(3)] show ?thesis
    unfolding Let_def .
qed

text \<open>
  Closing is final for both transports: every later \<^verbatim>\<open>Conn\<close> fails, \<^verbatim>\<open>Peek\<close> is false,
  \<^verbatim>\<open>Reset\<close> and a second \<^verbatim>\<open>Close\<close> do nothing.
\<close>

theorem transport_close_final:
  assumes "rt_closed r \<longrightarrow> rt_conn r = None"
    "dt_active d \<longleftrightarrow> dt_conn d \<noteq> None" "dt_closed d \<longrightarrow> dt_conn d = None"
  shows "let r' = snd (Reconnecting_Close e r); d' = snd (Direct_Close e d) in
    Reconnecting_Conn k r' = (Inl TransportClosed, r') \<and> \<not> Reconnecting_Peek r' \<and>
    Reconnecting_Reset e' c r' = r' \<and> Reconnecting_Close e' r' = (None, r') \<and>
    Direct_Conn d' = Inl TransportClosed \<and> \<not> Direct_Peek d' \<and>
    Direct_Reset e' c' d' = d' \<and> Direct_Close e' d' = (None, d')"
  using rt_shut_facts [OF reconnecting.close_shut [OF assms(1), of e]]
    dt_shut_facts [OF direct.close_shut [of d e], of e' c'] direct.ok_close [of d e] assms(2,3)
  by (simp add: Let_def)

theorem transport_close_final_witness:
  "let r = snd (Reconnecting_Close None (snd (Reconnecting_Conn (Inr (1 :: nat)) NewReconnectingTransport)))
   in Reconnecting_Conn (Inr 2) r = (Inl TransportClosed, r)"
proof -
  let ?r = "snd (Reconnecting_Conn (Inr (1 :: nat)) NewReconnectingTransport)"
  let ?d = "\<lparr>dt_conn = Some (1 :: nat), dt_active = True, dt_closed = False, dt_events = []\<rparr>"
  have "rt_closed ?r \<longrightarrow> rt_conn ?r = None" "dt_active ?d \<longleftrightarrow> dt_conn ?d \<noteq> None"
    "dt_closed ?d \<longrightarrow> dt_conn ?d = None"
    by (simp_all add: Reconnecting_Conn_def NewReconnectingTransport_def)
  from transport_close_final [OF this, of None "Inr 2" None 0 0] show ?thesis
    by (simp add: Let_def)
qed

end
