(* ===== verification/Cip_Path.thy ===== *)
theory Cip_Path
  imports Prelude
begin

text \<open>
  \<^verbatim>\<open>src/protocol/ethernetip/cip/path.go\<close> and \<^verbatim>\<open>tag.go\<close>: encoded paths (EPATHs) and the parser
  that turns a Logix tag name into one.  A path is its bytes; a Go string is its bytes
  too.  An independent decoder of padded EPATHs says what the paths mean.
\<close>

unbundle bit_operations_syntax

type_synonym USINT = byte
type_synonym UINT = u16
type_synonym UDINT = u32
type_synonym Path = "byte list"

text \<open>Errors of the CIP packages: a general status, a failed read, or a message.\<close>

datatype cerr = CIPError USINT "UINT list" | CIPRead io_error | CIPErrorf string

section \<open>Segments\<close>

abbreviation (input) SegmentTypePort :: byte where "SegmentTypePort \<equiv> 0x00"
abbreviation (input) SegmentTypeLogical :: byte where "SegmentTypeLogical \<equiv> 0x20"
abbreviation (input) LogicalTypeClass :: byte where "LogicalTypeClass \<equiv> 0x00"
abbreviation (input) LogicalTypeInstance :: byte where "LogicalTypeInstance \<equiv> 0x04"
abbreviation (input) LogicalTypeMember :: byte where "LogicalTypeMember \<equiv> 0x08"
abbreviation (input) LogicalTypePoint :: byte where "LogicalTypePoint \<equiv> 0x0C"
abbreviation (input) LogicalTypeAttribute :: byte where "LogicalTypeAttribute \<equiv> 0x10"
abbreviation (input) LogicalFormat8Bit :: byte where "LogicalFormat8Bit \<equiv> 0x00"
abbreviation (input) LogicalFormat16Bit :: byte where "LogicalFormat16Bit \<equiv> 0x01"
abbreviation (input) LogicalFormat32Bit :: byte where "LogicalFormat32Bit \<equiv> 0x02"

definition NewPath :: Path where
  "NewPath = []"

definition AddClass :: "UINT \<Rightarrow> Path \<Rightarrow> Path" where
  "AddClass classID p =
     (if classID \<le> 0xFF
      then p @ [SegmentTypeLogical OR LogicalTypeClass OR LogicalFormat8Bit] @ [ucast classID]
      else p @ [SegmentTypeLogical OR LogicalTypeClass OR LogicalFormat16Bit] @ [0x00] @ le16 classID)"

definition AddInstance :: "UINT \<Rightarrow> Path \<Rightarrow> Path" where
  "AddInstance instanceID p =
     (if instanceID \<le> 0xFF
      then p @ [SegmentTypeLogical OR LogicalTypeInstance OR LogicalFormat8Bit] @ [ucast instanceID]
      else p @ [SegmentTypeLogical OR LogicalTypeInstance OR LogicalFormat16Bit] @ [0x00] @ le16 instanceID)"

definition AddInstance32 :: "u32 \<Rightarrow> Path \<Rightarrow> Path" where
  "AddInstance32 instanceID p =
     (if instanceID \<le> 0xFF
      then p @ [SegmentTypeLogical OR LogicalTypeInstance OR LogicalFormat8Bit] @ [ucast instanceID]
      else if instanceID \<le> 0xFFFF
      then p @ [SegmentTypeLogical OR LogicalTypeInstance OR LogicalFormat16Bit] @ [0x00] @ le16 (ucast instanceID)
      else p @ [SegmentTypeLogical OR LogicalTypeInstance OR LogicalFormat32Bit] @ [0x00] @ le32 instanceID)"

definition AddAttribute :: "UINT \<Rightarrow> Path \<Rightarrow> Path" where
  "AddAttribute attributeID p =
     (if attributeID \<le> 0xFF
      then p @ [SegmentTypeLogical OR LogicalTypeAttribute OR LogicalFormat8Bit] @ [ucast attributeID]
      else p @ [SegmentTypeLogical OR LogicalTypeAttribute OR LogicalFormat16Bit] @ [0x00] @ le16 attributeID)"

definition AddConnectionPoint :: "UINT \<Rightarrow> Path \<Rightarrow> Path" where
  "AddConnectionPoint pointID p =
     (if pointID \<le> 0xFF
      then p @ [SegmentTypeLogical OR LogicalTypePoint OR LogicalFormat8Bit] @ [ucast pointID]
      else p @ [SegmentTypeLogical OR LogicalTypePoint OR LogicalFormat16Bit] @ [0x00] @ le16 pointID)"

definition AddMember :: "UINT \<Rightarrow> Path \<Rightarrow> Path" where
  "AddMember memberID p =
     (if memberID \<le> 0xFF
      then p @ [SegmentTypeLogical OR LogicalTypeMember OR LogicalFormat8Bit] @ [ucast memberID]
      else p @ [SegmentTypeLogical OR LogicalTypeMember OR LogicalFormat16Bit] @ [0x00] @ le16 memberID)"

definition AddSymbolicSegment :: "byte list \<Rightarrow> Path \<Rightarrow> Path" where
  "AddSymbolicSegment symbol p =
     (let l = length symbol in
      p @ [0x91] @ [word_of_nat l] @ symbol @ (if l mod 2 \<noteq> 0 then [0x00] else []))"

definition AddPortSegment :: "UINT \<Rightarrow> byte list \<Rightarrow> Path \<Rightarrow> Path" where
  "AddPortSegment port linkAddress p =
     (let b = (if port < 15 then SegmentTypePort OR ucast port else SegmentTypePort OR 0x0F);
          b = (if length linkAddress > 1 then b OR 0x10 else b);
          seg = [b] @ (if port \<ge> 15 then le16 port else []) @
            (if length linkAddress > 1 then [word_of_nat (length linkAddress)] else []) @ linkAddress
      in p @ seg @ (if length seg mod 2 \<noteq> 0 then [0x00] else []))"

definition LenWords :: "Path \<Rightarrow> byte" where
  "LenWords p = word_of_nat ((length p + 1) div 2)"

definition BuildPath :: "UINT \<Rightarrow> UINT \<Rightarrow> UINT \<Rightarrow> Path" where
  "BuildPath classID instanceID attributeID =
     (let p = AddInstance instanceID (AddClass classID NewPath) in
      if attributeID \<noteq> 0 then AddAttribute attributeID p else p)"

section \<open>Tag names\<close>

abbreviation (input) lbracket :: byte where "lbracket \<equiv> 0x5B"
abbreviation (input) rbracket :: byte where "rbracket \<equiv> 0x5D"
abbreviation (input) dot :: byte where "dot \<equiv> 0x2E"
abbreviation (input) comma :: byte where "comma \<equiv> 0x2C"

text \<open>The loop of \<^verbatim>\<open>splitTagSegments\<close>: the current segment, the bracket depth, the rest.\<close>

fun split_loop :: "byte list \<Rightarrow> nat \<Rightarrow> byte list \<Rightarrow> cerr + byte list list" where
  "split_loop cur depth [] =
     (if depth \<noteq> 0 then Inl (CIPErrorf ''unmatched ['') else Inr [cur])"
| "split_loop cur depth (c # cs) =
     (if c = lbracket then split_loop (cur @ [c]) (depth + 1) cs
      else if c = rbracket then
        (if depth = 0 then Inl (CIPErrorf ''unmatched ]'') else split_loop (cur @ [c]) (depth - 1) cs)
      else if c = dot \<and> depth = 0 then res_bind (split_loop [] depth cs) (\<lambda>parts. Inr (cur # parts))
      else split_loop (cur @ [c]) depth cs)"

definition splitTagSegments :: "byte list \<Rightarrow> cerr + byte list list" where
  "splitTagSegments tag = split_loop [] 0 tag"

definition isAllDigits :: "byte list \<Rightarrow> bool" where
  "isAllDigits s \<longleftrightarrow> s \<noteq> [] \<and> list_all (\<lambda>c. 0x30 \<le> c \<and> c \<le> 0x39) s"

text \<open>\<^verbatim>\<open>strconv.ParseUint(s, 10, 32)\<close>: digits only, and within 32 bits.\<close>

definition digits_value :: "byte list \<Rightarrow> nat" where
  "digits_value s = foldl (\<lambda>n c. 10 * n + (unat c - 0x30)) 0 s"

definition ParseUint32 :: "byte list \<Rightarrow> cerr + u32" where
  "ParseUint32 s =
     (if isAllDigits s \<and> digits_value s < 2 ^ 32 then Inr (word_of_nat (digits_value s))
      else Inl (CIPErrorf ''invalid number''))"

text \<open>\<^verbatim>\<open>strings.TrimSpace\<close>: the white space of Unicode in UTF-8, from either end.\<close>

definition utf8_spaces :: "byte list list" where
  "utf8_spaces =
     [[0x09], [0x0A], [0x0B], [0x0C], [0x0D], [0x20], [0xC2, 0x85], [0xC2, 0xA0], [0xE1, 0x9A, 0x80]] @
     map (\<lambda>i. [0xE2, 0x80, 0x80 + word_of_nat i]) [0..<11] @
     [[0xE2, 0x80, 0xA8], [0xE2, 0x80, 0xA9], [0xE2, 0x80, 0xAF], [0xE2, 0x81, 0x9F], [0xE3, 0x80, 0x80]]"

function trim_front :: "byte list list \<Rightarrow> byte list \<Rightarrow> byte list" where
  "trim_front sps s =
     (case find (\<lambda>p. p \<noteq> [] \<and> prefix p s) sps of
        None \<Rightarrow> s
      | Some p \<Rightarrow> trim_front sps (drop (length p) s))"
  by pat_completeness auto
termination
  by (relation "measure (\<lambda>(sps, s). length s)") (auto simp: find_Some_iff prefix_def)

definition TrimSpace :: "byte list \<Rightarrow> byte list" where
  "TrimSpace s = rev (trim_front (map rev utf8_spaces) (rev (trim_front utf8_spaces s)))"

text \<open>\<^verbatim>\<open>strings.SplitSeq\<close> with a one-byte separator.\<close>

fun split_on :: "byte \<Rightarrow> byte list \<Rightarrow> byte list list" where
  "split_on sep [] = [[]]"
| "split_on sep (c # cs) =
     (if c = sep then [] # split_on sep cs
      else (case split_on sep cs of [] \<Rightarrow> [[c]] | p # ps \<Rightarrow> (c # p) # ps))"

fun parse_indices :: "byte list list \<Rightarrow> cerr + u32 list" where
  "parse_indices [] = Inr []"
| "parse_indices (part # parts) =
     (let part = TrimSpace part in
      if part = [] then Inl (CIPErrorf ''empty index value'')
      else res_bind (ParseUint32 part) (\<lambda>n. res_bind (parse_indices parts) (\<lambda>ns. Inr (n # ns))))"

definition parseTagSegment :: "byte list \<Rightarrow> cerr + byte list \<times> u32 list" where
  "parseTagSegment seg =
     (let name = takeWhile (\<lambda>c. c \<noteq> lbracket) seg; rest = dropWhile (\<lambda>c. c \<noteq> lbracket) seg in
      if rest = [] then Inr (seg, [])
      else if last seg \<noteq> rbracket then Inl (CIPErrorf ''bracket group not closed'')
      else
        (let inner = butlast (tl rest) in
         if inner = [] then Inl (CIPErrorf ''empty index'')
         else res_bind (parse_indices (split_on comma inner)) (\<lambda>indices. Inr (name, indices))))"

definition addMember32 :: "u32 \<Rightarrow> Path \<Rightarrow> Path" where
  "addMember32 i p =
     (if i \<le> 0xFF then p @ [SegmentTypeLogical OR LogicalTypeMember OR LogicalFormat8Bit, ucast i]
      else if i \<le> 0xFFFF then
        p @ [SegmentTypeLogical OR LogicalTypeMember OR LogicalFormat16Bit, 0x00, ucast i, ucast (drop_bit 8 i)]
      else
        p @ [SegmentTypeLogical OR LogicalTypeMember OR LogicalFormat32Bit, 0x00,
             ucast i, ucast (drop_bit 8 i), ucast (drop_bit 16 i), ucast (drop_bit 24 i)])"

text \<open>The loop of \<^verbatim>\<open>ParseTagPath\<close>; the flag is \<^verbatim>\<open>i > 0\<close>.\<close>

fun parse_parts :: "bool \<Rightarrow> byte list list \<Rightarrow> Path \<Rightarrow> cerr + Path" where
  "parse_parts later [] p = Inr p"
| "parse_parts later (part # parts) p =
     res_bind (parseTagSegment part) (\<lambda>(name, indices).
       if name = [] \<and> indices = [] then Inl (CIPErrorf ''empty segment'')
       else
         res_bind
           (if name = [] then Inr p
            else if later \<and> isAllDigits name then
              res_bind (ParseUint32 name) (\<lambda>n. Inr (addMember32 n p))
            else Inr (AddSymbolicSegment name p))
           (\<lambda>p. parse_parts True parts (fold addMember32 indices p)))"

definition ParseTagPath :: "byte list \<Rightarrow> cerr + Path" where
  "ParseTagPath tag =
     (if tag = [] then Inl (CIPErrorf ''empty tag path'')
      else res_bind (splitTagSegments tag) (\<lambda>parts. parse_parts False parts NewPath))"

section \<open>The meaning of a path\<close>

text \<open>
  A decoder for padded EPATHs, written from the CIP format: a logical segment has its
  kind in bits 2 to 4 and its width in bits 0 and 1, with a pad byte before the wide
  formats; an extended symbol segment is padded to an even length.
\<close>

datatype segment = Logical byte u32 | Symbol "byte list"

fun decode_step :: "Path \<Rightarrow> (segment \<times> Path) option" where
  "decode_step (b # rest) =
     (if b = 0x91 then
        (case rest of
           [] \<Rightarrow> None
         | n # rest \<Rightarrow>
             (let pad = unat n mod 2 in
              if length rest < unat n + pad then None
              else Some (Symbol (take (unat n) rest), drop (unat n + pad) rest)))
      else if b AND 0xE0 \<noteq> 0x20 then None
      else
        (let kind = b AND 0x1C in
         if b AND 0x03 = 0 then (case rest of v # r \<Rightarrow> Some (Logical kind (ucast v), r) | _ \<Rightarrow> None)
         else if b AND 0x03 = 1 then
           (case rest of _ # lo # hi # r \<Rightarrow> Some (Logical kind (ucast (get_le16 lo hi)), r) | _ \<Rightarrow> None)
         else if b AND 0x03 = 2 then
           (case rest of _ # b0 # b1 # b2 # b3 # r \<Rightarrow> Some (Logical kind (get_le32 b0 b1 b2 b3), r)
            | _ \<Rightarrow> None)
         else None))"
| "decode_step [] = None"

lemma decode_step_shorter: "decode_step p = Some (s, r) \<Longrightarrow> length r < length p"
  by (cases p) (auto simp: Let_def split: if_splits list.splits)

function decode_path :: "Path \<Rightarrow> segment list option" where
  "decode_path p =
     (if p = [] then Some []
      else case decode_step p of
        None \<Rightarrow> None
      | Some (s, r) \<Rightarrow> map_option ((#) s) (decode_path r))"
  by pat_completeness auto
termination
  by (relation "measure length") (auto dest: decode_step_shorter)

declare trim_front.simps [simp del] decode_path.simps [simp del]

section \<open>Segments decode to what they encode\<close>

lemma take_bit_small:
  assumes "unat (w :: 'a::len word) < 2 ^ n"
  shows "take_bit n w = w"
  using assms by (metis take_bit_nat_eq_self_iff unsigned_take_bit_eq word_unat_eq_iff)

lemma ucast_small:
  assumes "(w :: 'a::len word) \<le> 0xFF" "8 < LENGTH('a)" "LENGTH('a) \<le> 32"
  shows "ucast (ucast w :: byte) = (ucast w :: u32)"
proof -
  have "unat (0xFF :: 'a word) \<le> 0xFF"
    by (simp add: take_bit_nat_less_eq_self)
  with assms(1) have "unat w \<le> 0xFF" unfolding word_le_nat_alt by linarith
  then have "unat w < 2 ^ 8" by simp
  then have "w = take_bit 8 w" by (simp add: take_bit_small)
  moreover have "ucast (ucast w :: byte) = (ucast (take_bit 8 w) :: u32)"
    by (rule bit_word_eqI) (auto simp: bit_simps dest: bit_imp_le_length)
  ultimately show ?thesis by simp
qed

lemma ucast_medium:
  assumes "(w :: u32) \<le> 0xFFFF"
  shows "ucast (ucast w :: u16) = w"
proof -
  have "unat w < 2 ^ 16" using assms by (simp add: word_le_nat_alt)
  then have "w = take_bit 16 w" by (simp add: take_bit_small)
  moreover have "ucast (ucast w :: u16) = take_bit 16 w"
    by (rule bit_word_eqI) (auto simp: bit_simps dest: bit_imp_le_length)
  ultimately show ?thesis by simp
qed

lemma get_le16_ucast: "get_le16 (ucast c) (ucast (drop_bit 8 c)) = ucast (c :: u32)"
  by (rule bit_word_eqI) (auto simp: get_le16_def bit_simps)

lemma decode_step_append: "decode_step p = Some (s, r) \<Longrightarrow> decode_step (p @ q) = Some (s, r @ q)"
  by (cases p) (auto simp: Let_def split: if_splits list.splits)

lemma decode_append: "decode_path p = Some ss \<Longrightarrow> decode_path (p @ q) = map_option ((@) ss) (decode_path q)"
proof (induction p arbitrary: ss rule: decode_path.induct)
  case (1 p)
  show ?case
  proof (cases "p = []")
    case True
    with "1.prems" show ?thesis by (simp add: decode_path.simps [of "[]"] option.map_id [unfolded id_def])
  next
    case False
    then obtain s r ts where st: "decode_step p = Some (s, r)" "decode_path r = Some ts" "ss = s # ts"
      using "1.prems" by (auto simp: decode_path.simps [of p] split: option.splits)
    with False "1.IH" [of "(s, r)" s r ts] show ?thesis
      by (simp add: decode_path.simps [of "p @ q"] decode_step_append option.map_comp comp_def)
  qed
qed

lemma decode_single: "decode_step p = Some (s, []) \<Longrightarrow> decode_path p = Some [s]"
  by (cases "p = []") (simp_all add: decode_path.simps [of p] decode_path.simps [of "[]"])

lemma decode_snoc:
  "\<lbrakk>decode_path p = Some ss; decode_step q = Some (s, [])\<rbrakk> \<Longrightarrow> decode_path (p @ q) = Some (ss @ [s])"
  by (simp add: decode_append decode_single)

text \<open>Appending a segment appends its meaning.\<close>

lemma decode_AddClass [simp]:
  "decode_path p = Some ss \<Longrightarrow> decode_path (AddClass c p) = Some (ss @ [Logical 0x00 (ucast c)])"
  unfolding AddClass_def
  by (auto intro!: decode_snoc simp: le16_def codec_simps ucast_small linorder_not_le)

lemma decode_AddInstance [simp]:
  "decode_path p = Some ss \<Longrightarrow> decode_path (AddInstance c p) = Some (ss @ [Logical 0x04 (ucast c)])"
  unfolding AddInstance_def
  by (auto intro!: decode_snoc simp: le16_def codec_simps ucast_small)

lemma decode_AddInstance32 [simp]:
  "decode_path p = Some ss \<Longrightarrow> decode_path (AddInstance32 c p) = Some (ss @ [Logical 0x04 c])"
  unfolding AddInstance32_def
  by (auto intro!: decode_snoc simp: le16_def le32_def codec_simps ucast_small ucast_medium)

lemma decode_AddAttribute [simp]:
  "decode_path p = Some ss \<Longrightarrow> decode_path (AddAttribute c p) = Some (ss @ [Logical 0x10 (ucast c)])"
  unfolding AddAttribute_def
  by (auto intro!: decode_snoc simp: le16_def codec_simps ucast_small)

lemma decode_AddConnectionPoint [simp]:
  "decode_path p = Some ss \<Longrightarrow> decode_path (AddConnectionPoint c p) = Some (ss @ [Logical 0x0C (ucast c)])"
  unfolding AddConnectionPoint_def
  by (auto intro!: decode_snoc simp: le16_def codec_simps ucast_small)

lemma decode_AddMember [simp]:
  "decode_path p = Some ss \<Longrightarrow> decode_path (AddMember c p) = Some (ss @ [Logical 0x08 (ucast c)])"
  unfolding AddMember_def
  by (auto intro!: decode_snoc simp: le16_def codec_simps ucast_small)

lemma decode_addMember32 [simp]:
  "decode_path p = Some ss \<Longrightarrow> decode_path (addMember32 c p) = Some (ss @ [Logical 0x08 c])"
  unfolding addMember32_def
  by (auto intro!: decode_snoc simp: codec_simps get_le16_ucast ucast_small ucast_medium)

lemma decode_AddSymbolicSegment [simp]:
  "\<lbrakk>decode_path p = Some ss; length s < 256\<rbrakk> \<Longrightarrow>
     decode_path (AddSymbolicSegment s p) = Some (ss @ [Symbol s])"
  unfolding AddSymbolicSegment_def Let_def
  by (auto intro!: decode_snoc simp: unat_count_byte)

lemma decode_NewPath [simp]: "decode_path NewPath = Some []"
  by (simp add: NewPath_def decode_path.simps [of "[]"])

lemma fold_addMember32 [simp]:
  "decode_path p = Some ss \<Longrightarrow> decode_path (fold addMember32 is p) = Some (ss @ map (Logical 0x08) is)"
  by (induction "is" arbitrary: p ss) auto

section \<open>Tag names and their paths\<close>

text \<open>
  The syntax of tag names: dotted parts, each a name or a number, with a list of array
  indices; how it is written, and the segments it stands for.
\<close>

datatype part = Name "byte list" | Number u32

fun decimal :: "nat \<Rightarrow> byte list" where
  "decimal n = (if n < 10 then [0x30 + word_of_nat n] else decimal (n div 10) @ [0x30 + word_of_nat (n mod 10)])"

declare decimal.simps [simp del]

fun sep_by :: "byte \<Rightarrow> byte list list \<Rightarrow> byte list" where
  "sep_by c [] = []"
| "sep_by c [s] = s"
| "sep_by c (s # ss) = s @ [c] @ sep_by c ss"

definition show_indices :: "u32 list \<Rightarrow> byte list" where
  "show_indices is =
     (if is = [] then [] else [lbracket] @ sep_by comma (map (\<lambda>i. decimal (unat i)) is) @ [rbracket])"

fun show_part :: "part \<times> u32 list \<Rightarrow> byte list" where
  "show_part (Name n, is) = n @ show_indices is"
| "show_part (Number k, is) = decimal (unat k) @ show_indices is"

definition show_tag :: "(part \<times> u32 list) list \<Rightarrow> byte list" where
  "show_tag parts = sep_by dot (map show_part parts)"

fun part_segments :: "part \<times> u32 list \<Rightarrow> segment list" where
  "part_segments (Name n, is) = Symbol n # map (Logical LogicalTypeMember) is"
| "part_segments (Number k, is) = Logical LogicalTypeMember k # map (Logical LogicalTypeMember) is"

definition plain :: "byte \<Rightarrow> bool" where
  "plain c \<longleftrightarrow> c \<noteq> lbracket \<and> c \<noteq> rbracket \<and> c \<noteq> dot"

fun part_ok :: "part \<times> u32 list \<Rightarrow> bool" where
  "part_ok (Name n, is) \<longleftrightarrow> n \<noteq> [] \<and> length n < 256 \<and> list_all plain n \<and> \<not> isAllDigits n"
| "part_ok (Number k, is) \<longleftrightarrow> True"

definition tag_ok :: "(part \<times> u32 list) list \<Rightarrow> bool" where
  "tag_ok parts \<longleftrightarrow> parts \<noteq> [] \<and> list_all part_ok parts \<and> (\<exists>n. fst (hd parts) = Name n)"

lemma digit_byte:
  assumes "k < 10"
  shows "unat (0x30 + word_of_nat k :: byte) = 48 + k"
proof -
  have "(0x30 + word_of_nat k :: byte) = word_of_nat (48 + k)" by simp
  then show ?thesis using unat_word_of_nat [where 'a = 8, of "48 + k"] assms by (simp del: of_nat_add)
qed

lemma decimal_digits: "isAllDigits (decimal n)"
proof (induction n rule: decimal.induct)
  case (1 n)
  then show ?case
    by (subst decimal.simps) (auto simp: isAllDigits_def word_le_nat_alt digit_byte)
qed

lemma digits_value_snoc: "digits_value (s @ [c]) = 10 * digits_value s + (unat c - 0x30)"
  by (simp add: digits_value_def)

lemma digits_value_decimal: "digits_value (decimal n) = n"
proof (induction n rule: decimal.induct)
  case (1 n)
  then show ?case
    by (subst decimal.simps) (auto simp: digits_value_snoc digit_byte, simp add: digits_value_def digit_byte)
qed

lemma ParseUint32_decimal [simp]: "ParseUint32 (decimal (unat i)) = Inr i"
  using unsigned_less [of i] by (simp add: ParseUint32_def decimal_digits digits_value_decimal)

lemma decimal_not_Nil [simp]: "decimal n \<noteq> []"
  using decimal_digits [of n] by (simp add: isAllDigits_def)

lemma decimal_plain: "list_all (\<lambda>c. plain c \<and> c \<noteq> comma) (decimal n)"
  using decimal_digits [of n]
  by (auto simp: isAllDigits_def list_all_iff plain_def word_le_nat_alt)

lemma utf8_spaces_not_digit:
  "\<forall>p \<in> set utf8_spaces. p \<noteq> [] \<and> \<not> (0x30 \<le> hd p \<and> hd p \<le> 0x39) \<and> \<not> (0x30 \<le> last p \<and> last p \<le> 0x39)"
  by (simp add: utf8_spaces_def upt_rec word_le_nat_alt)

lemma trim_front_digits:
  assumes "isAllDigits s" "\<forall>p \<in> set sps. \<not> (0x30 \<le> hd p \<and> hd p \<le> 0x39)"
  shows "trim_front sps s = s"
proof -
  have "\<not> (p \<noteq> [] \<and> prefix p s)" if "p \<in> set sps" for p
    using assms that by (cases p; cases s) (auto simp: isAllDigits_def)
  then have "find (\<lambda>p. p \<noteq> [] \<and> prefix p s) sps = None" by (auto simp: find_None_iff)
  then show ?thesis by (simp add: trim_front.simps [of sps s])
qed

lemma TrimSpace_digits:
  assumes "isAllDigits s"
  shows "TrimSpace s = s"
proof -
  have "trim_front utf8_spaces s = s"
    using trim_front_digits [OF assms] utf8_spaces_not_digit by blast
  moreover have "trim_front (map rev utf8_spaces) (rev s) = rev s"
    using trim_front_digits [of "rev s" "map rev utf8_spaces"] assms utf8_spaces_not_digit
    by (auto simp: isAllDigits_def hd_rev)
  ultimately show ?thesis by (simp add: TrimSpace_def)
qed

lemma split_on_sep_by:
  "\<lbrakk>ss \<noteq> []; list_all (list_all (\<lambda>c. c \<noteq> sep)) ss\<rbrakk> \<Longrightarrow> split_on sep (sep_by sep ss) = ss"
proof (induction sep ss rule: sep_by.induct)
  case (2 c s)
  then show ?case by (induction s) auto
next
  case (3 c s t ss)
  have "split_on c (s @ [c] @ sep_by c (t # ss)) = s # split_on c (sep_by c (t # ss))"
    using "3.prems"(2) by (induction s) auto
  with 3 show ?case by simp
qed simp

lemma parse_indices_decimal: "parse_indices (map (\<lambda>i. decimal (unat i)) is) = Inr is"
  by (induction "is") (simp_all add: TrimSpace_digits decimal_digits)

lemma parseTagSegment_show:
  assumes "list_all plain n"
  shows "parseTagSegment (n @ show_indices is) = Inr (n, is)"
proof -
  have n: "\<forall>c \<in> set n. c \<noteq> lbracket" using assms by (auto simp: list_all_iff plain_def)
  show ?thesis
  proof (cases "is = []")
    case True
    with n show ?thesis by (simp add: parseTagSegment_def show_indices_def takeWhile_eq_all_conv dropWhile_eq_Nil_conv)
  next
    case False
    let ?ds = "map (\<lambda>i. decimal (unat i)) is"
    have tw: "takeWhile (\<lambda>c. c \<noteq> lbracket) (n @ lbracket # r) = n"
      "dropWhile (\<lambda>c. c \<noteq> lbracket) (n @ lbracket # r) = lbracket # r" for r
      using n by (simp_all add: takeWhile_tail dropWhile_append2)
    have "sep_by comma ?ds \<noteq> []" using False by (cases "is"; cases "tl is") auto
    moreover have "split_on comma (sep_by comma ?ds) = ?ds"
      using decimal_plain False by (intro split_on_sep_by) (auto simp: list_all_iff)
    ultimately show ?thesis using False
      by (simp add: parseTagSegment_def show_indices_def tw butlast_append parse_indices_decimal)
  qed
qed

lemma split_loop_plain: "list_all plain s \<Longrightarrow> split_loop cur 0 (s @ r) = split_loop (cur @ s) 0 r"
  by (induction s arbitrary: cur) (auto simp: plain_def)

lemma split_loop_inside:
  "list_all (\<lambda>c. c \<noteq> lbracket \<and> c \<noteq> rbracket) s \<Longrightarrow>
     split_loop cur (Suc 0) (s @ r) = split_loop (cur @ s) (Suc 0) r"
  by (induction s arbitrary: cur) auto

lemma sep_by_list_all: "\<lbrakk>list_all (list_all P) ss; P c\<rbrakk> \<Longrightarrow> list_all P (sep_by c ss)"
  by (induction c ss rule: sep_by.induct) auto

lemma split_loop_indices: "split_loop cur 0 (show_indices is @ r) = split_loop (cur @ show_indices is) 0 r"
proof -
  have "list_all (\<lambda>c. c \<noteq> lbracket \<and> c \<noteq> rbracket) (sep_by comma (map (\<lambda>i. decimal (unat i)) is))"
    using decimal_plain by (intro sep_by_list_all) (auto simp: list_all_iff plain_def)
  then show ?thesis by (simp add: show_indices_def split_loop_inside)
qed

lemma show_part_split: "part_ok p \<Longrightarrow> split_loop cur 0 (show_part p @ r) = split_loop (cur @ show_part p) 0 r"
  using decimal_plain
  by (cases p rule: part_ok.cases) (auto simp: split_loop_plain split_loop_indices list_all_iff)

lemma split_show_tag:
  "\<lbrakk>ps \<noteq> []; list_all part_ok ps\<rbrakk> \<Longrightarrow> split_loop [] 0 (sep_by dot (map show_part ps)) = Inr (map show_part ps)"
proof (induction ps)
  case (Cons p ps)
  then show ?case
    using show_part_split [of p "[]" "[]"] show_part_split [of p "[]" "dot # sep_by dot (map show_part ps)"]
    by (cases ps) auto
qed simp

lemma parseTagSegment_part:
  "part_ok p \<Longrightarrow> parseTagSegment (show_part p) =
     Inr ((case fst p of Name n \<Rightarrow> n | Number k \<Rightarrow> decimal (unat k)), snd p)"
  using decimal_plain
  by (cases p rule: part_ok.cases) (auto simp: parseTagSegment_show list_all_iff)

lemma parse_parts_show:
  assumes "list_all part_ok ps" "decode_path p = Some ss" "later \<or> ps = [] \<or> (\<exists>n. fst (hd ps) = Name n)"
  shows "\<exists>q. parse_parts later (map show_part ps) p = Inr q \<and>
    decode_path q = Some (ss @ concat (map part_segments ps))"
  using assms
proof (induction ps arbitrary: later p ss)
  case (Cons a ps)
  obtain x "is" where a: "a = (x, is)" by fastforce
  define p' where "p' = (case x of Name n \<Rightarrow> AddSymbolicSegment n p | Number k \<Rightarrow> addMember32 k p)"
  have seg: "decode_path (fold addMember32 is p') = Some (ss @ part_segments a)"
    using Cons.prems(1,2) by (cases x) (simp_all add: a p'_def)
  have "parse_parts later (map show_part (a # ps)) p = parse_parts True (map show_part ps) (fold addMember32 is p')"
    using Cons.prems parseTagSegment_part [of a] by (cases x) (auto simp: a p'_def decimal_digits)
  with Cons.IH [OF _ seg, of True] Cons.prems(1) show ?case by simp
qed simp

lemma part_not_Nil: "part_ok p \<Longrightarrow> show_part p \<noteq> []"
  by (cases p rule: part_ok.cases) auto

section \<open>Word alignment\<close>

lemmas builder_defs =
  AddClass_def AddInstance_def AddInstance32_def AddAttribute_def AddConnectionPoint_def AddMember_def
  AddSymbolicSegment_def AddPortSegment_def addMember32_def

lemma builders_even [simp]:
  assumes "even (length p)"
  shows "even (length (AddClass c p))" "even (length (AddInstance c p))" "even (length (AddInstance32 i p))"
    "even (length (AddAttribute c p))" "even (length (AddConnectionPoint c p))" "even (length (AddMember c p))"
    "even (length (AddSymbolicSegment s p))" "even (length (AddPortSegment c s p))"
    "even (length (addMember32 i p))"
  using assms by (auto simp: builder_defs Let_def)

section \<open>Properties\<close>

text \<open>
  C21: tag names mean their paths.  Parsing any dotted tag name of plain names, numbers and
  array indices succeeds, and the path decodes to one symbol segment per name and one
  member segment, at full width, per number and index, in order.
\<close>

theorem tag_path_meaning:
  assumes "tag_ok parts"
  shows "\<exists>p. ParseTagPath (show_tag parts) = Inr p \<and>
    decode_path p = Some (concat (map part_segments parts))"
proof -
  have ok: "parts \<noteq> []" "list_all part_ok parts" "\<exists>n. fst (hd parts) = Name n"
    using assms by (simp_all add: tag_ok_def)
  then have "show_tag parts \<noteq> []"
    using part_not_Nil by (cases parts rule: list.exhaust; cases "tl parts") (auto simp: show_tag_def)
  with parse_parts_show [OF ok(2) decode_NewPath, of False] split_show_tag [OF ok(1,2)] ok(3) show ?thesis
    by (simp add: ParseTagPath_def splitTagSegments_def show_tag_def)
qed

theorem tag_path_meaning_witness:
  "show_tag [(Name (bytes_of ''Prog:M''), []), (Name (bytes_of ''Arr''), [2, 70000]), (Number 5, [])] =
     bytes_of ''Prog:M.Arr[2,70000].5'' \<and>
   (\<exists>p. ParseTagPath (show_tag [(Name (bytes_of ''Prog:M''), []), (Name (bytes_of ''Arr''), [2, 70000]), (Number 5, [])]) = Inr p \<and>
     decode_path p = Some [Symbol (bytes_of ''Prog:M''), Symbol (bytes_of ''Arr''),
       Logical 8 2, Logical 8 70000, Logical 8 5])"
proof
  show "show_tag [(Name (bytes_of ''Prog:M''), []), (Name (bytes_of ''Arr''), [2, 70000]), (Number 5, [])] =
     bytes_of ''Prog:M.Arr[2,70000].5''"
    by (simp add: show_tag_def show_indices_def bytes_of_def decimal.simps)
  have "tag_ok [(Name (bytes_of ''Prog:M''), []), (Name (bytes_of ''Arr''), [2, 70000]), (Number 5, [])]"
    by (simp add: tag_ok_def bytes_of_def plain_def isAllDigits_def)
  from tag_path_meaning [OF this]
  show "\<exists>p. ParseTagPath (show_tag [(Name (bytes_of ''Prog:M''), []), (Name (bytes_of ''Arr''), [2, 70000]), (Number 5, [])]) = Inr p \<and>
     decode_path p = Some [Symbol (bytes_of ''Prog:M''), Symbol (bytes_of ''Arr''),
       Logical 8 2, Logical 8 70000, Logical 8 5]"
    by simp
qed

end
