(* ===== verification/Cip_Message.thy ===== *)
theory Cip_Message
  imports Cip_Path
begin

text \<open>
  \<^verbatim>\<open>src/protocol/ethernetip/cip\<close>: message router requests and responses (\<^verbatim>\<open>message.go\<close>), the
  router (\<^verbatim>\<open>router.go\<close>), request constructors (\<^verbatim>\<open>services.go\<close>, \<^verbatim>\<open>symbol.go\<close>) and the Logix timer
  and counter structures (\<^verbatim>\<open>timer.go\<close>, \<^verbatim>\<open>counter.go\<close>).  The state of the registered objects is
  one value that requests pass through.  A nil slice is the empty list.
\<close>

unbundle bit_operations_syntax

section \<open>Codes\<close>

abbreviation (input) ServiceGetAttributeList :: USINT where "ServiceGetAttributeList \<equiv> 0x03"
abbreviation (input) ServiceGetAttributeSingle :: USINT where "ServiceGetAttributeSingle \<equiv> 0x0E"
abbreviation (input) ServiceSetAttributeSingle :: USINT where "ServiceSetAttributeSingle \<equiv> 0x10"
abbreviation (input) ServiceExecutePCCC :: USINT where "ServiceExecutePCCC \<equiv> 0x4B"
abbreviation (input) ServiceReadTag :: USINT where "ServiceReadTag \<equiv> 0x4C"
abbreviation (input) ServiceWriteTag :: USINT where "ServiceWriteTag \<equiv> 0x4D"
abbreviation (input) StatusSuccess :: USINT where "StatusSuccess \<equiv> 0x00"
abbreviation (input) StatusConnectionFailure :: USINT where "StatusConnectionFailure \<equiv> 0x01"
abbreviation (input) StatusPathSegmentError :: USINT where "StatusPathSegmentError \<equiv> 0x04"
abbreviation (input) StatusServiceNotSupported :: USINT where "StatusServiceNotSupported \<equiv> 0x08"
abbreviation (input) StatusNotEnoughData :: USINT where "StatusNotEnoughData \<equiv> 0x13"
abbreviation (input) StatusAttributeNotSupported :: USINT where "StatusAttributeNotSupported \<equiv> 0x14"
abbreviation (input) StatusTooMuchData :: USINT where "StatusTooMuchData \<equiv> 0x15"
abbreviation (input) StatusObjectDoesNotExist :: USINT where "StatusObjectDoesNotExist \<equiv> 0x16"
abbreviation (input) ClassPCCC :: UINT where "ClassPCCC \<equiv> 0x67"
abbreviation (input) ClassSymbol :: UINT where "ClassSymbol \<equiv> 0x6B"

type_synonym CipType = u16

definition IsArray :: "CipType \<Rightarrow> bool" where
  "IsArray d \<longleftrightarrow> d AND 0x8000 \<noteq> 0"

definition Base :: "CipType \<Rightarrow> CipType" where
  "Base d = d AND 0x7FFF"

section \<open>Requests and responses\<close>

record MessageRouterRequest =
  Service :: USINT
  RequestPath :: Path
  RequestData :: "byte list"

record MessageRouterResponse =
  RService :: USINT
  Reserved :: USINT
  GeneralStatus :: USINT
  ExtStatusSize :: USINT
  ExtStatus :: "UINT list"
  ResponseData :: "byte list"

definition MRRequest_Encode :: "MessageRouterRequest \<Rightarrow> byte list" where
  "MRRequest_Encode r = [Service r] @ [LenWords (RequestPath r)] @ RequestPath r @ RequestData r"

text \<open>A failed read of a \<^verbatim>\<open>bytes.Reader\<close> as an error of this package.\<close>

definition cread :: "io_error + 'a \<Rightarrow> cerr + 'a" where
  "cread r = map_sum CIPRead id r"

definition DecodeMessageRouterRequest :: "byte list \<Rightarrow> cerr + MessageRouterRequest" where
  "DecodeMessageRouterRequest data =
     res_bind (cread (read_u8 data)) (\<lambda>(service, buf).
     res_bind (cread (read_u8 buf)) (\<lambda>(pathSizeWords, buf).
     res_bind (cread (read_some (unat pathSizeWords * 2) buf)) (\<lambda>(pathBytes, buf).
     Inr \<lparr>Service = service, RequestPath = pathBytes, RequestData = buf\<rparr>)))"

definition MRResponse_Encode :: "MessageRouterResponse \<Rightarrow> byte list" where
  "MRResponse_Encode r =
     [RService r, Reserved r, GeneralStatus r, ExtStatusSize r] @ concat (map le16 (ExtStatus r)) @ ResponseData r"

fun read_words :: "nat \<Rightarrow> byte list \<Rightarrow> io_error + UINT list \<times> byte list" where
  "read_words 0 buf = Inr ([], buf)"
| "read_words (Suc n) buf =
     res_bind (read_le16 buf) (\<lambda>(w, buf).
     res_bind (read_words n buf) (\<lambda>(ws, buf). Inr (w # ws, buf)))"

definition DecodeMessageRouterResponse :: "byte list \<Rightarrow> cerr + MessageRouterResponse" where
  "DecodeMessageRouterResponse data =
     res_bind (cread (read_u8 data)) (\<lambda>(service, buf).
     res_bind (cread (read_u8 buf)) (\<lambda>(reserved, buf).
     res_bind (cread (read_u8 buf)) (\<lambda>(status, buf).
     res_bind (cread (read_u8 buf)) (\<lambda>(size, buf).
     res_bind (cread (read_words (unat size) buf)) (\<lambda>(ext, buf).
     Inr \<lparr>RService = service, Reserved = reserved, GeneralStatus = status, ExtStatusSize = size,
          ExtStatus = ext, ResponseData = buf\<rparr>)))))"

definition IsSuccess :: "MessageRouterResponse \<Rightarrow> bool" where
  "IsSuccess r \<longleftrightarrow> GeneralStatus r = StatusSuccess"

definition MRResponse_Error :: "MessageRouterResponse \<Rightarrow> cerr option" where
  "MRResponse_Error r = (if IsSuccess r then None else Some (CIPError (GeneralStatus r) (ExtStatus r)))"

section \<open>The message router\<close>

type_synonym 's object = "USINT \<Rightarrow> Path \<Rightarrow> byte list \<Rightarrow> 's \<Rightarrow> (cerr + byte list) \<times> 's"

record 's MessageRouter =
  objects :: "UINT \<rightharpoonup> 's object"
  symbolicHandler :: "'s object option"

definition NewMessageRouter :: "'s MessageRouter" where
  "NewMessageRouter = \<lparr>objects = Map.empty, symbolicHandler = None\<rparr>"

definition RegisterObject :: "UINT \<Rightarrow> 's object \<Rightarrow> 's MessageRouter \<Rightarrow> 's MessageRouter" where
  "RegisterObject classID obj mr = mr\<lparr>objects := (objects mr)(classID \<mapsto> obj)\<rparr>"

definition RegisterSymbolicHandler :: "'s object \<Rightarrow> 's MessageRouter \<Rightarrow> 's MessageRouter" where
  "RegisterSymbolicHandler obj mr = mr\<lparr>symbolicHandler := Some obj\<rparr>"

definition status_response :: "USINT \<Rightarrow> USINT \<Rightarrow> UINT list \<Rightarrow> byte list \<Rightarrow> MessageRouterResponse" where
  "status_response service status ext data =
     \<lparr>RService = service OR 0x80, Reserved = 0, GeneralStatus = status,
      ExtStatusSize = word_of_nat (length ext), ExtStatus = ext, ResponseData = data\<rparr>"

text \<open>The reply to a handler's outcome, the same in both branches of \<^verbatim>\<open>Dispatch\<close>.\<close>

fun handler_response :: "USINT \<Rightarrow> cerr + byte list \<Rightarrow> MessageRouterResponse" where
  "handler_response service (Inr respData) = status_response service StatusSuccess [] respData"
| "handler_response service (Inl (CIPError status ext)) = status_response service status ext []"
| "handler_response service (Inl _) = status_response service StatusServiceNotSupported [] []"

definition Dispatch :: "'s MessageRouter \<Rightarrow> MessageRouterRequest \<Rightarrow> 's \<Rightarrow>
    (cerr + MessageRouterResponse) \<times> 's" where
  "Dispatch mr req s =
     (let path = RequestPath req;
          run = (\<lambda>obj remaining. (case obj (Service req) remaining (RequestData req) s of
                   (out, s) \<Rightarrow> (Inr (handler_response (Service req) out), s)));
          lookup = (\<lambda>classID remaining. (case objects mr classID of
                   None \<Rightarrow> (Inr (status_response (Service req) StatusObjectDoesNotExist [] []), s)
                 | Some obj \<Rightarrow> run obj remaining));
          bad = (Inl (CIPError StatusPathSegmentError []), s)
      in if path = [] then bad
         else if path ! 0 = 0x20 then
           (if length path < 2 then bad else lookup (ucast (path ! 1)) (drop 2 path))
         else if path ! 0 = 0x21 then
           (if length path < 4 then bad else lookup (le16_at path 2) (drop 4 path))
         else if path ! 0 = 0x91 then
           (case symbolicHandler mr of None \<Rightarrow> bad | Some handler \<Rightarrow> run handler path)
         else bad)"

section \<open>Request constructors\<close>

definition NewGetAttributeSingleRequest :: "Path \<Rightarrow> MessageRouterRequest" where
  "NewGetAttributeSingleRequest path =
     \<lparr>Service = ServiceGetAttributeSingle, RequestPath = path, RequestData = []\<rparr>"

definition NewSetAttributeSingleRequest :: "Path \<Rightarrow> byte list \<Rightarrow> MessageRouterRequest" where
  "NewSetAttributeSingleRequest path data =
     \<lparr>Service = ServiceSetAttributeSingle, RequestPath = path, RequestData = data\<rparr>"

definition NewExecutePCCCRequest :: "UINT \<Rightarrow> UDINT \<Rightarrow> byte list \<Rightarrow> MessageRouterRequest" where
  "NewExecutePCCCRequest vendorID serialNumber pcccCmd =
     \<lparr>Service = ServiceExecutePCCC, RequestPath = BuildPath ClassPCCC 1 0,
      RequestData = [0x07] @ [ucast vendorID, ucast (drop_bit 8 vendorID)] @
        [ucast serialNumber, ucast (drop_bit 8 serialNumber), ucast (drop_bit 16 serialNumber),
         ucast (drop_bit 24 serialNumber)] @ pcccCmd\<rparr>"

definition NewReadTagRequest :: "Path \<Rightarrow> u16 \<Rightarrow> MessageRouterRequest" where
  "NewReadTagRequest tagPath elements =
     \<lparr>Service = ServiceReadTag, RequestPath = tagPath,
      RequestData = [ucast elements, ucast (drop_bit 8 elements)]\<rparr>"

definition NewWriteTagRequest :: "Path \<Rightarrow> CipType \<Rightarrow> u16 \<Rightarrow> byte list \<Rightarrow> MessageRouterRequest" where
  "NewWriteTagRequest tagPath dataType elements data =
     \<lparr>Service = ServiceWriteTag, RequestPath = tagPath,
      RequestData = [ucast dataType, ucast (drop_bit 8 dataType), ucast elements, ucast (drop_bit 8 elements)] @ data\<rparr>"

definition NewGetSymbolClassAttributesRequest :: MessageRouterRequest where
  "NewGetSymbolClassAttributesRequest =
     \<lparr>Service = 0x03, RequestPath = AddInstance 0 (AddClass ClassSymbol NewPath),
      RequestData = le16 2 @ le16 1 @ le16 2\<rparr>"

definition NewGetSymbolAttributesRequest :: "u32 \<Rightarrow> MessageRouterRequest" where
  "NewGetSymbolAttributesRequest instanceID =
     \<lparr>Service = 0x03, RequestPath = AddInstance32 instanceID (AddClass ClassSymbol NewPath),
      RequestData = le16 2 @ le16 1 @ le16 2\<rparr>"

section \<open>Symbol attributes\<close>

fun class_attributes :: "nat \<Rightarrow> u16 \<times> u16 \<Rightarrow> byte list \<Rightarrow> io_error + u16 \<times> u16" where
  "class_attributes 0 acc r = Inr acc"
| "class_attributes (Suc n) (revision, maxInstance) r =
     res_bind (read_le16 r) (\<lambda>(attrID, r).
     res_bind (read_le16 r) (\<lambda>(status, r).
     if status = 0 \<and> attrID = 1 then
       res_bind (read_le16 r) (\<lambda>(v, r). class_attributes n (v, maxInstance) r)
     else if status = 0 \<and> attrID = 2 then
       res_bind (read_le16 r) (\<lambda>(v, r). class_attributes n (revision, v) r)
     else class_attributes n (revision, maxInstance) r))"

definition DecodeSymbolClassAttributesResponse :: "byte list \<Rightarrow> io_error + u16 \<times> u16" where
  "DecodeSymbolClassAttributesResponse data =
     res_bind (read_le16 data) (\<lambda>(n, r). class_attributes (unat n) (0, 0) r)"

fun symbol_attributes :: "nat \<Rightarrow> byte list \<times> u16 \<Rightarrow> byte list \<Rightarrow> io_error + byte list \<times> u16" where
  "symbol_attributes 0 acc r = Inr acc"
| "symbol_attributes (Suc n) (name, typeCode) r =
     res_bind (read_le16 r) (\<lambda>(attrID, r).
     res_bind (read_le16 r) (\<lambda>(status, r).
     if status = 0 \<and> attrID = 1 then
       res_bind (read_le16 r) (\<lambda>(nameLen, r).
       res_bind (read_full (unat nameLen) r) (\<lambda>(nameBytes, r). symbol_attributes n (nameBytes, typeCode) r))
     else if status = 0 \<and> attrID = 2 then
       res_bind (read_le16 r) (\<lambda>(v, r). symbol_attributes n (name, v) r)
     else symbol_attributes n (name, typeCode) r))"

definition DecodeSymbolAttributesResponse :: "byte list \<Rightarrow> io_error + byte list \<times> u16" where
  "DecodeSymbolAttributesResponse data =
     res_bind (read_le16 data) (\<lambda>(n, r). symbol_attributes (unat n) ([], 0) r)"

section \<open>Timers and counters\<close>

record Timer =
  t_PRE :: u32
  t_ACC :: u32
  t_EN :: bool
  t_TT :: bool
  t_DN :: bool

abbreviation (input) TimerStatusEN :: nat where "TimerStatusEN \<equiv> 31"
abbreviation (input) TimerStatusTT :: nat where "TimerStatusTT \<equiv> 30"
abbreviation (input) TimerStatusDN :: nat where "TimerStatusDN \<equiv> 29"

text \<open>The offsets of status, preset and accumulator in the two layouts.\<close>

definition layout :: "byte list \<Rightarrow> (nat \<times> nat \<times> nat) option" where
  "layout data =
     (if length data \<ge> 14 then Some (2, 6, 10) else if length data \<ge> 12 then Some (0, 4, 8) else None)"

definition DecodeTimer :: "byte list \<Rightarrow> cerr + Timer" where
  "DecodeTimer data =
     (case layout data of
        None \<Rightarrow> Inl (CIPErrorf ''insufficient data for Timer'')
      | Some (statusOff, preOff, accOff) \<Rightarrow>
          (let statusU = le32_at data statusOff in
           Inr \<lparr>t_PRE = le32_at data preOff, t_ACC = le32_at data accOff,
                t_EN = (statusU AND push_bit TimerStatusEN 1 \<noteq> 0),
                t_TT = (statusU AND push_bit TimerStatusTT 1 \<noteq> 0),
                t_DN = (statusU AND push_bit TimerStatusDN 1 \<noteq> 0)\<rparr>))"

definition set_flag :: "bool \<Rightarrow> nat \<Rightarrow> u32 \<Rightarrow> u32" where
  "set_flag b n status = (if b then status OR push_bit n 1 else status)"

definition Timer_MarshalCIP :: "Timer \<Rightarrow> byte list" where
  "Timer_MarshalCIP t =
     le16 0 @
     le32 (set_flag (t_DN t) TimerStatusDN (set_flag (t_TT t) TimerStatusTT (set_flag (t_EN t) TimerStatusEN 0))) @
     le32 (t_PRE t) @ le32 (t_ACC t)"

record Counter =
  c_PRE :: u32
  c_ACC :: u32
  c_CU :: bool
  c_CD :: bool
  c_DN :: bool
  c_OV :: bool
  c_UN :: bool

abbreviation (input) CounterStatusCU :: nat where "CounterStatusCU \<equiv> 31"
abbreviation (input) CounterStatusCD :: nat where "CounterStatusCD \<equiv> 30"
abbreviation (input) CounterStatusDN :: nat where "CounterStatusDN \<equiv> 29"
abbreviation (input) CounterStatusOV :: nat where "CounterStatusOV \<equiv> 28"
abbreviation (input) CounterStatusUN :: nat where "CounterStatusUN \<equiv> 27"

definition DecodeCounter :: "byte list \<Rightarrow> cerr + Counter" where
  "DecodeCounter data =
     (case layout data of
        None \<Rightarrow> Inl (CIPErrorf ''insufficient data for Counter'')
      | Some (statusOff, preOff, accOff) \<Rightarrow>
          (let statusU = le32_at data statusOff in
           Inr \<lparr>c_PRE = le32_at data preOff, c_ACC = le32_at data accOff,
                c_CU = (statusU AND push_bit CounterStatusCU 1 \<noteq> 0),
                c_CD = (statusU AND push_bit CounterStatusCD 1 \<noteq> 0),
                c_DN = (statusU AND push_bit CounterStatusDN 1 \<noteq> 0),
                c_OV = (statusU AND push_bit CounterStatusOV 1 \<noteq> 0),
                c_UN = (statusU AND push_bit CounterStatusUN 1 \<noteq> 0)\<rparr>))"

definition Counter_MarshalCIP :: "Counter \<Rightarrow> byte list" where
  "Counter_MarshalCIP c =
     le16 0 @
     le32 (set_flag (c_UN c) CounterStatusUN (set_flag (c_OV c) CounterStatusOV
       (set_flag (c_DN c) CounterStatusDN (set_flag (c_CD c) CounterStatusCD (set_flag (c_CU c) CounterStatusCU 0))))) @
     le32 (c_PRE c) @ le32 (c_ACC c)"

section \<open>Lemmas\<close>

lemma cread_simps [simp]: "cread (Inr x) = Inr x" "cread (Inl e) = Inl (CIPRead e)"
  by (simp_all add: cread_def)

lemma LenWords_even: "\<lbrakk>even (length p); length p < 512\<rbrakk> \<Longrightarrow> unat (LenWords p) * 2 = length p"
  by (auto simp: LenWords_def unat_count_byte elim!: evenE)

lemma read_words_append [simp]: "read_words (length ws) (concat (map le16 ws) @ r) = Inr (ws, r)"
  by (induction ws) simp_all

text \<open>How \<^const>\<open>Dispatch\<close> reads a path that starts with a class segment.\<close>

lemma Dispatch_class:
  "Dispatch mr \<lparr>Service = svc, RequestPath = AddClass c NewPath @ rest, RequestData = d\<rparr> s =
     (case objects mr c of
        None \<Rightarrow> (Inr (status_response svc StatusObjectDoesNotExist [] []), s)
      | Some obj \<Rightarrow> (case obj svc rest d s of (out, s') \<Rightarrow> (Inr (handler_response svc out), s')))"
proof (cases "c \<le> 0xFF")
  case True
  then have "unat c < 2 ^ 8" by (simp add: word_le_nat_alt)
  then have "take_bit 8 c = c" by (rule take_bit_small)
  moreover have "ucast (ucast c :: byte) = take_bit 8 c"
    by (rule bit_word_eqI) (auto simp: bit_simps dest: bit_imp_le_length)
  ultimately show ?thesis using True
    by (simp add: Dispatch_def AddClass_def NewPath_def Let_def split: option.split)
next
  case False
  then show ?thesis
    by (simp add: Dispatch_def AddClass_def NewPath_def Let_def le16_def le16_at_def codec_simps split: option.split)
qed

lemma flag_bit: "(w :: u32) AND push_bit n 1 \<noteq> 0 \<longleftrightarrow> bit w n"
proof -
  have "bit w n \<Longrightarrow> bit (w AND push_bit n 1) n"
    using bit_imp_le_length [of w n] by (simp add: bit_simps)
  moreover have "\<not> bit w n \<Longrightarrow> w AND push_bit n 1 = 0"
    by (rule bit_word_eqI) (auto simp: bit_simps)
  ultimately show ?thesis by auto
qed

lemma bit_set_flag: "bit (set_flag b n w) k \<longleftrightarrow> bit w k \<or> (b \<and> k = n \<and> n < 32)"
  using bit_imp_le_length [of w k] by (auto simp: set_flag_def bit_simps)

lemma layout_long:
  assumes "length r = 2"
  shows "layout (r @ le32 s @ le32 p @ le32 a) = Some (2, 6, 10)"
    "le32_at (r @ le32 s @ le32 p @ le32 a) 2 = s" "le32_at (r @ le32 s @ le32 p @ le32 a) 6 = p"
    "le32_at (r @ le32 s @ le32 p @ le32 a) 10 = a"
  using assms le32_at_append [of r 2 s "le32 p @ le32 a"] le32_at_append [of "r @ le32 s" 6 p "le32 a"]
    le32_at_append [of "r @ le32 s @ le32 p" 10 a "[]"]
  by (simp_all add: layout_def)

lemma layout_short:
  "layout (le32 s @ le32 p @ le32 a) = Some (0, 4, 8)" "le32_at (le32 s @ le32 p @ le32 a) 0 = s"
  "le32_at (le32 s @ le32 p @ le32 a) 4 = p" "le32_at (le32 s @ le32 p @ le32 a) 8 = a"
  using le32_at_append [of "[]" 0 s "le32 p @ le32 a"] le32_at_append [of "le32 s" 4 p "le32 a"]
    le32_at_append [of "le32 s @ le32 p" 8 a "[]"]
  by (simp_all add: layout_def)

lemmas layout_decode = layout_long layout_short layout_long [of "[x, y]" for x y, simplified]

text \<open>The attributes of a symbol as a controller sends them.\<close>

datatype attribute = AttrName "byte list" | AttrType u16 | AttrFailed u16 u16

fun attribute_bytes :: "attribute \<Rightarrow> byte list" where
  "attribute_bytes (AttrName name) = le16 1 @ le16 0 @ le16 (word_of_nat (length name)) @ name"
| "attribute_bytes (AttrType t) = le16 2 @ le16 0 @ le16 t"
| "attribute_bytes (AttrFailed i status) = le16 i @ le16 status"

fun attribute_ok :: "attribute \<Rightarrow> bool" where
  "attribute_ok (AttrName name) \<longleftrightarrow> length name < 2 ^ 16"
| "attribute_ok (AttrType t) \<longleftrightarrow> True"
| "attribute_ok (AttrFailed i status) \<longleftrightarrow> status \<noteq> 0"

fun attribute_apply :: "attribute \<Rightarrow> byte list \<times> u16 \<Rightarrow> byte list \<times> u16" where
  "attribute_apply (AttrName name) (_, t) = (name, t)"
| "attribute_apply (AttrType t) (name, _) = (name, t)"
| "attribute_apply (AttrFailed i status) acc = acc"

lemma symbol_attributes_bytes:
  "list_all attribute_ok as \<Longrightarrow>
     symbol_attributes (length as) acc (concat (map attribute_bytes as) @ r) = Inr (fold attribute_apply as acc)"
proof (induction as arbitrary: acc)
  case (Cons a as)
  obtain n t where acc: "acc = (n, t)" by fastforce
  show ?case
  proof (cases a)
    case (AttrName name)
    then have "unat (word_of_nat (length name) :: u16) = length name"
      using Cons.prems by (simp add: unat_word_of_nat)
    with AttrName Cons show ?thesis by (simp add: acc)
  qed (use Cons in \<open>auto simp: acc\<close>)
qed simp

section \<open>Properties\<close>

text \<open>
  C28: CIP messages survive the wire.  Decoding an encoded request returns it when the path is
  word aligned and below 512 bytes and path or data is not empty; decoding an encoded response
  returns it when the size field counts the extended status words, as in every response the
  router builds from fewer than 256 of them.
\<close>

theorem cip_message_roundtrip:
  assumes "even (length (RequestPath req))" "length (RequestPath req) < 512"
    "RequestPath req \<noteq> [] \<or> RequestData req \<noteq> []"
    "unat (ExtStatusSize resp) = length (ExtStatus resp)"
  shows "DecodeMessageRouterRequest (MRRequest_Encode req) = Inr req \<and>
    DecodeMessageRouterResponse (MRResponse_Encode resp) = Inr resp"
proof
  show "DecodeMessageRouterRequest (MRRequest_Encode req) = Inr req"
    using LenWords_even [OF assms(1,2)] assms(3)
    by (simp add: DecodeMessageRouterRequest_def MRRequest_Encode_def read_some_def)
  show "DecodeMessageRouterResponse (MRResponse_Encode resp) = Inr resp"
    by (simp add: DecodeMessageRouterResponse_def MRResponse_Encode_def assms(4))
qed

theorem cip_message_roundtrip_witness:
  "let req = NewReadTagRequest (AddSymbolicSegment (bytes_of ''Speed'') NewPath) 1;
       resp = status_response 0x4C 0xFF [0x2105] []
   in DecodeMessageRouterRequest (MRRequest_Encode req) = Inr req \<and>
      DecodeMessageRouterResponse (MRResponse_Encode resp) = Inr resp"
proof -
  let ?req = "NewReadTagRequest (AddSymbolicSegment (bytes_of ''Speed'') NewPath) 1"
  have "even (length (RequestPath ?req))" "length (RequestPath ?req) < 512"
    "RequestPath ?req \<noteq> [] \<or> RequestData ?req \<noteq> []"
    "unat (ExtStatusSize (status_response 0x4C 0xFF [0x2105] [])) =
       length (ExtStatus (status_response 0x4C 0xFF [0x2105] []))"
    by (simp_all add: NewReadTagRequest_def AddSymbolicSegment_def bytes_of_def NewPath_def status_response_def)
  from cip_message_roundtrip [OF this] show ?thesis by (simp add: Let_def)
qed



text \<open>
  Timers and counters survive encoding in both layouts: the fourteen bytes the code writes,
  whatever the reserved word holds, and the twelve bytes without it.
\<close>

theorem timer_counter_roundtrip:
  "DecodeTimer (Timer_MarshalCIP t) = Inr t \<and> DecodeTimer (drop 2 (Timer_MarshalCIP t)) = Inr t \<and>
   DecodeTimer ([x, y] @ drop 2 (Timer_MarshalCIP t)) = Inr t \<and>
   DecodeCounter (Counter_MarshalCIP c) = Inr c \<and> DecodeCounter (drop 2 (Counter_MarshalCIP c)) = Inr c \<and>
   DecodeCounter ([x, y] @ drop 2 (Counter_MarshalCIP c)) = Inr c"
  by (simp add: DecodeTimer_def DecodeCounter_def Timer_MarshalCIP_def Counter_MarshalCIP_def layout_decode
      flag_bit bit_set_flag del: push_bit_of_1)

text \<open>
  Symbol attributes are read whatever their order.  From a response that lists names, types
  and failed attributes, the decoder returns the last name and the last type, skips the failed
  ones and ignores what follows.
\<close>

theorem symbol_attributes_decoded:
  assumes "list_all attribute_ok as" "length as < 2 ^ 16"
  shows "DecodeSymbolAttributesResponse
      (le16 (word_of_nat (length as)) @ concat (map attribute_bytes as) @ junk) =
    Inr (fold attribute_apply as ([], 0))"
  using assms by (simp add: DecodeSymbolAttributesResponse_def unat_word_of_nat symbol_attributes_bytes)

theorem symbol_attributes_decoded_witness:
  "DecodeSymbolAttributesResponse
     (le16 3 @ concat (map attribute_bytes [AttrType 0xC4, AttrFailed 7 0x14, AttrName (bytes_of ''Speed'')])) =
   Inr (bytes_of ''Speed'', 0xC4)"
  using symbol_attributes_decoded [of "[AttrType 0xC4, AttrFailed 7 0x14, AttrName (bytes_of ''Speed'')]" "[]"]
  by (simp add: bytes_of_def)

end
