(* ===== verification/Eip_Packet.thy ===== *)
theory Eip_Packet
  imports Cip_Message
begin

text \<open>
  \<^verbatim>\<open>src/protocol/ethernetip/eip\<close> and \<^verbatim>\<open>conn.go\<close>: the encapsulation header, the common packet format
  (CPF), the discovery messages, and sending and receiving whole packets.  A connection is the
  bytes that are left to read; writing appends bytes.
\<close>

section \<open>Encapsulation header\<close>

type_synonym Command = u16
type_synonym SessionHandle = u32

abbreviation (input) CommandListServices :: Command where "CommandListServices \<equiv> 0x0004"
abbreviation (input) CommandListIdentity :: Command where "CommandListIdentity \<equiv> 0x0063"
abbreviation (input) CommandRegisterSession :: Command where "CommandRegisterSession \<equiv> 0x0065"
abbreviation (input) CommandUnregisterSession :: Command where "CommandUnregisterSession \<equiv> 0x0066"
abbreviation (input) CommandSendRRData :: Command where "CommandSendRRData \<equiv> 0x006F"
abbreviation (input) CommandSendUnitData :: Command where "CommandSendUnitData \<equiv> 0x0070"
abbreviation (input) EipStatusSuccess :: u32 where "EipStatusSuccess \<equiv> 0x00"
abbreviation (input) EipStatusInvalidCommand :: u32 where "EipStatusInvalidCommand \<equiv> 0x01"
abbreviation (input) EipStatusInvalidSessionHandle :: u32 where "EipStatusInvalidSessionHandle \<equiv> 0x64"
abbreviation (input) HeaderSize :: nat where "HeaderSize \<equiv> 24"

record EncapsulationHeader =
  h_Command :: Command
  h_Length :: u16
  h_SessionHandle :: SessionHandle
  h_Status :: u32
  h_SenderContext :: "byte list"
  h_Options :: u32

definition Header_Encode :: "EncapsulationHeader \<Rightarrow> byte list" where
  "Header_Encode h =
     le16 (h_Command h) @ le16 (h_Length h) @ le32 (h_SessionHandle h) @ le32 (h_Status h) @
     h_SenderContext h @ le32 (h_Options h)"

definition Header_Decode :: "byte list \<Rightarrow> cerr + EncapsulationHeader \<times> byte list" where
  "Header_Decode r =
     res_bind (cread (read_full HeaderSize r)) (\<lambda>(b, r).
       Inr (\<lparr>h_Command = le16_at b 0, h_Length = le16_at b 2, h_SessionHandle = le32_at b 4,
             h_Status = le32_at b 8, h_SenderContext = take 8 (drop 12 b), h_Options = le32_at b 20\<rparr>, r))"

definition RegisterSessionData :: "byte list" where
  "RegisterSessionData = le16 1 @ le16 0"

section \<open>Common packet format\<close>

abbreviation (input) ItemIDNullAddress :: u16 where "ItemIDNullAddress \<equiv> 0x0000"
abbreviation (input) ItemIDListIdentity :: u16 where "ItemIDListIdentity \<equiv> 0x000C"
abbreviation (input) ItemIDConnectedAddress :: u16 where "ItemIDConnectedAddress \<equiv> 0x00A1"
abbreviation (input) ItemIDConnectedData :: u16 where "ItemIDConnectedData \<equiv> 0x00B1"
abbreviation (input) ItemIDUnconnectedMessage :: u16 where "ItemIDUnconnectedMessage \<equiv> 0x00B2"
abbreviation (input) ItemIDListServices :: u16 where "ItemIDListServices \<equiv> 0x0100"
abbreviation (input) ItemIDSequencedAddress :: u16 where "ItemIDSequencedAddress \<equiv> 0x8002"

record CPFItem =
  TypeID :: u16
  Length :: u16
  ItemData :: "byte list"

definition NewCPFItem :: "u16 \<Rightarrow> byte list \<Rightarrow> CPFItem" where
  "NewCPFItem typeID data = \<lparr>TypeID = typeID, Length = word_of_nat (length data), ItemData = data\<rparr>"

definition CPFItem_Encode :: "CPFItem \<Rightarrow> byte list" where
  "CPFItem_Encode item =
     le16 (TypeID item) @ le16 (Length item) @ (if Length item > 0 then ItemData item else [])"

record CommonPacketFormat =
  ItemCount :: u16
  Items :: "CPFItem list"

definition NewCommonPacketFormat :: "CPFItem list \<Rightarrow> CommonPacketFormat" where
  "NewCommonPacketFormat items = \<lparr>ItemCount = word_of_nat (length items), Items = items\<rparr>"

definition CPF_Encode :: "CommonPacketFormat \<Rightarrow> byte list" where
  "CPF_Encode cpf = le16 (ItemCount cpf) @ concat (map CPFItem_Encode (Items cpf))"

fun decode_items :: "nat \<Rightarrow> byte list \<Rightarrow> cerr + CPFItem list" where
  "decode_items 0 r = Inr []"
| "decode_items (Suc n) r =
     res_bind (cread (read_le16 r)) (\<lambda>(typeID, r).
     res_bind (cread (read_le16 r)) (\<lambda>(len, r).
     res_bind (cread (read_full (unat len) r)) (\<lambda>(itemData, r).
     res_bind (decode_items n r) (\<lambda>items.
     Inr (\<lparr>TypeID = typeID, Length = len, ItemData = itemData\<rparr> # items)))))"

definition DecodeCommonPacketFormat :: "byte list \<Rightarrow> cerr + CommonPacketFormat" where
  "DecodeCommonPacketFormat data =
     res_bind (cread (read_le16 data)) (\<lambda>(itemCount, r).
     if length r < 4 * unat itemCount then Inl (CIPErrorf ''cpf: item count requires more bytes'')
     else res_bind (decode_items (unat itemCount) r) (\<lambda>items.
       Inr \<lparr>ItemCount = itemCount, Items = items\<rparr>))"

definition FindItemByType :: "u16 \<Rightarrow> CommonPacketFormat \<Rightarrow> CPFItem option" where
  "FindItemByType typeID cpf = find (\<lambda>item. TypeID item = typeID) (Items cpf)"

section \<open>Discovery\<close>

record ListIdentityItem =
  li_TypeID :: u16
  li_Length :: u16
  li_EncapsVersion :: u16
  li_SocketAddr :: "byte list"
  li_VendorID :: u16
  li_DeviceType :: u16
  li_ProductCode :: u16
  li_Revision :: "byte list"
  li_Status :: u16
  li_SerialNumber :: u32
  li_ProductName :: "byte list"
  li_State :: byte

record ListServicesItem =
  ls_TypeID :: u16
  ls_Length :: u16
  ls_Version :: u16
  ls_CapabilityFlags :: u16
  ls_Name :: "byte list"

definition encode_identity :: "ListIdentityItem \<Rightarrow> byte list" where
  "encode_identity item =
     (let nameBytes = take 32 (li_ProductName item) in
      le16 (li_TypeID item) @ le16 (word_of_nat (34 + length nameBytes)) @ le16 (li_EncapsVersion item) @
      li_SocketAddr item @ le16 (li_VendorID item) @ le16 (li_DeviceType item) @ le16 (li_ProductCode item) @
      li_Revision item @ le16 (li_Status item) @ le32 (li_SerialNumber item) @
      [word_of_nat (length nameBytes)] @ nameBytes @ [li_State item])"

definition EncodeListIdentityResponse :: "ListIdentityItem list \<Rightarrow> byte list" where
  "EncodeListIdentityResponse items = le16 (word_of_nat (length items)) @ concat (map encode_identity items)"

definition encode_service :: "ListServicesItem \<Rightarrow> byte list" where
  "encode_service item =
     le16 (ls_TypeID item) @ le16 20 @ le16 (ls_Version item) @ le16 (ls_CapabilityFlags item) @
     take 16 (ls_Name item) @ replicate (16 - length (ls_Name item)) 0"

definition EncodeListServicesResponse :: "ListServicesItem list \<Rightarrow> byte list" where
  "EncodeListServicesResponse items = le16 (word_of_nat (length items)) @ concat (map encode_service items)"

definition decode_identity :: "u16 \<Rightarrow> u16 \<Rightarrow> byte list \<Rightarrow> io_error + ListIdentityItem \<times> byte list" where
  "decode_identity typeID len r =
     res_bind (read_le16 r) (\<lambda>(version, r).
     res_bind (read_full 16 r) (\<lambda>(sockaddr, r).
     res_bind (read_le16 r) (\<lambda>(vendor, r).
     res_bind (read_le16 r) (\<lambda>(deviceType, r).
     res_bind (read_le16 r) (\<lambda>(productCode, r).
     res_bind (read_full 2 r) (\<lambda>(revision, r).
     res_bind (read_le16 r) (\<lambda>(status, r).
     res_bind (read_le32 r) (\<lambda>(serial, r).
     res_bind (read_u8 r) (\<lambda>(nameLen, r).
     res_bind (read_full (unat nameLen) r) (\<lambda>(name, r).
     res_bind (read_u8 r) (\<lambda>(state, r).
     Inr (\<lparr>li_TypeID = typeID, li_Length = len, li_EncapsVersion = version, li_SocketAddr = sockaddr,
           li_VendorID = vendor, li_DeviceType = deviceType, li_ProductCode = productCode,
           li_Revision = revision, li_Status = status, li_SerialNumber = serial,
           li_ProductName = name, li_State = state\<rparr>, r))))))))))))"

fun decode_identities :: "nat \<Rightarrow> byte list \<Rightarrow> io_error + ListIdentityItem list" where
  "decode_identities 0 r = Inr []"
| "decode_identities (Suc n) r =
     res_bind (read_le16 r) (\<lambda>(typeID, r).
     res_bind (read_le16 r) (\<lambda>(len, r).
     if typeID = ItemIDListIdentity then
       res_bind (decode_identity typeID len r) (\<lambda>(item, r).
       res_bind (decode_identities n r) (\<lambda>items. Inr (item # items)))
     else res_bind (read_full (unat len) r) (\<lambda>(_, r). decode_identities n r)))"

definition DecodeListIdentityResponse :: "byte list \<Rightarrow> cerr + ListIdentityItem list" where
  "DecodeListIdentityResponse data =
     cread (res_bind (read_le16 data) (\<lambda>(n, r). decode_identities (unat n) r))"

definition DecodeListServicesItem :: "byte list \<Rightarrow> io_error + ListServicesItem \<times> byte list" where
  "DecodeListServicesItem r =
     res_bind (read_le16 r) (\<lambda>(typeID, r).
     res_bind (read_le16 r) (\<lambda>(len, r).
     res_bind (read_le16 r) (\<lambda>(version, r).
     res_bind (read_le16 r) (\<lambda>(flags, r).
     res_bind (read_full 16 r) (\<lambda>(name, r).
     Inr (\<lparr>ls_TypeID = typeID, ls_Length = len, ls_Version = version, ls_CapabilityFlags = flags,
           ls_Name = rev (dropWhile (\<lambda>b. b = 0) (rev name))\<rparr>, r))))))"

fun decode_services :: "nat \<Rightarrow> byte list \<Rightarrow> io_error + ListServicesItem list" where
  "decode_services 0 r = Inr []"
| "decode_services (Suc n) r =
     res_bind (DecodeListServicesItem r) (\<lambda>(item, r).
     res_bind (decode_services n r) (\<lambda>items. Inr (item # items)))"

definition DecodeListServicesResponse :: "byte list \<Rightarrow> cerr + ListServicesItem list" where
  "DecodeListServicesResponse data =
     cread (res_bind (read_le16 data) (\<lambda>(n, r). decode_services (unat n) r))"

section \<open>Packets\<close>

definition EipConn_Send :: "Command \<Rightarrow> byte list \<Rightarrow> SessionHandle \<Rightarrow> byte list" where
  "EipConn_Send cmd data sessionHandle =
     Header_Encode
       \<lparr>h_Command = cmd, h_Length = word_of_nat (length data), h_SessionHandle = sessionHandle,
        h_Status = 0, h_SenderContext = replicate 8 0, h_Options = 0\<rparr> @ data"

definition EipConn_Receive :: "byte list \<Rightarrow> cerr + (EncapsulationHeader \<times> byte list) \<times> byte list" where
  "EipConn_Receive r =
     res_bind (Header_Decode r) (\<lambda>(header, r).
     res_bind (cread (read_full (unat (h_Length header)) r)) (\<lambda>(data, r). Inr ((header, data), r)))"

section \<open>Lemmas\<close>

lemma Header_Decode_Encode [simp]:
  assumes "length (h_SenderContext h) = 8"
  shows "Header_Decode (Header_Encode h @ r) = Inr (h, r)"
proof -
  let ?b = "Header_Encode h"
  have len: "length ?b = 24" using assms by (simp add: Header_Encode_def)
  have f: "le16_at ?b 0 = h_Command h" "le16_at ?b 2 = h_Length h" "le32_at ?b 4 = h_SessionHandle h"
    "le32_at ?b 8 = h_Status h" "le32_at ?b 20 = h_Options h"
    using assms
      le16_at_append [of "[]" 0 "h_Command h"] le16_at_append [of "le16 (h_Command h)" 2 "h_Length h"]
      le32_at_append [of "le16 (h_Command h) @ le16 (h_Length h)" 4 "h_SessionHandle h"]
      le32_at_append [of "le16 (h_Command h) @ le16 (h_Length h) @ le32 (h_SessionHandle h)" 8 "h_Status h"]
      le32_at_append [of "le16 (h_Command h) @ le16 (h_Length h) @ le32 (h_SessionHandle h) @ le32 (h_Status h) @
        h_SenderContext h" 20 "h_Options h" "[]"]
    by (simp_all add: Header_Encode_def)
  have "take 8 (drop 12 ?b) = h_SenderContext h"
    using assms by (simp add: Header_Encode_def le16_def le32_def)
  with len f show ?thesis by (simp add: Header_Decode_def)
qed

text \<open>An item whose length field fits its data.\<close>

definition item_ok :: "CPFItem \<Rightarrow> bool" where
  "item_ok item \<longleftrightarrow> unat (Length item) = length (ItemData item)"

lemma NewCPFItem_ok: "length data < 2 ^ 16 \<Longrightarrow> item_ok (NewCPFItem t data)"
  by (simp add: item_ok_def NewCPFItem_def unat_word_of_nat)

lemma item_ok_Encode: "item_ok item \<Longrightarrow> CPFItem_Encode item = le16 (TypeID item) @ le16 (Length item) @ ItemData item"
  by (auto simp: CPFItem_Encode_def item_ok_def word_gt_0 unat_eq_0)

lemma decode_items_Encode:
  "list_all item_ok items \<Longrightarrow>
     decode_items (length items) (concat (map CPFItem_Encode items) @ r) = Inr items"
  by (induction items) (simp_all add: item_ok_Encode item_ok_def)

lemma length_items: "list_all item_ok items \<Longrightarrow> 4 * length items \<le> length (concat (map CPFItem_Encode items))"
  by (induction items) (auto simp: item_ok_Encode)

lemma CPF_roundtrip [simp]:
  assumes "list_all item_ok (Items cpf)" "unat (ItemCount cpf) = length (Items cpf)"
  shows "DecodeCommonPacketFormat (CPF_Encode cpf) = Inr cpf"
  using assms length_items [OF assms(1)] decode_items_Encode [OF assms(1), of "[]"]
  by (simp add: DecodeCommonPacketFormat_def CPF_Encode_def)

definition identity_ok :: "ListIdentityItem \<Rightarrow> bool" where
  "identity_ok item \<longleftrightarrow> li_TypeID item = ItemIDListIdentity \<and> length (li_SocketAddr item) = 16 \<and>
     length (li_Revision item) = 2"

text \<open>What the wire keeps of an identity: the name is cut to 32 bytes and the length is set.\<close>

definition wire_identity :: "ListIdentityItem \<Rightarrow> ListIdentityItem" where
  "wire_identity item =
     item\<lparr>li_ProductName := take 32 (li_ProductName item),
          li_Length := word_of_nat (34 + length (take 32 (li_ProductName item)))\<rparr>"

lemma decode_identity_encode:
  assumes "identity_ok item"
  shows "decode_identities (Suc n) (encode_identity item @ r) =
    res_bind (decode_identities n r) (\<lambda>items. Inr (wire_identity item # items))"
proof -
  have "unat (word_of_nat (length (take 32 (li_ProductName item))) :: byte) = length (take 32 (li_ProductName item))"
    by (rule unat_count_byte) simp
  with assms show ?thesis
    by (cases item) (simp add: identity_ok_def encode_identity_def decode_identity_def wire_identity_def Let_def)
qed

lemma decode_identities_encode:
  "list_all identity_ok items \<Longrightarrow>
     decode_identities (length items) (concat (map encode_identity items)) = Inr (map wire_identity items)"
proof (induction items)
  case (Cons item items)
  then show ?case
    using decode_identity_encode [of item "length items" "concat (map encode_identity items)"] by simp
qed simp

definition service_ok :: "ListServicesItem \<Rightarrow> bool" where
  "service_ok item \<longleftrightarrow> ls_Length item = 20 \<and> length (ls_Name item) \<le> 16 \<and>
     (ls_Name item = [] \<or> last (ls_Name item) \<noteq> 0)"

lemma trim_padding:
  assumes "name = [] \<or> last name \<noteq> (0 :: byte)"
  shows "rev (dropWhile (\<lambda>b. b = 0) (rev (name @ replicate n 0))) = name"
proof -
  have "dropWhile (\<lambda>b. b = 0) (replicate n 0 @ rev name) = dropWhile (\<lambda>b. b = (0 :: byte)) (rev name)"
    by (induction n) auto
  also have "\<dots> = rev name" using assms by (cases name rule: rev_cases) auto
  finally show ?thesis by simp
qed

lemma decode_services_encode:
  "list_all service_ok items \<Longrightarrow> decode_services (length items) (concat (map encode_service items)) = Inr items"
proof (induction items)
  case (Cons item items)
  then have "rev (dropWhile (\<lambda>b. b = 0) (replicate (16 - length (ls_Name item)) 0 @ rev (ls_Name item))) = ls_Name item"
    using trim_padding [of "ls_Name item" "16 - length (ls_Name item)"] by (simp add: service_ok_def)
  with Cons show ?case
    using read_full_append [of "ls_Name item @ replicate (16 - length (ls_Name item)) 0" 16]
    by (simp add: service_ok_def encode_service_def DecodeListServicesItem_def)
qed simp

lemma EipConn_Receive_Send:
  assumes "length data < 2 ^ 16" "length (h_SenderContext h) = 8" "h_Length h = word_of_nat (length data)"
  shows "EipConn_Receive (Header_Encode h @ data @ r) = Inr ((h, data), r)"
  using assms by (simp add: EipConn_Receive_def unat_word_of_nat)

section \<open>Properties\<close>

text \<open>
  C27: packets survive the wire.  A packet sent with fewer than 65536 bytes of data is received
  as its header and data, leaving exactly what follows; a common packet format whose items carry
  their true lengths decodes to itself.
\<close>

theorem eip_packet_roundtrip:
  assumes "length data < 2 ^ 16" "list_all item_ok items" "length items < 2 ^ 16"
  shows "EipConn_Receive (EipConn_Send cmd data handle @ rest) =
      Inr ((\<lparr>h_Command = cmd, h_Length = word_of_nat (length data), h_SessionHandle = handle, h_Status = 0,
             h_SenderContext = replicate 8 0, h_Options = 0\<rparr>, data), rest) \<and>
    DecodeCommonPacketFormat (CPF_Encode (NewCommonPacketFormat items)) = Inr (NewCommonPacketFormat items)"
proof
  show "EipConn_Receive (EipConn_Send cmd data handle @ rest) =
      Inr ((\<lparr>h_Command = cmd, h_Length = word_of_nat (length data), h_SessionHandle = handle, h_Status = 0,
             h_SenderContext = replicate 8 0, h_Options = 0\<rparr>, data), rest)"
    unfolding EipConn_Send_def append_assoc by (rule EipConn_Receive_Send) (use assms(1) in simp_all)
  show "DecodeCommonPacketFormat (CPF_Encode (NewCommonPacketFormat items)) = Inr (NewCommonPacketFormat items)"
    using assms(2,3) by (intro CPF_roundtrip) (simp_all add: NewCommonPacketFormat_def unat_word_of_nat)
qed

theorem eip_packet_roundtrip_witness:
  "EipConn_Receive (EipConn_Send 0x65 [1, 0, 0, 0] 7 @ [9]) =
     Inr ((\<lparr>h_Command = 0x65, h_Length = 4, h_SessionHandle = 7, h_Status = 0,
            h_SenderContext = replicate 8 0, h_Options = 0\<rparr>, [1, 0, 0, 0]), [9]) \<and>
   DecodeCommonPacketFormat (CPF_Encode (NewCommonPacketFormat [NewCPFItem 0 [], NewCPFItem 0xB2 [1, 2]])) =
     Inr (NewCommonPacketFormat [NewCPFItem 0 [], NewCPFItem 0xB2 [1, 2]])"
  using eip_packet_roundtrip [of "[1, 0, 0, 0]" "[NewCPFItem 0 [], NewCPFItem 0xB2 [1, 2]]" "0x65" 7 "[9]"]
  by (simp add: NewCPFItem_ok)

text \<open>
  Discovery survives the wire.  Identity items come back with their names cut to 32 bytes and
  their lengths set, and service items with names of at most 16 bytes come back unchanged.
\<close>

theorem eip_discovery_roundtrip:
  assumes "list_all identity_ok ids" "length ids < 2 ^ 16" "list_all service_ok svcs" "length svcs < 2 ^ 16"
  shows "DecodeListIdentityResponse (EncodeListIdentityResponse ids) = Inr (map wire_identity ids) \<and>
    DecodeListServicesResponse (EncodeListServicesResponse svcs) = Inr svcs"
  using assms decode_identities_encode [of ids] decode_services_encode [of svcs]
  by (simp add: DecodeListIdentityResponse_def EncodeListIdentityResponse_def DecodeListServicesResponse_def
      EncodeListServicesResponse_def unat_word_of_nat)

theorem eip_discovery_roundtrip_witness:
  "let svcs = [\<lparr>ls_TypeID = 0x100, ls_Length = 20, ls_Version = 1, ls_CapabilityFlags = 0x20,
               ls_Name = bytes_of ''Communications''\<rparr>]
   in DecodeListServicesResponse (EncodeListServicesResponse svcs) = Inr svcs"
proof -
  let ?svcs = "[\<lparr>ls_TypeID = 0x100, ls_Length = 20, ls_Version = 1, ls_CapabilityFlags = 0x20,
               ls_Name = bytes_of ''Communications''\<rparr>]"
  have "list_all service_ok ?svcs" by (simp add: service_ok_def bytes_of_def)
  with eip_discovery_roundtrip [of "[]" ?svcs] show ?thesis by simp
qed

end
