(* ===== verification/Cip_Objects.thy ===== *)
theory Cip_Objects
  imports Cip_Message "HOL-Library.AList"
begin

text \<open>
  \<^verbatim>\<open>src/protocol/ethernetip/objects\<close>: the Assembly object (class 0x04), whose instances are fixed-size
  buffers, and the Connection Manager object (class 0x06), which opens and closes connections.
  The connection table is an association list; its order, which the code never relies on, is
  the order of insertion.  Callbacks are recorded.
\<close>

unbundle bit_operations_syntax

abbreviation (input) StatusInvalidAttributeValue :: USINT where "StatusInvalidAttributeValue \<equiv> 0x09"
abbreviation (input) ClassAssembly :: UINT where "ClassAssembly \<equiv> 0x04"
abbreviation (input) ClassConnectionMgr :: UINT where "ClassConnectionMgr \<equiv> 0x06"

section \<open>Assembly\<close>

record AssemblyObject =
  instances :: "u32 \<rightharpoonup> byte list"

definition NewAssemblyObject :: AssemblyObject where
  "NewAssemblyObject = \<lparr>instances = Map.empty\<rparr>"

definition RegisterAssembly :: "u32 \<Rightarrow> byte list \<Rightarrow> AssemblyObject \<Rightarrow> AssemblyObject" where
  "RegisterAssembly instanceID data ao = ao\<lparr>instances := (instances ao)(instanceID \<mapsto> data)\<rparr>"

definition GetInstance :: "u32 \<Rightarrow> AssemblyObject \<Rightarrow> byte list option" where
  "GetInstance instanceID ao = instances ao instanceID"

definition GetAttributeSingle :: "u32 \<Rightarrow> u16 \<Rightarrow> AssemblyObject \<Rightarrow> cerr + byte list" where
  "GetAttributeSingle instanceID attrID ao =
     (case instances ao instanceID of
        None \<Rightarrow> Inl (CIPError StatusObjectDoesNotExist [])
      | Some data \<Rightarrow>
          if attrID = 3 then Inr data else Inl (CIPError StatusAttributeNotSupported []))"

definition SetAttributeSingle :: "u32 \<Rightarrow> u16 \<Rightarrow> byte list \<Rightarrow> AssemblyObject \<Rightarrow>
    cerr option \<times> AssemblyObject" where
  "SetAttributeSingle instanceID attrID data ao =
     (case instances ao instanceID of
        None \<Rightarrow> (Some (CIPError StatusObjectDoesNotExist []), ao)
      | Some old \<Rightarrow>
          if attrID = 3 then
            (if length data \<noteq> length old then (Some (CIPError StatusInvalidAttributeValue []), ao)
             else (None, ao\<lparr>instances := (instances ao)(instanceID \<mapsto> data)\<rparr>))
          else (Some (CIPError StatusAttributeNotSupported []), ao))"

text \<open>The decoding of instance and attribute from the path behind the class segment.\<close>

definition assembly_target :: "Path \<Rightarrow> cerr + u32 \<times> u16" where
  "assembly_target path =
     (let bad = Inl (CIPError StatusPathSegmentError []);
          attribute = (\<lambda>instanceID r.
            if r = [] then Inr (instanceID, 0)
            else if r ! 0 = 0x30 then (if length r < 2 then bad else Inr (instanceID, ucast (r ! 1)))
            else if r ! 0 = 0x31 then (if length r < 4 then bad else Inr (instanceID, le16_at r 2))
            else Inr (instanceID, 0))
      in if path = [] then bad
         else if path ! 0 = 0x24 then
           (if length path < 2 then bad else attribute (ucast (path ! 1)) (drop 2 path))
         else if path ! 0 = 0x25 then
           (if length path < 4 then bad else attribute (ucast (le16_at path 2)) (drop 4 path))
         else bad)"

definition Assembly_HandleRequest :: "AssemblyObject object" where
  "Assembly_HandleRequest service path data ao =
     (case assembly_target path of
        Inl err \<Rightarrow> (Inl err, ao)
      | Inr (instanceID, attrID) \<Rightarrow>
          if service = ServiceGetAttributeSingle then
            (if attrID = 0 then (Inl (CIPError StatusPathSegmentError []), ao)
             else (GetAttributeSingle instanceID attrID ao, ao))
          else if service = ServiceSetAttributeSingle then
            (if attrID = 0 then (Inl (CIPError StatusPathSegmentError []), ao)
             else (case SetAttributeSingle instanceID attrID data ao of
                     (Some err, ao) \<Rightarrow> (Inl err, ao)
                   | (None, ao) \<Rightarrow> (Inr [], ao)))
          else (Inl (CIPError StatusServiceNotSupported []), ao))"

section \<open>Connection manager\<close>

abbreviation (input) ServiceForwardClose :: USINT where "ServiceForwardClose \<equiv> 0x4E"
abbreviation (input) ServiceForwardOpen :: USINT where "ServiceForwardOpen \<equiv> 0x54"
abbreviation (input) ExtStatusConnectionInUse :: UINT where "ExtStatusConnectionInUse \<equiv> 0x0100"

record ForwardOpenRequest =
  fo_PriorityTimeTick :: byte
  fo_TimeoutTicks :: USINT
  fo_OTConnectionID :: UDINT
  fo_TOConnectionID :: UDINT
  fo_ConnectionSerialNumber :: UINT
  fo_VendorID :: UINT
  fo_OriginatorSerialNumber :: UDINT
  fo_ConnectionTimeoutMultiplier :: USINT
  fo_Reserved :: "byte list"
  fo_OTRPI :: UDINT
  fo_OTNetworkConnectionParams :: u16
  fo_TORPI :: UDINT
  fo_TONetworkConnectionParams :: u16
  fo_TransportTypeTrigger :: byte
  fo_ConnectionPathSize :: USINT
  fo_ConnectionPath :: "byte list"

record ForwardCloseRequest =
  fc_PriorityTimeTick :: byte
  fc_TimeoutTicks :: USINT
  fc_ConnectionSerialNumber :: UINT
  fc_VendorID :: UINT
  fc_OriginatorSerialNumber :: UDINT
  fc_ConnectionPathSize :: USINT
  fc_Reserved :: USINT
  fc_ConnectionPath :: "byte list"

definition ForwardOpenRequest_Encode :: "ForwardOpenRequest \<Rightarrow> byte list" where
  "ForwardOpenRequest_Encode r =
     [fo_PriorityTimeTick r] @ [fo_TimeoutTicks r] @ le32 (fo_OTConnectionID r) @ le32 (fo_TOConnectionID r) @
     le16 (fo_ConnectionSerialNumber r) @ le16 (fo_VendorID r) @ le32 (fo_OriginatorSerialNumber r) @
     [fo_ConnectionTimeoutMultiplier r] @ fo_Reserved r @ le32 (fo_OTRPI r) @ le16 (fo_OTNetworkConnectionParams r) @
     le32 (fo_TORPI r) @ le16 (fo_TONetworkConnectionParams r) @ [fo_TransportTypeTrigger r] @
     [word_of_nat (length (fo_ConnectionPath r) div 2)] @ fo_ConnectionPath r"

definition ForwardCloseRequest_Encode :: "ForwardCloseRequest \<Rightarrow> byte list" where
  "ForwardCloseRequest_Encode r =
     [fc_PriorityTimeTick r] @ [fc_TimeoutTicks r] @ le16 (fc_ConnectionSerialNumber r) @ le16 (fc_VendorID r) @
     le32 (fc_OriginatorSerialNumber r) @ [word_of_nat (length (fc_ConnectionPath r) div 2)] @
     [fc_Reserved r] @ fc_ConnectionPath r"

definition ConnectionSizeFromParams :: "u16 \<Rightarrow> u16" where
  "ConnectionSizeFromParams params = params AND 0x01FF"

record Connection =
  cn_OTConnectionID :: u32
  cn_TOConnectionID :: u32
  cn_ConnectionSerialNumber :: UINT
  cn_VendorID :: UINT
  cn_OriginatorSerialNumber :: UDINT

datatype connmgr_event = OnOpen Connection ForwardOpenRequest | OnClose Connection

record ConnectionManager =
  connections :: "(u32 \<times> Connection) list"
  nextConnID :: u32
  cm_events :: "connmgr_event list"

definition NewConnectionManager :: ConnectionManager where
  "NewConnectionManager = \<lparr>connections = [], nextConnID = 0x80000000, cm_events = []\<rparr>"

text \<open>The sequence of reads in \<^verbatim>\<open>HandleForwardOpen\<close>; the path is read with a plain \<^verbatim>\<open>Read\<close>.\<close>

definition parse_forward_open :: "byte list \<Rightarrow> io_error + ForwardOpenRequest" where
  "parse_forward_open data =
     res_bind (read_u8 data) (\<lambda>(tick, r).
     res_bind (read_u8 r) (\<lambda>(ticks, r).
     res_bind (read_le32 r) (\<lambda>(ot, r).
     res_bind (read_le32 r) (\<lambda>(to, r).
     res_bind (read_le16 r) (\<lambda>(serial, r).
     res_bind (read_le16 r) (\<lambda>(vendor, r).
     res_bind (read_le32 r) (\<lambda>(orig, r).
     res_bind (read_u8 r) (\<lambda>(mult, r).
     res_bind (read_full 3 r) (\<lambda>(reserved, r).
     res_bind (read_le32 r) (\<lambda>(otrpi, r).
     res_bind (read_le16 r) (\<lambda>(otp, r).
     res_bind (read_le32 r) (\<lambda>(torpi, r).
     res_bind (read_le16 r) (\<lambda>(top, r).
     res_bind (read_u8 r) (\<lambda>(trigger, r).
     res_bind (read_u8 r) (\<lambda>(size, r).
     res_bind (read_some (unat size * 2) r) (\<lambda>(path, r).
     Inr \<lparr>fo_PriorityTimeTick = tick, fo_TimeoutTicks = ticks, fo_OTConnectionID = ot, fo_TOConnectionID = to,
          fo_ConnectionSerialNumber = serial, fo_VendorID = vendor, fo_OriginatorSerialNumber = orig,
          fo_ConnectionTimeoutMultiplier = mult, fo_Reserved = reserved, fo_OTRPI = otrpi,
          fo_OTNetworkConnectionParams = otp, fo_TORPI = torpi, fo_TONetworkConnectionParams = top,
          fo_TransportTypeTrigger = trigger, fo_ConnectionPathSize = size, fo_ConnectionPath = path\<rparr>))))))))))))))))"

definition same_triad :: "UINT \<Rightarrow> UINT \<Rightarrow> UDINT \<Rightarrow> Connection \<Rightarrow> bool" where
  "same_triad serial vendor orig c \<longleftrightarrow>
     cn_ConnectionSerialNumber c = serial \<and> cn_VendorID c = vendor \<and> cn_OriginatorSerialNumber c = orig"

definition HandleForwardOpen :: "byte list \<Rightarrow> ConnectionManager \<Rightarrow> (cerr + byte list) \<times> ConnectionManager" where
  "HandleForwardOpen reqData cm =
     (case parse_forward_open reqData of
        Inl e \<Rightarrow> (Inl (CIPRead e), cm)
      | Inr req \<Rightarrow>
          if list_ex (\<lambda>(i, c). same_triad (fo_ConnectionSerialNumber req) (fo_VendorID req)
               (fo_OriginatorSerialNumber req) c) (connections cm)
          then (Inl (CIPError StatusConnectionFailure [ExtStatusConnectionInUse]), cm)
          else
            (let myConnID = nextConnID cm + 1;
                 conn = \<lparr>cn_OTConnectionID = fo_OTConnectionID req, cn_TOConnectionID = myConnID,
                         cn_ConnectionSerialNumber = fo_ConnectionSerialNumber req,
                         cn_VendorID = fo_VendorID req, cn_OriginatorSerialNumber = fo_OriginatorSerialNumber req\<rparr>
             in (Inr (le32 (fo_OTConnectionID req) @ le32 myConnID @ le16 (fo_ConnectionSerialNumber req) @
                   le16 (fo_VendorID req) @ le32 (fo_OriginatorSerialNumber req) @ le32 (fo_OTRPI req) @
                   le32 (fo_TORPI req) @ [0] @ [0]),
                 \<lparr>connections = AList.update myConnID conn (connections cm), nextConnID = myConnID,
                  cm_events = cm_events cm @ [OnOpen conn req]\<rparr>)))"

definition parse_forward_close :: "byte list \<Rightarrow> io_error + ForwardCloseRequest" where
  "parse_forward_close data =
     res_bind (read_u8 data) (\<lambda>(tick, r).
     res_bind (read_u8 r) (\<lambda>(ticks, r).
     res_bind (read_le16 r) (\<lambda>(serial, r).
     res_bind (read_le16 r) (\<lambda>(vendor, r).
     res_bind (read_le32 r) (\<lambda>(orig, r).
     res_bind (read_u8 r) (\<lambda>(size, r).
     res_bind (read_u8 r) (\<lambda>(reserved, r).
     res_bind (read_some (unat size * 2) r) (\<lambda>(path, r).
     Inr \<lparr>fc_PriorityTimeTick = tick, fc_TimeoutTicks = ticks, fc_ConnectionSerialNumber = serial,
          fc_VendorID = vendor, fc_OriginatorSerialNumber = orig, fc_ConnectionPathSize = size,
          fc_Reserved = reserved, fc_ConnectionPath = path\<rparr>))))))))"

definition HandleForwardClose :: "byte list \<Rightarrow> ConnectionManager \<Rightarrow> (cerr + byte list) \<times> ConnectionManager" where
  "HandleForwardClose reqData cm =
     (case parse_forward_close reqData of
        Inl e \<Rightarrow> (Inl (CIPRead e), cm)
      | Inr req \<Rightarrow>
          (let cm = (case find (\<lambda>(i, c). same_triad (fc_ConnectionSerialNumber req) (fc_VendorID req)
                            (fc_OriginatorSerialNumber req) c) (connections cm) of
                       None \<Rightarrow> cm
                     | Some (i, closed) \<Rightarrow>
                         cm\<lparr>connections := AList.delete i (connections cm),
                            cm_events := cm_events cm @ [OnClose closed]\<rparr>)
           in (Inr (le16 (fc_ConnectionSerialNumber req) @ le16 (fc_VendorID req) @
                 le32 (fc_OriginatorSerialNumber req) @ [0] @ [0]), cm)))"

definition ConnMgr_HandleRequest :: "ConnectionManager object" where
  "ConnMgr_HandleRequest service path data cm =
     (if service = ServiceForwardOpen then HandleForwardOpen data cm
      else if service = ServiceForwardClose then HandleForwardClose data cm
      else (Inl (CIPError StatusServiceNotSupported []), cm))"

section \<open>Lemmas: assemblies\<close>

lemma ucast_byte16: "(a :: u16) \<le> 0xFF \<Longrightarrow> ucast (ucast a :: byte) = a"
proof -
  assume "a \<le> 0xFF"
  then have "unat a < 2 ^ 8" by (simp add: word_le_nat_alt)
  then have "take_bit 8 a = a" by (rule take_bit_small)
  moreover have "ucast (ucast a :: byte) = take_bit 8 a"
    by (rule bit_word_eqI) (auto simp: bit_simps dest: bit_imp_le_length)
  ultimately show ?thesis by simp
qed

lemma target_path: "assembly_target (AddAttribute a (AddInstance i NewPath)) = Inr (ucast i, a)"
  by (simp add: assembly_target_def AddAttribute_def AddInstance_def NewPath_def Let_def le16_def le16_at_def
      codec_simps ucast_byte16 ucast_small)

lemma Assembly_keeps_sizes:
  assumes "Assembly_HandleRequest service path data ao = (out, ao')"
  shows "map_option length (instances ao' k) = map_option length (instances ao k)"
  using assms
  by (auto simp: Assembly_HandleRequest_def SetAttributeSingle_def split: sum.splits prod.splits option.splits if_splits)

section \<open>Lemmas: connections\<close>

definition triad :: "Connection \<Rightarrow> UINT \<times> UINT \<times> UDINT" where
  "triad c = (cn_ConnectionSerialNumber c, cn_VendorID c, cn_OriginatorSerialNumber c)"

lemma same_triad_iff: "same_triad s v u c \<longleftrightarrow> triad c = (s, v, u)"
  by (auto simp: same_triad_def triad_def)

text \<open>
  The table after at most \<^term>\<open>n\<close> requests: every connection is stored under its own
  identifier, identifiers were allocated from the counter, and identifiers and triads are
  unique.
\<close>

definition table_ok :: "nat \<Rightarrow> ConnectionManager \<Rightarrow> bool" where
  "table_ok n cm \<longleftrightarrow>
     unat (nextConnID cm) \<le> 2 ^ 31 + n \<and>
     (\<forall>(i, c) \<in> set (connections cm). cn_TOConnectionID c = i \<and> unat i \<le> unat (nextConnID cm)) \<and>
     distinct (map fst (connections cm)) \<and> distinct (map (triad \<circ> snd) (connections cm))"

lemma table_ok_New: "table_ok 0 NewConnectionManager"
  by (simp add: table_ok_def NewConnectionManager_def)

lemma update_new: "k \<notin> fst ` set al \<Longrightarrow> AList.update k v al = al @ [(k, v)]"
  by (induction al) auto

lemma table_ok_mono: "table_ok n cm \<Longrightarrow> n \<le> m \<Longrightarrow> table_ok m cm"
  by (auto simp: table_ok_def)

lemma fresh_id:
  assumes "table_ok n cm" "n < 2 ^ 31 - 1"
  shows "unat (nextConnID cm + 1) = unat (nextConnID cm) + 1"
    "nextConnID cm + 1 \<notin> fst ` set (connections cm)"
proof -
  show u: "unat (nextConnID cm + 1) = unat (nextConnID cm) + 1"
    using assms by (simp add: table_ok_def unat_plus_if_size word_size)
  show "nextConnID cm + 1 \<notin> fst ` set (connections cm)"
  proof
    assume "nextConnID cm + 1 \<in> fst ` set (connections cm)"
    then have "unat (nextConnID cm + 1) \<le> unat (nextConnID cm)"
      using assms(1) by (auto simp: table_ok_def)
    with u show False by simp
  qed
qed

definition new_connection :: "ForwardOpenRequest \<Rightarrow> u32 \<Rightarrow> Connection" where
  "new_connection req i =
     \<lparr>cn_OTConnectionID = fo_OTConnectionID req, cn_TOConnectionID = i,
      cn_ConnectionSerialNumber = fo_ConnectionSerialNumber req, cn_VendorID = fo_VendorID req,
      cn_OriginatorSerialNumber = fo_OriginatorSerialNumber req\<rparr>"

definition open_reply :: "ForwardOpenRequest \<Rightarrow> u32 \<Rightarrow> byte list" where
  "open_reply req i =
     le32 (fo_OTConnectionID req) @ le32 i @ le16 (fo_ConnectionSerialNumber req) @ le16 (fo_VendorID req) @
     le32 (fo_OriginatorSerialNumber req) @ le32 (fo_OTRPI req) @ le32 (fo_TORPI req) @ [0, 0]"

definition request_triad :: "ForwardOpenRequest \<Rightarrow> UINT \<times> UINT \<times> UDINT" where
  "request_triad req = (fo_ConnectionSerialNumber req, fo_VendorID req, fo_OriginatorSerialNumber req)"

lemma triad_new [simp]: "triad (new_connection req i) = request_triad req" "cn_TOConnectionID (new_connection req i) = i"
  by (simp_all add: triad_def new_connection_def request_triad_def)

text \<open>The two outcomes of a request that parses.\<close>

lemma ForwardOpen_cases:
  assumes "parse_forward_open data = Inr req" "table_ok n cm" "n < 2 ^ 31 - 1"
  shows "HandleForwardOpen data cm =
    (if request_triad req \<in> (triad \<circ> snd) ` set (connections cm)
     then (Inl (CIPError StatusConnectionFailure [ExtStatusConnectionInUse]), cm)
     else (let i = nextConnID cm + 1; c = new_connection req i in
       (Inr (open_reply req i),
        \<lparr>connections = connections cm @ [(i, c)], nextConnID = i, cm_events = cm_events cm @ [OnOpen c req]\<rparr>)))"
proof -
  have "list_ex (\<lambda>(i, c). same_triad (fo_ConnectionSerialNumber req) (fo_VendorID req)
      (fo_OriginatorSerialNumber req) c) (connections cm) \<longleftrightarrow>
      request_triad req \<in> (triad \<circ> snd) ` set (connections cm)"
    by (force simp: list_ex_iff same_triad_iff request_triad_def)
  with assms(1) show ?thesis
    by (simp add: HandleForwardOpen_def Let_def update_new [OF fresh_id(2) [OF assms(2,3)]] open_reply_def
        new_connection_def)
qed

lemma ForwardOpen_ok:
  assumes "table_ok n cm" "n < 2 ^ 31 - 1"
  shows "table_ok (Suc n) (snd (HandleForwardOpen data cm))"
proof (cases "parse_forward_open data")
  case (Inl e)
  with assms show ?thesis by (simp add: HandleForwardOpen_def table_ok_mono)
next
  case (Inr req)
  show ?thesis
  proof (cases "request_triad req \<in> (triad \<circ> snd) ` set (connections cm)")
    case True
    with ForwardOpen_cases [OF Inr assms] assms(1) show ?thesis by (auto intro: table_ok_mono)
  next
    case False
    with ForwardOpen_cases [OF Inr assms] assms(1) fresh_id [OF assms] show ?thesis
      by (auto simp: Let_def table_ok_def)
  qed
qed

lemma delete_table: "table_ok n cm \<Longrightarrow> table_ok n (cm\<lparr>connections := AList.delete i (connections cm), cm_events := es\<rparr>)"
  by (auto simp: table_ok_def AList.delete_eq distinct_map_filter)

lemma ForwardClose_ok:
  assumes "table_ok n cm"
  shows "table_ok n (snd (HandleForwardClose data cm))"
  using assms delete_table [OF assms]
  by (auto simp: HandleForwardClose_def Let_def split: sum.splits option.splits)

lemma ConnMgr_ok:
  assumes "table_ok n cm" "n < 2 ^ 31 - 1"
  shows "table_ok (Suc n) (snd (ConnMgr_HandleRequest service path data cm))"
  using ForwardOpen_ok [OF assms] table_ok_mono [OF ForwardClose_ok [OF assms(1)], of "Suc n" data]
    table_ok_mono [OF assms(1), of "Suc n"]
  by (simp add: ConnMgr_HandleRequest_def)

text \<open>Requests as an originator encodes them.\<close>

definition path_ok :: "byte list \<Rightarrow> bool" where
  "path_ok p \<longleftrightarrow> p \<noteq> [] \<and> even (length p) \<and> length p < 512"

lemma read_path:
  assumes "path_ok p"
  shows "read_some (unat (word_of_nat (length p div 2) :: byte) * 2) p = Inr (p, [])"
proof -
  have "unat (word_of_nat (length p div 2) :: byte) = length p div 2"
    using assms by (intro unat_count_byte) (auto simp: path_ok_def)
  with assms show ?thesis by (simp add: path_ok_def read_some_def)
qed

lemma parse_forward_open_Encode:
  assumes "length (fo_Reserved req) = 3" "path_ok (fo_ConnectionPath req)"
  shows "parse_forward_open (ForwardOpenRequest_Encode req) =
    Inr (req\<lparr>fo_ConnectionPathSize := word_of_nat (length (fo_ConnectionPath req) div 2)\<rparr>)"
  using assms read_path [OF assms(2)]
  by (cases req) (simp add: parse_forward_open_def ForwardOpenRequest_Encode_def)

lemma parse_forward_close_Encode:
  assumes "path_ok (fc_ConnectionPath req)"
  shows "parse_forward_close (ForwardCloseRequest_Encode req) =
    Inr (req\<lparr>fc_ConnectionPathSize := word_of_nat (length (fc_ConnectionPath req) div 2)\<rparr>)"
  using assms read_path [OF assms]
  by (cases req) (simp add: parse_forward_close_def ForwardCloseRequest_Encode_def)

lemma request_triad_size [simp]: "request_triad (req\<lparr>fo_ConnectionPathSize := n\<rparr>) = request_triad req"
  "new_connection (req\<lparr>fo_ConnectionPathSize := n\<rparr>) i = new_connection req i"
  "open_reply (req\<lparr>fo_ConnectionPathSize := n\<rparr>) i = open_reply req i"
  by (simp_all add: request_triad_def new_connection_def open_reply_def)

definition close_triad :: "ForwardCloseRequest \<Rightarrow> UINT \<times> UINT \<times> UDINT" where
  "close_triad req = (fc_ConnectionSerialNumber req, fc_VendorID req, fc_OriginatorSerialNumber req)"

lemma find_last:
  assumes "\<not> list_ex P xs" "P x"
  shows "find P (xs @ [x]) = Some x"
  using assms by (induction xs) auto

text \<open>Closing the connection that was opened last.\<close>

lemma ForwardClose_last:
  assumes "path_ok (fc_ConnectionPath req)" "connections cm = cs @ [(i, c)]"
    "triad c = close_triad req" "close_triad req \<notin> (triad \<circ> snd) ` set cs" "i \<notin> fst ` set cs"
  shows "snd (HandleForwardClose (ForwardCloseRequest_Encode req) cm) =
    cm\<lparr>connections := cs, cm_events := cm_events cm @ [OnClose c]\<rparr>"
proof -
  have "\<not> list_ex (\<lambda>(i, c). same_triad (fc_ConnectionSerialNumber req) (fc_VendorID req)
      (fc_OriginatorSerialNumber req) c) cs"
    using assms(4) by (force simp: list_ex_iff same_triad_iff close_triad_def)
  moreover have "same_triad (fc_ConnectionSerialNumber req) (fc_VendorID req) (fc_OriginatorSerialNumber req) c"
    using assms(3) by (simp add: same_triad_iff close_triad_def)
  moreover have "AList.delete i (cs @ [(i, c)]) = cs"
    using assms(5) by (force simp: AList.delete_eq filter_id_conv)
  ultimately show ?thesis
    by (simp add: HandleForwardClose_def parse_forward_close_Encode [OF assms(1)] assms(2) find_last)
qed

definition connmgr_run :: "(USINT \<times> Path \<times> byte list) list \<Rightarrow> ConnectionManager \<Rightarrow> ConnectionManager" where
  "connmgr_run reqs cm = fold (\<lambda>(service, path, data) cm. snd (ConnMgr_HandleRequest service path data cm)) reqs cm"

lemma connmgr_run_ok:
  "\<lbrakk>table_ok n cm; n + length reqs < 2 ^ 31 - 1\<rbrakk> \<Longrightarrow> table_ok (n + length reqs) (connmgr_run reqs cm)"
proof (induction reqs arbitrary: n cm)
  case (Cons r reqs)
  obtain service path data where r: "r = (service, path, data)" by (cases r)
  have "table_ok (Suc n) (snd (ConnMgr_HandleRequest service path data cm))"
    using Cons.prems by (intro ConnMgr_ok) auto
  from Cons.IH [OF this] Cons.prems show ?case by (simp add: connmgr_run_def r)
qed (simp add: connmgr_run_def)

section \<open>Properties\<close>

text \<open>
  Assemblies hold what was last written to them.  Set_Attribute_Single of attribute 3 with
  data of the registered size replaces exactly that instance, so that Get_Attribute_Single returns
  it; data of another size is refused and changes nothing; and no request whatsoever creates,
  removes or resizes an instance.
\<close>

theorem assembly_set_get:
  assumes "instances ao (ucast (i :: UINT)) = Some old"
  shows "let p = AddAttribute 3 (AddInstance i NewPath) in
    (length data = length old \<longrightarrow>
       (case Assembly_HandleRequest ServiceSetAttributeSingle p data ao of (out, ao') \<Rightarrow>
          out = Inr [] \<and> fst (Assembly_HandleRequest ServiceGetAttributeSingle p [] ao') = Inr data \<and>
          (\<forall>k. k \<noteq> ucast i \<longrightarrow> instances ao' k = instances ao k))) \<and>
    (length data \<noteq> length old \<longrightarrow>
       Assembly_HandleRequest ServiceSetAttributeSingle p data ao =
         (Inl (CIPError StatusInvalidAttributeValue []), ao)) \<and>
    (\<forall>k. map_option length (instances (snd (Assembly_HandleRequest service path bytes ao)) k) =
         map_option length (instances ao k))"
  using assms Assembly_keeps_sizes [of service path bytes ao, OF prod.collapse [symmetric]]
  by (simp add: Let_def Assembly_HandleRequest_def target_path SetAttributeSingle_def GetAttributeSingle_def)

theorem assembly_set_get_witness:
  "let ao = RegisterAssembly 300 [1, 2] NewAssemblyObject; p = AddAttribute 3 (AddInstance 300 NewPath);
       ao' = snd (Assembly_HandleRequest 0x10 p [8, 9] ao)
   in fst (Assembly_HandleRequest 0x0E p [] ao') = Inr [8, 9] \<and>
      Assembly_HandleRequest 0x10 p [8, 9, 7] ao = (Inl (CIPError 0x09 []), ao)"
proof -
  have "instances (RegisterAssembly 300 [1, 2] NewAssemblyObject) (ucast (300 :: UINT)) = Some [1, 2]"
    by (simp add: RegisterAssembly_def NewAssemblyObject_def)
  from assembly_set_get [OF this, of "[8, 9]" 0 "[]" "[]"] assembly_set_get [OF this, of "[8, 9, 7]" 0 "[]" "[]"]
  show ?thesis by (simp add: Let_def case_prod_beta)
qed

text \<open>
  C13: the connection table.  After any sequence of fewer than 2147483647 requests, with arbitrary
  services and bytes, every connection is stored under the identifier it was given, and no two
  connections share an identifier or the triad of serial number, vendor and originator.
\<close>

theorem connmgr_table:
  assumes "length reqs < 2 ^ 31 - 1"
  shows "table_ok (length reqs) (connmgr_run reqs NewConnectionManager)"
  using connmgr_run_ok [OF table_ok_New, of reqs] assms by simp

theorem connmgr_table_witness:
  "table_ok 1 (connmgr_run [(0x54, [], [1, 2])] NewConnectionManager)"
  using connmgr_table [of "[(0x54, [], [1, 2])]"] by simp

text \<open>
  Opening and closing a connection.  A Forward_Open with an unused triad is granted a fresh
  identifier and echoes the originator's parameters; while it is open a second Forward_Open of the
  triad is refused and changes nothing; and the matching Forward_Close restores the table.
\<close>

theorem connmgr_open_close:
  assumes "table_ok n cm" "n < 2 ^ 31 - 2"
    "length (fo_Reserved req) = 3" "path_ok (fo_ConnectionPath req)" "path_ok (fc_ConnectionPath creq)"
    "request_triad req \<notin> (triad \<circ> snd) ` set (connections cm)" "close_triad creq = request_triad req"
  shows "case HandleForwardOpen (ForwardOpenRequest_Encode req) cm of (out, cm1) \<Rightarrow>
    out = Inr (open_reply req (nextConnID cm + 1)) \<and>
    nextConnID cm + 1 \<notin> fst ` set (connections cm) \<and>
    HandleForwardOpen (ForwardOpenRequest_Encode req) cm1 =
      (Inl (CIPError StatusConnectionFailure [ExtStatusConnectionInUse]), cm1) \<and>
    connections (snd (HandleForwardClose (ForwardCloseRequest_Encode creq) cm1)) = connections cm"
proof -
  have n: "n < 2 ^ 31 - 1" "Suc n < 2 ^ 31 - 1" using assms(2) by auto
  note p = parse_forward_open_Encode [OF assms(3,4)]
  define cm1 where "cm1 = snd (HandleForwardOpen (ForwardOpenRequest_Encode req) cm)"
  let ?i = "nextConnID cm + 1"
  have open1: "HandleForwardOpen (ForwardOpenRequest_Encode req) cm = (Inr (open_reply req ?i), cm1)"
    "connections cm1 = connections cm @ [(?i, new_connection req ?i)]"
    using ForwardOpen_cases [OF p assms(1) n(1)] assms(6) by (simp_all add: cm1_def Let_def)
  have "table_ok (Suc n) cm1" unfolding cm1_def by (rule ForwardOpen_ok) (fact assms(1) n(1))+
  from ForwardOpen_cases [OF p this n(2)] have
    "HandleForwardOpen (ForwardOpenRequest_Encode req) cm1 =
      (Inl (CIPError StatusConnectionFailure [ExtStatusConnectionInUse]), cm1)"
    by (simp add: open1(2))
  moreover have "connections (snd (HandleForwardClose (ForwardCloseRequest_Encode creq) cm1)) = connections cm"
    using ForwardClose_last [OF assms(5) open1(2)] assms(6,7) fresh_id(2) [OF assms(1) n(1)] by simp
  ultimately show ?thesis using open1(1) fresh_id(2) [OF assms(1) n(1)] by simp
qed

theorem connmgr_open_close_witness:
  "let req = \<lparr>fo_PriorityTimeTick = 10, fo_TimeoutTicks = 5, fo_OTConnectionID = 7, fo_TOConnectionID = 0,
              fo_ConnectionSerialNumber = 1, fo_VendorID = 2, fo_OriginatorSerialNumber = 3,
              fo_ConnectionTimeoutMultiplier = 1, fo_Reserved = [0, 0, 0], fo_OTRPI = 10000,
              fo_OTNetworkConnectionParams = 0x4008, fo_TORPI = 20000, fo_TONetworkConnectionParams = 0x4008,
              fo_TransportTypeTrigger = 1, fo_ConnectionPathSize = 0, fo_ConnectionPath = [0x20, 0x04]\<rparr>
   in fst (HandleForwardOpen (ForwardOpenRequest_Encode req) NewConnectionManager) =
        Inr (open_reply req 0x80000001)"
proof -
  let ?req = "\<lparr>fo_PriorityTimeTick = 10, fo_TimeoutTicks = 5, fo_OTConnectionID = 7, fo_TOConnectionID = 0,
              fo_ConnectionSerialNumber = 1, fo_VendorID = 2, fo_OriginatorSerialNumber = 3,
              fo_ConnectionTimeoutMultiplier = 1, fo_Reserved = [0, 0, 0], fo_OTRPI = 10000,
              fo_OTNetworkConnectionParams = 0x4008, fo_TORPI = 20000, fo_TONetworkConnectionParams = 0x4008,
              fo_TransportTypeTrigger = 1, fo_ConnectionPathSize = 0, fo_ConnectionPath = [0x20, 0x04]\<rparr>"
  let ?creq = "\<lparr>fc_PriorityTimeTick = 10, fc_TimeoutTicks = 5, fc_ConnectionSerialNumber = 1, fc_VendorID = 2,
              fc_OriginatorSerialNumber = 3, fc_ConnectionPathSize = 0, fc_Reserved = 0,
              fc_ConnectionPath = [0x20, 0x04]\<rparr>"
  have "length (fo_Reserved ?req) = 3" "path_ok (fo_ConnectionPath ?req)" "path_ok (fc_ConnectionPath ?creq)"
    "request_triad ?req \<notin> (triad \<circ> snd) ` set (connections NewConnectionManager)"
    "close_triad ?creq = request_triad ?req" "(0 :: nat) < 2 ^ 31 - 2"
    by (simp_all add: path_ok_def NewConnectionManager_def close_triad_def request_triad_def)
  from connmgr_open_close [OF table_ok_New this(6,1-5)] show ?thesis
    by (simp add: Let_def NewConnectionManager_def split: prod.splits)
qed

end
