(* ===== verification/Eip_Server.thy ===== *)
theory Eip_Server
  imports Eip_Packet Cip_Objects
begin

text \<open>
  \<^verbatim>\<open>src/protocol/ethernetip/server.go\<close>: the adapter.  One connection is a loop over the bytes that
  arrive; the state it shares with other connections is the session counter and the state of
  the CIP objects behind the router.  The life cycle (start, accept, registration of a connection
  by its own goroutine, its end, stop) is a step relation in which the goroutines interleave.
\<close>

section \<open>Answering one command\<close>

definition errShortData :: cerr where
  "errShortData = CIPError StatusPathSegmentError []"

definition errNoCPFItem :: cerr where
  "errNoCPFItem = CIPError StatusPathSegmentError []"

definition wrapUnconnectedResponse :: "byte list \<Rightarrow> byte list" where
  "wrapUnconnectedResponse mrRespBytes =
     replicate 6 0 @
     CPF_Encode (NewCommonPacketFormat
       [NewCPFItem ItemIDNullAddress [], NewCPFItem ItemIDUnconnectedMessage mrRespBytes])"

definition wrapConnectedResponse :: "byte list \<Rightarrow> u16 \<Rightarrow> byte list \<Rightarrow> byte list" where
  "wrapConnectedResponse addrData seqCount mrRespBytes =
     replicate 6 0 @
     CPF_Encode (NewCommonPacketFormat
       [NewCPFItem ItemIDConnectedAddress addrData,
        NewCPFItem ItemIDConnectedData (le16 seqCount @ mrRespBytes)])"

text \<open>Decode, dispatch and encode a router message, as both handlers do.\<close>

definition route :: "'s MessageRouter \<Rightarrow> byte list \<Rightarrow> 's \<Rightarrow> (cerr + byte list) \<times> 's" where
  "route router pdu s =
     (case DecodeMessageRouterRequest pdu of
        Inl err \<Rightarrow> (Inl err, s)
      | Inr mrReq \<Rightarrow>
          (case Dispatch router mrReq s of
             (Inl err, s) \<Rightarrow> (Inl err, s)
           | (Inr mrResp, s) \<Rightarrow> (Inr (MRResponse_Encode mrResp), s)))"

definition handleSendRRData :: "'s MessageRouter \<Rightarrow> byte list \<Rightarrow> 's \<Rightarrow> (cerr + byte list) \<times> 's" where
  "handleSendRRData router data s =
     (if length data < 6 then (Inl errShortData, s)
      else case DecodeCommonPacketFormat (drop 6 data) of
        Inl err \<Rightarrow> (Inl err, s)
      | Inr cpf \<Rightarrow>
          (case FindItemByType ItemIDUnconnectedMessage cpf of
             None \<Rightarrow> (Inl errNoCPFItem, s)
           | Some item \<Rightarrow>
               (case route router (ItemData item) s of
                  (Inl err, s) \<Rightarrow> (Inl err, s)
                | (Inr respBytes, s) \<Rightarrow> (Inr (wrapUnconnectedResponse respBytes), s))))"

definition handleSendUnitData :: "'s MessageRouter \<Rightarrow> byte list \<Rightarrow> 's \<Rightarrow> (cerr + byte list) \<times> 's" where
  "handleSendUnitData router data s =
     (if length data < 6 then (Inl errShortData, s)
      else case DecodeCommonPacketFormat (drop 6 data) of
        Inl err \<Rightarrow> (Inl err, s)
      | Inr cpf \<Rightarrow>
          (case (FindItemByType ItemIDConnectedAddress cpf, FindItemByType ItemIDConnectedData cpf) of
             (Some addrItem, Some dataItem) \<Rightarrow>
               if length (ItemData addrItem) < 4 \<or> length (ItemData dataItem) < 2 then (Inl errNoCPFItem, s)
               else (case route router (drop 2 (ItemData dataItem)) s of
                       (Inl err, s) \<Rightarrow> (Inl err, s)
                     | (Inr respBytes, s) \<Rightarrow>
                         (Inr (wrapConnectedResponse (ItemData addrItem) (le16_at (ItemData dataItem) 0) respBytes), s))
           | _ \<Rightarrow> (Inl errNoCPFItem, s)))"

definition handleListIdentity :: "ListIdentityItem \<Rightarrow> byte list" where
  "handleListIdentity identity = EncodeListIdentityResponse [identity]"

definition handleListServices :: "byte list" where
  "handleListServices =
     EncodeListServicesResponse
       [\<lparr>ls_TypeID = ItemIDListServices, ls_Length = 0, ls_Version = 1, ls_CapabilityFlags = 0x0020,
         ls_Name = bytes_of ''Communications''\<rparr>]"

text \<open>The identity of a server that is not configured otherwise.\<close>

definition default_identity :: ListIdentityItem where
  "default_identity =
     \<lparr>li_TypeID = ItemIDListIdentity, li_Length = 0, li_EncapsVersion = 1, li_SocketAddr = replicate 16 0,
      li_VendorID = 0, li_DeviceType = 0, li_ProductCode = 0, li_Revision = [0, 0], li_Status = 0,
      li_SerialNumber = 0, li_ProductName = bytes_of ''GoIndustrial EIP Server'', li_State = 0\<rparr>"

section \<open>The loop of a connection\<close>

text \<open>The state shared by all connections: the session counter and the objects.\<close>

record 's shared =
  nextSession :: u32
  objs :: 's

text \<open>
  The \<^verbatim>\<open>switch\<close> of \<^verbatim>\<open>HandleConn\<close>: the reply data, its status and session, and the connection's
  session handle; \<^const>\<open>None\<close> closes the connection.
\<close>

definition guarded :: "u32 \<Rightarrow> u32 \<Rightarrow> ('s \<Rightarrow> (cerr + byte list) \<times> 's) \<Rightarrow> 's shared \<Rightarrow>
    (byte list \<times> u32 \<times> u32 \<times> u32) option \<times> 's shared" where
  "guarded session sessionHandle handler sh =
     (if session \<noteq> sessionHandle \<or> sessionHandle = 0
      then (Some ([], EipStatusInvalidSessionHandle, session, sessionHandle), sh)
      else (case handler (objs sh) of
              (Inl err, s) \<Rightarrow> (Some ([], EipStatusInvalidCommand, session, sessionHandle), sh\<lparr>objs := s\<rparr>)
            | (Inr respData, s) \<Rightarrow> (Some (respData, EipStatusSuccess, session, sessionHandle), sh\<lparr>objs := s\<rparr>)))"

definition handle_command :: "'s MessageRouter \<Rightarrow> ListIdentityItem \<Rightarrow> Command \<Rightarrow> byte list \<Rightarrow> u32 \<Rightarrow> u32 \<Rightarrow>
    's shared \<Rightarrow> (byte list \<times> u32 \<times> u32 \<times> u32) option \<times> 's shared" where
  "handle_command router identity command data session sessionHandle sh =
     (if command = CommandRegisterSession then
        (let h = nextSession sh + 1 in
         (Some (le16 1 @ le16 0, EipStatusSuccess, h, h), sh\<lparr>nextSession := h\<rparr>))
      else if command = CommandUnregisterSession then (None, sh)
      else if command = CommandListIdentity then
        (Some (handleListIdentity identity, EipStatusSuccess, session, sessionHandle), sh)
      else if command = CommandListServices then
        (Some (handleListServices, EipStatusSuccess, session, sessionHandle), sh)
      else if command = CommandSendRRData then guarded session sessionHandle (handleSendRRData router data) sh
      else if command = CommandSendUnitData then guarded session sessionHandle (handleSendUnitData router data) sh
      else (Some ([], EipStatusInvalidCommand, session, sessionHandle), sh))"

definition respHeader :: "Command \<Rightarrow> nat \<Rightarrow> u32 \<Rightarrow> u32 \<Rightarrow> byte list \<Rightarrow> byte list" where
  "respHeader command len session status senderContext =
     le16 command @ le16 (word_of_nat len) @ le32 session @ le32 status @ senderContext @ le32 0"

abbreviation (input) maxPacketSize :: nat where "maxPacketSize \<equiv> 4096"

text \<open>
  \<^verbatim>\<open>HandleConn\<close> over the bytes that arrive.  The result is what it wrote, whether it closed the
  connection itself or ran out of input, the session handle and the shared state.
\<close>

function HandleConn :: "'s MessageRouter \<Rightarrow> ListIdentityItem \<Rightarrow> byte list \<Rightarrow> u32 \<Rightarrow> 's shared \<Rightarrow>
    byte list \<times> bool \<times> u32 \<times> 's shared" where
  "HandleConn router identity input sessionHandle sh =
     (case read_full HeaderSize input of
        Inl e \<Rightarrow> ([], False, sessionHandle, sh)
      | Inr (headerBuf, input) \<Rightarrow>
          (let command = le16_at headerBuf 0; dataLen = le16_at headerBuf 2; session = le32_at headerBuf 4;
               senderContext = take 8 (drop 12 headerBuf)
           in if unat dataLen > maxPacketSize then ([], True, sessionHandle, sh)
              else (case read_full (unat dataLen) input of
                      Inl e \<Rightarrow> ([], False, sessionHandle, sh)
                    | Inr (data, input) \<Rightarrow>
                        (case handle_command router identity command data session sessionHandle sh of
                           (None, sh) \<Rightarrow> ([], True, sessionHandle, sh)
                         | (Some (respData, status, session, sessionHandle), sh) \<Rightarrow>
                             (case HandleConn router identity input sessionHandle sh of (out, rest) \<Rightarrow>
                                (respHeader command (length respData) session status senderContext @ respData @ out,
                                 rest))))))"
  by pat_completeness auto
termination
  by (relation "measure (\<lambda>(router, identity, input, h, sh). length input)")
    (auto simp: read_full_def split: if_splits)

declare HandleConn.simps [simp del]

section \<open>The life cycle\<close>

record connState =
  remoteAddr :: string
  sessionHandle :: u32

record EipServer =
  es_started :: bool
  es_done :: bool
  es_listening :: bool
  es_clients :: "string \<rightharpoonup> connState"
  es_spawned :: "string set"
  es_maxClients :: int
  es_injected :: "string option"
  es_closed :: "string list"

text \<open>\<^verbatim>\<open>Start\<close>: an injected connection is handled directly; otherwise the accept loop runs.\<close>

definition EipServer_Start :: "bool \<Rightarrow> EipServer \<Rightarrow> bool \<times> EipServer" where
  "EipServer_Start listenOk s =
     (let s = s\<lparr>es_started := True, es_done := False\<rparr> in
      case es_injected s of
        Some conn \<Rightarrow> (True, s\<lparr>es_spawned := insert conn (es_spawned s)\<rparr>)
      | None \<Rightarrow>
          if es_listening s \<or> listenOk then (True, s\<lparr>es_listening := True\<rparr>) else (False, s))"

text \<open>One turn of \<^verbatim>\<open>acceptLoop\<close>: the limit is checked, then the handler is spawned.\<close>

definition EipServer_accept :: "string \<Rightarrow> EipServer \<Rightarrow> EipServer" where
  "EipServer_accept conn s =
     (if es_maxClients s > 0 \<and> int (card (dom (es_clients s))) \<ge> es_maxClients s
      then s\<lparr>es_closed := es_closed s @ [conn]\<rparr>
      else s\<lparr>es_spawned := insert conn (es_spawned s)\<rparr>)"

text \<open>The beginning of \<^verbatim>\<open>HandleConn\<close> in its own goroutine, and its deferred end.\<close>

definition HandleConn_begin :: "string \<Rightarrow> EipServer \<Rightarrow> EipServer" where
  "HandleConn_begin conn s =
     s\<lparr>es_spawned := es_spawned s - {conn},
       es_clients := (es_clients s)(conn \<mapsto> \<lparr>remoteAddr = conn, sessionHandle = 0\<rparr>)\<rparr>"

definition HandleConn_end :: "string \<Rightarrow> EipServer \<Rightarrow> EipServer" where
  "HandleConn_end conn s =
     s\<lparr>es_clients := (es_clients s)(conn := None), es_closed := es_closed s @ [conn]\<rparr>"

text \<open>\<^verbatim>\<open>Stop\<close> closes the listener, the tracked connections in some order and the injected one.\<close>

definition EipServer_Stop :: "string list \<Rightarrow> EipServer \<Rightarrow> EipServer" where
  "EipServer_Stop order s =
     (if es_done s then s
      else s\<lparr>es_done := True, es_listening := False,
             es_closed := es_closed s @ order @ (case es_injected s of None \<Rightarrow> [] | Some c \<Rightarrow> [c])\<rparr>)"

definition ConnectedClients :: "EipServer \<Rightarrow> connState set" where
  "ConnectedClients s = ran (es_clients s)"

inductive eip_step :: "EipServer \<Rightarrow> EipServer \<Rightarrow> bool" where
  eip_start: "\<not> es_started s \<Longrightarrow> eip_step s (snd (EipServer_Start ok s))"
| eip_accept: "\<lbrakk>es_listening s; \<not> es_done s; conn \<notin> dom (es_clients s) \<union> es_spawned s\<rbrakk> \<Longrightarrow>
    eip_step s (EipServer_accept conn s)"
| eip_begin: "conn \<in> es_spawned s \<Longrightarrow> eip_step s (HandleConn_begin conn s)"
| eip_end: "conn \<in> dom (es_clients s) \<Longrightarrow> eip_step s (HandleConn_end conn s)"
| eip_stop: "\<lbrakk>es_started s; set order = dom (es_clients s)\<rbrakk> \<Longrightarrow> eip_step s (EipServer_Stop order s)"

end
