(* ===== verification/Eip_Io.thy ===== *)
theory Eip_Io
  imports Eip_Server
begin

text \<open>
  Implicit (cyclic) I/O: the scanner of \<^verbatim>\<open>src/protocol/ethernetip/io.go\<close> and the adapter's runtime and
  scheduler of \<^verbatim>\<open>src/protocol/ethernetip/runtime\<close>.  Times and durations are nanoseconds; a product of
  durations wraps at 64 bits.  The scanner's connections are objects in a heap, the table maps the
  identifiers of the target to them.  Datagrams are sequences of bytes; a receive buffer cuts
  them at 2048.
\<close>

unbundle bit_operations_syntax

definition wrap64 :: "int \<Rightarrow> int" where
  "wrap64 x = sint (word_of_int x :: u64)"

text \<open>The watchdog of both sides: \<^verbatim>\<open>RPI * (4 << mult)\<close>.\<close>

definition timeout_of :: "int \<Rightarrow> byte \<Rightarrow> int" where
  "timeout_of RPI mult = wrap64 (RPI * sint (push_bit (unat mult) 4 :: u64))"

abbreviation (input) udp_buffer :: nat where "udp_buffer \<equiv> 2048"

section \<open>The scanner\<close>

record IOConnectionConfig =
  cfg_OTConnectionPoint :: u16
  cfg_TOConnectionPoint :: u16
  cfg_ConfigInstance :: u16
  cfg_OTSize :: u16
  cfg_TOSize :: u16
  cfg_RPI :: int
  cfg_TimeoutMultiplier :: byte
  cfg_RunIdleHeader :: bool
  cfg_TargetAddr :: "string option"
  cfg_ConnectionPath :: "byte list option"

record IOConn =
  ioc_OTConnectionID :: u32
  ioc_TOConnectionID :: u32
  ioc_ConnectionSerialNumber :: u16
  ioc_VendorID :: u16
  ioc_OriginatorSerialNumber :: u32
  ioc_outputData :: "byte list"
  ioc_inputData :: "byte list"
  ioc_RPI :: int
  ioc_sequenceCount :: u16
  ioc_lastReceive :: int
  ioc_timeoutMult :: byte
  ioc_runIdleHeader :: bool
  ioc_remoteAddr :: string
  ioc_stopped :: bool

record IOScanner =
  ios_vendorID :: u16
  ios_originatorSN :: u32
  ios_connections :: "u32 \<rightharpoonup> nat"
  ios_heap :: "IOConn list"
  ios_nextOTID :: u32
  ios_nextSerial :: u32
  ios_done :: bool

definition NewIOScanner :: IOScanner where
  "NewIOScanner =
     \<lparr>ios_vendorID = 1, ios_originatorSN = 1, ios_connections = Map.empty, ios_heap = [],
      ios_nextOTID = 0, ios_nextSerial = 0, ios_done = False\<rparr>"

abbreviation (input) ConnParamPointToPoint :: u16 where "ConnParamPointToPoint \<equiv> 0x4000"
abbreviation (input) ConnParamFixedSize :: u16 where "ConnParamFixedSize \<equiv> 0x0000"

definition connection_path :: "IOConnectionConfig \<Rightarrow> byte list" where
  "connection_path cfg =
     (case cfg_ConnectionPath cfg of
        Some p \<Rightarrow> p
      | None \<Rightarrow>
          AddConnectionPoint (cfg_TOConnectionPoint cfg)
            (AddConnectionPoint (cfg_OTConnectionPoint cfg)
              (AddInstance (if cfg_ConfigInstance cfg > 0 then cfg_ConfigInstance cfg else 1)
                (AddClass ClassAssembly NewPath))))"

text \<open>Go's division of integers truncates.\<close>

definition micros :: "int \<Rightarrow> u32" where
  "micros d = word_of_int (if d < 0 then - ((- d) div 1000) else d div 1000)"

definition open_request :: "IOScanner \<Rightarrow> IOConnectionConfig \<Rightarrow> u32 \<Rightarrow> u16 \<Rightarrow> ForwardOpenRequest" where
  "open_request s cfg otConnID serial =
     \<lparr>fo_PriorityTimeTick = 0x0A, fo_TimeoutTicks = 0xF0, fo_OTConnectionID = otConnID, fo_TOConnectionID = 0,
      fo_ConnectionSerialNumber = serial, fo_VendorID = ios_vendorID s,
      fo_OriginatorSerialNumber = ios_originatorSN s,
      fo_ConnectionTimeoutMultiplier = cfg_TimeoutMultiplier cfg, fo_Reserved = [0, 0, 0],
      fo_OTRPI = micros (cfg_RPI cfg),
      fo_OTNetworkConnectionParams = ConnParamPointToPoint OR ConnParamFixedSize OR cfg_OTSize cfg,
      fo_TORPI = micros (cfg_RPI cfg),
      fo_TONetworkConnectionParams = ConnParamPointToPoint OR ConnParamFixedSize OR cfg_TOSize cfg,
      fo_TransportTypeTrigger = 0x01, fo_ConnectionPathSize = 0, fo_ConnectionPath = connection_path cfg\<rparr>"

definition connmgr_path :: Path where
  "connmgr_path = AddInstance 1 (AddClass ClassConnectionMgr NewPath)"

text \<open>
  \<^verbatim>\<open>Open\<close>: the session's \<^verbatim>\<open>SendCIPRequest\<close>, the address the peer's host resolves to and the time
  are arguments.  The result is the handle of the new connection.
\<close>

definition Open :: "(MessageRouterRequest \<Rightarrow> 'w \<Rightarrow> (cerr + MessageRouterResponse) \<times> 'w) \<Rightarrow> string option \<Rightarrow> int \<Rightarrow>
    IOConnectionConfig \<Rightarrow> IOScanner \<Rightarrow> 'w \<Rightarrow> (cerr + nat) \<times> IOScanner \<times> 'w" where
  "Open send peer now cfg s w =
     (let otConnID = ios_nextOTID s + 1; serial32 = ios_nextSerial s + 1; serial = ucast serial32;
          s = s\<lparr>ios_nextOTID := otConnID, ios_nextSerial := serial32\<rparr>;
          mrReq = \<lparr>Service = ServiceForwardOpen, RequestPath = connmgr_path,
                   RequestData = ForwardOpenRequest_Encode (open_request s cfg otConnID serial)\<rparr>
      in case send mrReq w of
           (Inl err, w) \<Rightarrow> (Inl err, s, w)
         | (Inr resp, w) \<Rightarrow>
             if \<not> IsSuccess resp then (Inl (CIPErrorf ''Forward_Open failed''), s, w)
             else if length (ResponseData resp) < 26 then (Inl (CIPErrorf ''Forward_Open response too short''), s, w)
             else
               (let toConnID = le32_at (ResponseData resp) 4;
                    api = int (unat (le32_at (ResponseData resp) 16)) * 1000;
                    otAPI = (if api = 0 then cfg_RPI cfg else api);
                    targetAddr = (case cfg_TargetAddr cfg of Some a \<Rightarrow> Some a | None \<Rightarrow> peer)
                in case targetAddr of
                     None \<Rightarrow> (Inl (CIPErrorf ''cannot resolve target UDP address''), s, w)
                   | Some addr \<Rightarrow>
                       (let conn = \<lparr>ioc_OTConnectionID = otConnID, ioc_TOConnectionID = toConnID,
                              ioc_ConnectionSerialNumber = serial, ioc_VendorID = ios_vendorID s,
                              ioc_OriginatorSerialNumber = ios_originatorSN s,
                              ioc_outputData = replicate (unat (cfg_OTSize cfg)) 0,
                              ioc_inputData = replicate (unat (cfg_TOSize cfg)) 0, ioc_RPI = otAPI,
                              ioc_sequenceCount = 0, ioc_lastReceive = now,
                              ioc_timeoutMult = cfg_TimeoutMultiplier cfg,
                              ioc_runIdleHeader = cfg_RunIdleHeader cfg, ioc_remoteAddr = addr,
                              ioc_stopped = False\<rparr>;
                            h = length (ios_heap s)
                        in (Inr h, s\<lparr>ios_heap := ios_heap s @ [conn],
                               ios_connections := (ios_connections s)(toConnID \<mapsto> h)\<rparr>, w))))"

definition close_request :: "IOConn \<Rightarrow> ForwardCloseRequest" where
  "close_request conn =
     \<lparr>fc_PriorityTimeTick = 0x0A, fc_TimeoutTicks = 0xF0,
      fc_ConnectionSerialNumber = ioc_ConnectionSerialNumber conn, fc_VendorID = ioc_VendorID conn,
      fc_OriginatorSerialNumber = ioc_OriginatorSerialNumber conn, fc_ConnectionPathSize = 0, fc_Reserved = 0,
      fc_ConnectionPath = AddInstance 1 (AddClass ClassAssembly NewPath)\<rparr>"

definition IOScanner_Close :: "(MessageRouterRequest \<Rightarrow> 'w \<Rightarrow> (cerr + MessageRouterResponse) \<times> 'w) \<Rightarrow> nat \<Rightarrow>
    IOScanner \<Rightarrow> 'w \<Rightarrow> cerr option \<times> IOScanner \<times> 'w" where
  "IOScanner_Close send h s w =
     (let conn = ios_heap s ! h;
          s = s\<lparr>ios_heap := (ios_heap s)[h := conn\<lparr>ioc_stopped := True\<rparr>],
                ios_connections := (ios_connections s)(ioc_TOConnectionID conn := None)\<rparr>;
          mrReq = \<lparr>Service = ServiceForwardClose, RequestPath = connmgr_path,
                   RequestData = ForwardCloseRequest_Encode (close_request conn)\<rparr>
      in case send mrReq w of
           (Inl err, w) \<Rightarrow> (Some err, s, w)
         | (Inr resp, w) \<Rightarrow>
             if \<not> IsSuccess resp then (Some (CIPErrorf ''Forward_Close failed''), s, w) else (None, s, w))"

text \<open>\<^verbatim>\<open>Shutdown\<close> closes the connections of the table, in the order Go's map gives them.\<close>

fun close_all :: "(MessageRouterRequest \<Rightarrow> 'w \<Rightarrow> (cerr + MessageRouterResponse) \<times> 'w) \<Rightarrow> nat list \<Rightarrow>
    cerr option \<Rightarrow> IOScanner \<Rightarrow> 'w \<Rightarrow> cerr option \<times> IOScanner \<times> 'w" where
  "close_all send [] firstErr s w = (firstErr, s, w)"
| "close_all send (h # hs) firstErr s w =
     (case IOScanner_Close send h s w of (err, s, w) \<Rightarrow>
        close_all send hs (if firstErr = None then err else firstErr) s w)"

definition Shutdown :: "(MessageRouterRequest \<Rightarrow> 'w \<Rightarrow> (cerr + MessageRouterResponse) \<times> 'w) \<Rightarrow> nat list \<Rightarrow>
    IOScanner \<Rightarrow> 'w \<Rightarrow> cerr option \<times> IOScanner \<times> 'w" where
  "Shutdown send order s w =
     (case close_all send order None s w of (firstErr, s, w) \<Rightarrow> (firstErr, s\<lparr>ios_done := True\<rparr>, w))"

definition SetOutput :: "byte list \<Rightarrow> IOConn \<Rightarrow> cerr option \<times> IOConn" where
  "SetOutput data c =
     (if length data \<noteq> length (ioc_outputData c) then (Some (CIPErrorf ''output size mismatch''), c)
      else (None, c\<lparr>ioc_outputData := data\<rparr>))"

definition Output :: "IOConn \<Rightarrow> byte list" where "Output c = ioc_outputData c"

definition Input :: "IOConn \<Rightarrow> byte list" where "Input c = ioc_inputData c"

definition InputAge :: "int \<Rightarrow> IOConn \<Rightarrow> int" where
  "InputAge now c = now - ioc_lastReceive c"

definition IsTimedOut :: "int \<Rightarrow> IOConn \<Rightarrow> bool" where
  "IsTimedOut now c \<longleftrightarrow> InputAge now c > timeout_of (ioc_RPI c) (ioc_timeoutMult c)"

text \<open>The packet of one cycle.\<close>

definition sendPacket :: "IOConn \<Rightarrow> byte list \<times> IOConn" where
  "sendPacket c =
     (let snapshot = ioc_outputData c; c = c\<lparr>ioc_sequenceCount := ioc_sequenceCount c + 1\<rparr>;
          dataLen = 2 + length snapshot + (if ioc_runIdleHeader c then 4 else 0)
      in (le16 2 @ le16 ItemIDConnectedAddress @ le16 4 @ le32 (ioc_OTConnectionID c) @
          le16 ItemIDConnectedData @ le16 (word_of_nat dataLen) @ le16 (ioc_sequenceCount c) @
          (if ioc_runIdleHeader c then le32 1 else []) @ snapshot, c))"

definition accept_input :: "int \<Rightarrow> byte list \<Rightarrow> IOConn \<Rightarrow> IOConn" where
  "accept_input now assemblyData c =
     (if length assemblyData = length (ioc_inputData c) then c\<lparr>ioc_inputData := assemblyData\<rparr> else c)
       \<lparr>ioc_lastReceive := now\<rparr>"

definition handleIncomingPacket :: "int \<Rightarrow> byte list \<Rightarrow> IOScanner \<Rightarrow> IOScanner" where
  "handleIncomingPacket now data s =
     (if length data < 16 then s
      else if le16_at data 0 \<noteq> 2 then s
      else
        (let connID = le32_at data 6; dataLen = unat (le16_at data 12) in
         if length data < 14 + dataLen then s
         else
           (let payload = take dataLen (drop 14 data) in
            case ios_connections s connID of
              None \<Rightarrow> s
            | Some h \<Rightarrow>
                (let offset = (if ioc_runIdleHeader (ios_heap s ! h) then 6 else 2) in
                 if offset > length payload then s
                 else s\<lparr>ios_heap := (ios_heap s)[h := accept_input now (drop offset payload) (ios_heap s ! h)]\<rparr>))))"

text \<open>One datagram of the receive loop.\<close>

definition receive :: "int \<Rightarrow> byte list \<Rightarrow> IOScanner \<Rightarrow> IOScanner" where
  "receive now datagram s = handleIncomingPacket now (take udp_buffer datagram) s"

section \<open>The adapter's runtime\<close>

text \<open>\<^verbatim>\<open>StopChan\<close>: absent, or whether it has been closed.\<close>

record IOConnection =
  ior_ConnectionID :: u32
  ior_RPI :: int
  ior_SequenceCount :: u16
  ior_RunIdleHeader :: bool
  ior_RemoteAddr :: "string option"
  ior_Assembly :: "u32 option"
  ior_LastReceive :: int
  ior_LastSend :: int
  ior_TimeoutMult :: byte
  ior_IsProducer :: bool
  ior_IsConsumer :: bool
  ior_StopChan :: "bool option"

record Runtime =
  ir_connections :: "u32 \<rightharpoonup> IOConnection"
  ir_assembly :: AssemblyObject

definition NewRuntime :: "AssemblyObject \<Rightarrow> Runtime" where
  "NewRuntime ao = \<lparr>ir_connections = Map.empty, ir_assembly = ao\<rparr>"

definition AddConnection :: "int \<Rightarrow> IOConnection \<Rightarrow> Runtime \<Rightarrow> Runtime" where
  "AddConnection now conn r =
     r\<lparr>ir_connections := (ir_connections r)(ior_ConnectionID conn \<mapsto> conn\<lparr>ior_LastReceive := now\<rparr>)\<rparr>"

text \<open>Closing the stop channel of a connection; the result is the connection as its owner sees it.\<close>

definition stop_conn :: "IOConnection \<Rightarrow> IOConnection" where
  "stop_conn conn = conn\<lparr>ior_StopChan := map_option (\<lambda>_. True) (ior_StopChan conn)\<rparr>"

definition RemoveConnection :: "u32 \<Rightarrow> Runtime \<Rightarrow> IOConnection option \<times> Runtime" where
  "RemoveConnection connID r =
     (map_option stop_conn (ir_connections r connID), r\<lparr>ir_connections := (ir_connections r)(connID := None)\<rparr>)"

definition SetProducerAddr :: "u32 \<Rightarrow> string option \<Rightarrow> Runtime \<Rightarrow> Runtime" where
  "SetProducerAddr connID addr r =
     (case ir_connections r connID of
        None \<Rightarrow> r
      | Some conn \<Rightarrow> r\<lparr>ir_connections := (ir_connections r)(connID \<mapsto> conn\<lparr>ior_RemoteAddr := addr\<rparr>)\<rparr>)"

definition timed_out :: "int \<Rightarrow> IOConnection \<Rightarrow> bool" where
  "timed_out now conn \<longleftrightarrow> ior_IsConsumer conn \<and>
     now - ior_LastReceive conn > timeout_of (ior_RPI conn) (ior_TimeoutMult conn)"

text \<open>\<^verbatim>\<open>Runtime_checkTimeouts\<close>: each connection is judged by itself; also the connections it stopped.\<close>

definition Runtime_checkTimeouts :: "int \<Rightarrow> Runtime \<Rightarrow> (u32 \<rightharpoonup> IOConnection) \<times> Runtime" where
  "Runtime_checkTimeouts now r =
     (\<lambda>i. case ir_connections r i of
        Some conn \<Rightarrow> if timed_out now conn then Some (stop_conn conn) else None | None \<Rightarrow> None,
      r\<lparr>ir_connections := (\<lambda>i. case ir_connections r i of
        Some conn \<Rightarrow> if timed_out now conn then None else Some conn | None \<Rightarrow> None)\<rparr>)"

definition handlePacket :: "int \<Rightarrow> byte list \<Rightarrow> Runtime \<Rightarrow> Runtime" where
  "handlePacket now data r =
     (if length data < 14 then r
      else if le16_at data 0 \<noteq> 2 then r
      else if le16_at data 4 \<noteq> 4 then r
      else
        (let connID = le32_at data 6; len2 = unat (le16_at data 12) in
         if length data < 14 + len2 then r
         else
           (let payload = take len2 (drop 14 data) in
            case ir_connections r connID of
              None \<Rightarrow> r
            | Some conn \<Rightarrow>
                (let r = r\<lparr>ir_connections := (ir_connections r)(connID \<mapsto> conn\<lparr>ior_LastReceive := now\<rparr>)\<rparr>;
                     dataOffset = (if ior_RunIdleHeader conn then 6 else 2)
                 in if length payload < dataOffset then r
                    else (case ior_Assembly conn of
                            None \<Rightarrow> r
                          | Some asm \<Rightarrow>
                              r\<lparr>ir_assembly := snd (SetAttributeSingle asm 3 (drop dataOffset payload) (ir_assembly r))\<rparr>)))))"

definition listen :: "int \<Rightarrow> byte list \<Rightarrow> Runtime \<Rightarrow> Runtime" where
  "listen now datagram r = handlePacket now (take udp_buffer datagram) r"

section \<open>The adapter's scheduler\<close>

record connSnapshot =
  snap_ConnectionID :: u32
  snap_SequenceCount :: u16
  snap_RunIdleHeader :: bool
  snap_RemoteAddr :: "string option"
  snap_AssemblyData :: "byte list"

text \<open>The collecting pass of \<^verbatim>\<open>processTick\<close> over the connections in the order Go's map gives them.\<close>

fun collect :: "int \<Rightarrow> u32 list \<Rightarrow> Runtime \<Rightarrow> connSnapshot list \<times> Runtime" where
  "collect now [] r = ([], r)"
| "collect now (i # ids) r =
     (case ir_connections r i of
        None \<Rightarrow> collect now ids r
      | Some conn \<Rightarrow>
          if \<not> ior_IsProducer conn \<or> now - ior_LastSend conn < ior_RPI conn \<or> ior_Assembly conn = None
          then collect now ids r
          else
            (let conn = conn\<lparr>ior_SequenceCount := ior_SequenceCount conn + 1, ior_LastSend := now\<rparr>;
                 r = r\<lparr>ir_connections := (ir_connections r)(i \<mapsto> conn)\<rparr>
             in case GetAttributeSingle (the (ior_Assembly conn)) 3 (ir_assembly r) of
                  Inl err \<Rightarrow> collect now ids r
                | Inr dataCopy \<Rightarrow>
                    (case collect now ids r of (snaps, r) \<Rightarrow>
                      (\<lparr>snap_ConnectionID = ior_ConnectionID conn, snap_SequenceCount = ior_SequenceCount conn,
                        snap_RunIdleHeader = ior_RunIdleHeader conn, snap_RemoteAddr = ior_RemoteAddr conn,
                        snap_AssemblyData = dataCopy\<rparr> # snaps, r))))"

text \<open>
  A packet is built in a buffer of 2048 bytes and then cut out of it; \<^const>\<open>None\<close> is the panic of
  cutting beyond the buffer.  The inner \<^const>\<open>None\<close> is a connection with no address.
\<close>

definition sendPacketFromSnapshot :: "connSnapshot \<Rightarrow> (string \<times> byte list) option option" where
  "sendPacketFromSnapshot snap =
     (case snap_RemoteAddr snap of
        None \<Rightarrow> Some None
      | Some addr \<Rightarrow>
          (let dataLen = 2 + (if snap_RunIdleHeader snap then 4 else 0) + length (snap_AssemblyData snap);
               pkt = le16 2 @ le16 0x00A1 @ le16 4 @ le32 (snap_ConnectionID snap) @ le16 0x00B1 @
                     le16 (word_of_nat dataLen) @ le16 (snap_SequenceCount snap) @
                     (if snap_RunIdleHeader snap then le32 1 else []) @ snap_AssemblyData snap
           in if length pkt > udp_buffer then None else Some (Some (addr, pkt))))"

text \<open>The packets of one tick; a panic ends the scheduler.\<close>

fun send_all :: "connSnapshot list \<Rightarrow> (string \<times> byte list) list option" where
  "send_all [] = Some []"
| "send_all (snap # snaps) =
     (case sendPacketFromSnapshot snap of
        None \<Rightarrow> None
      | Some p \<Rightarrow> map_option (\<lambda>ps. (case p of None \<Rightarrow> ps | Some x \<Rightarrow> x # ps)) (send_all snaps))"

definition processTick :: "int \<Rightarrow> u32 list \<Rightarrow> Runtime \<Rightarrow> (string \<times> byte list) list option \<times> Runtime" where
  "processTick now order r = (case collect now order r of (snaps, r) \<Rightarrow> (send_all snaps, r))"

section \<open>I/O packets\<close>

text \<open>The packet both producers build.\<close>

definition io_packet :: "u32 \<Rightarrow> u16 \<Rightarrow> bool \<Rightarrow> byte list \<Rightarrow> byte list" where
  "io_packet connID sequence header data =
     le16 2 @ le16 0x00A1 @ le16 4 @ le32 connID @ le16 0x00B1 @
     le16 (word_of_nat (2 + (if header then 4 else 0) + length data)) @ le16 sequence @
     (if header then le32 1 else []) @ data"

definition packet_fits :: "bool \<Rightarrow> byte list \<Rightarrow> bool" where
  "packet_fits header data \<longleftrightarrow> 16 + (if header then 4 else 0) + length data \<le> udp_buffer"

lemma sendPacket_packet:
  "sendPacket c =
     (io_packet (ioc_OTConnectionID c) (ioc_sequenceCount c + 1) (ioc_runIdleHeader c) (Output c),
      c\<lparr>ioc_sequenceCount := ioc_sequenceCount c + 1\<rparr>)"
  by (cases "ioc_runIdleHeader c") (simp_all add: sendPacket_def io_packet_def Output_def Let_def)

lemma snapshot_packet:
  "sendPacketFromSnapshot snap =
     (case snap_RemoteAddr snap of
        None \<Rightarrow> Some None
      | Some addr \<Rightarrow>
          if packet_fits (snap_RunIdleHeader snap) (snap_AssemblyData snap)
          then Some (Some (addr, io_packet (snap_ConnectionID snap) (snap_SequenceCount snap)
                 (snap_RunIdleHeader snap) (snap_AssemblyData snap)))
          else None)"
  by (cases "snap_RemoteAddr snap"; cases "snap_RunIdleHeader snap")
    (simp_all add: sendPacketFromSnapshot_def io_packet_def packet_fits_def Let_def)

lemma io_packet_fields:
  fixes connID :: u32 and sequence :: u16
  assumes "packet_fits header data"
  defines "pkt \<equiv> io_packet connID sequence header data"
  defines "n \<equiv> 2 + (if header then 4 else 0) + length data"
  shows "le16_at pkt 0 = 2" "le16_at pkt 4 = 4" "le32_at pkt 6 = connID" "unat (le16_at pkt 12) = n"
    "length pkt = 14 + n" "16 \<le> length pkt" "take udp_buffer pkt = pkt"
    "drop (if header then 6 else 2) (take n (drop 14 pkt)) = data"
proof -
  have n: "unat (word_of_nat n :: u16) = n"
    using assms(1) by (intro unat_word_of_nat) (auto simp: packet_fits_def n_def split: if_splits)
  let ?rest = "le16 sequence @ (if header then le32 1 else []) @ data"
  show "le16_at pkt 0 = 2" using le16_at_append [of "[]" 0 2] by (simp add: pkt_def io_packet_def)
  show "le16_at pkt 4 = 4"
    using le16_at_append [of "le16 2 @ le16 0x00A1" 4 4] by (simp add: pkt_def io_packet_def)
  show "le32_at pkt 6 = connID"
    using le32_at_append [of "le16 2 @ le16 0x00A1 @ le16 4" 6 connID] by (simp add: pkt_def io_packet_def)
  have "le16_at pkt 12 = word_of_nat n"
    using le16_at_append [of "le16 2 @ le16 0x00A1 @ le16 4 @ le32 connID @ le16 0x00B1" 12 "word_of_nat n" ?rest]
    unfolding pkt_def io_packet_def n_def by (simp only: append_assoc) simp
  with n show "unat (le16_at pkt 12) = n" by simp
  show len: "length pkt = 14 + n" by (simp add: pkt_def io_packet_def n_def)
  show "16 \<le> length pkt" unfolding len n_def by simp
  show "take udp_buffer pkt = pkt" using assms(1) len by (simp add: packet_fits_def n_def)
  have "drop 14 pkt = ?rest" by (simp add: pkt_def io_packet_def)
  then show "drop (if header then 6 else 2) (take n (drop 14 pkt)) = data" by (simp add: n_def)
qed

section \<open>Consumers\<close>

text \<open>
  What a producer may expect of the other side: a packet for a known connection with data of
  the right size replaces the connection's data and leaves everything it is known by, and a
  packet for an unknown connection does nothing.
\<close>

locale io_consumer =
  fixes consume :: "int \<Rightarrow> byte list \<Rightarrow> 's \<Rightarrow> 's"
    and header :: "u32 \<Rightarrow> 's \<Rightarrow> bool option"
    and data :: "u32 \<Rightarrow> 's \<Rightarrow> byte list option"
    and ok :: "'s \<Rightarrow> bool"
  assumes consume_data: "\<lbrakk>ok s; header i s = Some h; data i s = Some old; length d = length old; packet_fits h d\<rbrakk> \<Longrightarrow>
      data i (consume now (io_packet i sequence h d) s) = Some d"
    and consume_header: "ok s \<Longrightarrow> header j (consume now bytes s) = header j s"
    and consume_unknown: "\<lbrakk>ok s; header i s = None; packet_fits h d\<rbrakk> \<Longrightarrow> consume now (io_packet i sequence h d) s = s"
    and consume_ok: "ok s \<Longrightarrow> ok (consume now bytes s)"
begin

text \<open>A stream of packets: the data is that of the last.\<close>

lemma consume_stream:
  assumes "ok s" "header i s = Some h" "data i s = Some old"
    "\<forall>(now, sequence, d) \<in> set ps. length d = length old \<and> packet_fits h d"
  shows "data i (fold (\<lambda>(now, sequence, d). consume now (io_packet i sequence h d)) ps s) =
    Some (last (old # map (\<lambda>(now, sequence, d). d) ps))"
  using assms
proof (induction ps arbitrary: s old)
  case (Cons p ps)
  obtain now sequence d where p: "p = (now, sequence, d)" by (cases p)
  let ?s = "consume now (io_packet i sequence h d) s"
  have "data i ?s = Some d" using Cons.prems p by (intro consume_data) auto
  with Cons.IH [of ?s d] Cons.prems p consume_ok consume_header show ?case by (auto simp: last_ConsR)
qed simp

end

definition scanner_header :: "u32 \<Rightarrow> IOScanner \<Rightarrow> bool option" where
  "scanner_header i s = map_option (\<lambda>h. ioc_runIdleHeader (ios_heap s ! h)) (ios_connections s i)"

definition scanner_data :: "u32 \<Rightarrow> IOScanner \<Rightarrow> byte list option" where
  "scanner_data i s = map_option (\<lambda>h. Input (ios_heap s ! h)) (ios_connections s i)"

text \<open>The table refers to live connections, each under the identifier it has.\<close>

definition scanner_ok :: "IOScanner \<Rightarrow> bool" where
  "scanner_ok s \<longleftrightarrow> (\<forall>i h. ios_connections s i = Some h \<longrightarrow>
     h < length (ios_heap s) \<and> ioc_TOConnectionID (ios_heap s ! h) = i \<and> \<not> ioc_stopped (ios_heap s ! h))"

lemma receive_cases:
  "receive now bytes s = s \<or>
   (\<exists>i h d. ios_connections s i = Some h \<and>
      receive now bytes s = s\<lparr>ios_heap := (ios_heap s)[h := accept_input now d (ios_heap s ! h)]\<rparr>)"
  by (auto simp: receive_def handleIncomingPacket_def Let_def split: option.split)

lemma accept_input_keeps [simp]:
  "ioc_runIdleHeader (accept_input now d c) = ioc_runIdleHeader c"
  "ioc_TOConnectionID (accept_input now d c) = ioc_TOConnectionID c"
  "ioc_stopped (accept_input now d c) = ioc_stopped c"
  "length (ioc_inputData (accept_input now d c)) = length (ioc_inputData c)"
  by (simp_all add: accept_input_def)

lemma nth_update_keeps:
  "\<lbrakk>f (g (xs ! h)) = f (xs ! h)\<rbrakk> \<Longrightarrow> f (xs[h := g (xs ! h)] ! k) = f (xs ! k)"
  by (cases "h = k"; cases "h < length xs") (auto simp: list_update_beyond)

lemma scanner_receive_keeps:
  "scanner_header j (receive now bytes s) = scanner_header j s"
  "scanner_ok s \<Longrightarrow> scanner_ok (receive now bytes s)"
proof -
  have hd: "ios_connections (receive now bytes s) = ios_connections s"
    "length (ios_heap (receive now bytes s)) = length (ios_heap s)"
    "ioc_runIdleHeader (ios_heap (receive now bytes s) ! k) = ioc_runIdleHeader (ios_heap s ! k)"
    "ioc_TOConnectionID (ios_heap (receive now bytes s) ! k) = ioc_TOConnectionID (ios_heap s ! k)"
    "ioc_stopped (ios_heap (receive now bytes s) ! k) = ioc_stopped (ios_heap s ! k)" for k
    using receive_cases [of now bytes s] by (auto simp: nth_update_keeps)
  show "scanner_header j (receive now bytes s) = scanner_header j s" by (simp add: scanner_header_def hd)
  show "scanner_ok s \<Longrightarrow> scanner_ok (receive now bytes s)" by (simp add: scanner_ok_def hd)
qed

interpretation scanner_side: io_consumer receive scanner_header scanner_data scanner_ok
proof
  fix s i h old d now sequence
  assume s: "scanner_ok s" and hd: "scanner_header i s = Some h" and "scanner_data i s = Some old"
    and "length d = length old" and fits: "packet_fits h d"
  then obtain k where k: "ios_connections s i = Some k" "ioc_runIdleHeader (ios_heap s ! k) = h"
    "length d = length (ioc_inputData (ios_heap s ! k))"
    by (auto simp: scanner_header_def scanner_data_def Input_def)
  then have "k < length (ios_heap s)" using s by (auto simp: scanner_ok_def)
  moreover have "receive now (io_packet i sequence h d) s =
      s\<lparr>ios_heap := (ios_heap s)[k := accept_input now d (ios_heap s ! k)]\<rparr>"
    using io_packet_fields [OF fits, of i sequence] k(1,2)
    by (auto simp: receive_def handleIncomingPacket_def Let_def)
  ultimately show "scanner_data i (receive now (io_packet i sequence h d) s) = Some d"
    using k by (simp add: scanner_data_def Input_def accept_input_def)
next
  fix s i h d now sequence
  assume "scanner_header i s = None" "packet_fits h d"
  then show "receive now (io_packet i sequence h d) s = s"
    using io_packet_fields [of h d i sequence]
    by (auto simp: scanner_header_def receive_def handleIncomingPacket_def Let_def)
qed (rule scanner_receive_keeps, assumption?)+

definition runtime_header :: "u32 \<Rightarrow> Runtime \<Rightarrow> bool option" where
  "runtime_header i r = map_option ior_RunIdleHeader (ir_connections r i)"

definition runtime_data :: "u32 \<Rightarrow> Runtime \<Rightarrow> byte list option" where
  "runtime_data i r =
     Option.bind (ir_connections r i) (\<lambda>c. Option.bind (ior_Assembly c) (instances (ir_assembly r)))"

interpretation adapter_side: io_consumer listen runtime_header runtime_data "\<lambda>_. True"
proof
  fix r i h old d now sequence
  assume "runtime_header i r = Some h" "runtime_data i r = Some old" "length d = length old"
    and fits: "packet_fits h d"
  then obtain c a where c: "ir_connections r i = Some c" "ior_RunIdleHeader c = h" "ior_Assembly c = Some a"
    "instances (ir_assembly r) a = Some old" "length d = length old"
    by (auto simp: runtime_header_def runtime_data_def bind_eq_Some_conv)
  then have "listen now (io_packet i sequence h d) r =
      r\<lparr>ir_connections := (ir_connections r)(i \<mapsto> c\<lparr>ior_LastReceive := now\<rparr>),
        ir_assembly := (ir_assembly r)\<lparr>instances := (instances (ir_assembly r))(a \<mapsto> d)\<rparr>\<rparr>"
    using io_packet_fields [OF fits, of i sequence]
    by (auto simp: listen_def handlePacket_def SetAttributeSingle_def Let_def)
  with c show "runtime_data i (listen now (io_packet i sequence h d) r) = Some d"
    by (simp add: runtime_data_def)
next
  fix r i h d now sequence
  assume "runtime_header i r = None" "packet_fits h d"
  then show "listen now (io_packet i sequence h d) r = r"
    using io_packet_fields [of h d i sequence]
    by (auto simp: runtime_header_def listen_def handlePacket_def Let_def)
next
  fix r j now bytes
  show "runtime_header j (listen now bytes r) = runtime_header j r"
    by (auto simp: runtime_header_def listen_def handlePacket_def Let_def split: option.split)
qed simp

lemma listen_connection:
  assumes "ir_connections r i = Some c"
  shows "\<exists>c'. ir_connections (listen now bytes r) i = Some c' \<and> ior_Assembly c' = ior_Assembly c"
  using assms
  by (cases "ir_connections r (le32_at (take udp_buffer bytes) 6)")
    (auto simp: listen_def handlePacket_def Let_def split: option.split)

section \<open>Opening and closing\<close>

text \<open>The adapter's message router with a connection manager.\<close>

definition connmgr_router :: "ConnectionManager MessageRouter" where
  "connmgr_router = RegisterObject ClassConnectionMgr ConnMgr_HandleRequest NewMessageRouter"

lemma Dispatch_connmgr:
  "Dispatch connmgr_router \<lparr>Service = svc, RequestPath = connmgr_path, RequestData = d\<rparr> cm =
     (case ConnMgr_HandleRequest svc (AddInstance 1 NewPath) d cm of (out, cm) \<Rightarrow> (Inr (handler_response svc out), cm))"
  by (simp add: Dispatch_def connmgr_path_def connmgr_router_def RegisterObject_def NewMessageRouter_def
      AddClass_def AddInstance_def NewPath_def Let_def)

definition open_scanner :: "IOScanner \<Rightarrow> IOScanner" where
  "open_scanner s = s\<lparr>ios_nextOTID := ios_nextOTID s + 1, ios_nextSerial := ios_nextSerial s + 1\<rparr>"

definition next_open :: "IOScanner \<Rightarrow> IOConnectionConfig \<Rightarrow> ForwardOpenRequest" where
  "next_open s cfg = open_request (open_scanner s) cfg (ios_nextOTID s + 1) (ucast (ios_nextSerial s + 1))"

definition opened_conn :: "IOScanner \<Rightarrow> IOConnectionConfig \<Rightarrow> u32 \<Rightarrow> int \<Rightarrow> string \<Rightarrow> IOConn" where
  "opened_conn s cfg toConnID now addr =
     \<lparr>ioc_OTConnectionID = ios_nextOTID s + 1, ioc_TOConnectionID = toConnID,
      ioc_ConnectionSerialNumber = ucast (ios_nextSerial s + 1), ioc_VendorID = ios_vendorID s,
      ioc_OriginatorSerialNumber = ios_originatorSN s, ioc_outputData = replicate (unat (cfg_OTSize cfg)) 0,
      ioc_inputData = replicate (unat (cfg_TOSize cfg)) 0,
      ioc_RPI = (if micros (cfg_RPI cfg) = 0 then cfg_RPI cfg else int (unat (micros (cfg_RPI cfg))) * 1000),
      ioc_sequenceCount = 0, ioc_lastReceive = now, ioc_timeoutMult = cfg_TimeoutMultiplier cfg,
      ioc_runIdleHeader = cfg_RunIdleHeader cfg, ioc_remoteAddr = addr, ioc_stopped = False\<rparr>"

lemma open_reply_fields:
  "length (open_reply req i) = 26" "le32_at (open_reply req i) 4 = i"
  "le32_at (open_reply req i) 16 = fo_OTRPI req"
proof -
  show "length (open_reply req i) = 26" by (simp add: open_reply_def)
  show "le32_at (open_reply req i) 4 = i"
    using le32_at_append [of "le32 (fo_OTConnectionID req)" 4 i] by (simp add: open_reply_def)
  show "le32_at (open_reply req i) 16 = fo_OTRPI req"
    using le32_at_append [of "le32 (fo_OTConnectionID req) @ le32 i @ le16 (fo_ConnectionSerialNumber req) @
      le16 (fo_VendorID req) @ le32 (fo_OriginatorSerialNumber req)" 16 "fo_OTRPI req"]
    by (simp add: open_reply_def)
qed

lemma open_next:
  assumes "table_ok n cm" "n < 2 ^ 31 - 1" "path_ok (connection_path cfg)"
    "request_triad (next_open s cfg) \<notin> (triad \<circ> snd) ` set (connections cm)"
  shows "HandleForwardOpen (ForwardOpenRequest_Encode (next_open s cfg)) cm =
    (Inr (open_reply (next_open s cfg) (nextConnID cm + 1)),
     snd (HandleForwardOpen (ForwardOpenRequest_Encode (next_open s cfg)) cm))"
    "connections (snd (HandleForwardOpen (ForwardOpenRequest_Encode (next_open s cfg)) cm)) =
      connections cm @ [(nextConnID cm + 1, new_connection (next_open s cfg) (nextConnID cm + 1))]"
proof -
  have "length (fo_Reserved (next_open s cfg)) = 3" "path_ok (fo_ConnectionPath (next_open s cfg))"
    using assms(3) by (simp_all add: next_open_def open_request_def)
  note p = parse_forward_open_Encode [OF this]
  from ForwardOpen_cases [OF p assms(1,2)] assms(4) show
    "HandleForwardOpen (ForwardOpenRequest_Encode (next_open s cfg)) cm =
    (Inr (open_reply (next_open s cfg) (nextConnID cm + 1)),
     snd (HandleForwardOpen (ForwardOpenRequest_Encode (next_open s cfg)) cm))"
    "connections (snd (HandleForwardOpen (ForwardOpenRequest_Encode (next_open s cfg)) cm)) =
      connections cm @ [(nextConnID cm + 1, new_connection (next_open s cfg) (nextConnID cm + 1))]"
    by (simp_all add: Let_def)
qed

lemma Open_connmgr:
  assumes "table_ok n cm" "n < 2 ^ 31 - 1" "path_ok (connection_path cfg)"
    "request_triad (next_open s cfg) \<notin> (triad \<circ> snd) ` set (connections cm)"
  shows "Open (Dispatch connmgr_router) peer now cfg s cm =
    (case (case cfg_TargetAddr cfg of Some a \<Rightarrow> Some a | None \<Rightarrow> peer) of
       None \<Rightarrow> (Inl (CIPErrorf ''cannot resolve target UDP address''), open_scanner s,
                snd (HandleForwardOpen (ForwardOpenRequest_Encode (next_open s cfg)) cm))
     | Some addr \<Rightarrow>
         (Inr (length (ios_heap s)),
          (open_scanner s)\<lparr>ios_heap := ios_heap s @ [opened_conn s cfg (nextConnID cm + 1) now addr],
            ios_connections := (ios_connections s)(nextConnID cm + 1 \<mapsto> length (ios_heap s))\<rparr>,
          snd (HandleForwardOpen (ForwardOpenRequest_Encode (next_open s cfg)) cm)))"
proof -
  let ?req = "next_open s cfg"
  have rpi: "fo_OTRPI ?req = micros (cfg_RPI cfg)" by (simp add: next_open_def open_request_def)
  obtain cm1 where ho: "HandleForwardOpen (ForwardOpenRequest_Encode ?req) cm =
      (Inr (open_reply ?req (nextConnID cm + 1)), cm1)"
    using open_next(1) [OF assms] by blast
  then have "Dispatch connmgr_router \<lparr>Service = ServiceForwardOpen, RequestPath = connmgr_path,
      RequestData = ForwardOpenRequest_Encode ?req\<rparr> cm =
    (Inr (status_response ServiceForwardOpen StatusSuccess [] (open_reply ?req (nextConnID cm + 1))),
     snd (HandleForwardOpen (ForwardOpenRequest_Encode ?req) cm))"
    by (simp add: Dispatch_connmgr ConnMgr_HandleRequest_def)
  then have d: "Dispatch connmgr_router \<lparr>Service = ServiceForwardOpen, RequestPath = connmgr_path,
      RequestData = ForwardOpenRequest_Encode (open_request (s\<lparr>ios_nextOTID := ios_nextOTID s + 1,
        ios_nextSerial := ios_nextSerial s + 1\<rparr>) cfg (ios_nextOTID s + 1) (ucast (ios_nextSerial s + 1)))\<rparr> cm =
    (Inr (status_response ServiceForwardOpen StatusSuccess [] (open_reply ?req (nextConnID cm + 1))),
     snd (HandleForwardOpen (ForwardOpenRequest_Encode ?req) cm))"
    by (simp add: next_open_def open_scanner_def)
  show ?thesis
    unfolding Open_def Let_def d
    by (simp add: status_response_def IsSuccess_def open_reply_fields rpi opened_conn_def open_scanner_def
        uint_0_iff split: option.split)
qed

lemma Close_connmgr:
  assumes "connections cm = cs @ [(i, c)]" "triad c = close_triad (close_request conn)"
    "triad c \<notin> (triad \<circ> snd) ` set cs" "i \<notin> fst ` set cs" "ios_heap s ! h = conn"
  shows "\<exists>cm1. connections cm1 = cs \<and>
    IOScanner_Close (Dispatch connmgr_router) h s cm =
      (None, s\<lparr>ios_heap := (ios_heap s)[h := conn\<lparr>ioc_stopped := True\<rparr>],
         ios_connections := (ios_connections s)(ioc_TOConnectionID conn := None)\<rparr>, cm1)"
proof -
  let ?req = "close_request conn"
  have p: "path_ok (fc_ConnectionPath ?req)"
    by (simp add: path_ok_def close_request_def AddInstance_def AddClass_def NewPath_def)
  obtain out cm1 where hc: "HandleForwardClose (ForwardCloseRequest_Encode ?req) cm = (out, cm1)" by fastforce
  have "connections cm1 = cs" using ForwardClose_last [OF p assms(1)] assms(2-4) hc by simp
  moreover have "\<exists>d. out = Inr d" using hc by (auto simp: HandleForwardClose_def parse_forward_close_Encode [OF p] Let_def)
  ultimately show ?thesis using hc assms(5)
    by (auto simp: IOScanner_Close_def Let_def Dispatch_connmgr ConnMgr_HandleRequest_def IsSuccess_def status_response_def)
qed

section \<open>Properties\<close>

text \<open>
  C26: one cycle in each direction.  For a connection that scanner and adapter agree on, the
  packet the scanner sends makes the adapter's output assembly the data last given to
  \<^verbatim>\<open>SetOutput\<close>, and the packet of the adapter's next due tick makes the scanner's input the data
  of the adapter's input assembly.
\<close>

theorem io_cycle:
  assumes "scanner_ok s" "ios_connections s i = Some h" "ios_heap s ! h = c"
    "ir_connections r (ioc_OTConnectionID c) = Some oc" "ior_RunIdleHeader oc = ioc_runIdleHeader c"
    "ior_Assembly oc = Some a" "instances (ir_assembly r) a = Some old" "length (Output c) = length old"
    "packet_fits (ioc_runIdleHeader c) (Output c)"
    "ir_connections r i = Some pc" "ior_ConnectionID pc = i" "ior_RunIdleHeader pc = ioc_runIdleHeader c"
    "ior_IsProducer pc" "ior_RPI pc \<le> now - ior_LastSend pc" "ior_RemoteAddr pc = Some addr"
    "ior_Assembly pc = Some b" "instances (ir_assembly r) b = Some d" "length d = length (Input c)"
    "packet_fits (ioc_runIdleHeader c) d"
  shows "instances (ir_assembly (listen now (fst (sendPacket c)) r)) a = Some (Output c) \<and>
    (\<exists>pkt. fst (processTick now [i] r) = Some [(addr, pkt)] \<and>
       Input (ios_heap (receive now pkt s) ! h) = d)"
proof
  let ?o = "ioc_OTConnectionID c"
  have rd: "runtime_data ?o r = Some old" "runtime_header ?o r = Some (ioc_runIdleHeader c)"
    using assms(4-7) by (simp_all add: runtime_data_def runtime_header_def)
  have "runtime_data ?o (listen now (fst (sendPacket c)) r) = Some (Output c)"
    using adapter_side.consume_data [OF _ rd(2,1) assms(8,9)] by (simp add: sendPacket_packet)
  moreover obtain oc' where "ir_connections (listen now (fst (sendPacket c)) r) ?o = Some oc'" "ior_Assembly oc' = Some a"
    using listen_connection [OF assms(4), of now "fst (sendPacket c)"] assms(6) by auto
  ultimately show "instances (ir_assembly (listen now (fst (sendPacket c)) r)) a = Some (Output c)"
    by (simp add: runtime_data_def)
next
  let ?p = "io_packet i (ior_SequenceCount pc + 1) (ioc_runIdleHeader c) d"
  have "fst (processTick now [i] r) = Some [(addr, ?p)]"
    using assms(10-17,19)
    by (simp add: processTick_def Let_def GetAttributeSingle_def snapshot_packet)
  moreover have sd: "scanner_data i s = Some (Input c)" "scanner_header i s = Some (ioc_runIdleHeader c)"
    using assms(2,3) by (simp_all add: scanner_data_def scanner_header_def)
  have "scanner_data i (receive now ?p s) = Some d"
    by (rule scanner_side.consume_data [OF assms(1) sd(2,1) assms(18,19)])
  then have "Input (ios_heap (receive now ?p s) ! h) = d"
    using receive_cases [of now ?p s] assms(2) by (auto simp: scanner_data_def)
  ultimately show "\<exists>pkt. fst (processTick now [i] r) = Some [(addr, pkt)] \<and>
       Input (ios_heap (receive now pkt s) ! h) = d" by blast
qed


text \<open>A connection with a four-byte output and a two-byte input.\<close>

definition small_config :: IOConnectionConfig where
  "small_config =
     \<lparr>cfg_OTConnectionPoint = 100, cfg_TOConnectionPoint = 101, cfg_ConfigInstance = 0, cfg_OTSize = 4,
      cfg_TOSize = 2, cfg_RPI = 10000000, cfg_TimeoutMultiplier = 1, cfg_RunIdleHeader = True,
      cfg_TargetAddr = Some ''10.0.0.5:2222'', cfg_ConnectionPath = None\<rparr>"

lemma small_config_open:
  "path_ok (connection_path small_config)"
  "request_triad (next_open NewIOScanner small_config) \<notin> (triad \<circ> snd) ` set (connections NewConnectionManager)"
  by (simp_all add: path_ok_def connection_path_def small_config_def AddConnectionPoint_def AddInstance_def
      AddClass_def NewPath_def NewConnectionManager_def)


theorem io_cycle_witness:
  "let c = \<lparr>ioc_OTConnectionID = 1, ioc_TOConnectionID = 0x80000001, ioc_ConnectionSerialNumber = 1,
            ioc_VendorID = 1, ioc_OriginatorSerialNumber = 1, ioc_outputData = [1, 2], ioc_inputData = [0],
            ioc_RPI = 10, ioc_sequenceCount = 65535, ioc_lastReceive = 0, ioc_timeoutMult = 0,
            ioc_runIdleHeader = True, ioc_remoteAddr = ''adapter'', ioc_stopped = False\<rparr>;
       s = NewIOScanner\<lparr>ios_connections := [0x80000001 \<mapsto> 0], ios_heap := [c]\<rparr>;
       oc = \<lparr>ior_ConnectionID = 1, ior_RPI = 10, ior_SequenceCount = 0, ior_RunIdleHeader = True,
             ior_RemoteAddr = None, ior_Assembly = Some 100, ior_LastReceive = 0, ior_LastSend = 0,
             ior_TimeoutMult = 0, ior_IsProducer = False, ior_IsConsumer = True, ior_StopChan = None\<rparr>;
       pc = \<lparr>ior_ConnectionID = 0x80000001, ior_RPI = 10, ior_SequenceCount = 7, ior_RunIdleHeader = True,
             ior_RemoteAddr = Some ''scanner'', ior_Assembly = Some 101, ior_LastReceive = 0, ior_LastSend = 0,
             ior_TimeoutMult = 0, ior_IsProducer = True, ior_IsConsumer = False, ior_StopChan = None\<rparr>;
       r = (NewRuntime (RegisterAssembly 101 [42] (RegisterAssembly 100 [0, 0] NewAssemblyObject)))
             \<lparr>ir_connections := [1 \<mapsto> oc, 0x80000001 \<mapsto> pc]\<rparr>
   in instances (ir_assembly (listen 50 (fst (sendPacket c)) r)) 100 = Some [1, 2]"
proof -
  let ?c = "\<lparr>ioc_OTConnectionID = 1, ioc_TOConnectionID = 0x80000001, ioc_ConnectionSerialNumber = 1,
            ioc_VendorID = 1, ioc_OriginatorSerialNumber = 1, ioc_outputData = [1, 2], ioc_inputData = [0],
            ioc_RPI = 10, ioc_sequenceCount = 65535, ioc_lastReceive = 0, ioc_timeoutMult = 0,
            ioc_runIdleHeader = True, ioc_remoteAddr = ''adapter'', ioc_stopped = False\<rparr>"
  let ?s = "NewIOScanner\<lparr>ios_connections := [0x80000001 \<mapsto> 0], ios_heap := [?c]\<rparr>"
  have "scanner_ok ?s" by (simp add: scanner_ok_def NewIOScanner_def)
  from io_cycle [OF this, of "0x80000001" 0 ?c, where a = 100 and b = 101 and old = "[0, 0]" and d = "[42]"
      and addr = "''scanner''" and now = 50]
  show ?thesis
    by (simp add: Let_def NewIOScanner_def NewRuntime_def RegisterAssembly_def NewAssemblyObject_def
        Output_def Input_def packet_fits_def)
qed

text \<open>
  A connection the scanner cannot use is left open on the target.  When no address is
  configured and none can be derived from the session, \<^verbatim>\<open>Open\<close> fails after the Forward_Open
  has succeeded: the connection manager keeps the connection, the scanner knows nothing of it,
  and no Forward_Close is sent.
\<close>

theorem io_open_leaks_connection:
  assumes "table_ok n cm" "n < 2 ^ 31 - 1" "path_ok (connection_path cfg)"
    "request_triad (next_open s cfg) \<notin> (triad \<circ> snd) ` set (connections cm)"
    "cfg_TargetAddr cfg = None"
  shows "\<exists>err s1 cm1. Open (Dispatch connmgr_router) None now cfg s cm = (Inl err, s1, cm1) \<and>
    length (connections cm1) = Suc (length (connections cm)) \<and>
    ios_connections s1 = ios_connections s \<and> ios_heap s1 = ios_heap s"
  using Open_connmgr [OF assms(1-4), of None now] open_next(2) [OF assms(1-4)] assms(5)
  by (simp add: open_scanner_def)

theorem io_open_leaks_connection_witness:
  "\<exists>err s1 cm1. Open (Dispatch connmgr_router) None 0 (small_config\<lparr>cfg_TargetAddr := None\<rparr>) NewIOScanner
      NewConnectionManager = (Inl err, s1, cm1) \<and> length (connections cm1) = 1 \<and> ios_heap s1 = []"
proof -
  let ?cfg = "small_config\<lparr>cfg_TargetAddr := None\<rparr>"
  have "connection_path ?cfg = connection_path small_config" by (simp add: connection_path_def small_config_def)
  then have "path_ok (connection_path ?cfg)"
    "request_triad (next_open NewIOScanner ?cfg) \<notin> (triad \<circ> snd) ` set (connections NewConnectionManager)"
    using small_config_open(1) by (simp_all add: NewConnectionManager_def)
  from io_open_leaks_connection [OF table_ok_New _ this, of 0] show ?thesis
    by (auto simp: NewIOScanner_def NewConnectionManager_def)
qed

section \<open>The watchdog\<close>

lemma wrap64_id: "\<lbrakk>- (2 ^ 63) \<le> x; x < 2 ^ 63\<rbrakk> \<Longrightarrow> wrap64 x = x"
  by (simp add: wrap64_def signed_of_int signed_take_bit_int_eq_self)

lemma timeout_exact:
  assumes "0 \<le> RPI" "RPI \<le> 4294967295000" "unat mult \<le> 7"
  shows "timeout_of RPI mult = RPI * (4 * 2 ^ unat mult)"
proof -
  have "unat mult \<in> {0, 1, 2, 3, 4, 5, 6, 7}" using assms(3) by auto
  then have m: "sint (push_bit (unat mult) 4 :: u64) = 4 * 2 ^ unat mult" by auto
  have "(2 :: int) ^ unat mult \<le> 2 ^ 7" using assms(3) by (intro power_increasing) auto
  then have hi: "RPI * (4 * 2 ^ unat mult) \<le> 4294967295000 * (4 * 2 ^ 7)"
    using assms by (intro mult_mono) auto
  have lo: "0 \<le> RPI * (4 * 2 ^ unat mult)" using assms(1) by simp
  show ?thesis
    unfolding timeout_of_def m
    by (rule wrap64_id, rule order_trans [OF _ lo], simp, rule le_less_trans [OF hi], simp)
qed

lemma timeout_zero: "62 \<le> unat mult \<Longrightarrow> timeout_of RPI mult = 0"
proof -
  assume m: "62 \<le> unat mult"
  have "push_bit (unat mult) (4 :: u64) = 2 ^ (unat mult + 2)" by (simp add: push_bit_eq_mult power_add)
  also have "\<dots> = 0" using m by (simp only: exp_eq_zero_iff) simp
  finally have "push_bit (unat mult) (4 :: u64) = 0" .
  then show ?thesis by (simp add: timeout_of_def wrap64_def)
qed

text \<open>
  The watchdog of the adapter.  For the multipliers of CIP and every packet interval the
  protocol can carry, a consuming connection is dropped exactly when the time since its last
  packet exceeds the interval times four shifted by the multiplier; its stop channel is then
  closed; connections that only produce are never dropped.
\<close>

theorem io_watchdog:
  assumes "ir_connections r i = Some c" "0 \<le> ior_RPI c" "ior_RPI c \<le> 4294967295000"
    "unat (ior_TimeoutMult c) \<le> 7"
  shows "case Runtime_checkTimeouts now r of (stopped, r') \<Rightarrow>
    (if ior_IsConsumer c \<and> now - ior_LastReceive c > ior_RPI c * (4 * 2 ^ unat (ior_TimeoutMult c))
     then ir_connections r' i = None \<and> stopped i = Some (stop_conn c)
     else ir_connections r' i = Some c \<and> stopped i = None)"
  using assms timeout_exact [OF assms(2-4)] by (simp add: Runtime_checkTimeouts_def timed_out_def)

theorem io_watchdog_witness:
  "let c = \<lparr>ior_ConnectionID = 1, ior_RPI = 10000000, ior_SequenceCount = 0, ior_RunIdleHeader = True,
             ior_RemoteAddr = None, ior_Assembly = Some 100, ior_LastReceive = 0, ior_LastSend = 0,
             ior_TimeoutMult = 2, ior_IsProducer = False, ior_IsConsumer = True, ior_StopChan = Some False\<rparr>;
       r = (NewRuntime NewAssemblyObject)\<lparr>ir_connections := [1 \<mapsto> c]\<rparr>
   in ir_connections (snd (Runtime_checkTimeouts 160000000 r)) 1 = Some c \<and>
      ir_connections (snd (Runtime_checkTimeouts 160000001 r)) 1 = None"
proof -
  let ?c = "\<lparr>ior_ConnectionID = 1, ior_RPI = 10000000, ior_SequenceCount = 0, ior_RunIdleHeader = True,
             ior_RemoteAddr = None, ior_Assembly = Some 100, ior_LastReceive = 0, ior_LastSend = 0,
             ior_TimeoutMult = 2, ior_IsProducer = False, ior_IsConsumer = True, ior_StopChan = Some False\<rparr>"
  let ?r = "(NewRuntime NewAssemblyObject)\<lparr>ir_connections := [1 \<mapsto> ?c]\<rparr>"
  from io_watchdog [of ?r 1 ?c 160000000] io_watchdog [of ?r 1 ?c 160000001] show ?thesis
    by (simp add: Let_def case_prod_beta)
qed

section \<open>The scheduler\<close>

text \<open>
  A large assembly crashes the adapter.  The scheduler builds each packet in a buffer of
  2048 bytes; for an assembly that does not fit with its headers, the tick that finds the
  connection due panics.
\<close>

theorem io_large_assembly_panics:
  assumes "ir_connections r i = Some c" "ior_IsProducer c" "ior_RPI c \<le> now - ior_LastSend c"
    "ior_Assembly c = Some a" "instances (ir_assembly r) a = Some d" "ior_RemoteAddr c = Some addr"
    "2032 < length d"
  shows "fst (processTick now [i] r) = None"
  using assms by (simp add: processTick_def Let_def GetAttributeSingle_def snapshot_packet packet_fits_def)

theorem io_large_assembly_panics_witness:
  "let c = \<lparr>ior_ConnectionID = 1, ior_RPI = 10, ior_SequenceCount = 0, ior_RunIdleHeader = False,
             ior_RemoteAddr = Some ''scanner'', ior_Assembly = Some 101, ior_LastReceive = 0, ior_LastSend = 0,
             ior_TimeoutMult = 0, ior_IsProducer = True, ior_IsConsumer = False, ior_StopChan = None\<rparr>;
       r = (NewRuntime (RegisterAssembly 101 (replicate 2033 0) NewAssemblyObject))\<lparr>ir_connections := [1 \<mapsto> c]\<rparr>
   in fst (processTick 50 [1] r) = None"
proof -
  let ?c = "\<lparr>ior_ConnectionID = 1, ior_RPI = 10, ior_SequenceCount = 0, ior_RunIdleHeader = False,
             ior_RemoteAddr = Some ''scanner'', ior_Assembly = Some 101, ior_LastReceive = 0, ior_LastSend = 0,
             ior_TimeoutMult = 0, ior_IsProducer = True, ior_IsConsumer = False, ior_StopChan = None\<rparr>"
  let ?r = "(NewRuntime (RegisterAssembly 101 (replicate 2033 0) NewAssemblyObject))\<lparr>ir_connections := [1 \<mapsto> ?c]\<rparr>"
  have "instances (ir_assembly ?r) 101 = Some (replicate 2033 0)"
    by (simp add: NewRuntime_def RegisterAssembly_def NewAssemblyObject_def)
  from io_large_assembly_panics [of ?r 1 ?c 50 101, OF _ _ _ _ this] show ?thesis by (simp add: Let_def)
qed

text \<open>The size field of the connection parameters has nine bits.\<close>

lemma open_size_truncated:
  "ConnectionSizeFromParams (ConnParamPointToPoint OR ConnParamFixedSize OR sz) = sz \<longleftrightarrow> unat sz < 512"
proof -
  have "ConnectionSizeFromParams (ConnParamPointToPoint OR ConnParamFixedSize OR sz) =
      (0x4000 AND 0x1FF) OR (0 AND 0x1FF) OR (sz AND 0x1FF)"
    by (simp only: ConnectionSizeFromParams_def bit.conj_disj_distrib2)
  also have "\<dots> = take_bit 9 sz" by (simp add: take_bit_eq_mask mask_eq_exp_minus_1)
  also have "take_bit 9 sz = sz \<longleftrightarrow> unat sz < 2 ^ 9"
    by (metis take_bit_nat_eq_self_iff unsigned_take_bit_eq word_unat_eq_iff)
  finally show ?thesis by simp
qed

section \<open>The scanner in operation\<close>

text \<open>
  The steps of a scanner on the world of its session: opening and closing connections, cycles of
  the producers that still run, datagrams, and updates of the output.
\<close>

inductive scan_step :: "(MessageRouterRequest \<Rightarrow> 'w \<Rightarrow> (cerr + MessageRouterResponse) \<times> 'w) \<Rightarrow>
    IOScanner \<times> 'w \<Rightarrow> IOScanner \<times> 'w \<Rightarrow> bool" for send where
  scan_open: "Open send peer now cfg s w = (out, s', w') \<Longrightarrow> scan_step send (s, w) (s', w')"
| scan_close: "\<lbrakk>h < length (ios_heap s); IOScanner_Close send h s w = (out, s', w')\<rbrakk> \<Longrightarrow> scan_step send (s, w) (s', w')"
| scan_cycle: "\<lbrakk>h < length (ios_heap s); sendPacket (ios_heap s ! h) = (pkt, c)\<rbrakk> \<Longrightarrow>
    scan_step send (s, w) (s\<lparr>ios_heap := (ios_heap s)[h := c]\<rparr>, w)"
| scan_receive: "scan_step send (s, w) (receive now bytes s, w)"
| scan_output: "\<lbrakk>h < length (ios_heap s); SetOutput data (ios_heap s ! h) = (out, c)\<rbrakk> \<Longrightarrow>
    scan_step send (s, w) (s\<lparr>ios_heap := (ios_heap s)[h := c]\<rparr>, w)"

lemma Open_shape:
  assumes "Open send peer now cfg s w = (out, s', w')"
  shows "ios_heap s' = ios_heap s \<and> ios_connections s' = ios_connections s \<or>
    (\<exists>c. ios_heap s' = ios_heap s @ [c] \<and> \<not> ioc_stopped c \<and>
       ios_connections s' = (ios_connections s)(ioc_TOConnectionID c \<mapsto> length (ios_heap s)))"
  using assms by (auto simp: Open_def Let_def split: prod.splits sum.splits if_splits option.splits)

lemma Close_shape:
  assumes "IOScanner_Close send h s w = (out, s', w')"
  shows "ios_heap s' = (ios_heap s)[h := (ios_heap s ! h)\<lparr>ioc_stopped := True\<rparr>] \<and>
    ios_connections s' = (ios_connections s)(ioc_TOConnectionID (ios_heap s ! h) := None)"
  using assms by (auto simp: IOScanner_Close_def Let_def split: prod.splits sum.splits if_splits)

lemma scanner_ok_update:
  assumes "scanner_ok s" "ioc_TOConnectionID c = ioc_TOConnectionID (ios_heap s ! h)"
    "ioc_stopped c = ioc_stopped (ios_heap s ! h)"
  shows "scanner_ok (s\<lparr>ios_heap := (ios_heap s)[h := c]\<rparr>)"
  unfolding scanner_ok_def
proof (intro allI impI)
  fix i k assume "ios_connections (s\<lparr>ios_heap := (ios_heap s)[h := c]\<rparr>) i = Some k"
  with assms show "k < length (ios_heap (s\<lparr>ios_heap := (ios_heap s)[h := c]\<rparr>)) \<and>
      ioc_TOConnectionID (ios_heap (s\<lparr>ios_heap := (ios_heap s)[h := c]\<rparr>) ! k) = i \<and>
      \<not> ioc_stopped (ios_heap (s\<lparr>ios_heap := (ios_heap s)[h := c]\<rparr>) ! k)"
    by (cases "h = k") (auto simp: scanner_ok_def)
qed

lemma scanner_ok_open:
  assumes "scanner_ok s" "ios_heap s' = ios_heap s @ [c]" "\<not> ioc_stopped c"
    "ios_connections s' = (ios_connections s)(ioc_TOConnectionID c \<mapsto> length (ios_heap s))"
  shows "scanner_ok s'"
  using assms unfolding scanner_ok_def by (auto simp: nth_append less_Suc_eq split: if_splits)

lemma scanner_ok_close:
  assumes "scanner_ok s" "ios_heap s' = (ios_heap s)[h := (ios_heap s ! h)\<lparr>ioc_stopped := True\<rparr>]"
    "ios_connections s' = (ios_connections s)(ioc_TOConnectionID (ios_heap s ! h) := None)"
  shows "scanner_ok s'"
  unfolding scanner_ok_def
proof (intro allI impI)
  fix i k assume "ios_connections s' i = Some k"
  then have "ios_connections s i = Some k" "i \<noteq> ioc_TOConnectionID (ios_heap s ! h)"
    using assms(3) by (auto split: if_splits)
  then show "k < length (ios_heap s') \<and> ioc_TOConnectionID (ios_heap s' ! k) = i \<and> \<not> ioc_stopped (ios_heap s' ! k)"
    using assms(1,2) by (cases "h = k") (auto simp: scanner_ok_def)
qed

lemma scan_step_ok:
  assumes "scan_step send sw sw'" "scanner_ok (fst sw)"
  shows "scanner_ok (fst sw')"
  using assms
proof cases
  case (scan_open peer now cfg s w out s' w')
  with assms(2) have "scanner_ok s" by simp
  moreover have "scanner_ok s'" if "ios_heap s' = ios_heap s" "ios_connections s' = ios_connections s"
    using that \<open>scanner_ok s\<close> by (simp add: scanner_ok_def)
  ultimately have "scanner_ok s'" using Open_shape [OF scan_open(3)] scanner_ok_open by blast
  with scan_open(2) show ?thesis by simp
next
  case (scan_close h s w out s' w')
  with assms(2) Close_shape [OF scan_close(4)] show ?thesis by (auto intro: scanner_ok_close)
next
  case (scan_cycle h s pkt c w)
  with assms(2) show ?thesis by (auto simp: sendPacket_packet intro!: scanner_ok_update)
next
  case (scan_receive s w now bytes)
  with assms(2) scanner_receive_keeps(2) show ?thesis by simp
next
  case (scan_output h s data out c w)
  with assms(2) show ?thesis by (auto simp: SetOutput_def split: if_splits intro!: scanner_ok_update)
qed

text \<open>
  C14: the scanner's table.  Whatever is opened, closed, produced, received and set, in any order
  and whatever the targets answer, every entry of the table is a connection that has not been
  closed, and a datagram for it is for the identifier the target assigned.
\<close>

theorem io_scanner_table:
  assumes "(scan_step send)\<^sup>*\<^sup>* (NewIOScanner, w) (s, w')"
  shows "scanner_ok s"
proof -
  have "(scan_step send)\<^sup>*\<^sup>* sw sw' \<Longrightarrow> scanner_ok (fst sw) \<Longrightarrow> scanner_ok (fst sw')" for sw sw'
    by (induction rule: rtranclp_induct) (auto intro: scan_step_ok)
  from this [OF assms] show ?thesis by (simp add: scanner_ok_def NewIOScanner_def)
qed

theorem io_scanner_table_witness:
  "\<exists>s cm. Open (Dispatch connmgr_router) None 0 small_config NewIOScanner NewConnectionManager = (Inr 0, s, cm) \<and>
     scanner_ok s"
proof -
  obtain s cm where o: "Open (Dispatch connmgr_router) None 0 small_config NewIOScanner NewConnectionManager = (Inr 0, s, cm)"
    using Open_connmgr [OF table_ok_New _ small_config_open, of None 0]
    by (simp add: NewIOScanner_def small_config_def)
  then have "(scan_step (Dispatch connmgr_router))\<^sup>*\<^sup>* (NewIOScanner, NewConnectionManager) (s, cm)"
    by (intro r_into_rtranclp scan_open)
  from o io_scanner_table [OF this] show ?thesis by blast
qed

end
