(* ===== verification/Monitor.thy ===== *)
theory Monitor
  imports Plc_Value
begin

text \<open>
  \<^verbatim>\<open>src/monitor\<close>: \<^verbatim>\<open>monitor.go\<close>, \<^verbatim>\<open>subscriber.go\<close>, \<^verbatim>\<open>change.go\<close> and \<^verbatim>\<open>options.go\<close>.  The monitor and its
  goroutines are one transition system: a step is one critical section, one channel operation, or
  one return of the reader, of a timer or of a handler.  A send on a closed channel sets a panic
  flag.  Times are nanoseconds; identifiers of subscriptions count up and do not wrap.
\<close>

section \<open>Snapshots, events and options\<close>

record 'p Snapshot =
  sn_Point :: 'p
  sn_Value :: "'p Value"
  sn_Timestamp :: int

record 'p Event =
  ev_SubscriptionID :: nat
  ev_Snapshot :: "'p Snapshot"
  ev_Err :: "string option"
  ev_Changed :: bool

type_synonym 'p ChangeDetector = "'p Snapshot \<Rightarrow> 'p Snapshot \<Rightarrow> bool"

definition ByteChangeDetector :: "'p ChangeDetector" where
  "ByteChangeDetector prev cur = (Raw (sn_Value prev) \<noteq> Raw (sn_Value cur))"

text \<open>The zero value of \<^verbatim>\<open>plc.Value\<close>.\<close>

definition no_value :: "'p Value" where
  "no_value = \<lparr>DataPoint = None, Raw = [], Type = TypeUnknown, ByteOrder = ByteOrderUnspecified\<rparr>"

record 'p subConfig =
  sc_frequency :: int
  sc_readVariance :: int
  sc_handler :: bool
  sc_detector :: "'p ChangeDetector option"
  sc_initialDelay :: int

definition defaultSubConfig :: "'p subConfig" where
  "defaultSubConfig =
     \<lparr>sc_frequency = 500000000, sc_readVariance = 0, sc_handler = False, sc_detector = None,
      sc_initialDelay = 50000000\<rparr>"

type_synonym 'p SubscriptionOption = "'p subConfig \<Rightarrow> string + 'p subConfig"

definition WithFrequency :: "int \<Rightarrow> 'p SubscriptionOption" where
  "WithFrequency freq cfg =
     (if freq \<le> 0 then Inl ''frequency must be positive'' else Inr (cfg\<lparr>sc_frequency := freq\<rparr>))"

definition WithReadVariance :: "int \<Rightarrow> 'p SubscriptionOption" where
  "WithReadVariance variance cfg =
     (if variance < 0 then Inl ''read variance cannot be negative'' else Inr (cfg\<lparr>sc_readVariance := variance\<rparr>))"

definition WithChangeDetector :: "'p ChangeDetector option \<Rightarrow> 'p SubscriptionOption" where
  "WithChangeDetector detector cfg =
     (if detector = None then Inl ''change detector cannot be nil'' else Inr (cfg\<lparr>sc_detector := detector\<rparr>))"

definition WithHandler :: "bool \<Rightarrow> 'p SubscriptionOption" where
  "WithHandler handler cfg =
     (if \<not> handler then Inl ''handler cannot be nil'' else Inr (cfg\<lparr>sc_handler := handler\<rparr>))"

definition WithInitialRead :: "int \<Rightarrow> 'p SubscriptionOption" where
  "WithInitialRead delay cfg =
     (if delay < 0 then Inl ''initial read delay cannot be negative'' else Inr (cfg\<lparr>sc_initialDelay := delay\<rparr>))"

fun apply_options :: "'p SubscriptionOption list \<Rightarrow> 'p subConfig \<Rightarrow> string + 'p subConfig" where
  "apply_options [] cfg = Inr cfg"
| "apply_options (opt # opts) cfg = res_bind (opt cfg) (apply_options opts)"

definition WithEventBuffer :: "int \<Rightarrow> nat" where
  "WithEventBuffer sz = (if sz \<le> 0 then 1 else nat sz)"

text \<open>The delay before the next poll, from the number \<^verbatim>\<open>rand.Int64N\<close> drew.\<close>

definition next_delay :: "'p subConfig \<Rightarrow> int \<Rightarrow> int" where
  "next_delay cfg drawn =
     (if sc_readVariance cfg > 0
      then (let delay = sc_frequency cfg + (drawn - sc_readVariance cfg) in if delay < 0 then 0 else delay)
      else sc_frequency cfg)"

section \<open>One poll\<close>

text \<open>
  What a poll makes of the reader's answer: the event, and the snapshot it remembers.  The handler
  runs on the snapshots of events without error.
\<close>

definition poll :: "nat \<Rightarrow> 'p \<Rightarrow> 'p ChangeDetector option \<Rightarrow> 'p Snapshot option \<Rightarrow> int \<Rightarrow>
    string + 'p Value list \<Rightarrow> 'p Event \<times> 'p Snapshot option" where
  "poll i point detector prev ts r =
     (case r of
        Inl err \<Rightarrow>
          (\<lparr>ev_SubscriptionID = i,
            ev_Snapshot = \<lparr>sn_Point = point, sn_Value = no_value, sn_Timestamp = ts\<rparr>,
            ev_Err = Some err, ev_Changed = False\<rparr>, prev)
      | Inr [] \<Rightarrow>
          (\<lparr>ev_SubscriptionID = i,
            ev_Snapshot = \<lparr>sn_Point = point, sn_Value = no_value, sn_Timestamp = ts\<rparr>,
            ev_Err = Some ''monitor: no values returned'', ev_Changed = False\<rparr>, prev)
      | Inr (v # vs) \<Rightarrow>
          (let snapshot = \<lparr>sn_Point = point, sn_Value = v, sn_Timestamp = ts\<rparr> in
           (\<lparr>ev_SubscriptionID = i, ev_Snapshot = snapshot, ev_Err = None,
             ev_Changed = (case (detector, prev) of (Some detect, Some p) \<Rightarrow> detect p snapshot | _ \<Rightarrow> True)\<rparr>,
            Some snapshot)))"

section \<open>State\<close>

record 'a channel =
  ch_buf :: "'a list"
  ch_cap :: nat
  ch_closed :: bool

definition make_chan :: "nat \<Rightarrow> 'a channel" where
  "make_chan n = \<lparr>ch_buf = [], ch_cap = n, ch_closed = False\<rparr>"

text \<open>A send in a \<^verbatim>\<open>select\<close> with a default: a full buffer drops the value.\<close>

definition try_send :: "'a \<Rightarrow> 'a channel \<Rightarrow> 'a channel" where
  "try_send x c = (if length (ch_buf c) < ch_cap c then c\<lparr>ch_buf := ch_buf c @ [x]\<rparr> else c)"

text \<open>
  Where the goroutine of a subscription is: at the gate, before the first read, waiting for the
  timer, reading, in the handler, in a \<^verbatim>\<open>Stop\<close> the handler called, at the first test of \<^verbatim>\<open>emit\<close>, before
  the lock, sending to the subscribers under the lock, at the last \<^verbatim>\<open>select\<close> of \<^verbatim>\<open>emit\<close>, returning from
  \<^verbatim>\<open>run\<close>, before \<^verbatim>\<open>wg.Done\<close>, or gone.
\<close>

datatype 'p phase =
    PGate | PFirst | PWait | PRead | PHandler "'p Event" | PStop "'p Event" nat
  | PEmit "'p Event" | PLock "'p Event" | PSend "'p Event" "nat list" | PLast "'p Event"
  | PExit | PDone | PGone

text \<open>The \<^verbatim>\<open>once\<close> of a handle: free, removed from the table, waiting in \<^verbatim>\<open>stop\<close>, done.\<close>

datatype once = OnceFree | OnceRemoved | OnceStopping | OnceDone

record 'p subscription =
  s_point :: 'p
  s_cfg :: "'p subConfig"
  s_prev :: "'p Snapshot option"
  s_stopCh :: bool
  s_doneCh :: bool
  s_once :: once
  s_phase :: "'p phase"

text \<open>Where \<^verbatim>\<open>Close\<close> is; it stops the subscriptions it took one after the other.\<close>

datatype closing = CNot | CLock | CStop "nat list" | CWaitSub nat "nat list" | CWg | CSubs | CDone

text \<open>\<^verbatim>\<open>mon_heap\<close> holds the subscriptions ever made, \<^verbatim>\<open>mon_chans\<close> the channels of the subscribers ever made.\<close>

record 'p Monitor =
  mon_heap :: "nat \<Rightarrow> 'p subscription"
  mon_subs :: "nat list"
  mon_closed :: bool
  mon_nextID :: nat
  mon_stopCh :: bool
  mon_events :: "'p Event channel"
  mon_wg :: nat
  mon_connected :: "bool option"
  mon_chans :: "'p Event channel list"
  mon_subscribers :: "nat list"
  mon_closing :: closing
  mon_panic :: bool

definition newSubscription :: "'p \<Rightarrow> 'p subConfig \<Rightarrow> 'p subscription" where
  "newSubscription point cfg =
     \<lparr>s_point = point, s_cfg = cfg, s_prev = None, s_stopCh = False, s_doneCh = False, s_once = OnceFree,
      s_phase = PGate\<rparr>"

text \<open>The gate is the channel of \<^verbatim>\<open>WithConnected\<close> when there is one; the heap starts with no goroutine.\<close>

definition NewMonitor :: "nat \<Rightarrow> bool option \<Rightarrow> 'p \<Rightarrow> 'p Monitor" where
  "NewMonitor eventBuffer connected p0 =
     \<lparr>mon_heap = (\<lambda>_. (newSubscription p0 defaultSubConfig)\<lparr>s_phase := PGone\<rparr>), mon_subs = [],
      mon_closed = False, mon_nextID = 0, mon_stopCh = False, mon_events = make_chan eventBuffer, mon_wg = 0,
      mon_connected = connected, mon_chans = [], mon_subscribers = [], mon_closing = CNot, mon_panic = False\<rparr>"

definition upd_sub :: "nat \<Rightarrow> ('p subscription \<Rightarrow> 'p subscription) \<Rightarrow> 'p Monitor \<Rightarrow> 'p Monitor" where
  "upd_sub i f m = m\<lparr>mon_heap := (mon_heap m)(i := f (mon_heap m i))\<rparr>"

abbreviation (input) goto :: "nat \<Rightarrow> 'p phase \<Rightarrow> 'p Monitor \<Rightarrow> 'p Monitor" where
  "goto i p m \<equiv> upd_sub i (\<lambda>s. s\<lparr>s_phase := p\<rparr>) m"

abbreviation (input) phase_of :: "'p Monitor \<Rightarrow> nat \<Rightarrow> 'p phase" where
  "phase_of m i \<equiv> s_phase (mon_heap m i)"

text \<open>The lock on the subscribers is held for reading while some goroutine sends to them.\<close>

definition read_locked :: "'p Monitor \<Rightarrow> bool" where
  "read_locked m = (\<exists>i \<in> {1..mon_nextID m}. case phase_of m i of PSend _ _ \<Rightarrow> True | _ \<Rightarrow> False)"

section \<open>Operations\<close>

definition Subscribe :: "'p option \<Rightarrow> 'p SubscriptionOption list \<Rightarrow> 'p Monitor \<Rightarrow> (string + nat) \<times> 'p Monitor" where
  "Subscribe point opts m =
     (case point of
        None \<Rightarrow> (Inl ''data point is required'', m)
      | Some p \<Rightarrow>
          (case apply_options opts defaultSubConfig of
             Inl err \<Rightarrow> (Inl err, m)
           | Inr cfg \<Rightarrow>
               if mon_closed m then (Inl ''monitor is closed'', m)
               else (let i = Suc (mon_nextID m) in
                 (Inr i, m\<lparr>mon_nextID := i, mon_heap := (mon_heap m)(i := newSubscription p cfg),
                           mon_subs := i # mon_subs m, mon_wg := Suc (mon_wg m)\<rparr>))))"

text \<open>\<^verbatim>\<open>Stop\<close> up to the end of \<^verbatim>\<open>removeSubscription\<close>'s critical section.\<close>

definition removeSubscription :: "nat \<Rightarrow> 'p Monitor \<Rightarrow> 'p Monitor" where
  "removeSubscription i m =
     (if s_once (mon_heap m i) \<noteq> OnceFree then m
      else if i \<in> set (mon_subs m)
        then upd_sub i (\<lambda>s. s\<lparr>s_once := OnceRemoved\<rparr>) (m\<lparr>mon_subs := removeAll i (mon_subs m)\<rparr>)
      else upd_sub i (\<lambda>s. s\<lparr>s_once := OnceDone\<rparr>) m)"

text \<open>\<^verbatim>\<open>stop\<close> cancels the context and closes the channel, then waits for \<^verbatim>\<open>doneCh\<close>.\<close>

definition stop :: "'p subscription \<Rightarrow> 'p subscription" where
  "stop s = s\<lparr>s_stopCh := True\<rparr>"

text \<open>The critical section of \<^verbatim>\<open>NewSubscriber\<close>, and the two halves of \<^verbatim>\<open>Done\<close>.\<close>

definition NewSubscriber :: "int \<Rightarrow> 'p Monitor \<Rightarrow> (string + nat) \<times> 'p Monitor" where
  "NewSubscriber bufferSize m =
     (if mon_stopCh m then (Inl ''monitor is closed'', m)
      else (Inr (length (mon_chans m)),
            m\<lparr>mon_chans := mon_chans m @ [make_chan (if bufferSize \<le> 0 then 64 else nat bufferSize)],
              mon_subscribers := length (mon_chans m) # mon_subscribers m\<rparr>))"

definition unregisterSubscriber :: "nat \<Rightarrow> 'p Monitor \<Rightarrow> 'p Monitor" where
  "unregisterSubscriber k m = m\<lparr>mon_subscribers := removeAll k (mon_subscribers m)\<rparr>"

definition closeCh :: "'a channel \<Rightarrow> 'a channel" where
  "closeCh c = c\<lparr>ch_closed := True\<rparr>"

definition close_subscriber :: "nat \<Rightarrow> 'p Monitor \<Rightarrow> 'p Monitor" where
  "close_subscriber k m = m\<lparr>mon_chans := (mon_chans m)[k := closeCh (mon_chans m ! k)]\<rparr>"

text \<open>The parts of \<^verbatim>\<open>emit\<close>.\<close>

definition send_subscriber :: "'p Event \<Rightarrow> nat \<Rightarrow> 'p Monitor \<Rightarrow> 'p Monitor" where
  "send_subscriber ev k m =
     (if ch_closed (mon_chans m ! k) then m\<lparr>mon_panic := True\<rparr>
      else m\<lparr>mon_chans := (mon_chans m)[k := try_send ev (mon_chans m ! k)]\<rparr>)"

definition send_event :: "'p Event \<Rightarrow> 'p Monitor \<Rightarrow> 'p Monitor" where
  "send_event ev m =
     (if ch_closed (mon_events m) then m\<lparr>mon_panic := True\<rparr>
      else m\<lparr>mon_events := try_send ev (mon_events m)\<rparr>)"

text \<open>The critical sections of \<^verbatim>\<open>Close\<close>.\<close>

definition close_take :: "'p Monitor \<Rightarrow> 'p Monitor" where
  "close_take m = m\<lparr>mon_closed := True, mon_subs := [], mon_closing := CStop (mon_subs m)\<rparr>"

definition close_events :: "'p Monitor \<Rightarrow> 'p Monitor" where
  "close_events m =
     (if ch_closed (mon_events m) then m\<lparr>mon_panic := True\<rparr>
      else m\<lparr>mon_events := closeCh (mon_events m), mon_closing := CSubs\<rparr>)"

definition close_subscribers :: "'p Monitor \<Rightarrow> 'p Monitor" where
  "close_subscribers m = (fold close_subscriber (mon_subscribers m) m)\<lparr>mon_subscribers := [], mon_closing := CDone\<rparr>"

text \<open>After a poll's read: remember the snapshot, then the handler or \<^verbatim>\<open>emit\<close>.\<close>

definition poll_step :: "nat \<Rightarrow> int \<Rightarrow> string + 'p Value list \<Rightarrow> 'p Monitor \<Rightarrow> 'p Monitor" where
  "poll_step i ts r m =
     (let s = mon_heap m i; (ev, prev) = poll i (s_point s) (sc_detector (s_cfg s)) (s_prev s) ts r
      in upd_sub i (\<lambda>s. s\<lparr>s_prev := prev,
           s_phase := (if ev_Err ev = None \<and> sc_handler (s_cfg s) then PHandler ev else PEmit ev)\<rparr>) m)"

definition stopping :: "'p Monitor \<Rightarrow> nat \<Rightarrow> bool" where
  "stopping m i = (s_stopCh (mon_heap m i) \<or> mon_stopCh m)"

section \<open>Steps\<close>

inductive mon_step :: "'p Monitor \<Rightarrow> 'p Monitor \<Rightarrow> bool" where
  subscribe: "mon_step m (snd (Subscribe point opts m))"
| connected: "mon_connected m = Some b \<Longrightarrow> mon_step m (m\<lparr>mon_connected := Some True\<rparr>)"
| stop_call: "i \<in> {1..mon_nextID m} \<Longrightarrow> mon_step m (removeSubscription i m)"
| stop_signal: "s_once (mon_heap m i) = OnceRemoved \<Longrightarrow>
    mon_step m (upd_sub i (\<lambda>s. (stop s)\<lparr>s_once := OnceStopping\<rparr>) m)"
| stop_return: "\<lbrakk>s_once (mon_heap m i) = OnceStopping; s_doneCh (mon_heap m i)\<rbrakk> \<Longrightarrow>
    mon_step m (upd_sub i (\<lambda>s. s\<lparr>s_once := OnceDone\<rparr>) m)"
| new_subscriber: "\<not> read_locked m \<Longrightarrow> mon_step m (snd (NewSubscriber sz m))"
| done_unregister: "\<not> read_locked m \<Longrightarrow> mon_step m (unregisterSubscriber k m)"
| done_close: "\<lbrakk>k < length (mon_chans m); k \<notin> set (mon_subscribers m)\<rbrakk> \<Longrightarrow> mon_step m (close_subscriber k m)"
| receive: "\<lbrakk>k < length (mon_chans m); ch_buf (mon_chans m ! k) = x # xs\<rbrakk> \<Longrightarrow>
    mon_step m (m\<lparr>mon_chans := (mon_chans m)[k := (mon_chans m ! k)\<lparr>ch_buf := xs\<rparr>]\<rparr>)"
| receive_events: "ch_buf (mon_events m) = x # xs \<Longrightarrow>
    mon_step m (m\<lparr>mon_events := (mon_events m)\<lparr>ch_buf := xs\<rparr>\<rparr>)"
| gate_open: "\<lbrakk>phase_of m i = PGate; mon_connected m \<noteq> Some False\<rbrakk> \<Longrightarrow> mon_step m (goto i PFirst m)"
| gate_stop: "\<lbrakk>phase_of m i = PGate; mon_connected m \<noteq> None; stopping m i\<rbrakk> \<Longrightarrow> mon_step m (goto i PExit m)"
| first_read: "phase_of m i = PFirst \<Longrightarrow> mon_step m (goto i PRead m)"
| first_stop: "\<lbrakk>phase_of m i = PFirst; sc_initialDelay (s_cfg (mon_heap m i)) \<noteq> 0; stopping m i\<rbrakk> \<Longrightarrow>
    mon_step m (goto i PExit m)"
| timer: "phase_of m i = PWait \<Longrightarrow> mon_step m (goto i PRead m)"
| wait_stop: "\<lbrakk>phase_of m i = PWait; stopping m i\<rbrakk> \<Longrightarrow> mon_step m (goto i PExit m)"
| read: "phase_of m i = PRead \<Longrightarrow> mon_step m (poll_step i ts r m)"
| handler_return: "phase_of m i = PHandler ev \<Longrightarrow> mon_step m (goto i (PEmit ev) m)"
| handler_stop: "\<lbrakk>phase_of m i = PHandler ev; j \<in> {1..mon_nextID m}\<rbrakk> \<Longrightarrow>
    mon_step m (goto i (PStop ev j) (removeSubscription j m))"
| handler_resume: "\<lbrakk>phase_of m i = PStop ev j; s_once (mon_heap m j) = OnceDone\<rbrakk> \<Longrightarrow>
    mon_step m (goto i (PHandler ev) m)"
| emit_stopped: "\<lbrakk>phase_of m i = PEmit ev; mon_stopCh m\<rbrakk> \<Longrightarrow> mon_step m (goto i PWait m)"
| emit_go: "\<lbrakk>phase_of m i = PEmit ev; \<not> mon_stopCh m\<rbrakk> \<Longrightarrow> mon_step m (goto i (PLock ev) m)"
| emit_lock: "\<lbrakk>phase_of m i = PLock ev; set ks = set (mon_subscribers m); distinct ks\<rbrakk> \<Longrightarrow>
    mon_step m (goto i (PSend ev ks) m)"
| emit_send: "phase_of m i = PSend ev (k # ks) \<Longrightarrow> mon_step m (goto i (PSend ev ks) (send_subscriber ev k m))"
| emit_unlock: "phase_of m i = PSend ev [] \<Longrightarrow> mon_step m (goto i (PLast ev) m)"
| last_stopped: "\<lbrakk>phase_of m i = PLast ev; mon_stopCh m\<rbrakk> \<Longrightarrow> mon_step m (goto i PWait m)"
| last_send: "phase_of m i = PLast ev \<Longrightarrow> mon_step m (goto i PWait (send_event ev m))"
| run_return: "phase_of m i = PExit \<Longrightarrow> mon_step m (upd_sub i (\<lambda>s. s\<lparr>s_doneCh := True, s_phase := PDone\<rparr>) m)"
| wg_done: "phase_of m i = PDone \<Longrightarrow> mon_step m ((goto i PGone m)\<lparr>mon_wg := mon_wg m - 1\<rparr>)"
| close_begin: "mon_closing m = CNot \<Longrightarrow> mon_step m (m\<lparr>mon_stopCh := True, mon_closing := CLock\<rparr>)"
| close_lock: "mon_closing m = CLock \<Longrightarrow> mon_step m (close_take m)"
| close_stop: "\<lbrakk>mon_closing m = CStop js; i \<in> set js\<rbrakk> \<Longrightarrow>
    mon_step m ((upd_sub i stop m)\<lparr>mon_closing := CWaitSub i (removeAll i js)\<rparr>)"
| close_stopped: "\<lbrakk>mon_closing m = CWaitSub i js; s_doneCh (mon_heap m i)\<rbrakk> \<Longrightarrow>
    mon_step m (m\<lparr>mon_closing := CStop js\<rparr>)"
| close_wait: "mon_closing m = CStop [] \<Longrightarrow> mon_step m (m\<lparr>mon_closing := CWg\<rparr>)"
| close_ch: "\<lbrakk>mon_closing m = CWg; mon_wg m = 0\<rbrakk> \<Longrightarrow> mon_step m (close_events m)"
| close_end: "\<lbrakk>mon_closing m = CSubs; \<not> read_locked m\<rbrakk> \<Longrightarrow> mon_step m (close_subscribers m)"

section \<open>The invariant\<close>

text \<open>
  The wait group counts the goroutines that are not gone; the shared channel is closed only when
  none is left; registered subscribers have open channels, and a goroutine under the lock sends to
  registered ones only.
\<close>

definition live :: "'p Monitor \<Rightarrow> nat set" where
  "live m = {i. phase_of m i \<noteq> PGone}"

definition sends_ok :: "'p Monitor \<Rightarrow> bool" where
  "sends_ok m = (\<forall>i ev ks. phase_of m i = PSend ev ks \<longrightarrow> set ks \<subseteq> set (mon_subscribers m))"

definition chans_ok :: "'p Monitor \<Rightarrow> bool" where
  "chans_ok m = (\<forall>k \<in> set (mon_subscribers m). k < length (mon_chans m) \<and> \<not> ch_closed (mon_chans m ! k))"

definition closing_ok :: "'p Monitor \<Rightarrow> bool" where
  "closing_ok m \<longleftrightarrow>
     (mon_stopCh m \<longleftrightarrow> mon_closing m \<noteq> CNot) \<and>
     (mon_closed m \<longleftrightarrow> mon_closing m \<notin> {CNot, CLock}) \<and>
     (ch_closed (mon_events m) \<longleftrightarrow> mon_closing m \<in> {CSubs, CDone}) \<and>
     (mon_closing m \<in> {CSubs, CDone} \<longrightarrow> live m = {}) \<and>
     (mon_closing m = CDone \<longrightarrow> mon_subscribers m = [])"

definition mon_inv :: "'p Monitor \<Rightarrow> bool" where
  "mon_inv m \<longleftrightarrow>
     live m \<subseteq> {1..mon_nextID m} \<and> mon_wg m = card (live m) \<and> sends_ok m \<and> chans_ok m \<and> closing_ok m \<and>
     \<not> mon_panic m"

lemmas inv_defs = mon_inv_def sends_ok_def chans_ok_def closing_ok_def

lemma mon_inv_New: "mon_inv (NewMonitor n g p0)"
  by (simp add: inv_defs live_def NewMonitor_def make_chan_def)

lemma upd_sub_simps [simp]:
  "mon_subs (upd_sub i f m) = mon_subs m" "mon_closed (upd_sub i f m) = mon_closed m"
  "mon_nextID (upd_sub i f m) = mon_nextID m" "mon_stopCh (upd_sub i f m) = mon_stopCh m"
  "mon_events (upd_sub i f m) = mon_events m" "mon_wg (upd_sub i f m) = mon_wg m"
  "mon_connected (upd_sub i f m) = mon_connected m" "mon_chans (upd_sub i f m) = mon_chans m"
  "mon_subscribers (upd_sub i f m) = mon_subscribers m" "mon_closing (upd_sub i f m) = mon_closing m"
  "mon_panic (upd_sub i f m) = mon_panic m"
  "mon_heap (upd_sub i f m) j = (if j = i then f (mon_heap m i) else mon_heap m j)"
  by (simp_all add: upd_sub_def)

text \<open>The goroutine of a live subscription may go anywhere it is still counted.\<close>

lemma upd_sub_inv:
  assumes "mon_inv m" "s_phase (f (mon_heap m i)) = PGone \<longleftrightarrow> phase_of m i = PGone"
    "\<And>ev ks. s_phase (f (mon_heap m i)) = PSend ev ks \<Longrightarrow> set ks \<subseteq> set (mon_subscribers m)"
  shows "mon_inv (upd_sub i f m)"
proof -
  have "live (upd_sub i f m) = live m" using assms(2) by (auto simp: live_def)
  with assms(1,3) show ?thesis by (auto simp: inv_defs)
qed

text \<open>What leaves the goroutines, the wait group and the progress of \<^verbatim>\<open>Close\<close> alone.\<close>

lemma chans_inv:
  assumes "mon_inv m" "mon_heap m' = mon_heap m" "mon_wg m' = mon_wg m" "mon_nextID m' = mon_nextID m"
    "mon_closing m' = mon_closing m" "mon_closed m' = mon_closed m" "mon_stopCh m' = mon_stopCh m"
    "ch_closed (mon_events m') = ch_closed (mon_events m)" "\<not> mon_panic m'"
    "chans_ok m'" "mon_subscribers m' = mon_subscribers m"
  shows "mon_inv m'"
  using assms by (auto simp: mon_inv_def sends_ok_def closing_ok_def live_def)

lemma removeSubscription_inv:
  assumes "mon_inv m"
  shows "mon_inv (removeSubscription i m)"
proof -
  have sends: "set ks \<subseteq> set (mon_subscribers m)" if "phase_of m i = PSend ev ks" for i ev ks
    using assms that unfolding mon_inv_def sends_ok_def by blast
  have "mon_inv (m\<lparr>mon_subs := js\<rparr>)" for js
    by (rule chans_inv [OF assms]) (use assms in \<open>simp_all add: mon_inv_def chans_ok_def\<close>)
  then have "mon_inv (upd_sub i (\<lambda>s. s\<lparr>s_once := r\<rparr>) (m\<lparr>mon_subs := js\<rparr>))" for r js
    by (rule upd_sub_inv) (use sends in auto)
  moreover have "mon_inv (upd_sub i (\<lambda>s. s\<lparr>s_once := r\<rparr>) m)" for r
    using assms by (rule upd_sub_inv) (use sends in auto)
  ultimately show ?thesis using assms by (simp add: removeSubscription_def)
qed

lemma not_locked:
  assumes "mon_inv m" "\<not> read_locked m"
  shows "phase_of m i \<noteq> PSend ev ks"
proof
  assume *: "phase_of m i = PSend ev ks"
  then have "i \<in> {1..mon_nextID m}" using assms(1) unfolding mon_inv_def live_def by force
  with * assms(2) show False unfolding read_locked_def by (auto dest!: bspec [where x = i])
qed

lemma Subscribe_inv:
  assumes "mon_inv m"
  shows "mon_inv (snd (Subscribe point opts m))"
proof -
  have "mon_inv (m\<lparr>mon_nextID := Suc (mon_nextID m),
      mon_heap := (mon_heap m)(Suc (mon_nextID m) := newSubscription p cfg),
      mon_subs := Suc (mon_nextID m) # mon_subs m, mon_wg := Suc (mon_wg m)\<rparr>)" (is "mon_inv ?m")
    if "\<not> mon_closed m" for p cfg
  proof -
    have sub: "live m \<subseteq> {1..mon_nextID m}" and wg: "mon_wg m = card (live m)"
      using assms by (simp_all add: mon_inv_def)
    then have new: "Suc (mon_nextID m) \<notin> live m" "finite (live m)" by (auto intro: finite_subset)
    have "live ?m = insert (Suc (mon_nextID m)) (live m)" by (auto simp: live_def newSubscription_def)
    with sub wg new that assms show ?thesis by (auto simp: inv_defs newSubscription_def)
  qed
  with assms show ?thesis by (auto simp: Subscribe_def Let_def split: option.split sum.split)
qed

lemma wg_done_inv:
  assumes "mon_inv m" "phase_of m i = PDone"
  shows "mon_inv ((goto i PGone m)\<lparr>mon_wg := mon_wg m - 1\<rparr>)" (is "mon_inv ?m")
proof -
  have "live ?m = live m - {i}" "i \<in> live m" "finite (live m)"
    using assms finite_subset [of "live m" "{1..mon_nextID m}"] by (auto simp: live_def mon_inv_def)
  with assms show ?thesis by (auto simp: inv_defs)
qed

lemma close_subscriber_simps [simp]:
  "mon_heap (close_subscriber k m) = mon_heap m" "mon_wg (close_subscriber k m) = mon_wg m"
  "mon_nextID (close_subscriber k m) = mon_nextID m" "mon_closing (close_subscriber k m) = mon_closing m"
  "mon_closed (close_subscriber k m) = mon_closed m" "mon_stopCh (close_subscriber k m) = mon_stopCh m"
  "mon_events (close_subscriber k m) = mon_events m" "mon_panic (close_subscriber k m) = mon_panic m"
  "mon_subscribers (close_subscriber k m) = mon_subscribers m" "mon_subs (close_subscriber k m) = mon_subs m"
  "length (mon_chans (close_subscriber k m)) = length (mon_chans m)"
  by (simp_all add: close_subscriber_def)

lemma fold_close_subscriber:
  "mon_heap (fold close_subscriber ks m) = mon_heap m \<and> mon_wg (fold close_subscriber ks m) = mon_wg m \<and>
   mon_nextID (fold close_subscriber ks m) = mon_nextID m \<and>
   mon_closed (fold close_subscriber ks m) = mon_closed m \<and> mon_stopCh (fold close_subscriber ks m) = mon_stopCh m \<and>
   mon_events (fold close_subscriber ks m) = mon_events m \<and> mon_panic (fold close_subscriber ks m) = mon_panic m \<and>
   length (mon_chans (fold close_subscriber ks m)) = length (mon_chans m)"
  by (induction ks arbitrary: m) simp_all

lemma goto_inv:
  assumes "mon_inv m" "phase_of m i \<noteq> PGone" "p \<noteq> PGone"
    "\<And>ev ks. p = PSend ev ks \<Longrightarrow> set ks \<subseteq> set (mon_subscribers m)"
  shows "mon_inv (goto i p m)"
  using assms by (intro upd_sub_inv) auto

lemma inv_sends: "\<lbrakk>mon_inv m; phase_of m i = PSend ev ks\<rbrakk> \<Longrightarrow> set ks \<subseteq> set (mon_subscribers m)"
  unfolding mon_inv_def sends_ok_def by blast

lemma handler_stop_inv:
  assumes "mon_inv m" "phase_of m i = PHandler ev"
  shows "mon_inv (goto i (PStop ev j) (removeSubscription j m))"
proof (rule goto_inv [OF removeSubscription_inv [OF assms(1)]])
  show "phase_of (removeSubscription j m) i \<noteq> PGone"
    using assms(2) by (cases "i = j") (simp_all add: removeSubscription_def)
qed simp_all

lemma NewSubscriber_inv:
  assumes "mon_inv m" "\<not> read_locked m"
  shows "mon_inv (snd (NewSubscriber sz m))"
proof (cases "mon_stopCh m")
  case False
  let ?m = "snd (NewSubscriber sz m)"
  have "chans_ok ?m" using assms(1) False by (auto simp: mon_inv_def chans_ok_def NewSubscriber_def make_chan_def nth_append)
  moreover have "sends_ok ?m"
    using not_locked [OF assms] False by (simp add: sends_ok_def NewSubscriber_def)
  ultimately show ?thesis using assms(1) False
    by (simp add: mon_inv_def closing_ok_def live_def NewSubscriber_def)
qed (use assms in \<open>simp add: NewSubscriber_def\<close>)

lemma unregister_inv:
  assumes "mon_inv m" "\<not> read_locked m"
  shows "mon_inv (unregisterSubscriber k m)"
  using assms(1) not_locked [OF assms]
  by (simp add: mon_inv_def closing_ok_def sends_ok_def chans_ok_def live_def unregisterSubscriber_def)

lemma close_subscriber_inv:
  assumes "mon_inv m" "k \<notin> set (mon_subscribers m)"
  shows "mon_inv (close_subscriber k m)"
proof (rule chans_inv [OF assms(1)])
  show "chans_ok (close_subscriber k m)" using assms
    by (cases "k < length (mon_chans m)")
      (auto simp: mon_inv_def chans_ok_def close_subscriber_def nth_list_update)
qed (use assms in \<open>simp_all add: mon_inv_def\<close>)

lemma set_chan_inv:
  assumes "mon_inv m" "ch_closed c = ch_closed (mon_chans m ! k)"
  shows "mon_inv (m\<lparr>mon_chans := (mon_chans m)[k := c]\<rparr>)"
proof (rule chans_inv [OF assms(1)])
  show "chans_ok (m\<lparr>mon_chans := (mon_chans m)[k := c]\<rparr>)" using assms
    by (cases "k < length (mon_chans m)") (auto simp: mon_inv_def chans_ok_def nth_list_update)
qed (use assms in \<open>simp_all add: mon_inv_def\<close>)

lemma set_events_inv:
  assumes "mon_inv m" "ch_closed c = ch_closed (mon_events m)"
  shows "mon_inv (m\<lparr>mon_events := c\<rparr>)"
  by (rule chans_inv [OF assms(1)]) (use assms in \<open>simp_all add: mon_inv_def chans_ok_def\<close>)

lemma ch_closed_try_send [simp]: "ch_closed (try_send x c) = ch_closed c"
  by (simp add: try_send_def)

lemma send_subscriber_inv:
  assumes "mon_inv m" "k \<in> set (mon_subscribers m)"
  shows "mon_inv (send_subscriber ev k m)"
proof -
  have "\<not> ch_closed (mon_chans m ! k)" using assms by (simp add: mon_inv_def chans_ok_def)
  with set_chan_inv [OF assms(1)] show ?thesis by (simp add: send_subscriber_def)
qed

lemma emit_send_inv:
  assumes "mon_inv m" "phase_of m i = PSend ev (k # ks)"
  shows "mon_inv (goto i (PSend ev ks) (send_subscriber ev k m))"
  using inv_sends [OF assms] send_subscriber_inv [OF assms(1), of k ev] assms(2)
  by (intro goto_inv) (simp_all add: send_subscriber_def)

text \<open>While a goroutine is left the shared channel is open.\<close>

lemma events_open: "\<lbrakk>mon_inv m; phase_of m i \<noteq> PGone\<rbrakk> \<Longrightarrow> \<not> ch_closed (mon_events m)"
  unfolding mon_inv_def closing_ok_def live_def by blast

lemma send_event_inv:
  assumes "mon_inv m" "phase_of m i = PLast ev"
  shows "mon_inv (goto i PWait (send_event ev m))"
proof -
  have "\<not> ch_closed (mon_events m)" using events_open [OF assms(1), of i] assms(2) by simp
  with set_events_inv [OF assms(1)] have "mon_inv (send_event ev m)" by (simp add: send_event_def)
  then show ?thesis using assms(2) by (intro goto_inv) (simp_all add: send_event_def)
qed

text \<open>The steps of \<^verbatim>\<open>Close\<close> before the channels.\<close>

lemma closing_inv:
  assumes "mon_inv m" "c \<notin> {CSubs, CDone}" "mon_closing m \<notin> {CSubs, CDone}"
    "a \<longleftrightarrow> c \<noteq> CNot" "b \<longleftrightarrow> c \<notin> {CNot, CLock}"
  shows "mon_inv (m\<lparr>mon_stopCh := a, mon_closed := b, mon_subs := js, mon_closing := c\<rparr>)"
proof -
  let ?m = "m\<lparr>mon_stopCh := a, mon_closed := b, mon_subs := js, mon_closing := c\<rparr>"
  have "closing_ok ?m" using assms by (auto simp: mon_inv_def closing_ok_def)
  moreover have "live ?m = live m" "sends_ok ?m = sends_ok m" "chans_ok ?m = chans_ok m"
    by (simp_all add: live_def sends_ok_def chans_ok_def)
  ultimately show ?thesis using assms(1) by (simp add: mon_inv_def)
qed

lemma closing_flags:
  assumes "mon_inv m"
  shows "mon_stopCh m \<longleftrightarrow> mon_closing m \<noteq> CNot" "mon_closed m \<longleftrightarrow> mon_closing m \<notin> {CNot, CLock}"
  using assms unfolding mon_inv_def closing_ok_def by blast+

lemma set_closing_inv:
  assumes "mon_inv m" "c \<notin> {CNot, CLock, CSubs, CDone}" "mon_closing m \<notin> {CNot, CLock, CSubs, CDone}"
  shows "mon_inv (m\<lparr>mon_closing := c\<rparr>)"
proof -
  have "m\<lparr>mon_closing := c\<rparr> = m\<lparr>mon_stopCh := True, mon_closed := True, mon_subs := mon_subs m, mon_closing := c\<rparr>"
    using closing_flags [OF assms(1)] assms(3) by simp
  also have "mon_inv \<dots>" using assms by (intro closing_inv) auto
  finally show ?thesis .
qed

lemma close_begin_inv:
  assumes "mon_inv m" "mon_closing m = CNot"
  shows "mon_inv (m\<lparr>mon_stopCh := True, mon_closing := CLock\<rparr>)"
proof -
  have "m\<lparr>mon_stopCh := True, mon_closing := CLock\<rparr> =
      m\<lparr>mon_stopCh := True, mon_closed := False, mon_subs := mon_subs m, mon_closing := CLock\<rparr>"
    using closing_flags [OF assms(1)] assms(2) by simp
  also have "mon_inv \<dots>" using assms by (intro closing_inv) auto
  finally show ?thesis .
qed

lemma close_take_inv:
  assumes "mon_inv m" "mon_closing m = CLock"
  shows "mon_inv (close_take m)"
proof -
  have "close_take m = m\<lparr>mon_stopCh := True, mon_closed := True, mon_subs := [], mon_closing := CStop (mon_subs m)\<rparr>"
    using closing_flags [OF assms(1)] assms(2) by (simp add: close_take_def)
  also have "mon_inv \<dots>" using assms by (intro closing_inv) auto
  finally show ?thesis .
qed

lemma stop_signal_inv:
  assumes "mon_inv m"
  shows "mon_inv (upd_sub i (\<lambda>s. s\<lparr>s_stopCh := b, s_once := r\<rparr>) m)"
  using assms by (rule upd_sub_inv) (simp_all add: inv_sends [OF assms])

lemma stop_inv: "mon_inv m \<Longrightarrow> mon_inv (upd_sub i stop m)"
  by (rule upd_sub_inv) (simp_all add: stop_def inv_sends)

lemma once_inv: "mon_inv m \<Longrightarrow> mon_inv (upd_sub i (\<lambda>s. s\<lparr>s_once := r\<rparr>) m)"
  by (rule upd_sub_inv) (simp_all add: inv_sends)

lemma close_stop_inv:
  assumes "mon_inv m" "mon_closing m = CStop js"
  shows "mon_inv ((upd_sub i stop m)\<lparr>mon_closing := CWaitSub i (removeAll i js)\<rparr>)"
  using stop_inv [OF assms(1)] assms(2) by (intro set_closing_inv) simp_all

lemma close_events_inv:
  assumes "mon_inv m" "mon_closing m = CWg" "mon_wg m = 0"
  shows "mon_inv (close_events m)"
proof -
  have "live m = {}"
    using assms finite_subset [of "live m" "{1..mon_nextID m}"] by (simp add: mon_inv_def)
  moreover have "\<not> ch_closed (mon_events m)" using assms(1,2) by (simp add: mon_inv_def closing_ok_def)
  ultimately show ?thesis using assms(1,2)
    by (simp add: mon_inv_def closing_ok_def sends_ok_def chans_ok_def live_def close_events_def closeCh_def)
qed

lemma close_subscribers_inv:
  assumes "mon_inv m" "mon_closing m = CSubs" "\<not> read_locked m"
  shows "mon_inv (close_subscribers m)"
  using assms(1,2) fold_close_subscriber [of "mon_subscribers m" m] not_locked [OF assms(1,3)]
  by (simp add: mon_inv_def closing_ok_def sends_ok_def chans_ok_def live_def close_subscribers_def)

lemma poll_step_inv:
  assumes "mon_inv m" "phase_of m i = PRead"
  shows "mon_inv (poll_step i ts r m)"
  unfolding poll_step_def Let_def case_prod_beta
  using assms(1) by (rule upd_sub_inv) (simp_all add: assms(2) split: if_splits)

lemma run_return_inv:
  assumes "mon_inv m" "phase_of m i = PExit"
  shows "mon_inv (upd_sub i (\<lambda>s. s\<lparr>s_doneCh := True, s_phase := PDone\<rparr>) m)"
  using assms(1) by (rule upd_sub_inv) (simp_all add: assms(2))

lemma mon_step_inv:
  assumes "mon_step m m'" "mon_inv m"
  shows "mon_inv m'"
  using assms
proof (induction rule: mon_step.induct)
  case (connected m b)
  then show ?case by (intro chans_inv [OF connected(2)]) (simp_all add: mon_inv_def chans_ok_def)
next
  case (stop_signal m i)
  then show ?case using stop_signal_inv [of m i OnceStopping True] by (simp add: stop_def)
next
  case (wg_done m i)
  then show ?case using wg_done_inv by blast
next
  case (emit_lock m i ev ks)
  then show ?case by (intro goto_inv) simp_all
qed (simp_all add: Subscribe_inv removeSubscription_inv wg_done_inv handler_stop_inv NewSubscriber_inv
    unregister_inv close_subscriber_inv set_chan_inv set_events_inv emit_send_inv send_event_inv set_closing_inv
    close_begin_inv close_take_inv once_inv close_stop_inv close_events_inv close_subscribers_inv poll_step_inv
    run_return_inv, (rule goto_inv; simp)+)

lemma monitor_inv_reachable:
  assumes "mon_step\<^sup>*\<^sup>* (NewMonitor n g p0) m"
  shows "mon_inv m"
  using assms by (induction rule: rtranclp_induct) (auto intro: mon_inv_New mon_step_inv)

section \<open>Goroutines and their channels\<close>

text \<open>
  A subscription's \<^verbatim>\<open>doneCh\<close> is closed exactly from the return of its \<^verbatim>\<open>run\<close> on; what the table and
  \<^verbatim>\<open>Close\<close> hold are subscriptions that were made.
\<close>

definition to_stop :: "closing \<Rightarrow> nat set" where
  "to_stop c = (case c of CStop js \<Rightarrow> set js | CWaitSub i js \<Rightarrow> insert i (set js) | _ \<Rightarrow> {})"

definition done_ok :: "'p Monitor \<Rightarrow> bool" where
  "done_ok m \<longleftrightarrow>
     (\<forall>i \<in> {1..mon_nextID m}. s_doneCh (mon_heap m i) \<longleftrightarrow> phase_of m i \<in> {PDone, PGone}) \<and>
     set (mon_subs m) \<union> to_stop (mon_closing m) \<subseteq> {1..mon_nextID m}"

lemma done_ok_New: "done_ok (NewMonitor n g p0)"
  by (simp add: done_ok_def NewMonitor_def to_stop_def)

lemma upd_done:
  assumes "done_ok m" "s_doneCh (f (mon_heap m i)) = s_doneCh (mon_heap m i)"
    "s_phase (f (mon_heap m i)) \<in> {PDone, PGone} \<longleftrightarrow> phase_of m i \<in> {PDone, PGone}"
  shows "done_ok (upd_sub i f m)"
  using assms by (simp add: done_ok_def)

lemma goto_done:
  assumes "done_ok m" "p \<in> {PDone, PGone} \<longleftrightarrow> phase_of m i \<in> {PDone, PGone}"
  shows "done_ok (goto i p m)"
  using assms by (intro upd_done) simp_all

lemma same_done:
  assumes "done_ok m" "mon_heap m' = mon_heap m" "mon_nextID m' = mon_nextID m"
    "set (mon_subs m') \<union> to_stop (mon_closing m') \<subseteq> set (mon_subs m) \<union> to_stop (mon_closing m)"
  shows "done_ok m'"
  using assms unfolding done_ok_def by auto

lemma removeSubscription_done:
  assumes "done_ok m"
  shows "done_ok (removeSubscription i m)"
proof -
  have "done_ok (m\<lparr>mon_subs := removeAll i (mon_subs m)\<rparr>)" by (rule same_done [OF assms]) auto
  then have "done_ok (upd_sub i (\<lambda>s. s\<lparr>s_once := OnceRemoved\<rparr>) (m\<lparr>mon_subs := removeAll i (mon_subs m)\<rparr>))"
    by (rule upd_done) simp_all
  moreover have "done_ok (upd_sub i (\<lambda>s. s\<lparr>s_once := OnceDone\<rparr>) m)" using assms by (rule upd_done) simp_all
  ultimately show ?thesis using assms by (simp add: removeSubscription_def)
qed

lemma Subscribe_done:
  assumes "done_ok m"
  shows "done_ok (snd (Subscribe point opts m))"
proof -
  have "done_ok (m\<lparr>mon_nextID := Suc (mon_nextID m),
      mon_heap := (mon_heap m)(Suc (mon_nextID m) := newSubscription p cfg),
      mon_subs := Suc (mon_nextID m) # mon_subs m, mon_wg := Suc (mon_wg m)\<rparr>)" for p cfg
    using assms unfolding done_ok_def by (fastforce simp: newSubscription_def)
  with assms show ?thesis by (simp add: Subscribe_def Let_def split: option.split sum.split)
qed

lemma phase_removeSubscription [simp]: "phase_of (removeSubscription j m) i = phase_of m i"
  by (cases "i = j") (simp_all add: removeSubscription_def)

lemma send_done:
  assumes "done_ok m"
  shows "done_ok (send_subscriber ev k m)" "done_ok (send_event ev m)"
  by (rule same_done [OF assms]; simp add: send_subscriber_def send_event_def)+

lemma send_phase [simp]:
  "phase_of (send_subscriber ev k m) i = phase_of m i" "phase_of (send_event ev m) i = phase_of m i"
  by (simp_all add: send_subscriber_def send_event_def)

lemma fold_close_subs [simp]: "mon_subs (fold close_subscriber ks m) = mon_subs m"
  by (induction ks arbitrary: m) simp_all

lemma close_stop_done:
  assumes "done_ok m" "mon_closing m = CStop js" "i \<in> set js"
  shows "done_ok ((upd_sub i stop m)\<lparr>mon_closing := CWaitSub i (removeAll i js)\<rparr>)"
proof (rule same_done)
  show "done_ok (upd_sub i stop m)" using assms(1) by (rule upd_done) (simp_all add: stop_def)
qed (use assms in \<open>auto simp: to_stop_def\<close>)

lemma mon_step_done:
  assumes "mon_step m m'" "done_ok m"
  shows "done_ok m'"
  using assms
proof (induction rule: mon_step.induct)
  case (stop_signal m i)
  show ?case by (rule upd_done [OF stop_signal(2)]) (simp_all add: stop_def)
next
  case (stop_return m i)
  show ?case by (rule upd_done [OF stop_return(3)]) simp_all
next
  case (new_subscriber m sz)
  show ?case by (rule same_done [OF new_subscriber(2)]) (simp_all add: NewSubscriber_def)
next
  case (read m i ts r)
  show ?case unfolding poll_step_def Let_def case_prod_beta
    by (rule upd_done [OF read(2)]) (simp_all add: read(1))
next
  case (run_return m i)
  then show ?case by (simp add: done_ok_def)
next
  case (wg_done m i)
  have "done_ok (goto i PGone m)" by (rule goto_done [OF wg_done(2)]) (simp add: wg_done(1))
  then show ?case by (rule same_done) simp_all
next
  case (close_stop m js i)
  then show ?case by (intro close_stop_done)
next
  case (close_end m)
  show ?case using fold_close_subscriber [of "mon_subscribers m" m]
    by (intro same_done [OF close_end(3)]) (simp_all add: close_subscribers_def to_stop_def fold_close_subs)
next
  case (connected m b)
  show ?case by (rule same_done [OF connected(2)]) simp_all
next
  case (done_unregister m k)
  show ?case by (rule same_done [OF done_unregister(2)]) (simp_all add: unregisterSubscriber_def)
next
  case (done_close k m)
  show ?case by (rule same_done [OF done_close(3)]) simp_all
next
  case (receive k m x xs)
  show ?case by (rule same_done [OF receive(3)]) simp_all
next
  case (receive_events m x xs)
  show ?case by (rule same_done [OF receive_events(2)]) simp_all
next
  case (close_begin m)
  then show ?case by (intro same_done [OF close_begin(2)]) (simp_all add: to_stop_def)
next
  case (close_lock m)
  then show ?case by (intro same_done [OF close_lock(2)]) (simp_all add: close_take_def to_stop_def)
next
  case (close_stopped m i js)
  then show ?case by (intro same_done [OF close_stopped(3)]) (auto simp: to_stop_def)
next
  case (close_wait m)
  then show ?case by (intro same_done [OF close_wait(2)]) (simp_all add: to_stop_def)
next
  case (close_ch m)
  then show ?case by (intro same_done [OF close_ch(3)]) (simp_all add: close_events_def to_stop_def)
qed (simp_all add: Subscribe_done removeSubscription_done,
    (rule goto_done; simp add: removeSubscription_done send_done)+)

lemma monitor_reachable_ok:
  assumes "mon_step\<^sup>*\<^sup>* (NewMonitor n g p0) m"
  shows "mon_inv m" "done_ok m"
  using assms by (induction rule: rtranclp_induct) (auto intro: mon_inv_New mon_step_inv done_ok_New mon_step_done)

section \<open>A handler that stops its own subscription\<close>

text \<open>The handler of a subscription waits in \<^verbatim>\<open>Stop\<close> for its own goroutine.\<close>

definition self_stop :: "nat \<Rightarrow> 'p Event \<Rightarrow> 'p Monitor \<Rightarrow> bool" where
  "self_stop i ev m \<longleftrightarrow>
     i \<in> {1..mon_nextID m} \<and> phase_of m i = PStop ev i \<and>
     s_once (mon_heap m i) \<in> {OnceRemoved, OnceStopping} \<and> \<not> s_doneCh (mon_heap m i)"

lemma upd_self_stop:
  assumes "self_stop i ev m"
    "j = i \<Longrightarrow> s_phase (f (mon_heap m i)) = PStop ev i \<and> s_once (f (mon_heap m i)) \<in> {OnceRemoved, OnceStopping} \<and>
      \<not> s_doneCh (f (mon_heap m i))"
  shows "self_stop i ev (upd_sub j f m)"
  using assms by (auto simp: self_stop_def)

lemma same_self_stop:
  assumes "self_stop i ev m" "mon_heap m' i = mon_heap m i" "mon_nextID m \<le> mon_nextID m'"
  shows "self_stop i ev m'"
  using assms by (auto simp: self_stop_def)

lemma removeSubscription_self_stop: "self_stop i ev m \<Longrightarrow> self_stop i ev (removeSubscription j m)"
  by (cases "j = i") (auto simp: self_stop_def removeSubscription_def)

lemma Subscribe_heap:
  "i \<le> mon_nextID m \<Longrightarrow> mon_heap (snd (Subscribe point opts m)) i = mon_heap m i"
  "mon_nextID m \<le> mon_nextID (snd (Subscribe point opts m))"
  by (simp_all add: Subscribe_def Let_def split: option.split sum.split)

lemma mon_step_self_stop:
  assumes "mon_step m m'" "self_stop i ev m"
  shows "self_stop i ev m'"
  using assms
proof (induction rule: mon_step.induct)
  case (subscribe m point opts)
  then have "i \<le> mon_nextID m" by (simp add: self_stop_def)
  with Subscribe_heap(1) [of i m point opts] Subscribe_heap(2) [of m point opts] show ?case by (intro same_self_stop [OF subscribe])
next
  case (close_end m)
  show ?case using fold_close_subscriber [of "mon_subscribers m" m]
    by (intro same_self_stop [OF close_end(3)]) (simp_all add: close_subscribers_def)
next
  case (new_subscriber m sz)
  show ?case by (rule same_self_stop [OF new_subscriber(2)]) (simp_all add: NewSubscriber_def)
next
  case (stop_signal m j)
  then show ?case by (intro upd_self_stop) (auto simp: self_stop_def stop_def)
next
  case (stop_return m j)
  then show ?case by (intro upd_self_stop) (auto simp: self_stop_def)
next
  case (read m j ts r)
  then show ?case unfolding poll_step_def Let_def case_prod_beta
    by (intro upd_self_stop) (auto simp: self_stop_def)
next
  case (handler_stop m j ev' k)
  then show ?case using removeSubscription_self_stop [OF handler_stop(3), of k]
    by (intro upd_self_stop) (auto simp: self_stop_def)
next
  case (handler_resume m j ev' k)
  then show ?case by (intro upd_self_stop) (auto simp: self_stop_def)
next
  case (emit_send m j ev' k ks)
  have "self_stop i ev (send_subscriber ev' k m)"
    by (rule same_self_stop [OF emit_send(2)]) (simp_all add: send_subscriber_def)
  then show ?case using emit_send by (intro upd_self_stop) (auto simp: self_stop_def)
next
  case (last_send m j ev')
  have "self_stop i ev (send_event ev' m)"
    by (rule same_self_stop [OF last_send(2)]) (simp_all add: send_event_def)
  then show ?case using last_send by (intro upd_self_stop) (auto simp: self_stop_def)
next
  case (wg_done m j)
  then have "self_stop i ev (goto j PGone m)" by (intro upd_self_stop) (auto simp: self_stop_def)
  then show ?case by (rule same_self_stop) simp_all
next
  case (close_stop m js j)
  then have "self_stop i ev (upd_sub j stop m)" by (intro upd_self_stop) (auto simp: self_stop_def stop_def)
  then show ?case by (rule same_self_stop) simp_all
next
  case (done_unregister m k)
  show ?case by (rule same_self_stop [OF done_unregister(2)]) (simp_all add: unregisterSubscriber_def)
next
  case (close_lock m)
  show ?case by (rule same_self_stop [OF close_lock(2)]) (simp_all add: close_take_def)
next
  case (close_ch m)
  show ?case by (rule same_self_stop [OF close_ch(3)]) (simp_all add: close_events_def)
next
  case (run_return m j)
  then show ?case by (intro upd_self_stop) (auto simp: self_stop_def)
next
  case (stop_call j m)
  then show ?case by (intro removeSubscription_self_stop)
qed (auto simp: self_stop_def)

lemma self_stop_forever:
  assumes "mon_step\<^sup>*\<^sup>* m m'" "mon_inv m" "self_stop i ev m"
  shows "self_stop i ev m' \<and> \<not> ch_closed (mon_events m') \<and> mon_closing m' \<noteq> CDone"
proof -
  from assms have "mon_inv m' \<and> self_stop i ev m'"
    by (induction rule: rtranclp_induct) (auto intro: mon_step_inv mon_step_self_stop)
  moreover from this have "\<not> ch_closed (mon_events m')" using events_open [of m' i] by (simp add: self_stop_def)
  ultimately show ?thesis by (auto simp: mon_inv_def closing_ok_def)
qed

section \<open>Closing can always finish\<close>

text \<open>How far a goroutine is from its end once the monitor is stopped.\<close>

fun rank :: "nat \<Rightarrow> 'p phase \<Rightarrow> nat" where
  "rank n PGone = 0"
| "rank n PDone = 1"
| "rank n PExit = 2"
| "rank n PWait = 3"
| "rank n (PLast ev) = 4"
| "rank n (PSend ev ks) = 5 + length ks"
| "rank n (PLock ev) = 6 + n"
| "rank n (PEmit ev) = 4"
| "rank n (PHandler ev) = 5"
| "rank n (PStop ev j) = 0"
| "rank n PRead = 5"
| "rank n PFirst = 6"
| "rank n PGate = 7"

text \<open>What a goroutine on its way out leaves as it was.\<close>

definition others_kept :: "nat \<Rightarrow> 'p Monitor \<Rightarrow> 'p Monitor \<Rightarrow> bool" where
  "others_kept i m m' \<longleftrightarrow>
     (\<forall>j. j \<noteq> i \<longrightarrow> phase_of m' j = phase_of m j) \<and> mon_closing m' = mon_closing m \<and> mon_stopCh m' = mon_stopCh m \<and>
     mon_subscribers m' = mon_subscribers m \<and> mon_nextID m' = mon_nextID m"

lemma others_kept_trans: "\<lbrakk>others_kept i m m1; others_kept i m1 m2\<rbrakk> \<Longrightarrow> others_kept i m m2"
  by (simp add: others_kept_def)

lemma others_kept_upd: "others_kept i m (upd_sub i f m)"
  by (simp add: others_kept_def)

lemma one_step_out:
  assumes "mon_stopCh m" "phase_of m i \<noteq> PGone" "\<And>ev j. phase_of m i \<noteq> PStop ev j"
  shows "\<exists>m'. mon_step m m' \<and> others_kept i m m' \<and> (\<forall>ev j. phase_of m' i \<noteq> PStop ev j) \<and>
    rank (length (remdups (mon_subscribers m))) (phase_of m' i) <
      rank (length (remdups (mon_subscribers m))) (phase_of m i)"
proof (cases "phase_of m i")
  case PGate
  show ?thesis
  proof (cases "mon_connected m")
    case None
    with PGate gate_open [of m i] show ?thesis by (intro exI [of _ "goto i PFirst m"]) (simp add: others_kept_upd)
  next
    case (Some b)
    with PGate assms(1) gate_stop [of m i] show ?thesis
      by (intro exI [of _ "goto i PExit m"]) (simp add: others_kept_upd stopping_def)
  qed
next
  case PFirst
  with first_read [of m i] show ?thesis by (intro exI [of _ "goto i PRead m"]) (simp add: others_kept_upd)
next
  case PWait
  with assms(1) wait_stop [of m i] show ?thesis
    by (intro exI [of _ "goto i PExit m"]) (simp add: others_kept_upd stopping_def)
next
  case PRead
  with read [of m i 0 "Inl []"] show ?thesis
    by (intro exI [of _ "poll_step i 0 (Inl []) m"]) (simp add: poll_step_def poll_def Let_def others_kept_upd)
next
  case (PHandler ev)
  with handler_return [of m i ev] show ?thesis by (intro exI [of _ "goto i (PEmit ev) m"]) (simp add: others_kept_upd)
next
  case (PEmit ev)
  with assms(1) emit_stopped [of m i ev] show ?thesis by (intro exI [of _ "goto i PWait m"]) (simp add: others_kept_upd)
next
  case (PLock ev)
  with emit_lock [of m i ev "remdups (mon_subscribers m)"] show ?thesis
    by (intro exI [of _ "goto i (PSend ev (remdups (mon_subscribers m))) m"]) (simp add: others_kept_upd)
next
  case (PSend ev ks)
  show ?thesis
  proof (cases ks)
    case Nil
    with PSend emit_unlock [of m i ev] show ?thesis by (intro exI [of _ "goto i (PLast ev) m"]) (simp add: others_kept_upd)
  next
    case (Cons k ks')
    with PSend emit_send [of m i ev k ks'] show ?thesis
      by (intro exI [of _ "goto i (PSend ev ks') (send_subscriber ev k m)"])
        (simp add: others_kept_def, simp add: send_subscriber_def)
  qed
next
  case (PLast ev)
  with assms(1) last_stopped [of m i ev] show ?thesis by (intro exI [of _ "goto i PWait m"]) (simp add: others_kept_upd)
next
  case PExit
  with run_return [of m i] show ?thesis
    by (intro exI [of _ "upd_sub i (\<lambda>s. s\<lparr>s_doneCh := True, s_phase := PDone\<rparr>) m"]) (simp add: others_kept_upd)
next
  case PDone
  with wg_done [of m i] show ?thesis
    by (intro exI [of _ "(goto i PGone m)\<lparr>mon_wg := mon_wg m - 1\<rparr>"]) (simp add: others_kept_def)
qed (use assms in simp_all)

lemma goroutine_exits:
  assumes "mon_stopCh m" "\<And>ev j. phase_of m i \<noteq> PStop ev j"
  shows "\<exists>m'. mon_step\<^sup>*\<^sup>* m m' \<and> others_kept i m m' \<and> phase_of m' i = PGone"
  using assms
proof (induction "rank (length (remdups (mon_subscribers m))) (phase_of m i)" arbitrary: m rule: less_induct)
  case less
  show ?case
  proof (cases "phase_of m i = PGone")
    case True
    then show ?thesis by (intro exI [of _ m]) (simp add: others_kept_def)
  next
    case False
    from one_step_out [OF less(2) False less(3)] obtain m1 where m1: "mon_step m m1" "others_kept i m m1"
      "\<And>ev j. phase_of m1 i \<noteq> PStop ev j"
      "rank (length (remdups (mon_subscribers m))) (phase_of m1 i) <
        rank (length (remdups (mon_subscribers m))) (phase_of m i)"
      by blast
    then have "mon_subscribers m1 = mon_subscribers m" "mon_stopCh m1" using less(2) by (simp_all add: others_kept_def)
    with less(1) [of m1] m1(3,4) obtain m2 where "mon_step\<^sup>*\<^sup>* m1 m2" "others_kept i m1 m2" "phase_of m2 i = PGone"
      by auto
    with m1(1,2) show ?thesis by (meson converse_rtranclp_into_rtranclp others_kept_trans)
  qed
qed

definition no_handler_stop :: "'p Monitor \<Rightarrow> bool" where
  "no_handler_stop m = (\<forall>i ev j. phase_of m i \<noteq> PStop ev j)"

lemma goroutines_exit:
  assumes "mon_inv m" "mon_stopCh m" "no_handler_stop m"
  shows "\<exists>m'. mon_step\<^sup>*\<^sup>* m m' \<and> live m' = {} \<and> mon_closing m' = mon_closing m"
  using assms
proof (induction "card (live m)" arbitrary: m)
  case 0
  then have "live m = {}" using finite_subset [of "live m" "{1..mon_nextID m}"] by (simp add: mon_inv_def)
  then show ?case by blast
next
  case (Suc n)
  then obtain i where i: "i \<in> live m" by fastforce
  have fin: "finite (live m)" using Suc(3) finite_subset [of "live m" "{1..mon_nextID m}"] by (simp add: mon_inv_def)
  from goroutine_exits [of m i] Suc(4,5) obtain m1 where
    m1: "mon_step\<^sup>*\<^sup>* m m1" "others_kept i m m1" "phase_of m1 i = PGone"
    by (auto simp: no_handler_stop_def)
  have "live m1 = live m - {i}" using m1(2,3) by (auto simp: live_def others_kept_def)
  then have card: "n = card (live m1)" using Suc(2) i fin by simp
  have inv: "mon_inv m1" using m1(1) Suc(3) by (induction rule: rtranclp_induct) (auto intro: mon_step_inv)
  have "no_handler_stop m1" unfolding no_handler_stop_def
  proof (intro allI)
    fix j ev k
    show "phase_of m1 j \<noteq> PStop ev k"
      using m1(2,3) Suc(5) by (cases "j = i") (auto simp: others_kept_def no_handler_stop_def)
  qed
  then show ?case using Suc(1) [OF card inv] m1(1,2) Suc(4)
    by (metis others_kept_def rtranclp_trans)
qed

text \<open>With no goroutine left, \<^verbatim>\<open>Close\<close> runs through.\<close>

lemma close_stops:
  assumes "mon_inv m" "done_ok m" "live m = {}" "mon_closing m = CStop js"
  shows "\<exists>m'. mon_step\<^sup>*\<^sup>* m m' \<and> live m' = {} \<and> mon_closing m' = CStop []"
  using assms
proof (induction "length js" arbitrary: m js rule: less_induct)
  case less
  show ?case
  proof (cases js)
    case Nil
    with less(2-5) show ?thesis by blast
  next
    case (Cons i js')
    let ?m1 = "(upd_sub i stop m)\<lparr>mon_closing := CWaitSub i (removeAll i js)\<rparr>"
    let ?m2 = "?m1\<lparr>mon_closing := CStop (removeAll i js)\<rparr>"
    have i: "i \<in> set js" "i \<in> {1..mon_nextID m}"
      using less(3,5) Cons unfolding done_ok_def to_stop_def by auto
    then have "s_doneCh (mon_heap m i)" using less(3,4) unfolding done_ok_def live_def by blast
    then have s2: "mon_step ?m1 ?m2" by (intro close_stopped [of _ i]) (simp_all add: stop_def)
    have s1: "mon_step m ?m1" using less(5) i(1) by (rule close_stop)
    have live: "live ?m2 = {}" using less(4) by (auto simp: live_def stop_def split: if_splits)
    have "length (removeAll i js) < length js" using i(1) by (simp add: length_removeAll_less)
    then obtain m' where "mon_step\<^sup>*\<^sup>* ?m2 m'" "live m' = {}" "mon_closing m' = CStop []"
      using less(1) [of "removeAll i js" ?m2] live mon_step_inv [OF s2 mon_step_inv [OF s1 less(2)]]
        mon_step_done [OF s2 mon_step_done [OF s1 less(3)]] by auto
    with s1 s2 show ?thesis by (meson converse_rtranclp_into_rtranclp)
  qed
qed

lemma close_tail:
  assumes "mon_inv m" "live m = {}" "mon_closing m \<in> {CStop [], CWg, CSubs}"
  shows "\<exists>m'. mon_step\<^sup>*\<^sup>* m m' \<and> mon_closing m' = CDone"
proof -
  have subs: "\<exists>m'. mon_step\<^sup>*\<^sup>* m m' \<and> mon_closing m' = CDone" if "live m = {}" "mon_closing m = CSubs" for m :: "'a Monitor"
  proof -
    have "\<not> read_locked m" using that(1) unfolding read_locked_def live_def by auto
    with that(2) have "mon_step m (close_subscribers m)" by (intro close_end)
    then show ?thesis by (auto simp: close_subscribers_def intro!: exI [of _ "close_subscribers m"])
  qed
  have wg: "\<exists>m'. mon_step\<^sup>*\<^sup>* m m' \<and> mon_closing m' = CDone" if "mon_inv m" "live m = {}" "mon_closing m = CWg" for m :: "'a Monitor"
  proof -
    have "mon_step m (close_events m)" using that by (intro close_ch) (simp_all add: mon_inv_def)
    moreover have "live (close_events m) = {}" "mon_closing (close_events m) = CSubs"
      using that by (simp_all add: close_events_def live_def mon_inv_def closing_ok_def)
    ultimately show ?thesis using subs by (meson converse_rtranclp_into_rtranclp)
  qed
  have "mon_step m (m\<lparr>mon_closing := CWg\<rparr>)" if "mon_closing m = CStop []" using that by (rule close_wait)
  then show ?thesis using assms subs wg [of "m\<lparr>mon_closing := CWg\<rparr>"] wg [of m]
    by (auto simp: live_def dest: mon_step_inv intro: converse_rtranclp_into_rtranclp)
qed

lemma close_finishes:
  assumes "mon_inv m" "done_ok m" "live m = {}" "mon_stopCh m"
  shows "\<exists>m'. mon_step\<^sup>*\<^sup>* m m' \<and> mon_closing m' = CDone"
proof -
  have go: "\<exists>m'. mon_step\<^sup>*\<^sup>* m m' \<and> mon_closing m' = CDone"
    if "mon_inv m" "done_ok m" "live m = {}" "mon_closing m = CStop js" for m :: "'a Monitor" and js
  proof -
    from close_stops [OF that] obtain m1 where m1: "mon_step\<^sup>*\<^sup>* m m1" "live m1 = {}" "mon_closing m1 = CStop []" by blast
    have "mon_inv m1" using m1(1) that(1) by (induction rule: rtranclp_induct) (auto intro: mon_step_inv)
    with close_tail [of m1] m1(2,3) obtain m2 where "mon_step\<^sup>*\<^sup>* m1 m2" "mon_closing m2 = CDone" by auto
    with m1(1) show ?thesis by (meson rtranclp_trans)
  qed
  show ?thesis
  proof (cases "mon_closing m")
    case CNot
    with assms(1,4) show ?thesis by (simp add: mon_inv_def closing_ok_def)
  next
    case CLock
    then have s: "mon_step m (close_take m)" by (rule close_lock)
    moreover have "live (close_take m) = {}" using assms(3) by (simp add: live_def close_take_def)
    moreover have "mon_closing (close_take m) = CStop (mon_subs m)" by (simp add: close_take_def)
    ultimately show ?thesis using go [of "close_take m"] mon_step_inv [OF s assms(1)] mon_step_done [OF s assms(2)]
      by (meson converse_rtranclp_into_rtranclp)
  next
    case (CStop js)
    with go assms show ?thesis by blast
  next
    case (CWaitSub i js)
    let ?m = "m\<lparr>mon_closing := CStop js\<rparr>"
    have "i \<in> {1..mon_nextID m}" using assms(2) CWaitSub unfolding done_ok_def to_stop_def by auto
    then have "s_doneCh (mon_heap m i)" using assms(2,3) unfolding done_ok_def live_def by blast
    with CWaitSub have s: "mon_step m ?m" by (intro close_stopped)
    moreover have "live ?m = {}" using assms(3) by (simp add: live_def)
    ultimately show ?thesis using go [of ?m js] mon_step_inv [OF s assms(1)] mon_step_done [OF s assms(2)]
      by (simp add: converse_rtranclp_into_rtranclp) (meson converse_rtranclp_into_rtranclp)
  next
    case CWg
    with close_tail assms show ?thesis by blast
  next
    case CSubs
    with close_tail assms show ?thesis by blast
  next
    case CDone
    then show ?thesis by blast
  qed
qed

section \<open>Properties\<close>

text \<open>A run that ends in the handler of the first poll.\<close>

definition sample_start :: "unit Monitor" where
  "sample_start = snd (Subscribe (Some ()) [WithHandler True] (NewMonitor 1 None ()))"

definition sample_handler :: "unit Monitor" where
  "sample_handler = poll_step 1 0 (Inr [no_value]) (goto 1 PRead (goto 1 PFirst sample_start))"

definition sample_event :: "unit Event" where
  "sample_event =
     \<lparr>ev_SubscriptionID = 1, ev_Snapshot = \<lparr>sn_Point = (), sn_Value = no_value, sn_Timestamp = 0\<rparr>,
      ev_Err = None, ev_Changed = True\<rparr>"

lemmas sample_defs = sample_start_def sample_handler_def Subscribe_def WithHandler_def NewMonitor_def
  newSubscription_def defaultSubConfig_def poll_step_def poll_def make_chan_def

lemma sample_run: "mon_step\<^sup>*\<^sup>* (NewMonitor 1 None ()) sample_handler"
proof -
  let ?m1 = sample_start and ?m2 = "goto 1 PFirst sample_start" and ?m3 = "goto 1 PRead (goto 1 PFirst sample_start)"
  have "mon_step (NewMonitor 1 None ()) ?m1" unfolding sample_start_def by (rule subscribe)
  moreover have "mon_step ?m1 ?m2" by (rule gate_open) (simp_all add: sample_defs res_simps)
  moreover have "mon_step ?m2 ?m3" by (rule first_read) simp
  moreover have "mon_step ?m3 sample_handler" unfolding sample_handler_def by (rule read) simp
  ultimately show ?thesis by (meson r_into_rtranclp rtranclp_trans)
qed

lemma sample_handler_state:
  "phase_of sample_handler 1 = PHandler sample_event" "mon_subs sample_handler = [1]"
  "s_once (mon_heap sample_handler 1) = OnceFree" "mon_closing sample_handler = CNot" "mon_wg sample_handler = 1"
  by (simp_all add: sample_defs sample_event_def res_simps Let_def)

text \<open>
  C15: no operation on a channel panics, in any interleaving.  In every state the monitor can
  reach, through any order of \<^verbatim>\<open>Subscribe\<close>, \<^verbatim>\<open>Stop\<close>, \<^verbatim>\<open>NewSubscriber\<close>, \<^verbatim>\<open>Done\<close>, \<^verbatim>\<open>Close\<close>, polls, handlers and
  receives: nothing was sent on a closed channel and the shared channel was not closed twice, the
  wait group counts exactly the goroutines that have not ended, the shared channel is closed only
  after all of them ended, and the subscribers a send can reach have open channels.
\<close>

theorem monitor_never_panics:
  assumes "mon_step\<^sup>*\<^sup>* (NewMonitor n g p0) m"
  shows "\<not> mon_panic m \<and> mon_wg m = card {i. phase_of m i \<noteq> PGone} \<and>
    (ch_closed (mon_events m) \<longrightarrow> (\<forall>i. phase_of m i = PGone)) \<and>
    (\<forall>i ev ks k. phase_of m i = PSend ev ks \<longrightarrow> k \<in> set ks \<longrightarrow> \<not> ch_closed (mon_chans m ! k))"
proof -
  have inv: "mon_inv m" using assms by (rule monitor_inv_reachable)
  then have "\<not> ch_closed (mon_chans m ! k)" if "phase_of m i = PSend ev ks" "k \<in> set ks" for i ev ks k
    using inv_sends [OF inv that(1)] that(2) by (auto simp: mon_inv_def chans_ok_def)
  with inv show ?thesis by (auto simp: mon_inv_def closing_ok_def live_def)
qed

theorem monitor_never_panics_witness:
  "\<not> mon_panic sample_handler \<and> card {i. phase_of sample_handler i \<noteq> PGone} = 1"
  using monitor_never_panics [OF sample_run] sample_handler_state(5) by simp



text \<open>
  C39: a handler that stops its own subscription stops the monitor.  If the handler of a
  subscription calls \<^verbatim>\<open>Stop\<close> on it before anything else has, then in every later state it is still
  waiting for its own goroutine to end, the shared channel is still open and \<^verbatim>\<open>Close\<close> has not returned.
\<close>

theorem monitor_handler_stop_deadlocks:
  assumes "mon_step\<^sup>*\<^sup>* (NewMonitor n g p0) m" "phase_of m i = PHandler ev" "i \<in> set (mon_subs m)"
    "s_once (mon_heap m i) = OnceFree"
    "mon_step\<^sup>*\<^sup>* (goto i (PStop ev i) (removeSubscription i m)) m'"
  shows "phase_of m' i = PStop ev i \<and> \<not> ch_closed (mon_events m') \<and> mon_closing m' \<noteq> CDone"
proof -
  let ?m = "goto i (PStop ev i) (removeSubscription i m)"
  have ok: "mon_inv m" "done_ok m" using monitor_reachable_ok [OF assms(1)] by simp_all
  then have i: "i \<in> {1..mon_nextID m}" "\<not> s_doneCh (mon_heap m i)"
    using assms(2,3) unfolding done_ok_def by auto
  have "self_stop i ev ?m" using i assms(3,4) by (simp add: self_stop_def removeSubscription_def)
  from self_stop_forever [OF assms(5) handler_stop_inv [OF ok(1) assms(2)] this] show ?thesis
    by (simp add: self_stop_def)
qed

theorem monitor_handler_stop_deadlocks_witness:
  "let m = goto 1 (PStop sample_event 1) (removeSubscription 1 sample_handler);
       m' = close_take (m\<lparr>mon_stopCh := True, mon_closing := CLock\<rparr>)
   in mon_step\<^sup>*\<^sup>* m m' \<and> phase_of m' 1 = PStop sample_event 1 \<and> mon_closing m' \<noteq> CDone"
proof -
  let ?m = "goto 1 (PStop sample_event 1) (removeSubscription 1 sample_handler)"
  let ?m1 = "?m\<lparr>mon_stopCh := True, mon_closing := CLock\<rparr>"
  have "mon_closing ?m = CNot"
    using sample_handler_state by (simp add: removeSubscription_def upd_sub_def)
  then have "mon_step ?m ?m1" by (rule close_begin)
  moreover have "mon_step ?m1 (close_take ?m1)" by (rule close_lock) simp
  ultimately have "mon_step\<^sup>*\<^sup>* ?m (close_take ?m1)" by simp
  with monitor_handler_stop_deadlocks [OF sample_run sample_handler_state(1) _ sample_handler_state(3) this]
    sample_handler_state(2) show ?thesis by (simp add: Let_def)
qed

section \<open>What polling reports\<close>

text \<open>The events of a subscription's polls, in order, the remembered snapshot passed on.\<close>

fun polls :: "nat \<Rightarrow> 'p \<Rightarrow> 'p ChangeDetector option \<Rightarrow> 'p Snapshot option \<Rightarrow> (int \<times> (string + 'p Value list)) list \<Rightarrow>
    'p Event list" where
  "polls i p d prev [] = []"
| "polls i p d prev ((ts, r) # rs) = (case poll i p d prev ts r of (ev, prev') \<Rightarrow> ev # polls i p d prev' rs)"

text \<open>The reference: a poll is judged against the last one that gave a value.\<close>

fun snapshot_of :: "'p \<Rightarrow> int \<times> (string + 'p Value list) \<Rightarrow> 'p Snapshot option" where
  "snapshot_of p (ts, Inr (v # vs)) = Some \<lparr>sn_Point = p, sn_Value = v, sn_Timestamp = ts\<rparr>"
| "snapshot_of p _ = None"

definition last_good :: "'p \<Rightarrow> (int \<times> (string + 'p Value list)) list \<Rightarrow> 'p Snapshot option" where
  "last_good p rs = (case rev (List.map_filter (snapshot_of p) rs) of [] \<Rightarrow> None | s # _ \<Rightarrow> Some s)"

definition changed_spec :: "'p ChangeDetector option \<Rightarrow> 'p Snapshot option \<Rightarrow> 'p Snapshot option \<Rightarrow> bool" where
  "changed_spec d before cur =
     (case cur of
        None \<Rightarrow> False
      | Some c \<Rightarrow> (case d of None \<Rightarrow> True | Some detect \<Rightarrow> (case before of None \<Rightarrow> True | Some b \<Rightarrow> detect b c)))"

lemma poll_reference:
  "poll i p d prev ts r = (ev, prev') \<Longrightarrow>
   ev_Changed ev = changed_spec d prev (snapshot_of p (ts, r)) \<and>
   (ev_Err ev = None \<longleftrightarrow> snapshot_of p (ts, r) \<noteq> None) \<and>
   (\<forall>s. snapshot_of p (ts, r) = Some s \<longrightarrow> ev_Snapshot ev = s) \<and>
   prev' = (case snapshot_of p (ts, r) of None \<Rightarrow> prev | Some s \<Rightarrow> Some s)"
  by (cases r; cases "projr r")
    (auto simp: poll_def changed_spec_def Let_def split: option.splits list.splits)

lemma last_good_simps:
  "last_good p [] = None"
  "last_good p (rs @ [x]) = (case snapshot_of p x of None \<Rightarrow> last_good p rs | Some s \<Rightarrow> Some s)"
  by (simp_all add: last_good_def map_filter_def split: option.split)

lemma polls_nth:
  assumes "k < length rs" "prev = last_good p before"
  shows "ev_Changed (polls i p d prev rs ! k) =
      changed_spec d (last_good p (before @ take k rs)) (snapshot_of p (rs ! k)) \<and>
    (ev_Err (polls i p d prev rs ! k) = None \<longleftrightarrow> snapshot_of p (rs ! k) \<noteq> None) \<and>
    (\<forall>s. snapshot_of p (rs ! k) = Some s \<longrightarrow> ev_Snapshot (polls i p d prev rs ! k) = s)"
  using assms
proof (induction rs arbitrary: k prev before)
  case (Cons x rs)
  obtain ts r where x: "x = (ts, r)" by (cases x)
  obtain ev prev' where p: "poll i p d prev ts r = (ev, prev')" by force
  note ref = poll_reference [OF p]
  show ?case
  proof (cases k)
    case 0
    with ref p Cons.prems(2) show ?thesis by (simp add: x)
  next
    case (Suc l)
    have "prev' = last_good p (before @ [x])" using ref Cons.prems(2) by (simp add: x last_good_simps split: option.split)
    with Cons.IH [of l prev' "before @ [x]"] Cons.prems Suc p show ?thesis by (simp add: x)
  qed
qed simp

text \<open>
  C38: the change flag of every event equals its reference definition.  In any run of polls, the
  event of a poll carries the value read and no error exactly when the reader returned a value;
  it is marked changed exactly when it carries a value and there is no detector, or no earlier
  poll gave a value, or the detector tells the last such value from this one.  Failed polls in
  between do not matter; with the byte detector the mark says that the raw bytes differ.
\<close>

theorem monitor_change_reference:
  assumes "k < length rs"
  shows "let ev = polls i p d None rs ! k in
    ev_Changed ev = changed_spec d (last_good p (take k rs)) (snapshot_of p (rs ! k)) \<and>
    (ev_Err ev = None \<longleftrightarrow> snapshot_of p (rs ! k) \<noteq> None) \<and>
    (\<forall>s. snapshot_of p (rs ! k) = Some s \<longrightarrow> ev_Snapshot ev = s)"
  using polls_nth [OF assms, of None p "[]"] by (simp add: last_good_simps Let_def)

theorem monitor_change_reference_witness:
  "map ev_Changed (polls 1 () (Some ByteChangeDetector) None
      [(0, Inr [no_value\<lparr>Raw := [1]\<rparr>]), (1, Inl ''timeout''), (2, Inr [no_value\<lparr>Raw := [1]\<rparr>]),
       (3, Inr [no_value\<lparr>Raw := [2]\<rparr>])]) = [True, False, False, True]"
proof -
  let ?rs = "[(0, Inr [no_value\<lparr>Raw := [1]\<rparr>]), (1, Inl ''timeout''), (2, Inr [no_value\<lparr>Raw := [1]\<rparr>]),
       (3, Inr [no_value\<lparr>Raw := [2]\<rparr>])] :: (int \<times> (string + unit Value list)) list"
  note ref = monitor_change_reference [where rs = ?rs and i = 1 and p = "()" and d = "Some ByteChangeDetector"]
  show ?thesis using ref [of 0] ref [of 1] ref [of 2] ref [of 3]
    by (simp add: Let_def changed_spec_def last_good_def map_filter_def ByteChangeDetector_def no_value_def poll_def)
qed

text \<open>The delay before a poll stays within the variance and is never negative.\<close>

lemma next_delay_bounds:
  assumes "0 < sc_frequency cfg" "0 \<le> sc_readVariance cfg" "0 \<le> drawn" "drawn \<le> 2 * sc_readVariance cfg"
  shows "0 \<le> next_delay cfg drawn" "next_delay cfg drawn \<le> sc_frequency cfg + sc_readVariance cfg"
    "sc_frequency cfg - sc_readVariance cfg \<le> next_delay cfg drawn"
  using assms by (auto simp: next_delay_def Let_def)

end
