(* ===== verification/Diagnostics.thy ===== *)
theory Diagnostics
  imports Prelude
begin

text \<open>
  Traces for people: \<^verbatim>\<open>src/hexdump/hexdump.go\<close> and \<^verbatim>\<open>src/logging\<close> (\<^verbatim>\<open>logger.go\<close>, \<^verbatim>\<open>default.go\<close>).  A writer is
  the text written to it.  The time stamp of an entry, the formatted message and the order in which
  the fields of a logger are visited are arguments; so is the quoting of \<^verbatim>\<open>%q\<close>.  A dump has a fixed
  layout from which the data can be read back.
\<close>

section \<open>Numbers in text\<close>

definition hex_char :: "nat \<Rightarrow> char" where
  "hex_char n = char_of (if n < 10 then 48 + n else 87 + n)"

text \<open>\<^verbatim>\<open>%02x\<close> of a byte, and \<^verbatim>\<open>%08x\<close>, which has at least eight digits.\<close>

definition hex_byte :: "byte \<Rightarrow> string" where
  "hex_byte b = [hex_char (unat b div 16), hex_char (unat b mod 16)]"

fun hex_digits :: "nat \<Rightarrow> string" where
  "hex_digits n = (if n < 16 then [hex_char n] else hex_digits (n div 16) @ [hex_char (n mod 16)])"

definition hex8 :: "nat \<Rightarrow> string" where
  "hex8 n = (let ds = hex_digits n in replicate (8 - length ds) (CHR ''0'') @ ds)"

fun show_int :: "nat \<Rightarrow> string" where
  "show_int n = (if n < 10 then [char_of (48 + n)] else show_int (n div 10) @ [char_of (48 + n mod 10)])"

declare hex_digits.simps [simp del] show_int.simps [simp del]

section \<open>Hex dumps\<close>

datatype Direction = DirRead | DirWrite

definition dump_ascii :: "byte \<Rightarrow> char" where
  "dump_ascii c = (if 0x20 \<le> c \<and> c \<le> 0x7e then char_of (unat c) else CHR ''.'')"

definition dump_line :: "byte list \<Rightarrow> nat \<Rightarrow> string" where
  "dump_line data i =
     hex8 i @ ''  '' @
     concat (map (\<lambda>j. (if j = 8 then '' '' else []) @
                      (if i + j < length data then hex_byte (data ! (i + j)) @ '' '' else ''   '')) [0..<16]) @
     ''|'' @ map (\<lambda>j. if i + j < length data then dump_ascii (data ! (i + j)) else CHR '' '') [0..<16] @
     ''|'' @ [CHR 10]"

function dump_lines :: "byte list \<Rightarrow> nat \<Rightarrow> string" where
  "dump_lines data i = (if i < length data then dump_line data i @ dump_lines data (i + 16) else [])"
  by auto
termination
  by (relation "measure (\<lambda>(data, i). length data - i)") auto

declare dump_lines.simps [simp del]

definition formatDump :: "byte list \<Rightarrow> Direction \<Rightarrow> string" where
  "formatDump data dir =
     (case dir of DirRead \<Rightarrow> ''<<< READ '' | DirWrite \<Rightarrow> ''>>> WRITE '') @ show_int (length data) @ '' bytes'' @ [CHR 10] @
     (if data = [] then [] else dump_lines data 0)"

text \<open>A dumper is what it has written.\<close>

type_synonym Dumper = string

definition Dump :: "byte list \<Rightarrow> Direction \<Rightarrow> Dumper \<Rightarrow> Dumper" where
  "Dump data dir d = d @ formatDump data dir"

text \<open>
  The wrapped reader and writer: the inner operation returns the bytes it moved, the first ones of
  the buffer, and possibly an error.
\<close>

definition dumpReader_Read :: "('w \<Rightarrow> (byte list \<times> 'e option) \<times> 'w) \<Rightarrow> Dumper \<times> 'w \<Rightarrow>
    (byte list \<times> 'e option) \<times> Dumper \<times> 'w" where
  "dumpReader_Read r s =
     (case s of (d, w) \<Rightarrow> case r w of ((p, err), w) \<Rightarrow>
        ((p, err), (if length p > 0 then Dump p DirRead d else d), w))"

definition dumpWriter_Write :: "(byte list \<Rightarrow> 'w \<Rightarrow> (nat \<times> 'e option) \<times> 'w) \<Rightarrow> byte list \<Rightarrow> Dumper \<times> 'w \<Rightarrow>
    (nat \<times> 'e option) \<times> Dumper \<times> 'w" where
  "dumpWriter_Write wr p s =
     (case s of (d, w) \<Rightarrow> case wr p w of ((n, err), w) \<Rightarrow>
        ((n, err), (if n > 0 then Dump (take n p) DirWrite d else d), w))"

section \<open>The default logger\<close>

datatype Level = LevelTrace | LevelDebug | LevelInfo | LevelWarn | LevelError | LevelNone

fun Level_String :: "Level \<Rightarrow> string" where
  "Level_String LevelTrace = ''TRACE''"
| "Level_String LevelDebug = ''DEBUG''"
| "Level_String LevelInfo = ''INFO''"
| "Level_String LevelWarn = ''WARN''"
| "Level_String LevelError = ''ERROR''"
| "Level_String LevelNone = ''NONE''"

fun level_number :: "Level \<Rightarrow> nat" where
  "level_number LevelTrace = 0"
| "level_number LevelDebug = 1"
| "level_number LevelInfo = 2"
| "level_number LevelWarn = 3"
| "level_number LevelError = 4"
| "level_number LevelNone = 5"

instantiation Level :: linorder
begin

definition less_eq_Level :: "Level \<Rightarrow> Level \<Rightarrow> bool" where
  "less_eq_Level a b \<longleftrightarrow> level_number a \<le> level_number b"

definition less_Level :: "Level \<Rightarrow> Level \<Rightarrow> bool" where
  "less_Level a b \<longleftrightarrow> level_number a < level_number b"

instance
proof
  fix a b :: Level
  show "a \<le> b \<Longrightarrow> b \<le> a \<Longrightarrow> a = b" by (cases a; cases b; simp add: less_eq_Level_def)
qed (auto simp: less_eq_Level_def less_Level_def)

end

record DefaultLogger =
  lg_level :: Level
  lg_fields :: "string \<rightharpoonup> string"
  lg_writer :: string

fun Join :: "string list \<Rightarrow> string \<Rightarrow> string" where
  "Join [] sep = []"
| "Join [s] sep = s"
| "Join (s # t # ss) sep = s @ sep @ Join (t # ss) sep"

text \<open>The enumeration \<^verbatim>\<open>ks\<close> is the order in which \<^verbatim>\<open>range\<close> visits the keys.\<close>

definition writeFields :: "(string \<Rightarrow> string) \<Rightarrow> string list \<Rightarrow> DefaultLogger \<Rightarrow> string" where
  "writeFields quote ks l =
     (if ks = [] then []
      else '' '' @ Join (map (\<lambda>k. k @ ''='' @ quote (case lg_fields l k of Some v \<Rightarrow> v | None \<Rightarrow> [])) ks) '' '')"

definition log_entry :: "(string \<Rightarrow> string) \<Rightarrow> string list \<Rightarrow> string \<Rightarrow> Level \<Rightarrow> string \<Rightarrow> DefaultLogger \<Rightarrow> DefaultLogger" where
  "log_entry quote ks timestamp level message l =
     (let b = ''['' @ timestamp @ ''] '' @ Level_String level @ '': '' @ message @ writeFields quote ks l
      in l\<lparr>lg_writer := lg_writer l @ (if b = [] \<or> last b \<noteq> CHR 10 then b @ [CHR 10] else b)\<rparr>)"

text \<open>\<^verbatim>\<open>Trace\<close>, \<^verbatim>\<open>Debug\<close>, \<^verbatim>\<open>Info\<close>, \<^verbatim>\<open>Warn\<close> and \<^verbatim>\<open>Error\<close>, by the level of the message.\<close>

definition log_at :: "(string \<Rightarrow> string) \<Rightarrow> string list \<Rightarrow> string \<Rightarrow> Level \<Rightarrow> string \<Rightarrow> DefaultLogger \<Rightarrow> DefaultLogger" where
  "log_at quote ks timestamp level message l =
     (if lg_level l \<le> level then log_entry quote ks timestamp level message l else l)"

definition SetLevel :: "Level \<Rightarrow> DefaultLogger \<Rightarrow> DefaultLogger" where
  "SetLevel level l = l\<lparr>lg_level := level\<rparr>"

text \<open>A logger with more fields; it writes to the same writer.\<close>

definition WithFields :: "(string \<rightharpoonup> string) \<Rightarrow> DefaultLogger \<Rightarrow> DefaultLogger" where
  "WithFields extra l = l\<lparr>lg_fields := lg_fields l ++ extra\<rparr>"

definition hexdump_line :: "byte list \<Rightarrow> nat \<Rightarrow> string" where
  "hexdump_line data i =
     hex8 i @
     concat (map (\<lambda>j. (if j = 8 then '' |'' else []) @ '' '' @
                      (if i + j < length data then hex_byte (data ! (i + j)) else ''  '')) [0..<16]) @ [CHR 10]"

function hexdump_lines :: "byte list \<Rightarrow> nat \<Rightarrow> string" where
  "hexdump_lines data i = (if i < length data then hexdump_line data i @ hexdump_lines data (i + 16) else [])"
  by auto
termination
  by (relation "measure (\<lambda>(data, i). length data - i)") auto

declare hexdump_lines.simps [simp del]

definition Logger_Hexdump :: "(string \<Rightarrow> string) \<Rightarrow> string list \<Rightarrow> string \<Rightarrow> byte list \<Rightarrow> DefaultLogger \<Rightarrow> DefaultLogger" where
  "Logger_Hexdump quote ks timestamp data l =
     (if lg_level l > LevelTrace then l
      else l\<lparr>lg_writer := lg_writer l @ ''['' @ timestamp @ ''] TRACE: HEXDUMP'' @ [CHR 10] @
             ''offset   00 01 02 03 04 05 06 07 | 08 09 0a 0b 0c 0d 0e 0f'' @ [CHR 10] @
             hexdump_lines data 0 @ writeFields quote ks l\<rparr>)"

section \<open>The layout of a dump\<close>

text \<open>A dump is read back from its columns: byte \<^verbatim>\<open>k\<close> of a line of 78 characters.\<close>

definition column :: "nat \<Rightarrow> nat" where
  "column j = 10 + 3 * j + (if j \<ge> 8 then 1 else 0)"

definition hex_value :: "char \<Rightarrow> nat" where
  "hex_value c = (let n = of_char c in if n < 58 then n - 48 else n - 87)"

definition undump :: "nat \<Rightarrow> string \<Rightarrow> byte list" where
  "undump n body =
     map (\<lambda>k. let p = 78 * (k div 16) + column (k mod 16)
              in word_of_nat (16 * hex_value (body ! p) + hex_value (body ! Suc p))) [0..<n]"

lemma hex_value_char: "n < 16 \<Longrightarrow> hex_value (hex_char n) = n"
  by (auto simp: hex_value_def hex_char_def Let_def)

lemma length_hex_digits: "n < 16 ^ Suc k \<Longrightarrow> length (hex_digits n) \<le> Suc k"
proof (induction k arbitrary: n)
  case (Suc k)
  then have "n div 16 < 16 ^ Suc k" by (simp add: less_mult_imp_div_less)
  from Suc.IH [OF this] show ?case by (simp add: hex_digits.simps [of n])
qed (simp add: hex_digits.simps)

lemma length_hex8: "n < 2 ^ 32 \<Longrightarrow> length (hex8 n) = 8"
  using length_hex_digits [of n 7] by (simp add: hex8_def Let_def)

lemma hex_byte_read:
  "word_of_nat (16 * hex_value (hex_byte b ! 0) + hex_value (hex_byte b ! 1)) = b"
proof -
  have "unat b div 16 < 16" using unsigned_less [of b, where ?'a = nat] by (simp add: less_mult_imp_div_less)
  then show ?thesis by (simp add: hex_byte_def hex_value_char)
qed

text \<open>The hex columns of a line: sixteen cells of three characters, a blank between the halves.\<close>

definition cell :: "byte list \<Rightarrow> nat \<Rightarrow> string" where
  "cell data k = (if k < length data then hex_byte (data ! k) @ '' '' else ''   '')"

lemma length_cell [simp]: "length (cell data k) = 3"
  by (simp add: cell_def hex_byte_def)

lemma length_cells [simp]: "length (concat (map (cell data) ks)) = 3 * length ks"
  by (induction ks) simp_all

lemma nth_cells:
  assumes "j < n" "r < 3"
  shows "concat (map (cell data) [m..<m + n]) ! (3 * j + r) = cell data (m + j) ! r"
  using assms
proof (induction n)
  case (Suc n)
  then show ?case by (cases "j = n") (simp_all add: nth_append)
qed simp

lemma map_shift: "map (\<lambda>j. f (i + j)) [a..<b] = map f [i + a..<i + b]"
  by (rule nth_equalityI) (simp_all add: add.assoc)

lemma cells_split:
  "concat (map (\<lambda>j. (if j = 8 then '' '' else []) @ cell data (i + j)) [0..<16]) =
   concat (map (cell data) [i..<i + 8]) @ '' '' @ concat (map (cell data) [i + 8..<i + 8 + 8])"
proof -
  have up: "[0..<16] = [0..<8] @ 8 # [9..<16]" by code_simp
  have "map (\<lambda>j. (if j = 8 then '' '' else []) @ cell data (i + j)) [0..<8] = map (\<lambda>j. cell data (i + j)) [0..<8]"
    "map (\<lambda>j. (if j = 8 then '' '' else []) @ cell data (i + j)) [9..<16] = map (\<lambda>j. cell data (i + j)) [9..<16]"
    by (rule map_cong; auto)+
  moreover have "[i + 8..<i + 8 + 8] = (i + 8) # [i + 9..<i + 16]" by (simp add: upt_conv_Cons)
  ultimately show ?thesis using map_shift [of "cell data" i 0 8] map_shift [of "cell data" i 9 16]
    by (simp only: up map_append concat_append list.map concat.simps) (simp add: append_assoc)
qed

lemma dump_line_cells:
  "dump_line data i =
     hex8 i @ ''  '' @ concat (map (cell data) [i..<i + 8]) @ '' '' @ concat (map (cell data) [i + 8..<i + 8 + 8]) @
     ''|'' @ map (\<lambda>j. if i + j < length data then dump_ascii (data ! (i + j)) else CHR '' '') [0..<16] @
     ''|'' @ [CHR 10]"
  using cells_split [of data i] by (simp add: dump_line_def cell_def)

lemma length_dump_line: "i < 2 ^ 32 \<Longrightarrow> length (dump_line data i) = 78"
  by (simp add: dump_line_cells length_hex8)

lemma dump_line_column:
  assumes "i < 2 ^ 32" "j < 16" "r < 3"
  shows "dump_line data i ! (column j + r) = cell data (i + j) ! r"
proof (cases "j < 8")
  case True
  then have "dump_line data i ! (column j + r) = concat (map (cell data) [i..<i + 8]) ! (3 * j + r)"
    using assms length_hex8 [OF assms(1)] by (simp add: dump_line_cells column_def nth_append)
  also have "\<dots> = cell data (i + j) ! r" using True assms(3) by (rule nth_cells)
  finally show ?thesis .
next
  case False
  then obtain l where l: "j = 8 + l" "l < 8" using assms(2) by (auto simp: not_less le_iff_add)
  then have "dump_line data i ! (column j + r) = concat (map (cell data) [i + 8..<i + 8 + 8]) ! (3 * l + r)"
    using assms length_hex8 [OF assms(1)] by (simp add: dump_line_cells column_def nth_append)
  also have "\<dots> = cell data (i + j) ! r" using nth_cells [OF l(2) assms(3), of data "i + 8"] by (simp add: l(1) ac_simps)
  finally show ?thesis .
qed

text \<open>The lines one after the other.\<close>

lemma dump_lines_nth:
  assumes "length data \<le> 2 ^ 32" "16 * (a + d) < length data" "p < 78"
  shows "dump_lines data (16 * a) ! (78 * d + p) = dump_line data (16 * (a + d)) ! p"
  using assms(2)
proof (induction d arbitrary: a)
  case 0
  then have "length (dump_line data (16 * a)) = 78" using assms(1) by (intro length_dump_line) simp
  then show ?case using 0 assms(3) by (simp add: dump_lines.simps [of data "16 * a"] nth_append)
next
  case (Suc d)
  have "length (dump_line data (16 * a)) = 78" using assms(1) Suc.prems by (intro length_dump_line) simp
  moreover have "16 * a < length data" using Suc.prems by simp
  ultimately have "dump_lines data (16 * a) ! (78 * Suc d + p) = dump_lines data (16 * Suc a) ! (78 * d + p)"
    by (simp add: dump_lines.simps [of data "16 * a"] nth_append add.commute)
  also have "\<dots> = dump_line data (16 * (Suc a + d)) ! p" using Suc.prems by (intro Suc.IH) simp
  finally show ?case by simp
qed

lemma length_dump_lines:
  assumes "length data \<le> 2 ^ 32"
  shows "length (dump_lines data i) = 78 * ((length data - i + 15) div 16)"
  using assms
proof (induction data i rule: dump_lines.induct)
  case (1 data i)
  show ?case
  proof (cases "i < length data")
    case True
    have "(length data - i + 15) div 16 = Suc ((length data - (i + 16) + 15) div 16)"
    proof (cases "16 \<le> length data - i")
      case True
      then obtain n where "length data - i = 16 + n" by (auto simp: le_iff_add)
      then show ?thesis by simp
    next
      case False
      with True have "(length data - i - 1 + 16) div 16 = 1" by simp
      with True False show ?thesis by simp
    qed
    with True 1 length_dump_line [of i data] show ?thesis by (simp add: dump_lines.simps [of data i])
  qed (simp add: dump_lines.simps [of data i])
qed

lemma show_int_digits: "CHR 10 \<notin> set (show_int n)"
proof (induction n rule: show_int.induct)
  case (1 n)
  have "char_of (48 + m) \<noteq> CHR 10" if "m < 10" for m :: nat
  proof
    assume "char_of (48 + m) = CHR 10"
    then have "of_char (char_of (48 + m) :: char) = (10 :: nat)" by simp
    then show False using that by simp
  qed
  from this [of n] this [of "n mod 10"] 1 show ?case
    by (cases "n < 10") (auto simp: show_int.simps [of n] eq_commute [of "CHR 10"])
qed

text \<open>
  Nothing is lost in a hex dump.  For data of at most 4 GiB the lines of the dump after its first have 78
  characters each, as many as it takes, and reading the two hex columns of every byte off its place
  gives the data back.
\<close>

theorem hexdump_readable:
  assumes "length data \<le> 2 ^ 32"
  shows "\<exists>header body. formatDump data dir = header @ [CHR 10] @ body \<and> CHR 10 \<notin> set header \<and>
    length body = 78 * ((length data + 15) div 16) \<and> undump (length data) body = data"
proof -
  let ?body = "dump_lines data 0"
  have body: "formatDump data dir = ((case dir of DirRead \<Rightarrow> ''<<< READ '' | DirWrite \<Rightarrow> ''>>> WRITE '') @
      show_int (length data) @ '' bytes'') @ [CHR 10] @ ?body"
    by (cases data) (simp_all add: formatDump_def dump_lines.simps [of "[]"])
  have "undump (length data) ?body = data"
  proof (rule nth_equalityI)
    fix k assume "k < length (undump (length data) ?body)"
    then have k: "k < length data" by (simp add: undump_def)
    have q: "16 * (0 + k div 16) < length data" using k by simp
    have cellv: "?body ! (78 * (k div 16) + column (k mod 16) + r) = hex_byte (data ! k) ! r" if "r < 2" for r
    proof -
      have "k mod 16 < 16" by simp
      then have "column (k mod 16) + r < 78" using that unfolding column_def by (auto split: if_split)
      from dump_lines_nth [OF assms q this] have
        "?body ! (78 * (k div 16) + column (k mod 16) + r) = dump_line data (16 * (k div 16)) ! (column (k mod 16) + r)"
        by (simp add: add.assoc)
      also have "\<dots> = cell data (16 * (k div 16) + k mod 16) ! r"
        using that q assms by (intro dump_line_column) simp_all
      also have "\<dots> = hex_byte (data ! k) ! r" using that k by (cases r) (simp_all add: cell_def hex_byte_def)
      finally show ?thesis .
    qed
    show "undump (length data) ?body ! k = data ! k"
      using k cellv [of 0] cellv [of 1] hex_byte_read [of "data ! k"] by (simp add: undump_def Let_def)
  qed (simp add: undump_def)
  moreover have "CHR 10 \<notin> set ((case dir of DirRead \<Rightarrow> ''<<< READ '' | DirWrite \<Rightarrow> ''>>> WRITE '') @
      show_int (length data) @ '' bytes'')"
    using show_int_digits [of "length data"] by (cases dir) auto
  ultimately show ?thesis using body length_dump_lines [OF assms, of 0] by (metis minus_nat.diff_0)
qed

theorem hexdump_readable_witness:
  "\<exists>header body. formatDump [0x00, 0x41, 0xFF] DirRead = header @ [CHR 10] @ body \<and>
     CHR 10 \<notin> set header \<and> length body = 78 \<and> undump 3 body = [0x00, 0x41, 0xFF]"
  using hexdump_readable [of "[0x00, 0x41, 0xFF]" DirRead] by (simp add: numeral_3_eq_3)

text \<open>The wrappers are transparent: they return what the wrapped operation returned.\<close>

lemma dump_transparent:
  "fst (dumpReader_Read r (d, w)) = fst (r w)" "snd (snd (dumpReader_Read r (d, w))) = snd (r w)"
  "fst (dumpWriter_Write wr p (d, w)) = fst (wr p w)" "snd (snd (dumpWriter_Write wr p (d, w))) = snd (wr p w)"
  by (simp_all add: dumpReader_Read_def dumpWriter_Write_def split: prod.split)

section \<open>Entries of the logger\<close>

text \<open>An entry is written exactly when its level is at or above that of the logger, and ends a line.\<close>

lemma log_at_written:
  "(lg_writer (log_at quote ks ts level message l) = lg_writer l) \<longleftrightarrow> level < lg_level l"
  "\<not> level < lg_level l \<Longrightarrow> last (lg_writer (log_at quote ks ts level message l)) = CHR 10"
  by (auto simp: log_at_def log_entry_def Let_def not_le)

text \<open>The hex dump of a logger with fields does not: the fields come after the last line.\<close>

lemma Logger_Hexdump_unterminated:
  assumes "lg_level l = LevelTrace" "ks \<noteq> []" "\<And>v. quote v \<noteq> [] \<and> last (quote v) \<noteq> CHR 10"
  shows "last (lg_writer (Logger_Hexdump quote ks ts data l)) \<noteq> CHR 10"
proof -
  have "last (Join (map f ks) '' '') = last (f (last ks)) \<and> Join (map f ks) '' '' \<noteq> []"
    if "ks \<noteq> []" "\<And>k. f k \<noteq> []" for f :: "string \<Rightarrow> string" and ks
    using that(1)
  proof (induction ks)
    case (Cons k ks)
    with that(2) show ?case by (cases ks) auto
  qed simp
  from this [OF assms(2), of "\<lambda>k. k @ ''='' @ quote (case lg_fields l k of Some v \<Rightarrow> v | None \<Rightarrow> [])"]
  show ?thesis using assms by (simp add: Logger_Hexdump_def writeFields_def)
qed

end
