(* ===== verification/Modbus_Names.thy ===== *)
theory Modbus_Names
  imports Modbus_Types Diagnostics
begin

text \<open>
  The names of \<^verbatim>\<open>src/protocol/modbus/types.go\<close> and \<^verbatim>\<open>errors.go\<close>: what the \<^verbatim>\<open>String\<close> methods of the codes
  print, and the text of an exception.  The text of a code tells which code it was.
\<close>

text \<open>\<^verbatim>\<open>%02X\<close> and \<^verbatim>\<open>%#x\<close> of a byte.\<close>

definition hexX :: "byte \<Rightarrow> string" where
  "hexX b = [hex_digit (unat b div 16), hex_digit (unat b mod 16)]"

definition alt_hex :: "byte \<Rightarrow> string" where
  "alt_hex b = ''0x'' @ hex_digits (unat b)"

text \<open>A \<^verbatim>\<open>switch\<close> from codes to names with a format for the rest.\<close>

definition named :: "(byte \<times> string) list \<Rightarrow> (byte \<Rightarrow> string) \<Rightarrow> byte \<Rightarrow> string" where
  "named names other c = (case map_of names c of Some s \<Rightarrow> s | None \<Rightarrow> other c)"

section \<open>Codes\<close>

definition ConformityLevel_String :: "byte \<Rightarrow> string" where
  "ConformityLevel_String =
     named [(0x01, ''Basic (stream)''), (0x02, ''Regular (stream)''), (0x03, ''Extended (stream)''),
            (0x81, ''Basic (stream+individual)''), (0x82, ''Regular (stream+individual)''),
            (0x83, ''Extended (stream+individual)'')]
       (\<lambda>c. ''Unknown(0x'' @ hexX c @ '')'')"

definition MoreFollows_String :: "byte \<Rightarrow> string" where
  "MoreFollows_String = named [(0x00, ''No''), (0xFF, ''Yes'')] (\<lambda>c. ''Unknown(0x'' @ hexX c @ '')'')"

definition function_names :: "(byte \<times> string) list" where
  "function_names =
     [(FuncReadCoils, ''ReadCoils''), (FuncReadDiscreteInputs, ''ReadDiscreteInputs''),
      (FuncReadHoldingRegisters, ''ReadHoldingRegisters''), (FuncReadInputRegisters, ''ReadInputRegisters''),
      (FuncWriteSingleCoil, ''WriteSingleCoil''), (FuncWriteSingleRegister, ''WriteSingleRegister''),
      (FuncReadExceptionStatus, ''ReadExceptionStatus''), (FuncWriteMultipleCoils, ''WriteMultipleCoils''),
      (FuncWriteMultipleRegisters, ''WriteMultipleRegisters''),
      (FuncReadWriteMultipleRegisters, ''ReadWriteMultipleRegisters''),
      (FuncReadDeviceIdentification, ''ReadDeviceIdentification'')]"

lemma original_not_exception: "\<not> IsException (GetOriginalFunctionCode f)"
  by (simp add: IsException_def GetOriginalFunctionCode_def and.assoc)

function FunctionCode_String :: "FunctionCode \<Rightarrow> string" where
  "FunctionCode_String f =
     (case map_of function_names f of
        Some s \<Rightarrow> s
      | None \<Rightarrow>
          if IsException f then ''Exception('' @ FunctionCode_String (GetOriginalFunctionCode f) @ '')''
          else ''Unknown(0x'' @ hexX f @ '')'')"
  by auto
termination
  by (relation "measure (\<lambda>f. if IsException f then 1 else 0)") (simp_all add: original_not_exception)

declare FunctionCode_String.simps [simp del]

definition ExceptionCode_String :: "ExceptionCode \<Rightarrow> string" where
  "ExceptionCode_String =
     named [(0x01, ''FunctionCodeNotSupported''), (0x02, ''DataAddressNotAvailable''), (0x03, ''InvalidDataValue''),
            (0x04, ''ServerDeviceFailure''), (0x05, ''Acknowledge''), (0x06, ''ServerDeviceBusy''),
            (0x08, ''MemoryParityError''), (0x0A, ''GatewayPathUnavailable''), (0x0B, ''GatewayTargetNoResponse'')]
       (\<lambda>c. ''Unknown(0x'' @ hexX c @ '')'')"

definition MEIType_String :: "byte \<Rightarrow> string" where
  "MEIType_String = named [(MEIReadDeviceID, ''ReadDeviceIdentification'')] (\<lambda>c. ''UnknownMEIType(0x'' @ hexX c @ '')'')"

definition ReadDeviceIDCode_String :: "byte \<Rightarrow> string" where
  "ReadDeviceIDCode_String =
     named [(ReadDeviceIDBasicStream, ''BasicStream''), (ReadDeviceIDRegularStream, ''RegularStream''),
            (ReadDeviceIDExtendedStream, ''ExtendedStream''), (ReadDeviceIDSpecificObject, ''SpecificObject'')]
       (\<lambda>c. ''UnknownReadDeviceIDCode(0x'' @ hexX c @ '')'')"

definition DeviceIDObjectCode_String :: "byte \<Rightarrow> string" where
  "DeviceIDObjectCode_String =
     named [(0x00, ''VendorName''), (0x01, ''ProductCode''), (0x02, ''MajorMinorRevision''), (0x03, ''VendorURL''),
            (0x04, ''ProductName''), (0x05, ''ModelName''), (0x06, ''UserApplicationName'')]
       (\<lambda>c. if c \<ge> 0x80 then ''ExtendedObject(0x'' @ hexX c @ '')'' else ''UnknownObject(0x'' @ hexX c @ '')'')"

text \<open>The set bits as \<^verbatim>\<open>%v\<close> prints a slice.\<close>

definition ExceptionStatus_String :: "byte \<Rightarrow> string" where
  "ExceptionStatus_String s =
     (let bits = filter (\<lambda>i. s AND push_bit i 1 \<noteq> 0) [0..<8] in
      if bits = [] then ''ExceptionStatus(None)''
      else ''ExceptionStatus(Bits: ['' @ Join (map show_int bits) '' '' @ ''], Value: 0x'' @ hexX s @ '')'')"

section \<open>Exceptions\<close>

definition GetExceptionString :: "ExceptionCode \<Rightarrow> string" where
  "GetExceptionString =
     named [(0x01, ''function code not supported''), (0x02, ''data address not available''), (0x03, ''invalid data value''),
            (0x04, ''server device failure''), (0x05, ''acknowledge''), (0x06, ''server device busy''),
            (0x08, ''memory parity error''), (0x0A, ''gateway path unavailable''), (0x0B, ''gateway target no response'')]
       (\<lambda>c. ''unknown exception code: '' @ alt_hex c)"

definition ModbusError_Error :: "FunctionCode \<Rightarrow> ExceptionCode \<Rightarrow> string" where
  "ModbusError_Error f e =
     ''modbus: exception response: function: '' @ FunctionCode_String f @ '', exception code: '' @ alt_hex e @
     '' ('' @ GetExceptionString e @ '')''"

section \<open>Codes are read from their names\<close>

definition digit_value :: "char \<Rightarrow> nat" where
  "digit_value c = (let n = of_char c in if n < 58 then n - 48 else n - 55)"

lemma hexX_inj: "hexX a = hexX b \<longleftrightarrow> a = b"
proof
  have v: "n < 16 \<Longrightarrow> digit_value (hex_digit n) = n" for n
    by (auto simp: digit_value_def hex_digit_def Let_def)
  have lt: "unat c div 16 < 16" for c :: byte
    using unsigned_less [of c, where ?'a = nat] by (simp add: less_mult_imp_div_less)
  assume "hexX a = hexX b"
  then have "digit_value (hex_digit (unat a div 16)) = digit_value (hex_digit (unat b div 16))"
    "digit_value (hex_digit (unat a mod 16)) = digit_value (hex_digit (unat b mod 16))" by (simp_all add: hexX_def)
  then have "unat a div 16 = unat b div 16" "unat a mod 16 = unat b mod 16"
    using v [OF lt [of a]] v [OF lt [of b]] v [of "unat a mod 16"] v [of "unat b mod 16"] by simp_all
  then have "unat a = unat b" using div_mult_mod_eq [of "unat a" 16] div_mult_mod_eq [of "unat b" 16] by argo
  then show "a = b" by (rule unsigned_word_eqI)
qed simp

lemma hex_digits_inj: "hex_digits m = hex_digits n \<longleftrightarrow> m = n"
proof
  have ne: "hex_digits k \<noteq> []" for k by (subst hex_digits.simps) simp
  show "hex_digits m = hex_digits n \<Longrightarrow> m = n"
  proof (induction m arbitrary: n rule: hex_digits.induct)
    case (1 m)
    have lst: "last (hex_digits k) = hex_char (k mod 16)" for k by (subst hex_digits.simps) simp
    have "hex_value (last (hex_digits m)) = hex_value (last (hex_digits n))" using "1.prems" by simp
    then have low: "m mod 16 = n mod 16" by (simp add: lst hex_value_char)
    have len: "length (hex_digits k) = 1 \<longleftrightarrow> k < 16" for k
      using ne [of "k div 16"] by (subst hex_digits.simps) simp
    show ?case
    proof (cases "m < 16")
      case True
      with len [of m] len [of n] "1.prems" low show ?thesis by simp
    next
      case False
      with len [of m] len [of n] "1.prems" have n: "\<not> n < 16" by simp
      with False "1.prems" have "hex_digits (m div 16) = hex_digits (n div 16)"
        by (simp add: hex_digits.simps [of m] hex_digits.simps [of n])
      from "1.IH" [OF False this] low show ?thesis by (metis div_mult_mod_eq)
    qed
  qed
qed simp

lemma alt_hex_inj: "alt_hex a = alt_hex b \<longleftrightarrow> a = b"
  using unsigned_word_eqI [of a b] by (auto simp: alt_hex_def hex_digits_inj)

lemma named_inj:
  assumes "distinct (map snd names)" "\<And>a b. other a = other b \<Longrightarrow> a = b" "\<And>b. other b \<notin> snd ` set names"
  shows "inj (named names other)"
proof (rule injI)
  fix a b assume eq: "named names other a = named names other b"
  have d: "inj_on snd (set names)" using assms(1) by (simp add: distinct_map)
  show "a = b"
  proof (cases "map_of names a"; cases "map_of names b")
    fix s t assume s: "map_of names a = Some s" "map_of names b = Some t"
    with eq have "(a, s) \<in> set names" "(b, s) \<in> set names" by (auto simp: named_def dest: map_of_SomeD)
    with d show ?thesis unfolding inj_on_def by force
  next
    assume "map_of names a = None" "map_of names b = None"
    with eq assms(2) show ?thesis by (simp add: named_def)
  next
    fix s assume "map_of names a = Some s" "map_of names b = None"
    with eq assms(3) [of b] show ?thesis by (force simp: named_def dest: map_of_SomeD)
  next
    fix s assume "map_of names a = None" "map_of names b = Some s"
    with eq assms(3) [of a] show ?thesis by (force simp: named_def dest: map_of_SomeD)
  qed
qed

lemmas code_names_def =
  ConformityLevel_String_def MoreFollows_String_def ExceptionCode_String_def MEIType_String_def
  ReadDeviceIDCode_String_def DeviceIDObjectCode_String_def GetExceptionString_def

lemma code_names_inj:
  "inj ConformityLevel_String" "inj MoreFollows_String" "inj ExceptionCode_String" "inj MEIType_String"
  "inj ReadDeviceIDCode_String" "inj DeviceIDObjectCode_String" "inj GetExceptionString"
  unfolding code_names_def
  by (rule named_inj; auto simp: hexX_inj alt_hex_inj split: if_splits)+

lemma function_names_inj: "inj (named function_names (\<lambda>c. ''Unknown(0x'' @ hexX c @ '')''))"
  by (rule named_inj) (auto simp: hexX_inj function_names_def)

lemma FunctionCode_String_plain:
  "\<not> IsException f \<Longrightarrow> FunctionCode_String f = named function_names (\<lambda>c. ''Unknown(0x'' @ hexX c @ '')'') f"
  by (subst FunctionCode_String.simps) (simp add: named_def split: option.split)

lemma function_names_plain: "map_of function_names f = Some s \<Longrightarrow> \<not> IsException f"
  by (auto simp: function_names_def IsException_def split: if_splits)

lemma FunctionCode_String_exception:
  "IsException f \<Longrightarrow> FunctionCode_String f = ''Exception('' @ FunctionCode_String (GetOriginalFunctionCode f) @ '')''"
  using function_names_plain [of f] by (subst FunctionCode_String.simps) (auto split: option.split)

lemma plain_head: "\<not> IsException f \<Longrightarrow> hd (FunctionCode_String f) \<noteq> CHR ''E''"
  by (auto simp: FunctionCode_String_plain named_def function_names_def split: if_splits option.split)

lemma original_inj: "\<lbrakk>IsException f; IsException g; GetOriginalFunctionCode f = GetOriginalFunctionCode g\<rbrakk> \<Longrightarrow> f = g"
proof (rule bit_word_eqI)
  fix n assume f: "IsException f" "IsException g" and eq: "GetOriginalFunctionCode f = GetOriginalFunctionCode g"
    and n: "n < LENGTH(8)"
  have e: "(ExceptionBit :: byte) = push_bit 7 1" by simp
  have "bit (GetOriginalFunctionCode h) n \<longleftrightarrow> bit h n \<and> n \<noteq> 7" for h
    using n unfolding GetOriginalFunctionCode_def e by (auto simp: bit_simps simp del: push_bit_of_1)
  with eq f show "bit f n \<longleftrightarrow> bit g n" by (metis IsException_iff)
qed

lemma FunctionCode_String_inj: "FunctionCode_String f = FunctionCode_String g \<longleftrightarrow> f = g"
proof
  assume eq: "FunctionCode_String f = FunctionCode_String g"
  show "f = g"
  proof (cases "IsException f"; cases "IsException g")
    assume e: "IsException f" "IsException g"
    with eq have "FunctionCode_String (GetOriginalFunctionCode f) = FunctionCode_String (GetOriginalFunctionCode g)"
      by (simp add: FunctionCode_String_exception)
    then have "GetOriginalFunctionCode f = GetOriginalFunctionCode g"
      by (simp add: FunctionCode_String_plain original_not_exception injD [OF function_names_inj])
    with e show ?thesis by (rule original_inj)
  next
    assume e: "\<not> IsException f" "\<not> IsException g"
    with eq show ?thesis by (simp add: FunctionCode_String_plain injD [OF function_names_inj])
  next
    assume e: "IsException f" "\<not> IsException g"
    with arg_cong [OF eq, of hd] plain_head [of g] show ?thesis by (simp add: FunctionCode_String_exception [OF e(1)])
  next
    assume e: "\<not> IsException f" "IsException g"
    with arg_cong [OF eq, of hd] plain_head [of f] show ?thesis by (simp add: FunctionCode_String_exception [OF e(2)])
  qed
qed simp

lemma ExceptionStatus_String_inj: "inj ExceptionStatus_String"
proof (rule injI)
  fix a b :: byte assume eq: "ExceptionStatus_String a = ExceptionStatus_String b"
  let ?bits = "\<lambda>s :: byte. filter (\<lambda>i. s AND push_bit i 1 \<noteq> 0) [0..<8]"
  have z: "s = 0" if "?bits s = []" for s
    by (rule bit_word_eqI) (use that in \<open>auto simp: filter_empty_conv bit_iff_and_push_bit_not_eq_0 simp del: push_bit_of_1 upt_conv_Cons\<close>)
  show "a = b"
  proof (cases "?bits a = []"; cases "?bits b = []")
    assume "?bits a \<noteq> []" "?bits b \<noteq> []"
    with eq have "(''ExceptionStatus(Bits: ['' @ Join (map show_int (?bits a)) '' '' @ ''], Value: 0x'') @ (hexX a @ '')'') =
      (''ExceptionStatus(Bits: ['' @ Join (map show_int (?bits b)) '' '' @ ''], Value: 0x'') @ (hexX b @ '')'')"
      unfolding ExceptionStatus_String_def Let_def by (simp only: if_False append_assoc)
    then have "hexX a @ '')'' = hexX b @ '')''"
      using append_eq_append_conv [of _ _ "hexX a @ '')''" "hexX b @ '')''"] by (simp add: hexX_def)
    then show ?thesis by (simp add: hexX_inj)
  qed (use eq z [of a] z [of b] in \<open>auto simp: ExceptionStatus_String_def Let_def\<close>)
qed

text \<open>Two texts whose first parts lack the character that follows them.\<close>

lemma split_at_mark: "\<lbrakk>xs @ c # ys = xs' @ c # ys'; c \<notin> set xs; c \<notin> set xs'\<rbrakk> \<Longrightarrow> xs = xs' \<and> ys = ys'"
proof (induction xs arbitrary: xs')
  case Nil
  then show ?case by (cases xs') auto
next
  case (Cons x xs)
  then show ?case by (cases xs') auto
qed

lemma function_no_comma: "CHR '','' \<notin> set (FunctionCode_String f)"
proof -
  have "of_char (hex_digit n) \<noteq> (44 :: nat)" if "n < 16" for n
    using that by (simp add: hex_digit_def)
  then have d: "hex_digit n \<noteq> CHR '',''" if "n < 16" for n using that by fastforce
  have plain: "CHR '','' \<notin> set (FunctionCode_String g)" if "\<not> IsException g" for g
  proof (cases "map_of function_names g")
    case None
    have "unat g div 16 < 16" using unsigned_less [of g, where ?'a = nat] by (simp add: less_mult_imp_div_less)
    with None that d [of "unat g div 16"] d [of "unat g mod 16"] show ?thesis
      by (auto simp: FunctionCode_String_plain named_def hexX_def)
  next
    case (Some s)
    have "CHR '','' \<notin> set s"
      using map_of_SomeD [OF Some] by (auto simp: function_names_def)
    with Some that show ?thesis by (simp add: FunctionCode_String_plain named_def)
  qed
  show ?thesis
    using plain [of f] plain [OF original_not_exception, of f]
    by (cases "IsException f") (simp_all add: FunctionCode_String_exception)
qed

lemma hex_digits_no_blank: "CHR '' '' \<notin> set (hex_digits n)"
proof (induction n rule: hex_digits.induct)
  case (1 n)
  have "of_char (hex_char k) \<noteq> (32 :: nat)" if "k < 16" for k
    using that by (simp add: hex_char_def)
  then have "hex_char k \<noteq> CHR '' ''" if "k < 16" for k using that by fastforce
  from this [of "n mod 16"] this [of n] 1 show ?case by (subst hex_digits.simps) auto
qed

lemma ModbusError_Error_inj: "ModbusError_Error f e = ModbusError_Error g d \<longleftrightarrow> f = g \<and> e = d"
proof
  assume "ModbusError_Error f e = ModbusError_Error g d"
  then have eq: "FunctionCode_String f @ CHR '','' # '' exception code: '' @ alt_hex e @ '' ('' @ GetExceptionString e @ '')'' =
      FunctionCode_String g @ CHR '','' # '' exception code: '' @ alt_hex d @ '' ('' @ GetExceptionString d @ '')''"
    by (simp add: ModbusError_Error_def)
  from split_at_mark [OF this function_no_comma function_no_comma]
  have f: "FunctionCode_String f = FunctionCode_String g" and
    "hex_digits (unat e) @ CHR '' '' # ''('' @ GetExceptionString e @ '')'' =
     hex_digits (unat d) @ CHR '' '' # ''('' @ GetExceptionString d @ '')''"
    by (simp_all add: alt_hex_def)
  from split_at_mark [OF this(2) hex_digits_no_blank hex_digits_no_blank]
  have "hex_digits (unat e) = hex_digits (unat d)" by simp
  with f unsigned_word_eqI [of e d] show "f = g \<and> e = d" by (simp add: FunctionCode_String_inj hex_digits_inj)
qed simp

section \<open>Properties\<close>

text \<open>
  What Modbus prints identifies what happened.  Each \<^verbatim>\<open>String\<close> method gives different texts to
  different bytes, for all 256 of them, an exception's function code included, and the text of a
  \<^verbatim>\<open>ModbusError\<close> determines both its function code and its exception code.
\<close>

theorem modbus_names_identify:
  "inj FunctionCode_String \<and> inj ExceptionCode_String \<and> inj GetExceptionString \<and> inj MEIType_String \<and>
   inj ReadDeviceIDCode_String \<and> inj DeviceIDObjectCode_String \<and> inj ConformityLevel_String \<and>
   inj MoreFollows_String \<and> inj ExceptionStatus_String \<and> inj (\<lambda>(f, e). ModbusError_Error f e)"
  using code_names_inj ExceptionStatus_String_inj
  by (auto simp: inj_def FunctionCode_String_inj ModbusError_Error_inj)

end
