(* ===== verification/Eip_Client.thy ===== *)
theory Eip_Client
  imports Eip_Server Plc_Value Transport
begin

text \<open>
  \<^verbatim>\<open>src/protocol/ethernetip/session.go\<close>, \<^verbatim>\<open>connector.go\<close>, \<^verbatim>\<open>client.go\<close> and \<^verbatim>\<open>pccc.go\<close>: a session over a
  connection, and the client with its retry loop over a transport of sessions.  The connection is
  a record of operations on a world, so that the session can be run against the modelled server;
  the transport is one too.  Values to write come with their type code and their bytes, which
  is what \<^verbatim>\<open>cip.Marshal\<close> makes of a Go value.
\<close>

section \<open>Sessions\<close>

text \<open>\<^verbatim>\<open>TCPConn.Send\<close> and \<^verbatim>\<open>Receive\<close>: writing bytes, and reading a packet.\<close>

record 'w eip_conn =
  conn_write :: "byte list \<Rightarrow> 'w \<Rightarrow> cerr option \<times> 'w"
  conn_receive :: "'w \<Rightarrow> (cerr + EncapsulationHeader \<times> byte list) \<times> 'w"

type_synonym Session = SessionHandle

definition exchange :: "'w eip_conn \<Rightarrow> Command \<Rightarrow> byte list \<Rightarrow> SessionHandle \<Rightarrow> 'w \<Rightarrow>
    (cerr + EncapsulationHeader \<times> byte list) \<times> 'w" where
  "exchange conn cmd data handle w =
     (case conn_write conn (EipConn_Send cmd data handle) w of
        (Some err, w) \<Rightarrow> (Inl err, w)
      | (None, w) \<Rightarrow> conn_receive conn w)"

definition Session_Register :: "'w eip_conn \<Rightarrow> 'w \<Rightarrow> (cerr + Session) \<times> 'w" where
  "Session_Register conn w =
     (case exchange conn CommandRegisterSession RegisterSessionData 0 w of
        (Inl err, w) \<Rightarrow> (Inl err, w)
      | (Inr (header, data), w) \<Rightarrow>
          if h_Status header \<noteq> EipStatusSuccess then (Inl (CIPErrorf ''register session failed''), w)
          else (Inr (h_SessionHandle header), w))"

definition Session_Unregister :: "'w eip_conn \<Rightarrow> Session \<Rightarrow> 'w \<Rightarrow> cerr option \<times> 'w" where
  "Session_Unregister conn handle w = conn_write conn (EipConn_Send CommandUnregisterSession [] handle) w"

definition Session_SendRRData :: "'w eip_conn \<Rightarrow> Session \<Rightarrow> byte list \<Rightarrow> 'w \<Rightarrow> (cerr + byte list) \<times> 'w" where
  "Session_SendRRData conn handle request w =
     (let rrData = replicate 6 0 @
            CPF_Encode (NewCommonPacketFormat
              [NewCPFItem ItemIDNullAddress [], NewCPFItem ItemIDUnconnectedMessage request])
      in case exchange conn CommandSendRRData rrData handle w of
           (Inl err, w) \<Rightarrow> (Inl err, w)
         | (Inr (header, respData), w) \<Rightarrow>
             if h_Status header \<noteq> EipStatusSuccess then (Inl (CIPErrorf ''RRData command failed''), w)
             else if length respData < 6 then (Inl (CIPErrorf ''response data too short''), w)
             else (case DecodeCommonPacketFormat (drop 6 respData) of
                     Inl err \<Rightarrow> (Inl err, w)
                   | Inr respCPF \<Rightarrow>
                       (case FindItemByType ItemIDUnconnectedMessage respCPF of
                          None \<Rightarrow> (Inl (CIPErrorf ''response CPF missing Unconnected Message item''), w)
                        | Some item \<Rightarrow> (Inr (ItemData item), w))))"

definition Session_SendCIPRequest :: "'w eip_conn \<Rightarrow> Session \<Rightarrow> MessageRouterRequest \<Rightarrow> 'w \<Rightarrow>
    (cerr + MessageRouterResponse) \<times> 'w" where
  "Session_SendCIPRequest conn handle req w =
     (case Session_SendRRData conn handle (MRRequest_Encode req) w of
        (Inl err, w) \<Rightarrow> (Inl err, w)
      | (Inr respBytes, w) \<Rightarrow> (DecodeMessageRouterResponse respBytes, w))"

definition Session_ListIdentity :: "'w eip_conn \<Rightarrow> 'w \<Rightarrow> (cerr + ListIdentityItem list) \<times> 'w" where
  "Session_ListIdentity conn w =
     (case exchange conn CommandListIdentity [] 0 w of
        (Inl err, w) \<Rightarrow> (Inl err, w)
      | (Inr (header, respData), w) \<Rightarrow>
          if h_Status header \<noteq> EipStatusSuccess then (Inl (CIPErrorf ''ListIdentity command failed''), w)
          else (DecodeListIdentityResponse respData, w))"

definition Session_ListServices :: "'w eip_conn \<Rightarrow> 'w \<Rightarrow> (cerr + ListServicesItem list) \<times> 'w" where
  "Session_ListServices conn w =
     (case exchange conn CommandListServices [] 0 w of
        (Inl err, w) \<Rightarrow> (Inl err, w)
      | (Inr (header, respData), w) \<Rightarrow>
          if h_Status header \<noteq> EipStatusSuccess then (Inl (CIPErrorf ''ListServices command failed''), w)
          else (DecodeListServicesResponse respData, w))"

section \<open>The retry loop\<close>

text \<open>
  A transport of sessions, and an operation on one: it succeeds, fails with a CIP error that is
  final (\<^verbatim>\<open>cipError\<close>), or fails with an error of the transport.
\<close>

record ('c, 'w) session_transport =
  st_Conn :: "'w \<Rightarrow> (cerr + 'c) \<times> 'w"
  st_Reset :: "'c \<Rightarrow> 'w \<Rightarrow> 'w"

datatype op_error = Final cerr | Transport cerr

type_synonym ('c, 'w, 'a) op = "'c \<Rightarrow> 'w \<Rightarrow> (op_error + 'a) \<times> 'w"

record EipClient =
  eretries :: int
  cipVendorID :: u16
  cipSerialNumber :: u32

definition NewEipClient :: EipClient where
  "NewEipClient = \<lparr>eretries = 0, cipVendorID = 0x1234, cipSerialNumber = 0x12345678\<rparr>"

definition exhausted :: cerr where
  "exhausted = CIPErrorf ''operation failed after retries''"

text \<open>The loop of \<^verbatim>\<open>do\<close> from attempt \<^term>\<open>i\<close> on; \<^const>\<open>None\<close> is a loop that never ends.\<close>

partial_function (option) do_loop :: "int \<Rightarrow> ('c, 'w) session_transport \<Rightarrow> ('c, 'w, 'a) op \<Rightarrow> int \<Rightarrow> 'w \<Rightarrow>
    ((cerr + 'a) \<times> 'w) option" where
  "do_loop retries tp oper i w =
     (if retries < 0 \<or> i \<le> retries then
        (case st_Conn tp w of
           (Inl err, w) \<Rightarrow>
             if retries = 0 then Some (Inl err, w) else do_loop retries tp oper (i + 1) w
         | (Inr sess, w) \<Rightarrow>
             (case oper sess w of
                (Inr x, w) \<Rightarrow> Some (Inr x, w)
              | (Inl (Final err), w) \<Rightarrow> Some (Inl err, w)
              | (Inl (Transport err), w) \<Rightarrow>
                  (let w = st_Reset tp sess w; i = (if i = 2147483647 then 0 else i)
                   in do_loop retries tp oper (i + 1) w)))
      else Some (Inl exhausted, w))"

definition do :: "EipClient \<Rightarrow> ('c, 'w) session_transport \<Rightarrow> ('c, 'w, 'a) op \<Rightarrow> 'w \<Rightarrow>
    ((cerr + 'a) \<times> 'w) option" where
  "do c tp oper w = do_loop (eretries c) tp oper 0 w"

section \<open>Operations of the client\<close>

text \<open>A request whose CIP errors are final and whose response data is returned.\<close>

definition cip_op :: "('c \<Rightarrow> MessageRouterRequest \<Rightarrow> 'w \<Rightarrow> (cerr + MessageRouterResponse) \<times> 'w) \<Rightarrow>
    MessageRouterRequest \<Rightarrow> (byte list \<Rightarrow> op_error + 'a) \<Rightarrow> ('c, 'w, 'a) op" where
  "cip_op send req k sess w =
     (case send sess req w of
        (Inl err, w) \<Rightarrow> (Inl (Transport err), w)
      | (Inr resp, w) \<Rightarrow>
          (case MRResponse_Error resp of
             Some err \<Rightarrow> (Inl (Final err), w)
           | None \<Rightarrow> (k (ResponseData resp), w)))"

record ('c, 'w) eip_env =
  env_tp :: "('c, 'w) session_transport"
  env_send :: "'c \<Rightarrow> MessageRouterRequest \<Rightarrow> 'w \<Rightarrow> (cerr + MessageRouterResponse) \<times> 'w"

definition ReadTagElements :: "EipClient \<Rightarrow> ('c, 'w) eip_env \<Rightarrow> byte list \<Rightarrow> u16 \<Rightarrow> 'w \<Rightarrow>
    ((cerr + byte list) \<times> 'w) option" where
  "ReadTagElements c env tagName cnt w =
     (if cnt = 0 then Some (Inl (CIPErrorf ''element count must be at least 1''), w)
      else case ParseTagPath tagName of
        Inl err \<Rightarrow> Some (Inl err, w)
      | Inr p \<Rightarrow> do c (env_tp env) (cip_op (env_send env) (NewReadTagRequest p cnt) Inr) w)"

definition ReadTag :: "EipClient \<Rightarrow> ('c, 'w) eip_env \<Rightarrow> byte list \<Rightarrow> 'w \<Rightarrow> ((cerr + byte list) \<times> 'w) option" where
  "ReadTag c env tagName w = ReadTagElements c env tagName 1 w"

definition WriteTag :: "EipClient \<Rightarrow> ('c, 'w) eip_env \<Rightarrow> byte list \<Rightarrow> CipType \<times> byte list \<Rightarrow> 'w \<Rightarrow>
    ((cerr + unit) \<times> 'w) option" where
  "WriteTag c env tagName value w =
     (case ParseTagPath tagName of
        Inl err \<Rightarrow> Some (Inl err, w)
      | Inr p \<Rightarrow>
          do c (env_tp env)
            (cip_op (env_send env) (NewWriteTagRequest p (fst value) 1 (snd value)) (\<lambda>_. Inr ())) w)"

text \<open>Tags as data points.\<close>

record Tag =
  tag_Name :: "byte list"
  tag_Elements :: u16

abbreviation (input) TypeSTRUCT :: CipType where "TypeSTRUCT \<equiv> 0x02A0"

definition cipTypeToPlcType :: "CipType \<Rightarrow> DataType" where
  "cipTypeToPlcType dt =
     (if dt = 0x00C1 then TypeBool else if dt = 0x00C2 then TypeInt16 else if dt = 0x00C3 then TypeInt16
      else if dt = 0x00C4 then TypeInt32 else if dt = 0x00C5 then TypeInt64 else if dt = 0x00C6 then TypeUint16
      else if dt = 0x00C7 then TypeUint16 else if dt = 0x00C8 then TypeUint32 else if dt = 0x00C9 then TypeUint64
      else if dt = 0x00CA then TypeFloat32 else if dt = 0x00CB then TypeFloat64
      else if dt = 0x00D0 \<or> dt = 0x00D5 \<or> dt = 0x00DA then TypeString else TypeBytes)"

text \<open>The value of a tag from the bytes of a Read Tag reply.\<close>

definition tag_value :: "Tag \<Rightarrow> byte list \<Rightarrow> Tag Value" where
  "tag_value tag raw =
     (if length raw \<ge> 2 then
        (let cipType = le16_at raw 0; hdrLen = (if cipType \<ge> TypeSTRUCT then 4 else 2) in
         \<lparr>DataPoint = Some tag, Raw = (if length raw \<ge> hdrLen then drop hdrLen raw else raw),
          Type = cipTypeToPlcType cipType, ByteOrder = ByteOrderLittleEndian\<rparr>)
      else \<lparr>DataPoint = Some tag, Raw = raw, Type = TypeUnknown, ByteOrder = ByteOrderLittleEndian\<rparr>)"

definition tag_elements :: "Tag \<Rightarrow> u16" where
  "tag_elements tag = (if tag_Elements tag = 0 then 1 else tag_Elements tag)"

text \<open>A data point is a tag or something else.\<close>

fun EipClient_Read :: "EipClient \<Rightarrow> ('c, 'w) eip_env \<Rightarrow> Tag option list \<Rightarrow> 'w \<Rightarrow>
    ((cerr + Tag Value list) \<times> 'w) option" where
  "EipClient_Read c env [] w = Some (Inr [], w)"
| "EipClient_Read c env (None # points) w = Some (Inl (CIPErrorf ''expected Tag DataPoint''), w)"
| "EipClient_Read c env (Some tag # points) w =
     (case ReadTagElements c env (tag_Name tag) (tag_elements tag) w of
        None \<Rightarrow> None
      | Some (Inl err, w) \<Rightarrow> Some (Inl err, w)
      | Some (Inr raw, w) \<Rightarrow>
          (case EipClient_Read c env points w of
             None \<Rightarrow> None
           | Some (Inl err, w) \<Rightarrow> Some (Inl err, w)
           | Some (Inr vals, w) \<Rightarrow> Some (Inr (tag_value tag raw # vals), w)))"

definition EipClient_Write :: "EipClient \<Rightarrow> ('c, 'w) eip_env \<Rightarrow> Tag option \<Rightarrow> byte list \<Rightarrow> 'w \<Rightarrow>
    ((cerr + unit) \<times> 'w) option" where
  "EipClient_Write c env point data w =
     (case point of
        None \<Rightarrow> Some (Inl (CIPErrorf ''expected Tag DataPoint''), w)
      | Some tag \<Rightarrow>
          if length data < 2 then Some (Inl (CIPErrorf ''write data must include 2-byte type code prefix''), w)
          else case ParseTagPath (tag_Name tag) of
            Inl err \<Rightarrow> Some (Inl err, w)
          | Inr p \<Rightarrow>
              do c (env_tp env)
                (cip_op (env_send env) (NewWriteTagRequest p (le16_at data 0) (tag_elements tag) (drop 2 data))
                  (\<lambda>_. Inr ())) w)"

text \<open>Stripping the type header, as \<^verbatim>\<open>readStructPayload\<close> and the typed readers do.\<close>

definition strip_type :: "byte list \<Rightarrow> cerr + byte list" where
  "strip_type data =
     (if length data < 2 then Inl (CIPErrorf ''response too short to contain type code'')
      else let hdrLen = (if le16_at data 0 \<ge> TypeSTRUCT then 4 else 2) in
        if length data < hdrLen then Inl (CIPErrorf ''response too short for type header'')
        else Inr (drop hdrLen data))"

definition then_res :: "((cerr + 'a) \<times> 'w) option \<Rightarrow> ('a \<Rightarrow> cerr + 'b) \<Rightarrow> ((cerr + 'b) \<times> 'w) option" where
  "then_res r f = map_option (\<lambda>(x, w). (res_bind x f, w)) r"

definition readStructPayload :: "EipClient \<Rightarrow> ('c, 'w) eip_env \<Rightarrow> byte list \<Rightarrow> 'w \<Rightarrow>
    ((cerr + byte list) \<times> 'w) option" where
  "readStructPayload c env tagName w = then_res (ReadTag c env tagName w) strip_type"

definition ReadTimer :: "EipClient \<Rightarrow> ('c, 'w) eip_env \<Rightarrow> byte list \<Rightarrow> 'w \<Rightarrow> ((cerr + Timer) \<times> 'w) option" where
  "ReadTimer c env tagName w = then_res (readStructPayload c env tagName w) DecodeTimer"

definition ReadCounter :: "EipClient \<Rightarrow> ('c, 'w) eip_env \<Rightarrow> byte list \<Rightarrow> 'w \<Rightarrow> ((cerr + Counter) \<times> 'w) option" where
  "ReadCounter c env tagName w = then_res (readStructPayload c env tagName w) DecodeCounter"

definition ReadTagElementsInto :: "EipClient \<Rightarrow> ('c, 'w) eip_env \<Rightarrow> byte list \<Rightarrow> u16 \<Rightarrow>
    (byte list \<Rightarrow> cerr + 'a) \<Rightarrow> 'w \<Rightarrow> ((cerr + 'a) \<times> 'w) option" where
  "ReadTagElementsInto c env tagName cnt unmarshal w =
     then_res (then_res (ReadTagElements c env tagName cnt w) strip_type) unmarshal"

definition ReadTagInto :: "EipClient \<Rightarrow> ('c, 'w) eip_env \<Rightarrow> byte list \<Rightarrow>
    (byte list \<Rightarrow> cerr + 'a) \<Rightarrow> 'w \<Rightarrow> ((cerr + 'a) \<times> 'w) option" where
  "ReadTagInto c env tagName unmarshal w = ReadTagElementsInto c env tagName 1 unmarshal w"

text \<open>The generic helpers \<^verbatim>\<open>Read[T]\<close> and \<^verbatim>\<open>ReadSlice[T]\<close>, with the decoder of the type or of so many of it.\<close>

definition Read_T :: "EipClient \<Rightarrow> ('c, 'w) eip_env \<Rightarrow> byte list \<Rightarrow>
    (byte list \<Rightarrow> cerr + 'a) \<Rightarrow> 'w \<Rightarrow> ((cerr + 'a) \<times> 'w) option" where
  "Read_T c env tagName unmarshal w = then_res (then_res (ReadTag c env tagName w) strip_type) unmarshal"

definition ReadSlice :: "EipClient \<Rightarrow> ('c, 'w) eip_env \<Rightarrow> byte list \<Rightarrow> u16 \<Rightarrow>
    (nat \<Rightarrow> byte list \<Rightarrow> cerr + 'a list) \<Rightarrow> 'w \<Rightarrow> ((cerr + 'a list) \<times> 'w) option" where
  "ReadSlice c env tagName cnt unmarshal w =
     then_res (then_res (ReadTagElements c env tagName cnt w) strip_type) (unmarshal (unat cnt))"

text \<open>Discovery through the session, with the session's own operation.\<close>

definition discovery_op :: "('c \<Rightarrow> 'w \<Rightarrow> (cerr + 'a) \<times> 'w) \<Rightarrow> ('c, 'w, 'a) op" where
  "discovery_op list sess w =
     (case list sess w of
        (Inl err, w) \<Rightarrow> (Inl (Transport err), w)
      | (Inr items, w) \<Rightarrow> (Inr items, w))"

definition EipClient_ListIdentity :: "EipClient \<Rightarrow> ('c, 'w) session_transport \<Rightarrow>
    ('c \<Rightarrow> 'w \<Rightarrow> (cerr + ListIdentityItem list) \<times> 'w) \<Rightarrow> 'w \<Rightarrow> ((cerr + ListIdentityItem list) \<times> 'w) option" where
  "EipClient_ListIdentity c tp list w = do c tp (discovery_op list) w"

definition EipClient_ListServices :: "EipClient \<Rightarrow> ('c, 'w) session_transport \<Rightarrow>
    ('c \<Rightarrow> 'w \<Rightarrow> (cerr + ListServicesItem list) \<times> 'w) \<Rightarrow> 'w \<Rightarrow> ((cerr + ListServicesItem list) \<times> 'w) option" where
  "EipClient_ListServices c tp list w = do c tp (discovery_op list) w"

text \<open>Execute_PCCC: the echoed requestor identification is cut off the reply.\<close>

definition ExecutePCCC :: "EipClient \<Rightarrow> ('c, 'w) eip_env \<Rightarrow> byte list \<Rightarrow> 'w \<Rightarrow> ((cerr + byte list) \<times> 'w) option" where
  "ExecutePCCC c env pcccCmd w =
     (if pcccCmd = [] then Some (Inl (CIPErrorf ''ExecutePCCC: empty PCCC command''), w)
      else do c (env_tp env)
        (cip_op (env_send env) (NewExecutePCCCRequest (cipVendorID c) (cipSerialNumber c) pcccCmd)
          (\<lambda>data. if length data < 7 then Inl (Transport (CIPErrorf ''Execute_PCCC reply too short''))
                  else Inr (drop 7 data))) w)"

section \<open>Enumerating tags\<close>

record SymbolInstance =
  InstanceID :: u32
  SymName :: "byte list"
  SymType :: CipType

text \<open>The loop of \<^verbatim>\<open>ListTags\<close> over the instances; whatever fails for one instance is skipped.\<close>

fun list_symbols :: "('c \<Rightarrow> MessageRouterRequest \<Rightarrow> 'w \<Rightarrow> (cerr + MessageRouterResponse) \<times> 'w) \<Rightarrow> 'c \<Rightarrow>
    nat list \<Rightarrow> 'w \<Rightarrow> SymbolInstance list \<times> 'w" where
  "list_symbols send sess [] w = ([], w)"
| "list_symbols send sess (i # is) w =
     (case send sess (NewGetSymbolAttributesRequest (word_of_nat i)) w of (r, w) \<Rightarrow>
      (case list_symbols send sess is w of (rest, w) \<Rightarrow>
        (case r of
           Inl err \<Rightarrow> (rest, w)
         | Inr resp \<Rightarrow>
             if \<not> IsSuccess resp then (rest, w)
             else (case DecodeSymbolAttributesResponse (ResponseData resp) of
                     Inl err \<Rightarrow> (rest, w)
                   | Inr (name, typeCode) \<Rightarrow>
                       (if name \<noteq> []
                        then \<lparr>InstanceID = word_of_nat i, SymName = name, SymType = typeCode\<rparr> # rest
                        else rest, w)))))"

definition list_tags_op :: "('c \<Rightarrow> MessageRouterRequest \<Rightarrow> 'w \<Rightarrow> (cerr + MessageRouterResponse) \<times> 'w) \<Rightarrow>
    ('c, 'w, SymbolInstance list) op" where
  "list_tags_op send sess w =
     (case send sess NewGetSymbolClassAttributesRequest w of
        (Inl err, w) \<Rightarrow> (Inl (Transport err), w)
      | (Inr respClass, w) \<Rightarrow>
          if \<not> IsSuccess respClass
          then (Inl (Final (CIPError (GeneralStatus respClass) (ExtStatus respClass))), w)
          else (case DecodeSymbolClassAttributesResponse (ResponseData respClass) of
                  Inl err \<Rightarrow> (Inl (Transport (CIPRead err)), w)
                | Inr (revision, maxInstance) \<Rightarrow>
                    (case list_symbols send sess [1..<Suc (unat maxInstance)] w of
                       (symbols, w) \<Rightarrow> (Inr symbols, w))))"

definition ListTags :: "EipClient \<Rightarrow> ('c, 'w) eip_env \<Rightarrow> 'w \<Rightarrow> ((cerr + SymbolInstance list) \<times> 'w) option" where
  "ListTags c env w = do c (env_tp env) (list_tags_op (env_send env)) w"

section \<open>Connecting\<close>

text \<open>\<^verbatim>\<open>SessionConnector.Connect\<close> on a dialled connection, and \<^verbatim>\<open>SessionCloser.Close\<close>.\<close>

definition SessionConnector_Connect :: "'w eip_conn \<Rightarrow> ('w \<Rightarrow> 'w) \<Rightarrow> 'w \<Rightarrow> (cerr + Session) \<times> 'w" where
  "SessionConnector_Connect conn close w =
     (case Session_Register conn w of
        (Inl err, w) \<Rightarrow> (Inl err, close w)
      | (Inr handle, w) \<Rightarrow> (Inr handle, w))"

definition SessionCloser_Close :: "'w eip_conn \<Rightarrow> ('w \<Rightarrow> 'w) \<Rightarrow> Session \<Rightarrow> 'w \<Rightarrow> 'w" where
  "SessionCloser_Close conn close handle w = close (snd (Session_Unregister conn handle w))"

section \<open>The retry loop ends\<close>

text \<open>One attempt of \<^verbatim>\<open>do\<close>: its outcome, or \<^const>\<open>None\<close> when the loop goes on.\<close>

definition attempt :: "int \<Rightarrow> ('c, 'w) session_transport \<Rightarrow> ('c, 'w, 'a) op \<Rightarrow> 'w \<Rightarrow> (cerr + 'a) option \<times> 'w" where
  "attempt retries tp oper w =
     (case st_Conn tp w of
        (Inl err, w) \<Rightarrow> (if retries = 0 then Some (Inl err) else None, w)
      | (Inr sess, w) \<Rightarrow>
          (case oper sess w of
             (Inr x, w) \<Rightarrow> (Some (Inr x), w)
           | (Inl (Final err), w) \<Rightarrow> (Some (Inl err), w)
           | (Inl (Transport err), w) \<Rightarrow> (None, st_Reset tp sess w)))"

primrec tries :: "nat \<Rightarrow> ('w \<Rightarrow> (cerr + 'a) option \<times> 'w) \<Rightarrow> 'w \<Rightarrow> (cerr + 'a) \<times> 'w" where
  "tries 0 att w = (Inl exhausted, w)"
| "tries (Suc n) att w = (case att w of (Some r, w) \<Rightarrow> (r, w) | (None, w) \<Rightarrow> tries n att w)"

lemma do_loop_attempt:
  assumes "retries < 0 \<or> i \<le> retries" "i < 2147483647"
  shows "do_loop retries tp oper i w =
    (case attempt retries tp oper w of (Some r, w) \<Rightarrow> Some (r, w)
     | (None, w) \<Rightarrow> do_loop retries tp oper (i + 1) w)"
  using assms by (subst do_loop.simps)
    (auto simp: attempt_def Let_def split: prod.splits sum.splits op_error.splits)

lemma do_loop_tries:
  assumes "retries < 2147483647" "0 \<le> retries" "i + int n = retries + 1"
  shows "do_loop retries tp oper i w = Some (tries n (attempt retries tp oper) w)"
  using assms(3)
proof (induction n arbitrary: i w)
  case 0
  with assms show ?case by (subst do_loop.simps) simp
next
  case (Suc n)
  with assms have "do_loop retries tp oper i w =
    (case attempt retries tp oper w of (Some r, w) \<Rightarrow> Some (r, w)
     | (None, w) \<Rightarrow> do_loop retries tp oper (i + 1) w)"
    by (intro do_loop_attempt) simp_all
  with Suc show ?case by (simp split: prod.splits option.splits)
qed

lemma do_settled:
  "attempt (eretries c) tp oper w = (Some r, w') \<Longrightarrow> do c tp oper w = Some (r, w')"
  unfolding do_def by (subst do_loop_attempt) auto

text \<open>
  C24: the retry loop of the EtherNet/IP client makes at most \<^verbatim>\<open>1 + retries\<close> attempts and
  then returns: the first attempt that settles decides, CIP errors are final, and when every
  attempt fails the loop ends with its own error.
\<close>

theorem eip_do_bounded:
  assumes "0 \<le> eretries c" "eretries c < 2147483647"
  shows "do c tp oper w = Some (tries (Suc (nat (eretries c))) (attempt (eretries c) tp oper) w)"
  unfolding do_def using assms by (intro do_loop_tries) simp_all

text \<open>A transport that hands out connection 7 and counts the resets.\<close>

definition counting_tp :: "(nat, nat) session_transport" where
  "counting_tp = \<lparr>st_Conn = (\<lambda>w. (Inr 7, w)), st_Reset = (\<lambda>_. Suc)\<rparr>"

definition third_time :: "(nat, nat, nat) op" where
  "third_time sess w = (if w < 2 then Inl (Transport (CIPErrorf ''EOF'')) else Inr (sess + w), w)"

theorem eip_do_bounded_witness:
  "do (NewEipClient\<lparr>eretries := 2\<rparr>) counting_tp third_time 0 = Some (Inr 9, 2) \<and>
   do (NewEipClient\<lparr>eretries := 1\<rparr>) counting_tp third_time 0 = Some (Inl exhausted, 2)"
  using eip_do_bounded [of "NewEipClient\<lparr>eretries := 2\<rparr>" counting_tp third_time 0]
    eip_do_bounded [of "NewEipClient\<lparr>eretries := 1\<rparr>" counting_tp third_time 0]
  by (simp add: attempt_def counting_tp_def third_time_def numeral_2_eq_2)

text \<open>Retrying without a limit.\<close>

lemma do_loop_unlimited:
  assumes "retries < 0"
  shows "\<exists>j. do_loop retries tp oper i w =
    (case attempt retries tp oper w of (Some r, w) \<Rightarrow> Some (r, w)
     | (None, w) \<Rightarrow> do_loop retries tp oper j w)"
proof (cases "\<exists>c w1. st_Conn tp w = (Inr c, w1)")
  case False
  with assms show ?thesis
    by (intro exI [of _ "i + 1"], subst do_loop.simps)
      (auto simp: attempt_def split: prod.splits sum.splits)
next
  case True
  with assms show ?thesis
    by (intro exI [of _ "(if i = 2147483647 then 0 else i) + 1"], subst do_loop.simps)
      (auto simp: attempt_def Let_def split: prod.splits sum.splits op_error.splits)
qed

primrec failing :: "nat \<Rightarrow> ('w \<Rightarrow> (cerr + 'a) option \<times> 'w) \<Rightarrow> 'w \<Rightarrow> 'w option" where
  "failing 0 att w = Some w"
| "failing (Suc n) att w = (case att w of (Some r, w) \<Rightarrow> None | (None, w) \<Rightarrow> failing n att w)"

lemma do_loop_settles:
  assumes "retries < 0" "failing n (attempt retries tp oper) w = Some w1"
    "attempt retries tp oper w1 = (Some r, w2)"
  shows "do_loop retries tp oper i w = Some (r, w2)"
  using assms(2)
proof (induction n arbitrary: i w)
  case 0
  then show ?case using do_loop_unlimited [OF assms(1), of tp oper i w] assms(3) by auto
next
  case (Suc n)
  obtain w' where "attempt retries tp oper w = (None, w')" "failing n (attempt retries tp oper) w' = Some w1"
    using Suc.prems by (auto split: prod.splits option.splits)
  with Suc.IH [of w'] show ?case using do_loop_unlimited [OF assms(1), of tp oper i w] by auto
qed

text \<open>
  Without a limit the loop perseveres.  However many attempts fail first, once one settles
  its outcome is returned.
\<close>

theorem eip_do_perseveres:
  assumes "eretries c < 0" "failing n (attempt (eretries c) tp oper) w = Some w1"
    "attempt (eretries c) tp oper w1 = (Some r, w2)"
  shows "do c tp oper w = Some (r, w2)"
  unfolding do_def using assms by (rule do_loop_settles)

theorem eip_do_perseveres_witness:
  "do (NewEipClient\<lparr>eretries := -1\<rparr>) counting_tp third_time 0 = Some (Inr 9, 2)"
  by (rule eip_do_perseveres [where n = 2 and ?w1.0 = 2])
    (simp_all add: attempt_def counting_tp_def third_time_def numeral_2_eq_2)

text \<open>An attempt that never settles: the loop does not return.\<close>

lemma do_loop_returned:
  assumes "do_loop retries tp oper i w = Some y"
  shows "retries < 0 \<and> (\<forall>w. stuck w \<longrightarrow> (\<exists>w'. st_Conn tp w = (Inl err, w') \<and> stuck w')) \<longrightarrow> \<not> stuck w"
proof (rule do_loop.raw_induct [where P = "\<lambda>retries tp oper i w y.
      retries < 0 \<and> (\<forall>w. stuck w \<longrightarrow> (\<exists>w'. st_Conn tp w = (Inl err, w') \<and> stuck w')) \<longrightarrow> \<not> stuck w",
      OF _ assms], goal_cases)
  case (1 f retries tp oper i w y)
  show ?case
  proof clarify
    assume r: "retries < 0" and step: "\<forall>w. stuck w \<longrightarrow> (\<exists>w'. st_Conn tp w = (Inl err, w') \<and> stuck w')"
      and "stuck w"
    then obtain w' where w': "st_Conn tp w = (Inl err, w')" "stuck w'" by blast
    with 1(2) r have "f retries tp oper (i + 1) w' = Some y" by simp
    with 1(1) r step w'(2) show False by blast
  qed
qed

lemma do_loop_forever:
  assumes "\<And>w. stuck w \<Longrightarrow> \<exists>w'. st_Conn tp w = (Inl err, w') \<and> stuck w'" "retries < 0" "stuck w"
  shows "do_loop retries tp oper i w = None"
  using do_loop_returned [of retries tp oper i w _ stuck err] assms
  by (cases "do_loop retries tp oper i w") blast+

text \<open>The reconnecting transport as the transport of a client, with the connector and closer of the sessions.\<close>

definition lift_terr :: "terr + 'c \<Rightarrow> cerr + 'c" where
  "lift_terr r =
     (case r of
        Inr c \<Rightarrow> Inr c
      | Inl TransportClosed \<Rightarrow> Inl (CIPErrorf ''transport is closed'')
      | Inl ConnReset \<Rightarrow> Inl (CIPErrorf ''transport connection was reset'')
      | Inl ConnectFailed \<Rightarrow> Inl (CIPErrorf ''failed to connect''))"

definition reconnecting_tp :: "('w \<Rightarrow> (terr + 'c) \<times> 'w) \<Rightarrow> ('c \<Rightarrow> 'w \<Rightarrow> 'w) \<Rightarrow>
    ('c, 'c ReconnectingTransport \<times> 'w) session_transport" where
  "reconnecting_tp connect close =
     \<lparr>st_Conn = (\<lambda>(r, w).
        (case (if rt_closed r \<or> rt_conn r \<noteq> None then (Inl ConnectFailed, w) else connect w) of (k, w) \<Rightarrow>
         (case Reconnecting_Conn k r of (x, r) \<Rightarrow> (lift_terr x, r, w)))),
      st_Reset = (\<lambda>sess (r, w).
        (Reconnecting_Reset None sess r, if rt_conn r = Some sess then close sess w else w))\<rparr>"

text \<open>
  An operation on a closed client with unlimited retries never returns.  The transport
  answers every attempt with "transport is closed", which the loop retries like a lost
  connection, and the context is not consulted between attempts.
\<close>

theorem eip_do_after_close_diverges:
  assumes "eretries c < 0"
  shows "do c (reconnecting_tp connect close) oper (snd (Reconnecting_Close e r), w) = None"
  unfolding do_def
  by (rule do_loop_forever [where stuck = "\<lambda>(r, w). rt_closed r" and err = "CIPErrorf ''transport is closed''"])
    (use assms in \<open>auto simp: reconnecting_tp_def Reconnecting_Conn_def lift_terr_def Reconnecting_Close_def
       split: option.splits\<close>)

theorem eip_do_after_close_diverges_witness:
  "do (NewEipClient\<lparr>eretries := -1\<rparr>) (reconnecting_tp (\<lambda>w. (Inr (7 :: nat), w)) (\<lambda>_ w. w))
     (\<lambda>sess w. (Inr sess, w)) (snd (Reconnecting_Close None NewReconnectingTransport), 0 :: nat) = None"
  by (rule eip_do_after_close_diverges) simp

section \<open>Enumerating tags\<close>

text \<open>What the loop takes from the answer of one instance.\<close>

definition symbol_of :: "(u32 \<Rightarrow> cerr + MessageRouterResponse) \<Rightarrow> nat \<Rightarrow> SymbolInstance option" where
  "symbol_of answer i =
     (case answer (word_of_nat i) of
        Inl err \<Rightarrow> None
      | Inr resp \<Rightarrow>
          (if IsSuccess resp
           then (case DecodeSymbolAttributesResponse (ResponseData resp) of
                   Inr (name, typeCode) \<Rightarrow>
                     (if name = [] then None
                      else Some \<lparr>InstanceID = word_of_nat i, SymName = name, SymType = typeCode\<rparr>)
                 | Inl err \<Rightarrow> None)
           else None))"

lemma list_symbols_answers:
  assumes "\<And>i w. \<exists>w'. send sess (NewGetSymbolAttributesRequest i) w = (answer i, w')"
  shows "fst (list_symbols send sess is w) = List.map_filter (symbol_of answer) is"
proof (induction "is" arbitrary: w)
  case (Cons i "is")
  obtain w' where w': "send sess (NewGetSymbolAttributesRequest (word_of_nat i)) w = (answer (word_of_nat i), w')"
    using assms by blast
  obtain rest w'' where rest: "list_symbols send sess is w' = (rest, w'')" by fastforce
  have "rest = List.map_filter (symbol_of answer) is" using Cons [of w'] rest by simp
  with w' rest show ?case
    by (auto simp: symbol_of_def [of answer i] map_filter_simps split: sum.splits)
qed (simp add: map_filter_simps)

text \<open>
  \<^verbatim>\<open>ListTags\<close> skips what fails.  When the instance count is read, the enumeration
  succeeds with the symbols of exactly those instances that answer with a name, in order,
  whatever happened to the other requests: an error of the transport in the middle is skipped
  like an instance that does not exist, and is neither reported nor retried.
\<close>

theorem eip_list_tags_skips_failures:
  assumes "st_Conn (env_tp env) w = (Inr sess, w)"
    "env_send env sess NewGetSymbolClassAttributesRequest w = (Inr resp, w1)" "IsSuccess resp"
    "DecodeSymbolClassAttributesResponse (ResponseData resp) = Inr (revision, maxInstance)"
    "\<And>i w. \<exists>w'. env_send env sess (NewGetSymbolAttributesRequest i) w = (answer i, w')"
  shows "map_option fst (ListTags c env w) =
    Some (Inr (List.map_filter (symbol_of answer) [1..<Suc (unat maxInstance)]))"
proof -
  have ls: "fst (list_symbols (env_send env) sess [1..<Suc (unat maxInstance)] w1) =
      List.map_filter (symbol_of answer) [1..<Suc (unat maxInstance)]"
    by (rule list_symbols_answers) (fact assms(5))
  then obtain w2 where "list_symbols (env_send env) sess [1..<Suc (unat maxInstance)] w1 =
      (List.map_filter (symbol_of answer) [1..<Suc (unat maxInstance)], w2)"
    by (metis prod.collapse)
  with assms(1-4) have "list_tags_op (env_send env) sess w =
      (Inr (List.map_filter (symbol_of answer) [1..<Suc (unat maxInstance)]), w2)"
    by (simp add: list_tags_op_def del: upt_Suc)
  with assms(1) show ?thesis
    unfolding ListTags_def by (subst do_settled) (simp_all add: attempt_def del: upt_Suc)
qed

text \<open>A controller with three symbols whose connection drops after the first.\<close>

definition dropping_plc :: "(unit, unit) eip_env" where
  "dropping_plc =
     \<lparr>env_tp = \<lparr>st_Conn = (\<lambda>w. (Inr (), w)), st_Reset = (\<lambda>_ w. w)\<rparr>,
      env_send = (\<lambda>_ req w.
        (if req = NewGetSymbolClassAttributesRequest
         then Inr (status_response 0x03 0 [] (le16 1 @ le16 2 @ le16 0 @ le16 3))
         else if req = NewGetSymbolAttributesRequest 1
         then Inr (status_response 0x03 0 [] (le16 2 @ le16 1 @ le16 0 @ le16 1 @ [65] @ le16 2 @ le16 0 @ le16 0xC4))
         else Inl (CIPRead EOF), w))\<rparr>"

lemma symbol_requests_differ:
  "NewGetSymbolAttributesRequest 1 \<noteq> NewGetSymbolClassAttributesRequest"
  "NewGetSymbolAttributesRequest 2 \<noteq> NewGetSymbolClassAttributesRequest"
  "NewGetSymbolAttributesRequest 3 \<noteq> NewGetSymbolClassAttributesRequest"
  "NewGetSymbolAttributesRequest 2 \<noteq> NewGetSymbolAttributesRequest 1"
  "NewGetSymbolAttributesRequest 3 \<noteq> NewGetSymbolAttributesRequest 1"
  by (simp_all add: NewGetSymbolAttributesRequest_def NewGetSymbolClassAttributesRequest_def AddInstance32_def
      AddInstance_def AddClass_def NewPath_def)

theorem eip_list_tags_skips_failures_witness:
  "map_option fst (ListTags (NewEipClient\<lparr>eretries := 5\<rparr>) dropping_plc ()) =
   Some (Inr [\<lparr>InstanceID = 1, SymName = [65], SymType = 0xC4\<rparr>])"
proof -
  let ?r = "status_response 0x03 0 [] (le16 1 @ le16 2 @ le16 0 @ le16 3)"
  let ?answer = "\<lambda>i. fst (env_send dropping_plc () (NewGetSymbolAttributesRequest i) ())"
  have attrs: "DecodeSymbolAttributesResponse
      (le16 2 @ le16 1 @ le16 0 @ le16 1 @ [65] @ le16 2 @ le16 0 @ le16 0xC4) = Inr ([65], 0xC4)"
    using symbol_attributes_bytes [of "[AttrName [65], AttrType 0xC4]" "([], 0)" "[]"]
    by (simp add: DecodeSymbolAttributesResponse_def del: symbol_attributes.simps add: numeral_2_eq_2 [symmetric])
  have "[1..<Suc (unat (3 :: u16))] = [1, 2, 3]" by (simp add: upt_rec)
  moreover have "symbol_of ?answer 1 = Some \<lparr>InstanceID = 1, SymName = [65], SymType = 0xC4\<rparr>"
    "symbol_of ?answer 2 = None" "symbol_of ?answer 3 = None"
    by (simp_all add: symbol_of_def dropping_plc_def symbol_requests_differ status_response_def IsSuccess_def
        attrs [simplified])
  moreover have cls: "st_Conn (env_tp dropping_plc) () = (Inr (), ())" "IsSuccess ?r"
    "env_send dropping_plc () NewGetSymbolClassAttributesRequest () = (Inr ?r, ())"
    "DecodeSymbolClassAttributesResponse (ResponseData ?r) = Inr (0, 3)"
    using read_le16_append [of 3 "[]"]
    by (simp_all add: dropping_plc_def status_response_def IsSuccess_def DecodeSymbolClassAttributesResponse_def)
  ultimately show ?thesis
    using eip_list_tags_skips_failures [of dropping_plc "()" "()" ?r "()" 0 3 ?answer "NewEipClient\<lparr>eretries := 5\<rparr>"]
    by (simp add: map_filter_simps cls prod_eq_iff)
qed

section \<open>Writing and reading a tag\<close>

text \<open>An atomic value is accepted where a structure is expected: only the header's length differs.\<close>

lemma strip_type_atomic: "dt < TypeSTRUCT \<Longrightarrow> strip_type (le16 dt @ data) = Inr data"
  using le16_at_append [of "[]" 0 dt data] by (auto simp: strip_type_def)

text \<open>
  What a client writes to a tag is what it reads back.  If the controller accepts the
  Write Tag request and then answers the Read Tag request for the same path with the type and
  the data it was given, \<^verbatim>\<open>Write\<close> succeeds and \<^verbatim>\<open>Read\<close> returns one value for the tag with
  exactly the written data, the type named by the type code, and little-endian order.
\<close>

theorem eip_write_read_back:
  assumes "ParseTagPath (tag_Name tag) = Inr p" "dt < TypeSTRUCT"
    "st_Conn (env_tp env) w = (Inr sess, w)" "st_Conn (env_tp env) w1 = (Inr sess, w1)"
    "env_send env sess (NewWriteTagRequest p dt (tag_elements tag) data) w = (Inr wr, w1)" "IsSuccess wr"
    "env_send env sess (NewReadTagRequest p (tag_elements tag)) w1 = (Inr rr, w2)" "IsSuccess rr"
    "ResponseData rr = le16 dt @ data"
  shows "EipClient_Write c env (Some tag) (le16 dt @ data) w = Some (Inr (), w1) \<and>
    EipClient_Read c env [Some tag] w1 =
      Some (Inr [\<lparr>DataPoint = Some tag, Raw = data, Type = cipTypeToPlcType dt,
        ByteOrder = ByteOrderLittleEndian\<rparr>], w2)"
proof
  have tc: "le16_at (le16 dt @ data) 0 = dt" using le16_at_append [of "[]" 0 dt data] by simp
  show "EipClient_Write c env (Some tag) (le16 dt @ data) w = Some (Inr (), w1)"
    unfolding EipClient_Write_def using assms(1,3,5,6)
    by (simp add: tc) (rule do_settled, simp add: attempt_def cip_op_def MRResponse_Error_def)
  have "ReadTagElements c env (tag_Name tag) (tag_elements tag) w1 = Some (Inr (ResponseData rr), w2)"
    unfolding ReadTagElements_def using assms(1,4,7,8)
    by (auto simp: tag_elements_def intro!: do_settled simp: attempt_def cip_op_def MRResponse_Error_def)
  then show "EipClient_Read c env [Some tag] w1 =
      Some (Inr [\<lparr>DataPoint = Some tag, Raw = data, Type = cipTypeToPlcType dt,
        ByteOrder = ByteOrderLittleEndian\<rparr>], w2)"
    using assms(2,9) by (auto simp: tag_value_def tc)
qed

text \<open>A controller that keeps what it is written under the path of the request.\<close>

definition storing_plc :: "(unit, Path \<rightharpoonup> byte list) eip_env" where
  "storing_plc =
     \<lparr>env_tp = \<lparr>st_Conn = (\<lambda>w. (Inr (), w)), st_Reset = (\<lambda>_ w. w)\<rparr>,
      env_send = (\<lambda>_ req w.
        if Service req = 0x4D
        then (Inr (status_response 0x4D 0 [] []),
              w(RequestPath req \<mapsto> take 2 (RequestData req) @ drop 4 (RequestData req)))
        else (case w (RequestPath req) of
                Some data \<Rightarrow> (Inr (status_response 0x4C 0 [] data), w)
              | None \<Rightarrow> (Inr (status_response 0x4C 0x05 [] []), w)))\<rparr>"

theorem eip_write_read_back_witness:
  "let tag = \<lparr>tag_Name = bytes_of ''Speed'', tag_Elements = 0\<rparr>;
       p = AddSymbolicSegment (bytes_of ''Speed'') NewPath
   in EipClient_Write NewEipClient storing_plc (Some tag) (le16 0xC3 @ [1, 2]) Map.empty =
        Some (Inr (), [p \<mapsto> le16 0xC3 @ [1, 2]]) \<and>
      EipClient_Read NewEipClient storing_plc [Some tag] [p \<mapsto> le16 0xC3 @ [1, 2]] =
        Some (Inr [\<lparr>DataPoint = Some tag, Raw = [1, 2], Type = TypeInt16, ByteOrder = ByteOrderLittleEndian\<rparr>],
          [p \<mapsto> le16 0xC3 @ [1, 2]])"
proof -
  let ?tag = "\<lparr>tag_Name = bytes_of ''Speed'', tag_Elements = 0\<rparr>"
  let ?p = "AddSymbolicSegment (bytes_of ''Speed'') NewPath"
  have "ParseTagPath (bytes_of ''Speed'') = Inr ?p" by code_simp
  then show ?thesis
    using eip_write_read_back [of ?tag ?p "0xC3" storing_plc Map.empty "()" "[?p \<mapsto> le16 0xC3 @ [1, 2]]" "[1, 2]"
        "status_response 0x4D 0 [] []" "status_response 0x4C 0 [] (le16 0xC3 @ [1, 2])"
        "[?p \<mapsto> le16 0xC3 @ [1, 2]]" NewEipClient]
    by (simp add: storing_plc_def NewWriteTagRequest_def NewReadTagRequest_def status_response_def IsSuccess_def
        cipTypeToPlcType_def le16_def)
qed

end
