(* ===== verification/Eip_System.thy ===== *)
theory Eip_System
  imports Eip_Client
begin

text \<open>
  The EtherNet/IP client and server put together.  A world holds one connection: what the server
  wrote and the client has not read, the server's session handle for it, and the server's shared
  state.  Writing to the connection runs the server's loop on the bytes.  With it a session's
  requests act on the objects behind the router exactly as dispatching them would.
\<close>

record 's wire_world =
  ww_pending :: "byte list"
  ww_handle :: u32
  ww_closed :: bool
  ww_shared :: "'s shared"

definition served :: "'s MessageRouter \<Rightarrow> ListIdentityItem \<Rightarrow> 's wire_world eip_conn" where
  "served router identity =
     \<lparr>conn_write = (\<lambda>bytes w.
        if ww_closed w then (Some (CIPErrorf ''failed to write header''), w)
        else (case HandleConn router identity bytes (ww_handle w) (ww_shared w) of (out, closed, h, sh) \<Rightarrow>
          (None, w\<lparr>ww_pending := ww_pending w @ out, ww_handle := h, ww_closed := closed, ww_shared := sh\<rparr>))),
      conn_receive = (\<lambda>w.
        (case EipConn_Receive (ww_pending w) of
           Inl err \<Rightarrow> (Inl err, w)
         | Inr (packet, rest) \<Rightarrow> (Inr packet, w\<lparr>ww_pending := rest\<rparr>)))\<rparr>"

text \<open>A fresh connection, and one with a session and nothing in flight.\<close>

definition dialled :: "'s shared \<Rightarrow> 's wire_world" where
  "dialled sh = \<lparr>ww_pending = [], ww_handle = 0, ww_closed = False, ww_shared = sh\<rparr>"

definition in_session :: "u32 \<Rightarrow> 's wire_world \<Rightarrow> bool" where
  "in_session h w \<longleftrightarrow> ww_pending w = [] \<and> ww_handle w = h \<and> \<not> ww_closed w \<and> h \<noteq> 0"

section \<open>One packet through the server\<close>

lemma HandleConn_Nil [simp]: "HandleConn router identity [] h sh = ([], False, h, sh)"
  by (subst HandleConn.simps) (simp add: read_full_def)

lemma HandleConn_packet:
  assumes "length data \<le> maxPacketSize"
  shows "HandleConn router identity (EipConn_Send cmd data session) h sh =
    (case handle_command router identity cmd data session h sh of
       (None, sh) \<Rightarrow> ([], True, h, sh)
     | (Some (respData, status, session, h), sh) \<Rightarrow>
         (respHeader cmd (length respData) session status (replicate 8 0) @ respData, False, h, sh))"
proof -
  let ?hd = "\<lparr>h_Command = cmd, h_Length = word_of_nat (length data), h_SessionHandle = session,
        h_Status = 0, h_SenderContext = replicate 8 0, h_Options = 0\<rparr>"
  let ?b = "Header_Encode ?hd"
  have len: "length ?b = 24" by (simp add: Header_Encode_def)
  have f: "le16_at ?b 0 = cmd" "le16_at ?b 2 = word_of_nat (length data)" "le32_at ?b 4 = session"
    "take 8 (drop 12 ?b) = replicate 8 0"
    using Header_Decode_Encode [of ?hd "[]"] len by (simp_all add: Header_Decode_def)
  have dl: "unat (word_of_nat (length data) :: u16) = length data"
    using assms by (intro unat_word_of_nat) simp
  show ?thesis
    unfolding EipConn_Send_def using assms
    by (subst HandleConn.simps) (simp add: len f dl Let_def split: option.split prod.split)
qed

text \<open>The reply header is one the client decodes.\<close>

lemma receive_reply:
  assumes "length respData < 2 ^ 16"
  shows "EipConn_Receive (respHeader cmd (length respData) session status (replicate 8 0) @ respData) =
    Inr ((\<lparr>h_Command = cmd, h_Length = word_of_nat (length respData), h_SessionHandle = session,
           h_Status = status, h_SenderContext = replicate 8 0, h_Options = 0\<rparr>, respData), [])"
  using EipConn_Receive_Send [of respData "\<lparr>h_Command = cmd, h_Length = word_of_nat (length respData),
      h_SessionHandle = session, h_Status = status, h_SenderContext = replicate 8 0, h_Options = 0\<rparr>" "[]"] assms
  by (simp add: respHeader_def Header_Encode_def)

lemma exchange_served:
  assumes "ww_pending w = []" "\<not> ww_closed w" "length data \<le> maxPacketSize"
    and "handle_command router identity cmd data session (ww_handle w) (ww_shared w) =
      (Some (respData, status, session', h), sh)" "length respData < 2 ^ 16"
  shows "exchange (served router identity) cmd data session w =
    (Inr (\<lparr>h_Command = cmd, h_Length = word_of_nat (length respData), h_SessionHandle = session',
           h_Status = status, h_SenderContext = replicate 8 0, h_Options = 0\<rparr>, respData),
     w\<lparr>ww_handle := h, ww_shared := sh\<rparr>)"
  using assms by (simp add: exchange_def served_def HandleConn_packet receive_reply)

section \<open>A request through session and server\<close>

lemma wrap_find:
  assumes "length msg < 2 ^ 16"
  shows "\<exists>cpf item. DecodeCommonPacketFormat (CPF_Encode (NewCommonPacketFormat
      [NewCPFItem ItemIDNullAddress [], NewCPFItem ItemIDUnconnectedMessage msg])) = Inr cpf \<and>
    FindItemByType ItemIDUnconnectedMessage cpf = Some item \<and> ItemData item = msg"
proof -
  let ?cpf = "NewCommonPacketFormat [NewCPFItem ItemIDNullAddress [], NewCPFItem ItemIDUnconnectedMessage msg]"
  have "DecodeCommonPacketFormat (CPF_Encode ?cpf) = Inr ?cpf"
    using assms NewCPFItem_ok [OF assms] NewCPFItem_ok [of "[]" ItemIDNullAddress]
    by (intro CPF_roundtrip) (simp_all add: NewCommonPacketFormat_def)
  moreover have "FindItemByType ItemIDUnconnectedMessage ?cpf = Some (NewCPFItem ItemIDUnconnectedMessage msg)"
    by (simp add: FindItemByType_def NewCommonPacketFormat_def NewCPFItem_def)
  ultimately show ?thesis by (auto simp: NewCPFItem_def)
qed

lemma length_wrap: "length msg < 2 ^ 16 \<Longrightarrow>
  length (CPF_Encode (NewCommonPacketFormat
    [NewCPFItem ItemIDNullAddress [], NewCPFItem ItemIDUnconnectedMessage msg])) = 10 + length msg"
  using NewCPFItem_ok [of msg ItemIDUnconnectedMessage] NewCPFItem_ok [of "[]" ItemIDNullAddress]
  by (simp add: CPF_Encode_def NewCommonPacketFormat_def item_ok_Encode) (simp add: NewCPFItem_def)

text \<open>A request the wire carries and a response it carries back.\<close>

definition request_fits :: "MessageRouterRequest \<Rightarrow> bool" where
  "request_fits req \<longleftrightarrow> even (length (RequestPath req)) \<and> length (RequestPath req) < 512 \<and>
     (RequestPath req \<noteq> [] \<or> RequestData req \<noteq> []) \<and> length (MRRequest_Encode req) + 16 \<le> maxPacketSize"

definition response_fits :: "MessageRouterResponse \<Rightarrow> bool" where
  "response_fits resp \<longleftrightarrow> unat (ExtStatusSize resp) = length (ExtStatus resp) \<and>
     length (MRResponse_Encode resp) + 16 < 2 ^ 16"

lemma decode_request: "request_fits req \<Longrightarrow> DecodeMessageRouterRequest (MRRequest_Encode req) = Inr req"
  using LenWords_even [of "RequestPath req"]
  by (auto simp: request_fits_def DecodeMessageRouterRequest_def MRRequest_Encode_def read_some_def)

lemma decode_response: "response_fits resp \<Longrightarrow> DecodeMessageRouterResponse (MRResponse_Encode resp) = Inr resp"
  by (simp add: response_fits_def DecodeMessageRouterResponse_def MRResponse_Encode_def)

lemma SendCIPRequest_served:
  assumes "in_session h w" "request_fits req"
    and "Dispatch router req (objs (ww_shared w)) = (Inr resp, s')" "response_fits resp"
  shows "Session_SendCIPRequest (served router identity) h req w =
    (Inr resp, w\<lparr>ww_shared := (ww_shared w)\<lparr>objs := s'\<rparr>\<rparr>)"
proof -
  let ?m = "MRRequest_Encode req" and ?r = "MRResponse_Encode resp"
  let ?wrap = "\<lambda>msg. CPF_Encode (NewCommonPacketFormat
    [NewCPFItem ItemIDNullAddress [], NewCPFItem ItemIDUnconnectedMessage msg])"
  have m: "length ?m < 2 ^ 16" and r: "length ?r < 2 ^ 16"
    using assms(2,4) by (simp_all add: request_fits_def response_fits_def)
  obtain cpf item where c: "DecodeCommonPacketFormat (?wrap ?m) = Inr cpf"
    "FindItemByType ItemIDUnconnectedMessage cpf = Some item" "ItemData item = ?m"
    using wrap_find [OF m] by blast
  obtain cpf' item' where c': "DecodeCommonPacketFormat (?wrap ?r) = Inr cpf'"
    "FindItemByType ItemIDUnconnectedMessage cpf' = Some item'" "ItemData item' = ?r"
    using wrap_find [OF r] by blast
  let ?s = "objs (ww_shared w)"
  have "handleSendRRData router (replicate 6 0 @ ?wrap ?m) ?s = (Inr (wrapUnconnectedResponse ?r), s')"
    by (simp add: handleSendRRData_def c route_def decode_request [OF assms(2)] assms(3))
  then have "handle_command router identity CommandSendRRData (replicate 6 0 @ ?wrap ?m) h (ww_handle w) (ww_shared w) =
      (Some (wrapUnconnectedResponse ?r, EipStatusSuccess, h, h), (ww_shared w)\<lparr>objs := s'\<rparr>)"
    using assms(1) by (simp add: handle_command_def guarded_def in_session_def)
  moreover have "length (replicate 6 0 @ ?wrap ?m) \<le> maxPacketSize"
    using assms(2) length_wrap [OF m] by (simp add: request_fits_def)
  moreover have "length (wrapUnconnectedResponse ?r) < 2 ^ 16"
    using assms(4) length_wrap [OF r] by (simp add: wrapUnconnectedResponse_def response_fits_def)
  ultimately have "exchange (served router identity) CommandSendRRData (replicate 6 0 @ ?wrap ?m) h w =
      (Inr (\<lparr>h_Command = CommandSendRRData, h_Length = word_of_nat (length (wrapUnconnectedResponse ?r)),
             h_SessionHandle = h, h_Status = EipStatusSuccess, h_SenderContext = replicate 8 0, h_Options = 0\<rparr>,
            wrapUnconnectedResponse ?r), w\<lparr>ww_handle := h, ww_shared := (ww_shared w)\<lparr>objs := s'\<rparr>\<rparr>)"
    using assms(1) by (intro exchange_served) (simp_all add: in_session_def)
  moreover have "w\<lparr>ww_handle := h, ww_shared := x\<rparr> = w\<lparr>ww_shared := x\<rparr>" for x
    using assms(1) by (simp add: in_session_def)
  ultimately have "Session_SendRRData (served router identity) h ?m w =
      (Inr ?r, w\<lparr>ww_shared := (ww_shared w)\<lparr>objs := s'\<rparr>\<rparr>)"
    by (simp add: Session_SendRRData_def Let_def c' wrapUnconnectedResponse_def)
  then show ?thesis by (simp add: Session_SendCIPRequest_def decode_response [OF assms(4)])
qed

lemma SendCIPRequest_refused:
  assumes "in_session h w" "request_fits req"
    and "Dispatch router req (objs (ww_shared w)) = (Inl err, s')"
  shows "Session_SendCIPRequest (served router identity) h req w =
    (Inl (CIPErrorf ''RRData command failed''), w\<lparr>ww_shared := (ww_shared w)\<lparr>objs := s'\<rparr>\<rparr>)"
proof -
  let ?m = "MRRequest_Encode req"
  let ?wrap = "\<lambda>msg. CPF_Encode (NewCommonPacketFormat
    [NewCPFItem ItemIDNullAddress [], NewCPFItem ItemIDUnconnectedMessage msg])"
  have m: "length ?m < 2 ^ 16" using assms(2) by (simp add: request_fits_def)
  obtain cpf item where c: "DecodeCommonPacketFormat (?wrap ?m) = Inr cpf"
    "FindItemByType ItemIDUnconnectedMessage cpf = Some item" "ItemData item = ?m"
    using wrap_find [OF m] by blast
  let ?s = "objs (ww_shared w)"
  have "handleSendRRData router (replicate 6 0 @ ?wrap ?m) ?s = (Inl err, s')"
    by (simp add: handleSendRRData_def c route_def decode_request [OF assms(2)] assms(3))
  then have "handle_command router identity CommandSendRRData (replicate 6 0 @ ?wrap ?m) h (ww_handle w) (ww_shared w) =
      (Some ([], EipStatusInvalidCommand, h, h), (ww_shared w)\<lparr>objs := s'\<rparr>)"
    using assms(1) by (simp add: handle_command_def guarded_def in_session_def)
  moreover have "length (replicate 6 0 @ ?wrap ?m) \<le> maxPacketSize"
    using assms(2) length_wrap [OF m] by (simp add: request_fits_def)
  ultimately have "exchange (served router identity) CommandSendRRData (replicate 6 0 @ ?wrap ?m) h w =
      (Inr (\<lparr>h_Command = CommandSendRRData, h_Length = word_of_nat (length ([] :: byte list)),
             h_SessionHandle = h, h_Status = EipStatusInvalidCommand, h_SenderContext = replicate 8 0, h_Options = 0\<rparr>,
            []), w\<lparr>ww_handle := h, ww_shared := (ww_shared w)\<lparr>objs := s'\<rparr>\<rparr>)"
    using assms(1) by (intro exchange_served) (simp_all add: in_session_def)
  moreover have "w\<lparr>ww_handle := h, ww_shared := x\<rparr> = w\<lparr>ww_shared := x\<rparr>" for x
    using assms(1) by (simp add: in_session_def)
  ultimately show ?thesis
    by (simp add: Session_SendCIPRequest_def Session_SendRRData_def Let_def)
qed

lemma in_session_objs [simp]: "in_session h (w\<lparr>ww_shared := sh\<rparr>) \<longleftrightarrow> in_session h w"
  by (simp add: in_session_def)

lemma Register_served:
  assumes "nextSession sh + 1 \<noteq> 0"
  shows "\<exists>w. Session_Register (served router identity) (dialled sh) = (Inr (nextSession sh + 1), w) \<and>
    in_session (nextSession sh + 1) w \<and> ww_shared w = sh\<lparr>nextSession := nextSession sh + 1\<rparr>"
proof -
  let ?h = "nextSession sh + 1"
  have "handle_command router identity CommandRegisterSession RegisterSessionData 0 (ww_handle (dialled sh))
      (ww_shared (dialled sh)) = (Some (le16 1 @ le16 0, EipStatusSuccess, ?h, ?h), sh\<lparr>nextSession := ?h\<rparr>)"
    by (simp add: handle_command_def dialled_def Let_def)
  from exchange_served [OF _ _ _ this] have
    "exchange (served router identity) CommandRegisterSession RegisterSessionData 0 (dialled sh) =
      (Inr (\<lparr>h_Command = CommandRegisterSession, h_Length = word_of_nat (length (le16 1 @ le16 0)),
             h_SessionHandle = ?h, h_Status = EipStatusSuccess, h_SenderContext = replicate 8 0, h_Options = 0\<rparr>,
            le16 1 @ le16 0), (dialled sh)\<lparr>ww_handle := ?h, ww_shared := sh\<lparr>nextSession := ?h\<rparr>\<rparr>)"
    by (simp add: dialled_def RegisterSessionData_def)
  with assms show ?thesis by (simp add: Session_Register_def in_session_def dialled_def)
qed

section \<open>Runs of requests\<close>

fun session_run :: "'w eip_conn \<Rightarrow> Session \<Rightarrow> MessageRouterRequest list \<Rightarrow> 'w \<Rightarrow>
    (cerr + MessageRouterResponse) list \<times> 'w" where
  "session_run conn h [] w = ([], w)"
| "session_run conn h (req # reqs) w =
     (case Session_SendCIPRequest conn h req w of (r, w) \<Rightarrow>
      (case session_run conn h reqs w of (rs, w) \<Rightarrow> (r # rs, w)))"

text \<open>
  The specification: the requests dispatched one after the other.  The encapsulation tells the
  client only that a request was refused, not why.
\<close>

fun dispatch_run :: "'s MessageRouter \<Rightarrow> MessageRouterRequest list \<Rightarrow> 's \<Rightarrow>
    (cerr + MessageRouterResponse) list \<times> 's" where
  "dispatch_run router [] s = ([], s)"
| "dispatch_run router (req # reqs) s =
     (case Dispatch router req s of (r, s) \<Rightarrow>
      (case dispatch_run router reqs s of (rs, s) \<Rightarrow>
        ((case r of Inl err \<Rightarrow> Inl (CIPErrorf ''RRData command failed'') | Inr resp \<Rightarrow> Inr resp) # rs, s)))"

lemma session_run_ok:
  assumes "in_session h w" "list_all request_fits reqs"
    "\<forall>resp. Inr resp \<in> set (fst (dispatch_run router reqs (objs (ww_shared w)))) \<longrightarrow> response_fits resp"
  shows "session_run (served router identity) h reqs w =
    (fst (dispatch_run router reqs (objs (ww_shared w))),
     w\<lparr>ww_shared := (ww_shared w)\<lparr>objs := snd (dispatch_run router reqs (objs (ww_shared w)))\<rparr>\<rparr>)"
  using assms
proof (induction reqs arbitrary: w)
  case (Cons req reqs)
  obtain r s' where d: "Dispatch router req (objs (ww_shared w)) = (r, s')" by fastforce
  define w' where "w' = w\<lparr>ww_shared := (ww_shared w)\<lparr>objs := s'\<rparr>\<rparr>"
  have "Session_SendCIPRequest (served router identity) h req w =
      ((case r of Inl err \<Rightarrow> Inl (CIPErrorf ''RRData command failed'') | Inr resp \<Rightarrow> Inr resp), w')"
  proof (cases r)
    case (Inl err)
    with d Cons.prems show ?thesis by (simp add: SendCIPRequest_refused w'_def)
  next
    case (Inr resp)
    have "response_fits resp" using Cons.prems(3) d Inr by (auto split: prod.splits)
    with Inr d Cons.prems show ?thesis by (simp add: SendCIPRequest_served w'_def)
  qed
  moreover have "in_session h w'" using Cons.prems(1) by (simp add: w'_def)
  moreover have "\<forall>resp. Inr resp \<in> set (fst (dispatch_run router reqs s')) \<longrightarrow> response_fits resp"
    using Cons.prems(3) d by (auto split: prod.splits)
  ultimately show ?case
    using Cons.IH [of w'] Cons.prems(2) d by (simp add: w'_def split: prod.splits)
qed simp

section \<open>Packets before a session\<close>

lemma handle_command_unregistered:
  assumes "cmd \<noteq> CommandRegisterSession" "handle_command router identity cmd data session 0 sh = (r, sh')"
  shows "objs sh' = objs sh \<and> (\<forall>x. r = Some x \<longrightarrow> snd (snd (snd x)) = 0)"
  using assms by (auto simp: handle_command_def guarded_def split: if_splits)

section \<open>Sessions of the client and the server\<close>

lemma HandleConn_packet_append:
  assumes "length data \<le> maxPacketSize"
  shows "HandleConn router identity (EipConn_Send cmd data session @ rest) h sh =
    (case handle_command router identity cmd data session h sh of
       (None, sh) \<Rightarrow> ([], True, h, sh)
     | (Some (respData, status, session, h), sh) \<Rightarrow>
         (case HandleConn router identity rest h sh of (out, r) \<Rightarrow>
           (respHeader cmd (length respData) session status (replicate 8 0) @ respData @ out, r)))"
proof -
  let ?hd = "\<lparr>h_Command = cmd, h_Length = word_of_nat (length data), h_SessionHandle = session,
        h_Status = 0, h_SenderContext = replicate 8 0, h_Options = 0\<rparr>"
  let ?b = "Header_Encode ?hd"
  have len: "length ?b = 24" by (simp add: Header_Encode_def)
  have f: "le16_at ?b 0 = cmd" "le16_at ?b 2 = word_of_nat (length data)" "le32_at ?b 4 = session"
    "take 8 (drop 12 ?b) = replicate 8 0"
    using Header_Decode_Encode [of ?hd "[]"] len by (simp_all add: Header_Decode_def)
  have dl: "unat (word_of_nat (length data) :: u16) = length data"
    using assms by (intro unat_word_of_nat) simp
  show ?thesis
    unfolding EipConn_Send_def append_assoc using assms
    by (subst HandleConn.simps) (simp add: len f dl Let_def split: option.split prod.split)
qed

definition packets :: "(Command \<times> byte list \<times> SessionHandle) list \<Rightarrow> byte list" where
  "packets ps = concat (map (\<lambda>(cmd, data, session). EipConn_Send cmd data session) ps)"

lemma HandleConn_unregistered:
  assumes "list_all (\<lambda>(cmd, data, session). cmd \<noteq> CommandRegisterSession \<and> length data \<le> maxPacketSize) ps"
  shows "objs (snd (snd (snd (HandleConn router identity (packets ps) 0 sh)))) = objs sh"
  using assms
proof (induction ps arbitrary: sh)
  case (Cons p ps)
  obtain cmd data session where p: "p = (cmd, data, session)" by (cases p)
  obtain r sh' where hc: "handle_command router identity cmd data session 0 sh = (r, sh')" by fastforce
  have o: "objs sh' = objs sh" and z: "\<forall>x. r = Some x \<longrightarrow> snd (snd (snd x)) = 0"
    using handle_command_unregistered [OF _ hc] Cons.prems by (auto simp: p)
  have pk: "packets (p # ps) = EipConn_Send cmd data session @ packets ps" by (simp add: packets_def p)
  have len: "length data \<le> maxPacketSize" using Cons.prems by (simp add: p)
  show ?case
  proof (cases r)
    case None
    with hc o show ?thesis by (simp add: pk HandleConn_packet_append [OF len])
  next
    case (Some x)
    obtain respData status session' h where x: "x = (respData, status, session', h)" by (cases x)
    with z Some have "h = 0" by simp
    with hc o x Some Cons.IH [of sh'] Cons.prems show ?thesis
      by (simp add: pk HandleConn_packet_append [OF len] case_prod_beta)
  qed
qed (simp add: packets_def)

section \<open>Properties\<close>

text \<open>
  C2: requests through a session act as if dispatched directly.  A client that registers a
  session with the server gets the next handle, and a run of requests that fit the packet limits
  returns exactly the responses of dispatching them in order on the server's objects, a refused
  request as an error, and leaves the objects in the state dispatching leaves them.
\<close>

theorem eip_session_refines_dispatch:
  assumes "nextSession sh + 1 \<noteq> 0" "list_all request_fits reqs"
    "\<forall>resp. Inr resp \<in> set (fst (dispatch_run router reqs (objs sh))) \<longrightarrow> response_fits resp"
  shows "case Session_Register (served router identity) (dialled sh) of (r, w) \<Rightarrow>
    r = Inr (nextSession sh + 1) \<and>
    (case session_run (served router identity) (nextSession sh + 1) reqs w of (rs, w') \<Rightarrow>
       rs = fst (dispatch_run router reqs (objs sh)) \<and>
       objs (ww_shared w') = snd (dispatch_run router reqs (objs sh)))"
proof -
  obtain w where w: "Session_Register (served router identity) (dialled sh) = (Inr (nextSession sh + 1), w)"
    "in_session (nextSession sh + 1) w" "objs (ww_shared w) = objs sh"
    using Register_served [OF assms(1), of router identity] by auto
  with session_run_ok [OF w(2) assms(2), of router identity] assms(3) show ?thesis by simp
qed

text \<open>The adapter with an assembly object.\<close>

definition assembly_router :: "AssemblyObject MessageRouter" where
  "assembly_router = RegisterObject ClassAssembly Assembly_HandleRequest NewMessageRouter"

theorem eip_session_refines_dispatch_witness:
  "let p = BuildPath 0x04 100 3;
       reqs = [NewSetAttributeSingleRequest p [7, 8], NewGetAttributeSingleRequest p,
               NewGetAttributeSingleRequest (BuildPath 0x05 1 1)];
       sh = \<lparr>nextSession = 41, objs = RegisterAssembly 100 [1, 2] NewAssemblyObject\<rparr>
   in case Session_Register (served assembly_router default_identity) (dialled sh) of (r, w) \<Rightarrow>
        r = Inr 42 \<and>
        fst (session_run (served assembly_router default_identity) 42 reqs w) =
          [Inr (status_response 0x10 0 [] []), Inr (status_response 0x0E 0 [] [7, 8]),
           Inr (status_response 0x0E 0x16 [] [])]"
proof -
  let ?p = "BuildPath 0x04 100 3"
  let ?reqs = "[NewSetAttributeSingleRequest ?p [7, 8], NewGetAttributeSingleRequest ?p,
               NewGetAttributeSingleRequest (BuildPath 0x05 1 1)]"
  let ?sh = "\<lparr>nextSession = 41, objs = RegisterAssembly 100 [1, 2] NewAssemblyObject\<rparr>"
  have run: "fst (dispatch_run assembly_router ?reqs (objs ?sh)) =
      [Inr (status_response 0x10 0 [] []), Inr (status_response 0x0E 0 [] [7, 8]),
       Inr (status_response 0x0E 0x16 [] [])]"
    by (simp add: NewSetAttributeSingleRequest_def NewGetAttributeSingleRequest_def BuildPath_def AddClass_def
        AddInstance_def AddAttribute_def NewPath_def Dispatch_def assembly_router_def RegisterObject_def
        NewMessageRouter_def Assembly_HandleRequest_def assembly_target_def SetAttributeSingle_def
        GetAttributeSingle_def RegisterAssembly_def NewAssemblyObject_def)
  have fits: "list_all request_fits ?reqs"
    by (simp add: request_fits_def MRRequest_Encode_def NewSetAttributeSingleRequest_def
        NewGetAttributeSingleRequest_def BuildPath_def AddClass_def AddInstance_def AddAttribute_def NewPath_def)
  have "\<forall>resp. Inr resp \<in> set (fst (dispatch_run assembly_router ?reqs (objs ?sh))) \<longrightarrow> response_fits resp"
    unfolding run by (auto simp: response_fits_def status_response_def MRResponse_Encode_def)
  from eip_session_refines_dispatch [OF _ fits this, of default_identity] show ?thesis
    unfolding run Let_def by (simp add: case_prod_beta)
qed

text \<open>
  Nothing before a session.  Whatever packets other than RegisterSession a connection sends
  before it has a session, the state of the server's objects does not change.
\<close>

theorem eip_session_required:
  assumes "list_all (\<lambda>(cmd, data, session). cmd \<noteq> CommandRegisterSession \<and> length data \<le> maxPacketSize) ps"
  shows "objs (snd (snd (snd (HandleConn router identity (packets ps) 0 sh)))) = objs sh"
  by (rule HandleConn_unregistered) (fact assms)

theorem eip_session_required_witness:
  "objs (snd (snd (snd (HandleConn assembly_router default_identity
     (packets [(0x6F, replicate 20 0, 1), (0x70, [], 0)]) 0 \<lparr>nextSession = 1, objs = NewAssemblyObject\<rparr>)))) =
   NewAssemblyObject"
  using eip_session_required [of "[(0x6F, replicate 20 0, 1), (0x70, [], 0)]" assembly_router default_identity
      "\<lparr>nextSession = 1, objs = NewAssemblyObject\<rparr>"]
  by simp

text \<open>
  The client limit of the adapter can be exceeded.  The accept loop checks the number of
  registered clients before it spawns the handler that registers the next one, so with a limit
  of one two connections accepted in a row are both served.
\<close>

theorem eip_client_limit_overrun:
  "\<exists>s. eip_step\<^sup>*\<^sup>*
      \<lparr>es_started = False, es_done = False, es_listening = False, es_clients = Map.empty, es_spawned = {},
       es_maxClients = 1, es_injected = None, es_closed = []\<rparr> s \<and>
    int (card (dom (es_clients s))) > es_maxClients s"
proof -
  let ?init = "\<lparr>es_started = False, es_done = False, es_listening = False, es_clients = Map.empty, es_spawned = {},
       es_maxClients = 1, es_injected = None, es_closed = []\<rparr>"
  let ?s1 = "snd (EipServer_Start True ?init)"
  let ?s2 = "EipServer_accept ''a'' ?s1"
  let ?s3 = "EipServer_accept ''b'' ?s2"
  let ?s4 = "HandleConn_begin ''a'' ?s3"
  let ?s5 = "HandleConn_begin ''b'' ?s4"
  note defs = EipServer_Start_def EipServer_accept_def HandleConn_begin_def Let_def
  have "eip_step ?init ?s1" by (rule eip_start) simp
  moreover have "eip_step ?s1 ?s2" by (rule eip_accept) (simp_all add: defs)
  moreover have "eip_step ?s2 ?s3" by (rule eip_accept) (simp_all add: defs)
  moreover have "eip_step ?s3 ?s4" by (rule eip_begin) (simp add: defs)
  moreover have "eip_step ?s4 ?s5" by (rule eip_begin) (simp add: defs)
  ultimately have "eip_step\<^sup>*\<^sup>* ?init ?s5"
    by (iprover intro: converse_rtranclp_into_rtranclp rtranclp.rtrancl_refl)
  moreover have "int (card (dom (es_clients ?s5))) > es_maxClients ?s5" by (simp add: defs)
  ultimately show ?thesis by blast
qed

end
