(* ===== verification/Cip_Types.thy ===== *)
theory Cip_Types
  imports Eip_Client
begin

text \<open>
  Go values on the wire: \<^verbatim>\<open>src/protocol/ethernetip/cip\<close> \<^verbatim>\<open>encode.go\<close>, \<^verbatim>\<open>decode.go\<close>, \<^verbatim>\<open>registry.go\<close> and the
  names of \<^verbatim>\<open>types.go\<close>, and the codecs of \<^verbatim>\<open>vendor/rockwell/rockwell.go\<close>.  A Go value is tagged with
  its type; signed numbers and floats are their bit patterns.  The types a codec implements, and
  fixed-size structures, carry the bytes their encoding gives.  A value written with \<^verbatim>\<open>WriteTag\<close> is
  the value a typed read returns.
\<close>

unbundle bit_operations_syntax

section \<open>Encoding and decoding of Go values\<close>

text \<open>
  \<^verbatim>\<open>GFixed\<close> is a fixed-size type without an entry in the type table (a structure, an array),
  \<^verbatim>\<open>GMarshaler\<close> a value that implements \<^verbatim>\<open>Marshaler\<close> only, \<^verbatim>\<open>GCodec\<close> one that implements
  \<^verbatim>\<open>TypeCodec\<close>, \<^verbatim>\<open>GOther\<close> a type without a fixed size such as \<^verbatim>\<open>int\<close>.
\<close>

datatype cip_value =
    GBool bool | GInt8 byte | GInt16 u16 | GInt32 u32 | GInt64 u64
  | GUint8 byte | GUint16 u16 | GUint32 u32 | GUint64 u64 | GFloat32 u32 | GFloat64 u64
  | GString "byte list" | GFixed "byte list" | GMarshaler "cerr + byte list"
  | GCodec CipType "cerr + byte list" | GOther

text \<open>\<^verbatim>\<open>binary.Write\<close> in little-endian order; it refuses a type without a fixed size.\<close>

fun binary_Write :: "cip_value \<Rightarrow> byte list option" where
  "binary_Write (GBool b) = Some [if b then 1 else 0]"
| "binary_Write (GInt8 w) = Some (le_put 1 w)"
| "binary_Write (GInt16 w) = Some (le_put 2 w)"
| "binary_Write (GInt32 w) = Some (le_put 4 w)"
| "binary_Write (GInt64 w) = Some (le_put 8 w)"
| "binary_Write (GUint8 w) = Some (le_put 1 w)"
| "binary_Write (GUint16 w) = Some (le_put 2 w)"
| "binary_Write (GUint32 w) = Some (le_put 4 w)"
| "binary_Write (GUint64 w) = Some (le_put 8 w)"
| "binary_Write (GFloat32 w) = Some (le_put 4 w)"
| "binary_Write (GFloat64 w) = Some (le_put 8 w)"
| "binary_Write (GFixed bs) = Some bs"
| "binary_Write _ = None"

fun Marshal :: "cip_value \<Rightarrow> cerr + byte list" where
  "Marshal (GMarshaler r) = r"
| "Marshal (GCodec dt r) = r"
| "Marshal v =
     (case binary_Write v of
        None \<Rightarrow> Inl (CIPErrorf ''binary.Write failed'')
      | Some bs \<Rightarrow> Inr bs)"

abbreviation (input) TypeBOOL :: CipType where "TypeBOOL \<equiv> 0x00C1"
abbreviation (input) TypeSINT :: CipType where "TypeSINT \<equiv> 0x00C2"
abbreviation (input) TypeINT :: CipType where "TypeINT \<equiv> 0x00C3"
abbreviation (input) TypeDINT :: CipType where "TypeDINT \<equiv> 0x00C4"
abbreviation (input) TypeLINT :: CipType where "TypeLINT \<equiv> 0x00C5"
abbreviation (input) TypeUSINT :: CipType where "TypeUSINT \<equiv> 0x00C6"
abbreviation (input) TypeUINT :: CipType where "TypeUINT \<equiv> 0x00C7"
abbreviation (input) TypeUDINT :: CipType where "TypeUDINT \<equiv> 0x00C8"
abbreviation (input) TypeULINT :: CipType where "TypeULINT \<equiv> 0x00C9"
abbreviation (input) TypeREAL :: CipType where "TypeREAL \<equiv> 0x00CA"
abbreviation (input) TypeLREAL :: CipType where "TypeLREAL \<equiv> 0x00CB"
abbreviation (input) TypeSTRING :: CipType where "TypeSTRING \<equiv> 0x00D0"

fun GoTypeToCIPType :: "cip_value \<Rightarrow> cerr + CipType" where
  "GoTypeToCIPType (GCodec dt r) = Inr dt"
| "GoTypeToCIPType (GBool _) = Inr TypeBOOL"
| "GoTypeToCIPType (GInt8 _) = Inr TypeSINT"
| "GoTypeToCIPType (GInt16 _) = Inr TypeINT"
| "GoTypeToCIPType (GInt32 _) = Inr TypeDINT"
| "GoTypeToCIPType (GInt64 _) = Inr TypeLINT"
| "GoTypeToCIPType (GUint8 _) = Inr TypeUSINT"
| "GoTypeToCIPType (GUint16 _) = Inr TypeUINT"
| "GoTypeToCIPType (GUint32 _) = Inr TypeUDINT"
| "GoTypeToCIPType (GUint64 _) = Inr TypeULINT"
| "GoTypeToCIPType (GFloat32 _) = Inr TypeREAL"
| "GoTypeToCIPType (GFloat64 _) = Inr TypeLREAL"
| "GoTypeToCIPType (GString _) = Inr TypeSTRING"
| "GoTypeToCIPType _ = Inl (CIPErrorf ''unsupported Go type for automatic mapping'')"

text \<open>
  The destination of a decoder: a pointer to a type \<^verbatim>\<open>binary.Read\<close> knows, a value that implements
  \<^verbatim>\<open>Unmarshaler\<close>, any other type, or no usable pointer.
\<close>

datatype dest =
    DBool | DInt8 | DInt16 | DInt32 | DInt64 | DUint8 | DUint16 | DUint32 | DUint64 | DFloat32 | DFloat64
  | DFixed nat | DUnmarshaler "byte list \<Rightarrow> cerr + cip_value" | DOther | DNoPointer

fun dest_size :: "dest \<Rightarrow> nat option" where
  "dest_size DBool = Some 1"
| "dest_size DInt8 = Some 1"
| "dest_size DUint8 = Some 1"
| "dest_size DInt16 = Some 2"
| "dest_size DUint16 = Some 2"
| "dest_size DInt32 = Some 4"
| "dest_size DUint32 = Some 4"
| "dest_size DFloat32 = Some 4"
| "dest_size DInt64 = Some 8"
| "dest_size DUint64 = Some 8"
| "dest_size DFloat64 = Some 8"
| "dest_size (DFixed n) = Some n"
| "dest_size _ = None"

fun read_value :: "dest \<Rightarrow> byte list \<Rightarrow> cip_value" where
  "read_value DBool bs = GBool (hd bs \<noteq> 0)"
| "read_value DInt8 bs = GInt8 (le_get bs)"
| "read_value DInt16 bs = GInt16 (le_get bs)"
| "read_value DInt32 bs = GInt32 (le_get bs)"
| "read_value DInt64 bs = GInt64 (le_get bs)"
| "read_value DUint8 bs = GUint8 (le_get bs)"
| "read_value DUint16 bs = GUint16 (le_get bs)"
| "read_value DUint32 bs = GUint32 (le_get bs)"
| "read_value DUint64 bs = GUint64 (le_get bs)"
| "read_value DFloat32 bs = GFloat32 (le_get bs)"
| "read_value DFloat64 bs = GFloat64 (le_get bs)"
| "read_value (DFixed n) bs = GFixed bs"
| "read_value _ bs = GOther"

text \<open>\<^verbatim>\<open>binary.Read\<close> takes as many bytes as the type has and leaves the rest.\<close>

definition binary_Read :: "dest \<Rightarrow> byte list \<Rightarrow> cip_value option" where
  "binary_Read d data =
     (case dest_size d of
        None \<Rightarrow> None
      | Some n \<Rightarrow> if length data < n then None else Some (read_value d (take n data)))"

fun Unmarshal :: "byte list \<Rightarrow> dest \<Rightarrow> cerr + cip_value" where
  "Unmarshal data DNoPointer = Inl (CIPErrorf ''Unmarshal(non-pointer)'')"
| "Unmarshal data (DUnmarshaler f) = f data"
| "Unmarshal data d =
     (case binary_Read d data of
        None \<Rightarrow> Inl (CIPErrorf ''binary.Read failed'')
      | Some v \<Rightarrow> Inr v)"

section \<open>The type registry\<close>

text \<open>
  A codec as the registry sees it: the decoder of its zero value and the name its \<^verbatim>\<open>String\<close> gives,
  if it has one.  A factory is called for its value only.
\<close>

record TypeCodec =
  tc_Unmarshal :: "byte list \<Rightarrow> cerr + cip_value"
  tc_CIPType :: CipType
  tc_Stringer :: "string option"

record typeEntry =
  te_factory :: TypeCodec
  te_name :: string

type_synonym registry = "CipType \<rightharpoonup> typeEntry"

text \<open>\<^const>\<open>None\<close> is the panic on a duplicate.\<close>

definition RegisterType :: "CipType \<Rightarrow> TypeCodec \<Rightarrow> registry \<Rightarrow> registry option" where
  "RegisterType dt factory reg =
     (let base = Base dt in
      if reg base \<noteq> None then None
      else Some (reg(base \<mapsto> \<lparr>te_factory = factory,
                            te_name = (case tc_Stringer factory of Some s \<Rightarrow> s | None \<Rightarrow> '''')\<rparr>)))"

definition LookupType :: "CipType \<Rightarrow> registry \<Rightarrow> TypeCodec option" where
  "LookupType dt reg = map_option te_factory (reg (Base dt))"

definition lookupTypeName :: "CipType \<Rightarrow> registry \<Rightarrow> string" where
  "lookupTypeName dt reg = (case reg (Base dt) of None \<Rightarrow> '''' | Some e \<Rightarrow> te_name e)"

definition typeNames :: "(CipType \<times> string) list" where
  "typeNames =
     [(0x00C1, ''BOOL''), (0x00C2, ''SINT''), (0x00C3, ''INT''), (0x00C4, ''DINT''), (0x00C5, ''LINT''),
      (0x00C6, ''USINT''), (0x00C7, ''UINT''), (0x00C8, ''UDINT''), (0x00C9, ''ULINT''), (0x00CA, ''REAL''),
      (0x00CB, ''LREAL''), (0x00CC, ''STIME''), (0x00CD, ''DATE''), (0x00CE, ''TIME_OF_DAY''),
      (0x00CF, ''DATE_AND_TIME''), (0x00D0, ''STRING''), (0x00D1, ''BYTE''), (0x00D2, ''WORD''),
      (0x00D3, ''DWORD''), (0x00D4, ''LWORD''), (0x00D5, ''STRING2''), (0x00D6, ''FTIME''),
      (0x00D7, ''LTIME''), (0x00D8, ''ITIME''), (0x00D9, ''STRINGN''), (0x00DA, ''SHORT_STRING''),
      (0x00DB, ''TIME''), (0x00DC, ''EPATH''), (0x00DD, ''ENGUNIT''), (0x00DE, ''STRINGI''), (0x02A0, ''STRUCT'')]"

text \<open>\<^verbatim>\<open>%04X\<close>.\<close>

definition hex4 :: "u16 \<Rightarrow> string" where
  "hex4 w = map (\<lambda>i. hex_digit (unat w div 16 ^ i mod 16)) [3, 2, 1, 0]"

definition CipType_String :: "registry \<Rightarrow> CipType \<Rightarrow> string" where
  "CipType_String reg d =
     (let base = Base d;
          name = (case map_of typeNames base of Some n \<Rightarrow> n | None \<Rightarrow> lookupTypeName base reg)
      in if name = '''' then
           (if IsArray d then ''UNKNOWN(0x'' @ hex4 base @ '')[]'' else ''UNKNOWN(0x'' @ hex4 d @ '')'')
         else if IsArray d then name @ ''[]''
         else name)"

section \<open>Rockwell structures\<close>

record PID =
  pid_SP :: u32
  pid_PV :: u32
  pid_OUT :: u32
  pid_ERR :: u32
  pid_KP :: u32
  pid_KI :: u32
  pid_KD :: u32

definition PID_UnmarshalCIP :: "byte list \<Rightarrow> cerr + PID" where
  "PID_UnmarshalCIP data =
     (if length data < 28 then Inl (CIPError StatusNotEnoughData [])
      else Inr \<lparr>pid_SP = le32_at data 0, pid_PV = le32_at data 4, pid_OUT = le32_at data 8,
                pid_ERR = le32_at data 12, pid_KP = le32_at data 16, pid_KI = le32_at data 20,
                pid_KD = le32_at data 24\<rparr>)"

definition PID_MarshalCIP :: "PID \<Rightarrow> byte list" where
  "PID_MarshalCIP p =
     le32 (pid_SP p) @ le32 (pid_PV p) @ le32 (pid_OUT p) @ le32 (pid_ERR p) @
     le32 (pid_KP p) @ le32 (pid_KI p) @ le32 (pid_KD p)"

record Control =
  ct_LEN :: u32
  ct_POS :: u32
  ct_EN :: bool
  ct_EU :: bool
  ct_DN :: bool
  ct_EM :: bool
  ct_ER :: bool
  ct_UL :: bool
  ct_IN :: bool
  ct_FD :: bool

abbreviation (input) ControlStatusEN :: nat where "ControlStatusEN \<equiv> 31"
abbreviation (input) ControlStatusEU :: nat where "ControlStatusEU \<equiv> 30"
abbreviation (input) ControlStatusDN :: nat where "ControlStatusDN \<equiv> 29"
abbreviation (input) ControlStatusEM :: nat where "ControlStatusEM \<equiv> 28"
abbreviation (input) ControlStatusER :: nat where "ControlStatusER \<equiv> 27"
abbreviation (input) ControlStatusUL :: nat where "ControlStatusUL \<equiv> 26"
abbreviation (input) ControlStatusIN :: nat where "ControlStatusIN \<equiv> 25"
abbreviation (input) ControlStatusFD :: nat where "ControlStatusFD \<equiv> 24"

definition controlWire_UnmarshalCIP :: "byte list \<Rightarrow> Control" where
  "controlWire_UnmarshalCIP data =
     (let status = le32_at data 2 in
      \<lparr>ct_LEN = le32_at data 6, ct_POS = le32_at data 10,
       ct_EN = (status AND push_bit ControlStatusEN 1 \<noteq> 0),
       ct_EU = (status AND push_bit ControlStatusEU 1 \<noteq> 0),
       ct_DN = (status AND push_bit ControlStatusDN 1 \<noteq> 0),
       ct_EM = (status AND push_bit ControlStatusEM 1 \<noteq> 0),
       ct_ER = (status AND push_bit ControlStatusER 1 \<noteq> 0),
       ct_UL = (status AND push_bit ControlStatusUL 1 \<noteq> 0),
       ct_IN = (status AND push_bit ControlStatusIN 1 \<noteq> 0),
       ct_FD = (status AND push_bit ControlStatusFD 1 \<noteq> 0)\<rparr>)"

definition Control_UnmarshalCIP :: "byte list \<Rightarrow> cerr + Control" where
  "Control_UnmarshalCIP data =
     (if length data < 14 then Inl (CIPError StatusNotEnoughData []) else Inr (controlWire_UnmarshalCIP data))"

definition Control_MarshalCIP :: "Control \<Rightarrow> byte list" where
  "Control_MarshalCIP c =
     [0, 0] @
     le32 (set_flag (ct_FD c) ControlStatusFD (set_flag (ct_IN c) ControlStatusIN
       (set_flag (ct_UL c) ControlStatusUL (set_flag (ct_ER c) ControlStatusER
       (set_flag (ct_EM c) ControlStatusEM (set_flag (ct_DN c) ControlStatusDN
       (set_flag (ct_EU c) ControlStatusEU (set_flag (ct_EN c) ControlStatusEN 0)))))))) @
     le32 (ct_LEN c) @ le32 (ct_POS c)"

text \<open>The four registrations, whose codecs decode into the value they wrap.\<close>

definition rockwell_codec :: "string \<Rightarrow> CipType \<Rightarrow> (byte list \<Rightarrow> cerr + 'a) \<Rightarrow> ('a \<Rightarrow> byte list) \<Rightarrow> TypeCodec" where
  "rockwell_codec name dt decode encode =
     \<lparr>tc_Unmarshal = (\<lambda>data. res_bind (decode data) (\<lambda>x. Inr (GCodec dt (Inr (encode x))))),
      tc_CIPType = dt, tc_Stringer = Some name\<rparr>"

definition RegisterTimer :: "CipType \<Rightarrow> registry \<Rightarrow> registry option" where
  "RegisterTimer dt = RegisterType dt (rockwell_codec ''TIMER'' dt DecodeTimer Timer_MarshalCIP)"

definition RegisterCounter :: "CipType \<Rightarrow> registry \<Rightarrow> registry option" where
  "RegisterCounter dt = RegisterType dt (rockwell_codec ''COUNTER'' dt DecodeCounter Counter_MarshalCIP)"

definition RegisterPID :: "CipType \<Rightarrow> registry \<Rightarrow> registry option" where
  "RegisterPID dt = RegisterType dt (rockwell_codec ''PID'' dt PID_UnmarshalCIP PID_MarshalCIP)"

definition RegisterControl :: "CipType \<Rightarrow> registry \<Rightarrow> registry option" where
  "RegisterControl dt = RegisterType dt (rockwell_codec ''CONTROL'' dt Control_UnmarshalCIP Control_MarshalCIP)"

section \<open>Writing a Go value\<close>

text \<open>\<^verbatim>\<open>WriteTag\<close> from the value its caller gives.\<close>

definition WriteTag_value :: "EipClient \<Rightarrow> ('c, 'w) eip_env \<Rightarrow> byte list \<Rightarrow> cip_value \<Rightarrow> 'w \<Rightarrow>
    ((cerr + unit) \<times> 'w) option" where
  "WriteTag_value c env tagName value w =
     (case ParseTagPath tagName of
        Inl err \<Rightarrow> Some (Inl err, w)
      | Inr p \<Rightarrow>
          (case res_bind (GoTypeToCIPType value) (\<lambda>dt. res_bind (Marshal value) (\<lambda>data. Inr (dt, data))) of
             Inl err \<Rightarrow> Some (Inl err, w)
           | Inr (dt, data) \<Rightarrow> WriteTag c env tagName (dt, data) w))"

section \<open>Elementary values\<close>

text \<open>The values of the types CIP and Go share, and where each is read into.\<close>

fun dest_of :: "cip_value \<Rightarrow> dest option" where
  "dest_of (GBool _) = Some DBool"
| "dest_of (GInt8 _) = Some DInt8"
| "dest_of (GInt16 _) = Some DInt16"
| "dest_of (GInt32 _) = Some DInt32"
| "dest_of (GInt64 _) = Some DInt64"
| "dest_of (GUint8 _) = Some DUint8"
| "dest_of (GUint16 _) = Some DUint16"
| "dest_of (GUint32 _) = Some DUint32"
| "dest_of (GUint64 _) = Some DUint64"
| "dest_of (GFloat32 _) = Some DFloat32"
| "dest_of (GFloat64 _) = Some DFloat64"
| "dest_of _ = None"

lemma elementary_type:
  "dest_of v = Some d \<Longrightarrow> \<exists>dt. GoTypeToCIPType v = Inr dt \<and> dt < TypeSTRUCT"
  by (cases v) (auto simp: word_less_nat_alt)

lemma le_put_nonempty: "le_put (Suc n) w \<noteq> []"
  by (simp add: le_put_Suc)

lemma elementary_data:
  "dest_of v = Some d \<Longrightarrow> \<exists>data. Marshal v = Inr data \<and> Unmarshal (data @ extra) d = Inr v"
  by (cases v) (auto simp: binary_Read_def le_get_put le_put_nonempty)

text \<open>A string has a type code but no encoding: writing one always fails.\<close>

lemma string_unwritable: "GoTypeToCIPType (GString s) = Inr TypeSTRING \<and> (\<exists>err. Marshal (GString s) = Inl err)"
  by simp

text \<open>A value that only marshals itself has an encoding but no type code.\<close>

lemma marshaler_unwritable: "\<exists>err. GoTypeToCIPType (GMarshaler r) = Inl err"
  by simp

lemma WriteTag_value_fails:
  assumes "(\<exists>s. v = GString s) \<or> (\<exists>r. v = GMarshaler r)"
  shows "\<exists>err. WriteTag_value c env tagName v w = Some (Inl err, w)"
  using assms by (auto simp: WriteTag_value_def split: sum.splits)

section \<open>Codecs in the registry\<close>

text \<open>What a structure needs to be registered: decoding undoes encoding, and it has a name.\<close>

locale struct_codec =
  fixes name :: string and decode :: "byte list \<Rightarrow> cerr + 'a" and encode :: "'a \<Rightarrow> byte list"
  assumes decode_encode: "decode (encode x) = Inr x" and name_nonempty: "name \<noteq> []"
begin

lemma codec_stable:
  "tc_Unmarshal (rockwell_codec name dt decode encode) data = Inr v \<Longrightarrow>
   \<exists>bs. v = GCodec dt (Inr bs) \<and> tc_Unmarshal (rockwell_codec name dt decode encode) bs = Inr v"
  by (auto simp: rockwell_codec_def decode_encode res_simps)

lemma registered:
  assumes "RegisterType dt (rockwell_codec name dt decode encode) reg = Some reg'" "Base d = Base dt"
  shows "LookupType d reg' = Some (rockwell_codec name dt decode encode)" "lookupTypeName d reg' = name"
    "RegisterType d tc reg' = None"
    "Base e \<noteq> Base dt \<Longrightarrow> LookupType e reg' = LookupType e reg"
  using assms
  by (auto simp: RegisterType_def LookupType_def lookupTypeName_def rockwell_codec_def Let_def split: if_splits)

lemma displayed:
  assumes "RegisterType dt (rockwell_codec name dt decode encode) reg = Some reg'" "Base d = Base dt"
    "map_of typeNames (Base dt) = None"
  shows "CipType_String reg' d = (if IsArray d then name @ ''[]'' else name)"
proof -
  have "Base (Base d) = Base dt" using assms(2) by (simp add: Base_def and.assoc [symmetric])
  from registered(2) [OF assms(1) this] assms(2,3) name_nonempty show ?thesis
    by (simp add: CipType_String_def Let_def)
qed

lemma registration:
  assumes "RegisterType dt (rockwell_codec name dt decode encode) reg = Some reg'" "Base d = Base dt"
  shows "(\<exists>tc. LookupType d reg' = Some tc \<and> tc_CIPType tc = dt \<and>
      (\<forall>data v. tc_Unmarshal tc data = Inr v \<longrightarrow>
         (\<exists>bs. v = GCodec dt (Inr bs) \<and> tc_Unmarshal tc bs = Inr v))) \<and>
    (map_of typeNames (Base dt) = None \<longrightarrow> CipType_String reg' d = (if IsArray d then name @ ''[]'' else name)) \<and>
    (\<forall>tc. RegisterType d tc reg' = None) \<and>
    (\<forall>e. Base e \<noteq> Base dt \<longrightarrow> LookupType e reg' = LookupType e reg)"
proof (intro conjI exI [of _ "rockwell_codec name dt decode encode"] allI impI)
  show "tc_CIPType (rockwell_codec name dt decode encode) = dt" by (simp add: rockwell_codec_def)
qed (use registered [OF assms] displayed [OF assms] codec_stable in simp_all)

end

lemma PID_decode_encode: "PID_UnmarshalCIP (PID_MarshalCIP p) = Inr p"
  by (simp add: PID_UnmarshalCIP_def PID_MarshalCIP_def le32_at_def le32_def nth_append get_le32_le32)

lemma Control_decode_encode: "Control_UnmarshalCIP (Control_MarshalCIP c) = Inr c"
  by (simp add: Control_UnmarshalCIP_def Control_MarshalCIP_def controlWire_UnmarshalCIP_def Let_def
      le32_at_def le32_def nth_append get_le32_le32 flag_bit bit_set_flag del: push_bit_of_1)

interpretation timer_codec: struct_codec "''TIMER''" DecodeTimer Timer_MarshalCIP
  by unfold_locales (simp_all add: DecodeTimer_def Timer_MarshalCIP_def layout_decode flag_bit bit_set_flag
      del: push_bit_of_1)

interpretation counter_codec: struct_codec "''COUNTER''" DecodeCounter Counter_MarshalCIP
  by unfold_locales (simp_all add: DecodeCounter_def Counter_MarshalCIP_def layout_decode flag_bit bit_set_flag
      del: push_bit_of_1)

interpretation pid_codec: struct_codec "''PID''" PID_UnmarshalCIP PID_MarshalCIP
  by unfold_locales (simp_all add: PID_decode_encode)

interpretation control_codec: struct_codec "''CONTROL''" Control_UnmarshalCIP Control_MarshalCIP
  by unfold_locales (simp_all add: Control_decode_encode)

section \<open>Properties\<close>

text \<open>
  C36: a typed write is read back as the same Go value.  For every value of a type Go and CIP share
  (bool, the integers, the floats), and any tag the parser accepts: if the controller accepts the
  Write Tag request, whose type and data the client derives from the value, and then answers a
  Read Tag request with that type and data, \<^verbatim>\<open>WriteTag\<close> succeeds and \<^verbatim>\<open>Read[T]\<close> returns the value, even
  when more data follows.
\<close>

theorem eip_typed_write_read:
  assumes "dest_of v = Some d" "ParseTagPath tag = Inr p"
    "GoTypeToCIPType v = Inr dt" "Marshal v = Inr data"
    "st_Conn (env_tp env) w = (Inr sess, w)" "st_Conn (env_tp env) w1 = (Inr sess, w1)"
    "env_send env sess (NewWriteTagRequest p dt 1 data) w = (Inr wr, w1)" "IsSuccess wr"
    "env_send env sess (NewReadTagRequest p 1) w1 = (Inr rr, w2)" "IsSuccess rr"
    "ResponseData rr = le16 dt @ data @ extra"
  shows "WriteTag_value c env tag v w = Some (Inr (), w1) \<and>
    Read_T c env tag (\<lambda>bs. Unmarshal bs d) w1 = Some (Inr v, w2)"
proof
  have dt: "dt < TypeSTRUCT" using elementary_type [OF assms(1)] assms(3) by auto
  have val: "Unmarshal (data @ extra) d = Inr v" using elementary_data [OF assms(1)] assms(4) by auto
  show "WriteTag_value c env tag v w = Some (Inr (), w1)"
    unfolding WriteTag_value_def WriteTag_def using assms(2-5,7,8)
    by (simp add: res_simps) (rule do_settled, simp add: attempt_def cip_op_def MRResponse_Error_def)
  have "ReadTag c env tag w1 = Some (Inr (ResponseData rr), w2)"
    unfolding ReadTag_def ReadTagElements_def using assms(2,6,9,10)
    by (auto intro!: do_settled simp: attempt_def cip_op_def MRResponse_Error_def)
  then show "Read_T c env tag (\<lambda>bs. Unmarshal bs d) w1 = Some (Inr v, w2)"
    using strip_type_atomic [OF dt, of "data @ extra"] assms(11) val
    by (simp add: Read_T_def then_res_def res_simps)
qed

theorem eip_typed_write_read_witness:
  "let p = AddSymbolicSegment (bytes_of ''Speed'') NewPath; w = [p \<mapsto> le16 0xC4 @ [0xFE, 0xFF, 0xFF, 0xFF]]
   in WriteTag_value NewEipClient storing_plc (bytes_of ''Speed'') (GInt32 (-2)) Map.empty = Some (Inr (), w) \<and>
      Read_T NewEipClient storing_plc (bytes_of ''Speed'') (\<lambda>bs. Unmarshal bs DInt32) w = Some (Inr (GInt32 (-2)), w)"
proof -
  let ?p = "AddSymbolicSegment (bytes_of ''Speed'') NewPath"
  let ?d = "[0xFE, 0xFF, 0xFF, 0xFF] :: byte list"
  have "ParseTagPath (bytes_of ''Speed'') = Inr ?p" by code_simp
  moreover have "Marshal (GInt32 (-2)) = Inr ?d" by code_simp
  ultimately show ?thesis
    using eip_typed_write_read [of "GInt32 (-2)" DInt32 "bytes_of ''Speed''" ?p "0xC4" ?d storing_plc Map.empty "()"
        "[?p \<mapsto> le16 0xC4 @ ?d]" "status_response 0x4D 0 [] []" "status_response 0x4C 0 [] (le16 0xC4 @ ?d)"
        "[?p \<mapsto> le16 0xC4 @ ?d]" "[]" NewEipClient]
    by (simp add: storing_plc_def NewWriteTagRequest_def NewReadTagRequest_def status_response_def IsSuccess_def
        le16_def Let_def)
qed

text \<open>The registrations of the package, by the name of the type.\<close>

definition rockwell_types :: "(string \<times> (CipType \<Rightarrow> registry \<Rightarrow> registry option)) list" where
  "rockwell_types =
     [(''TIMER'', RegisterTimer), (''COUNTER'', RegisterCounter), (''PID'', RegisterPID),
      (''CONTROL'', RegisterControl)]"

lemmas registrations = rockwell_types_def RegisterTimer_def RegisterCounter_def RegisterPID_def RegisterControl_def

text \<open>
  A registered structure is found under its type code.  After any of the four registrations
  succeeds for a code, every code with the same base, array flag or not, looks up one codec
  with that code; decoding with it is stable, in that encoding what was decoded and decoding again
  gives the same value; the type displays under its name, with brackets for an array, unless the
  code is one CIP defines; registering the code again, whatever the structure, panics; and
  codes with another base keep what they had.
\<close>

theorem rockwell_registry:
  assumes "(name, register) \<in> set rockwell_types" "register dt reg = Some reg'" "Base d = Base dt"
  shows "(\<exists>tc. LookupType d reg' = Some tc \<and> tc_CIPType tc = dt \<and>
      (\<forall>data v. tc_Unmarshal tc data = Inr v \<longrightarrow>
         (\<exists>bs. v = GCodec dt (Inr bs) \<and> tc_Unmarshal tc bs = Inr v))) \<and>
    (map_of typeNames (Base dt) = None \<longrightarrow> CipType_String reg' d = (if IsArray d then name @ ''[]'' else name)) \<and>
    (\<forall>(n, r) \<in> set rockwell_types. r d reg' = None) \<and>
    (\<forall>e. Base e \<noteq> Base dt \<longrightarrow> LookupType e reg' = LookupType e reg)"
  using assms(1) unfolding registrations set_simps insert_iff prod.inject empty_iff
  apply (elim disjE conjE FalseE)
     apply (use assms(2,3) timer_codec.registration [of dt reg reg' d] in \<open>simp add: registrations\<close>)
    apply (use assms(2,3) counter_codec.registration [of dt reg reg' d] in \<open>simp add: registrations\<close>)
   apply (use assms(2,3) pid_codec.registration [of dt reg reg' d] in \<open>simp add: registrations\<close>)
  apply (use assms(2,3) control_codec.registration [of dt reg reg' d] in \<open>simp add: registrations\<close>)
  done

theorem rockwell_registry_witness:
  "\<exists>reg. RegisterControl 0x0F85 Map.empty = Some reg \<and> CipType_String reg 0x8F85 = ''CONTROL[]'' \<and>
     RegisterTimer 0x0F85 reg = None"
proof -
  obtain reg where r: "RegisterControl 0x0F85 Map.empty = Some reg"
    by (simp add: RegisterControl_def RegisterType_def Let_def)
  have "(''CONTROL'', RegisterControl) \<in> set rockwell_types" "(''TIMER'', RegisterTimer) \<in> set rockwell_types"
    by (simp_all add: rockwell_types_def)
  with rockwell_registry [OF this(1) r, of "0x8F85"] rockwell_registry [OF this(1) r, of "0x0F85"] r show ?thesis
    by (auto simp: Base_def IsArray_def typeNames_def)
qed

end
