(* ===== verification/Tag_Server.thy ===== *)
theory Tag_Server
  imports Cip_Types Eip_System "HOL-Library.AList"
begin

text \<open>
  The tag server of \<^verbatim>\<open>src/examples/ethernetip/server/main.go\<close> and the direct client of
  \<^verbatim>\<open>src/protocol/ethernetip/client.go\<close> (\<^verbatim>\<open>Connect\<close>), put together over the encapsulation.  Registered as
  the router's symbolic handler the tag object is a map from tag names to typed data, seen through
  the whole stack.  Registered under a class, as the example does it, no tag can be read or written.
\<close>

section \<open>The tag object\<close>

abbreviation (input) StatusPathDestinationUnknown :: USINT where "StatusPathDestinationUnknown \<equiv> 0x05"
abbreviation (input) ServiceGetAttributeAll :: USINT where "ServiceGetAttributeAll \<equiv> 0x01"

record tagEntry =
  te_dataType :: CipType
  te_data :: "byte list"

text \<open>The Go map as an association list with one entry per name.\<close>

record TagObject =
  tags :: "(byte list \<times> tagEntry) list"

definition NewTagObject :: TagObject where
  "NewTagObject = \<lparr>tags = []\<rparr>"

definition SetTag :: "byte list \<Rightarrow> CipType \<Rightarrow> byte list \<Rightarrow> TagObject \<Rightarrow> TagObject" where
  "SetTag name dataType data t =
     t\<lparr>tags := AList.update name \<lparr>te_dataType = dataType, te_data = data\<rparr> (tags t)\<rparr>"

definition parseSymbolicSegment :: "Path \<Rightarrow> cerr + byte list" where
  "parseSymbolicSegment raw =
     (if length raw < 2 then Inl (CIPErrorf ''path too short for symbolic segment'')
      else if raw ! 0 \<noteq> 0x91 then Inl (CIPErrorf ''expected symbolic segment (0x91)'')
      else let nameLen = unat (raw ! 1) in
        if length raw < 2 + nameLen then Inl (CIPErrorf ''path too short for symbol name'')
        else Inr (take nameLen (drop 2 raw)))"

definition handleReadTag :: "Path \<Rightarrow> byte list \<Rightarrow> TagObject \<Rightarrow> cerr + byte list" where
  "handleReadTag path data t =
     (case parseSymbolicSegment path of
        Inl _ \<Rightarrow> Inl (CIPError StatusPathSegmentError [])
      | Inr tagName \<Rightarrow>
          if length data < 2 then Inl (CIPError StatusNotEnoughData [])
          else (case map_of (tags t) tagName of
                  None \<Rightarrow> Inl (CIPError StatusPathDestinationUnknown [])
                | Some e \<Rightarrow> Inr (le16 (te_dataType e) @ te_data e)))"

definition handleWriteTag :: "Path \<Rightarrow> byte list \<Rightarrow> TagObject \<Rightarrow> (cerr + byte list) \<times> TagObject" where
  "handleWriteTag path data t =
     (case parseSymbolicSegment path of
        Inl _ \<Rightarrow> (Inl (CIPError StatusPathSegmentError []), t)
      | Inr tagName \<Rightarrow>
          if length data < 4 then (Inl (CIPError StatusNotEnoughData []), t)
          else (Inr [], t\<lparr>tags := AList.update tagName
                 \<lparr>te_dataType = le16_at data 0, te_data = drop 4 data\<rparr> (tags t)\<rparr>))"

definition handleGetAttributeAll :: "TagObject \<Rightarrow> cerr + byte list" where
  "handleGetAttributeAll t = Inr (le16 (word_of_nat (length (tags t))))"

definition TagObject_HandleRequest :: "TagObject object" where
  "TagObject_HandleRequest service path data t =
     (if service = ServiceReadTag then (handleReadTag path data t, t)
      else if service = ServiceWriteTag then handleWriteTag path data t
      else if service = ServiceGetAttributeAll then (handleGetAttributeAll t, t)
      else (Inl (CIPError StatusServiceNotSupported []), t))"

text \<open>What \<^verbatim>\<open>main\<close> sets up: the tags, and the router with the tag object under the class of assemblies.\<close>

definition demo_tags :: TagObject where
  "demo_tags =
     SetTag (bytes_of ''Counter'') TypeDINT (le32 0)
      (SetTag (bytes_of ''MySTRING'') TypeSTRING (le16 11 @ bytes_of ''Hello, EIP!'')
        (SetTag (bytes_of ''MyREAL'') TypeREAL (le32 0x4048F5C3)
          (SetTag (bytes_of ''MyDINT'') TypeDINT (le32 12345) NewTagObject)))"

definition demo_router :: "TagObject MessageRouter" where
  "demo_router = RegisterObject ClassAssembly TagObject_HandleRequest NewMessageRouter"

text \<open>One name has one entry, so the count of \<^verbatim>\<open>GetAttributeAll\<close> is the number of names.\<close>

definition tags_inv :: "TagObject \<Rightarrow> bool" where
  "tags_inv t \<longleftrightarrow> distinct (map fst (tags t))"

lemma HandleRequest_inv:
  "tags_inv t \<Longrightarrow> TagObject_HandleRequest service path data t = (r, t') \<Longrightarrow> tags_inv t'"
  by (auto simp: tags_inv_def TagObject_HandleRequest_def handleWriteTag_def distinct_update
      split: if_splits sum.splits)

lemma tags_inv_demo: "tags_inv demo_tags"
  by (simp add: tags_inv_def demo_tags_def SetTag_def NewTagObject_def distinct_update)

lemma GetAttributeAll_names:
  "tags_inv t \<Longrightarrow> handleGetAttributeAll t = Inr (le16 (word_of_nat (card (dom (map_of (tags t))))))"
  using distinct_card [of "map fst (tags t)"]
  by (simp add: handleGetAttributeAll_def tags_inv_def dom_map_of_conv_image_fst)

section \<open>The direct client\<close>

text \<open>
  \<^verbatim>\<open>Connect\<close>: a session over a connection that is dialled once, behind a direct transport.  The
  world of the client is its transport and the world of the connection.
\<close>

definition EipClient_Connect :: "'w eip_conn \<Rightarrow> ('w \<Rightarrow> 'w) \<Rightarrow> 'w \<Rightarrow> (cerr + Session DirectTransport) \<times> 'w" where
  "EipClient_Connect conn close w =
     (case SessionConnector_Connect conn close w of
        (Inl err, w) \<Rightarrow> (Inl err, w)
      | (Inr sess, w) \<Rightarrow>
          (case NewDirectTransport (Inr sess) of Inl e \<Rightarrow> lift_terr (Inl e) | Inr d \<Rightarrow> Inr d, w))"

definition direct_env :: "'w eip_conn \<Rightarrow> ('w \<Rightarrow> 'w) \<Rightarrow> (Session, Session DirectTransport \<times> 'w) eip_env" where
  "direct_env conn close =
     \<lparr>env_tp =
        \<lparr>st_Conn = (\<lambda>(d, w). (lift_terr (Direct_Conn d), d, w)),
         st_Reset = (\<lambda>sess (d, w).
           (Direct_Reset None sess d,
            if dt_active d \<and> dt_conn d = Some sess then SessionCloser_Close conn close sess w else w))\<rparr>,
      env_send = (\<lambda>sess req (d, w). (case Session_SendCIPRequest conn sess req w of (r, w) \<Rightarrow> (r, d, w)))\<rparr>"

definition hang_up :: "'s wire_world \<Rightarrow> 's wire_world" where
  "hang_up w = w\<lparr>ww_closed := True\<rparr>"

text \<open>A transport with its session open.\<close>

definition online :: "u32 \<Rightarrow> Session DirectTransport \<times> 's wire_world \<Rightarrow> bool" where
  "online h dw \<longleftrightarrow> in_session h (snd dw) \<and> dt_active (fst dw) \<and> \<not> dt_closed (fst dw) \<and> dt_conn (fst dw) = Some h"

lemma Connect_online:
  assumes "nextSession sh + 1 \<noteq> 0"
  shows "\<exists>d w. EipClient_Connect (served router identity) hang_up (dialled sh) = (Inr d, w) \<and>
    online (nextSession sh + 1) (d, w) \<and> objs (ww_shared w) = objs sh"
proof -
  obtain w where w: "Session_Register (served router identity) (dialled sh) = (Inr (nextSession sh + 1), w)"
    "in_session (nextSession sh + 1) w" "ww_shared w = sh\<lparr>nextSession := nextSession sh + 1\<rparr>"
    using Register_served [OF assms] by blast
  then show ?thesis
    by (simp add: EipClient_Connect_def SessionConnector_Connect_def NewDirectTransport_def online_def)
qed

section \<open>One request\<close>

text \<open>A tag without members or indices.\<close>

definition simple_tag :: "byte list \<Rightarrow> bool" where
  "simple_tag n \<longleftrightarrow> part_ok (Name n, [])"

lemma simple_tag_path: "simple_tag n \<Longrightarrow> ParseTagPath n = Inr (AddSymbolicSegment n NewPath)"
  using parseTagSegment_part [of "(Name n, [])"] split_show_tag [of "[(Name n, [])]"]
  by (simp add: simple_tag_def ParseTagPath_def splitTagSegments_def show_tag_def show_indices_def res_simps)

lemma simple_tag_name: "simple_tag n \<Longrightarrow> parseSymbolicSegment (AddSymbolicSegment n NewPath) = Inr n"
  by (simp add: simple_tag_def parseSymbolicSegment_def AddSymbolicSegment_def NewPath_def Let_def unat_word_of_nat)

lemma simple_tag_length:
  "simple_tag n \<Longrightarrow> length (AddSymbolicSegment n NewPath) \<le> 258"
  by (auto simp: simple_tag_def AddSymbolicSegment_def NewPath_def Let_def)

text \<open>Segments after the first are ignored: a member or an element is the tag itself.\<close>

lemma members_ignored:
  assumes "simple_tag n"
  shows "TagObject_HandleRequest service (AddSymbolicSegment n NewPath @ rest) data t =
    TagObject_HandleRequest service (AddSymbolicSegment n NewPath) data t"
proof -
  have "parseSymbolicSegment (AddSymbolicSegment n NewPath @ rest) = Inr n"
    using assms by (simp add: simple_tag_def parseSymbolicSegment_def AddSymbolicSegment_def NewPath_def Let_def unat_word_of_nat)
  with simple_tag_name [OF assms] show ?thesis
    by (simp add: TagObject_HandleRequest_def handleReadTag_def handleWriteTag_def)
qed

lemma Dispatch_symbolic:
  "Dispatch (RegisterSymbolicHandler obj mr) \<lparr>Service = svc, RequestPath = AddSymbolicSegment n NewPath, RequestData = d\<rparr> s =
     (case obj svc (AddSymbolicSegment n NewPath) d s of (out, s') \<Rightarrow> (Inr (handler_response svc out), s'))"
  by (simp add: Dispatch_def RegisterSymbolicHandler_def AddSymbolicSegment_def NewPath_def Let_def)

lemma Dispatch_no_symbols:
  "symbolicHandler mr = None \<Longrightarrow>
   Dispatch mr \<lparr>Service = svc, RequestPath = AddSymbolicSegment n NewPath, RequestData = d\<rparr> s =
     (Inl (CIPError StatusPathSegmentError []), s)"
  by (simp add: Dispatch_def AddSymbolicSegment_def NewPath_def Let_def)

lemma tag_request_fits:
  assumes "simple_tag n" "length data \<le> 3000" "data \<noteq> []"
  shows "request_fits \<lparr>Service = svc, RequestPath = AddSymbolicSegment n NewPath, RequestData = data\<rparr>"
  using simple_tag_length [OF assms(1)] assms(2,3)
  by (simp add: request_fits_def MRRequest_Encode_def NewPath_def [symmetric])
    (simp add: NewPath_def)

lemma attempt_online:
  assumes "online h (d, w)" "request_fits req" "Dispatch router req (objs (ww_shared w)) = (Inr resp, s')"
    "response_fits resp"
  shows "attempt r (env_tp (direct_env (served router identity) hang_up))
      (cip_op (env_send (direct_env (served router identity) hang_up)) req (\<lambda>x. Inr (g x))) (d, w) =
    (Some (case MRResponse_Error resp of Some err \<Rightarrow> Inl err | None \<Rightarrow> Inr (g (ResponseData resp))),
     (d, w\<lparr>ww_shared := (ww_shared w)\<lparr>objs := s'\<rparr>\<rparr>))"
  using assms(1) SendCIPRequest_served [OF _ assms(2-4), of h identity]
  by (simp add: online_def attempt_def direct_env_def cip_op_def Direct_Conn_def lift_terr_def split: option.split)

text \<open>The values the tag object holds fit a reply.\<close>

definition tags_fit :: "TagObject \<Rightarrow> bool" where
  "tags_fit t \<longleftrightarrow> (\<forall>n e. map_of (tags t) n = Some e \<longrightarrow> length (te_data e) \<le> 65000)"

lemma ReadTag_online:
  assumes "online h (d, w)" "simple_tag n" "tags_fit (objs (ww_shared w))"
  shows "ReadTag c (direct_env (served (RegisterSymbolicHandler TagObject_HandleRequest mr) identity) hang_up) n (d, w) =
    Some ((case map_of (tags (objs (ww_shared w))) n of
             None \<Rightarrow> Inl (CIPError StatusPathDestinationUnknown [])
           | Some e \<Rightarrow> Inr (le16 (te_dataType e) @ te_data e)), (d, w))"
proof -
  let ?t = "objs (ww_shared w)" and ?req = "NewReadTagRequest (AddSymbolicSegment n NewPath) 1"
  let ?resp = "handler_response ServiceReadTag (handleReadTag (AddSymbolicSegment n NewPath) (RequestData ?req) ?t)"
  have h: "handleReadTag (AddSymbolicSegment n NewPath) (RequestData ?req) ?t =
      (case map_of (tags ?t) n of None \<Rightarrow> Inl (CIPError StatusPathDestinationUnknown [])
       | Some e \<Rightarrow> Inr (le16 (te_dataType e) @ te_data e))"
    using simple_tag_name [OF assms(2)] by (simp add: handleReadTag_def NewReadTagRequest_def)
  have "response_fits ?resp"
    using assms(3) by (fastforce simp: h response_fits_def status_response_def MRResponse_Encode_def tags_fit_def
        split: option.split)
  moreover have "request_fits ?req"
    using assms(2) by (simp add: NewReadTagRequest_def tag_request_fits)
  moreover have "Dispatch (RegisterSymbolicHandler TagObject_HandleRequest mr) ?req ?t = (Inr ?resp, ?t)"
    by (simp add: NewReadTagRequest_def Dispatch_symbolic TagObject_HandleRequest_def)
  ultimately show ?thesis
    unfolding ReadTag_def ReadTagElements_def simple_tag_path [OF assms(2)]
    using attempt_online [OF assms(1), where g = "\<lambda>x. x"]
    by (simp add: do_settled h MRResponse_Error_def IsSuccess_def status_response_def split: option.split)
qed

lemma WriteTag_online:
  assumes "online h (d, w)" "simple_tag n" "length data \<le> 2996"
  shows "WriteTag c (direct_env (served (RegisterSymbolicHandler TagObject_HandleRequest mr) identity) hang_up) n (dt, data) (d, w) =
    Some (Inr (), (d, w\<lparr>ww_shared := (ww_shared w)\<lparr>objs := SetTag n dt data (objs (ww_shared w))\<rparr>\<rparr>))"
proof -
  let ?t = "objs (ww_shared w)" and ?req = "NewWriteTagRequest (AddSymbolicSegment n NewPath) dt 1 data"
  have "handleWriteTag (AddSymbolicSegment n NewPath) (RequestData ?req) ?t = (Inr [], SetTag n dt data ?t)"
    using simple_tag_name [OF assms(2)] le16_at_append [of "[]" 0 dt "le16 1 @ data"]
    by (simp add: handleWriteTag_def NewWriteTagRequest_def SetTag_def le16_def)
  then have "Dispatch (RegisterSymbolicHandler TagObject_HandleRequest mr) ?req ?t =
      (Inr (status_response ServiceWriteTag StatusSuccess [] []), SetTag n dt data ?t)"
    by (simp add: NewWriteTagRequest_def Dispatch_symbolic TagObject_HandleRequest_def)
  moreover have "response_fits (status_response ServiceWriteTag StatusSuccess [] [])"
    by (simp add: response_fits_def status_response_def MRResponse_Encode_def)
  moreover have "request_fits ?req"
    using assms(2,3) by (simp add: NewWriteTagRequest_def tag_request_fits)
  ultimately show ?thesis
    unfolding WriteTag_def simple_tag_path [OF assms(2)]
    using attempt_online [OF assms(1), where g = "\<lambda>x. ()"]
    by (simp add: do_settled MRResponse_Error_def IsSuccess_def status_response_def)
qed

section \<open>Runs of a client\<close>

datatype tag_op = OpRead "byte list" | OpWrite "byte list" cip_value

fun client_op :: "EipClient \<Rightarrow> ('c, 'w) eip_env \<Rightarrow> tag_op \<Rightarrow> 'w \<Rightarrow> ((cerr + byte list) \<times> 'w) option" where
  "client_op c env (OpRead n) w = ReadTag c env n w"
| "client_op c env (OpWrite n v) w = then_res (WriteTag_value c env n v w) (\<lambda>_. Inr [])"

fun client_run :: "EipClient \<Rightarrow> ('c, 'w) eip_env \<Rightarrow> tag_op list \<Rightarrow> 'w \<Rightarrow> ((cerr + byte list) list \<times> 'w) option" where
  "client_run c env [] w = Some ([], w)"
| "client_run c env (oper # opers) w =
     Option.bind (client_op c env oper w) (\<lambda>(r, w).
     Option.bind (client_run c env opers w) (\<lambda>(rs, w). Some (r # rs, w)))"

text \<open>The specification: a map from names to typed data.\<close>

type_synonym tag_map = "byte list \<rightharpoonup> CipType \<times> byte list"

fun map_op :: "tag_op \<Rightarrow> tag_map \<Rightarrow> (cerr + byte list) \<times> tag_map" where
  "map_op (OpRead n) m =
     ((case m n of None \<Rightarrow> Inl (CIPError StatusPathDestinationUnknown []) | Some (dt, data) \<Rightarrow> Inr (le16 dt @ data)), m)"
| "map_op (OpWrite n v) m =
     (case GoTypeToCIPType v of
        Inl err \<Rightarrow> (Inl err, m)
      | Inr dt \<Rightarrow> (case Marshal v of Inl err \<Rightarrow> (Inl err, m) | Inr data \<Rightarrow> (Inr [], m(n \<mapsto> (dt, data)))))"

fun map_run :: "tag_op list \<Rightarrow> tag_map \<Rightarrow> (cerr + byte list) list \<times> tag_map" where
  "map_run [] m = ([], m)"
| "map_run (oper # opers) m =
     (case map_op oper m of (r, m) \<Rightarrow> (case map_run opers m of (rs, m) \<Rightarrow> (r # rs, m)))"

definition abs_tags :: "TagObject \<Rightarrow> tag_map" where
  "abs_tags t n = map_option (\<lambda>e. (te_dataType e, te_data e)) (map_of (tags t) n)"

lemma abs_SetTag [simp]: "abs_tags (SetTag n dt data t) = (abs_tags t)(n \<mapsto> (dt, data))"
  by (rule ext) (simp add: abs_tags_def SetTag_def update_conv')

lemma tags_fit_SetTag: "\<lbrakk>tags_fit t; length data \<le> 65000\<rbrakk> \<Longrightarrow> tags_fit (SetTag n dt data t)"
  by (auto simp: tags_fit_def SetTag_def update_conv' split: if_splits)

text \<open>Names without members, values one packet carries.\<close>

fun op_ok :: "tag_op \<Rightarrow> bool" where
  "op_ok (OpRead n) \<longleftrightarrow> simple_tag n"
| "op_ok (OpWrite n v) \<longleftrightarrow>
     simple_tag n \<and> (case Marshal v of Inl _ \<Rightarrow> True | Inr data \<Rightarrow> length data \<le> 2996)"

lemma client_op_online:
  assumes "online h (d, w)" "op_ok oper" "tags_fit (objs (ww_shared w))"
  shows "\<exists>w'. client_op c (direct_env (served (RegisterSymbolicHandler TagObject_HandleRequest mr) identity) hang_up) oper (d, w) =
      Some (fst (map_op oper (abs_tags (objs (ww_shared w)))), (d, w')) \<and> online h (d, w') \<and>
    tags_fit (objs (ww_shared w')) \<and>
    abs_tags (objs (ww_shared w')) = snd (map_op oper (abs_tags (objs (ww_shared w))))"
proof (cases oper)
  case (OpRead n)
  with assms show ?thesis by (simp add: ReadTag_online abs_tags_def split: option.split)
next
  case (OpWrite n v)
  show ?thesis
  proof (cases "\<exists>dt data. GoTypeToCIPType v = Inr dt \<and> Marshal v = Inr data")
    case True
    then obtain dt data where v: "GoTypeToCIPType v = Inr dt" "Marshal v = Inr data" by blast
    with OpWrite assms show ?thesis
      by (auto simp: WriteTag_value_def simple_tag_path res_simps WriteTag_online then_res_def tags_fit_SetTag
          online_def)
  next
    case False
    with OpWrite assms show ?thesis
      by (cases "GoTypeToCIPType v"; cases "Marshal v")
        (simp_all add: WriteTag_value_def simple_tag_path res_simps then_res_def)
  qed
qed

lemma client_run_online:
  assumes "online h (d, w)" "list_all op_ok opers" "tags_fit (objs (ww_shared w))"
  shows "\<exists>w'. client_run c (direct_env (served (RegisterSymbolicHandler TagObject_HandleRequest mr) identity) hang_up) opers (d, w) =
      Some (fst (map_run opers (abs_tags (objs (ww_shared w)))), (d, w')) \<and>
    abs_tags (objs (ww_shared w')) = snd (map_run opers (abs_tags (objs (ww_shared w))))"
  using assms
proof (induction opers arbitrary: w)
  case (Cons oper opers)
  obtain w1 where w1: "client_op c (direct_env (served (RegisterSymbolicHandler TagObject_HandleRequest mr) identity) hang_up) oper (d, w) =
      Some (fst (map_op oper (abs_tags (objs (ww_shared w)))), (d, w1))" "online h (d, w1)"
    "tags_fit (objs (ww_shared w1))"
    "abs_tags (objs (ww_shared w1)) = snd (map_op oper (abs_tags (objs (ww_shared w))))"
    using client_op_online [OF Cons.prems(1) _ Cons.prems(3), of oper c mr identity] Cons.prems(2) by auto
  from Cons.IH [OF w1(2) _ w1(3)] Cons.prems(2) w1 show ?case
    by (fastforce split: prod.split)
qed simp

section \<open>A router without a symbolic handler\<close>

lemma Unregister_objs:
  "objs (ww_shared (SessionCloser_Close (served router identity) hang_up h w)) = objs (ww_shared w)"
  by (simp add: SessionCloser_Close_def Session_Unregister_def served_def hang_up_def HandleConn_packet
      handle_command_def)

lemma attempt_refused:
  assumes "online h (d, w)" "request_fits req" "Dispatch router req (objs (ww_shared w)) = (Inl err, objs (ww_shared w))"
  shows "\<exists>d' w'. attempt r (env_tp (direct_env (served router identity) hang_up))
      (cip_op (env_send (direct_env (served router identity) hang_up)) req k) (d, w) = (None, (d', w')) \<and>
    \<not> dt_active d' \<and> objs (ww_shared w') = objs (ww_shared w)"
  using assms(1) SendCIPRequest_refused [OF _ assms(2,3), of h identity]
  by (simp add: online_def attempt_def direct_env_def cip_op_def Direct_Conn_def lift_terr_def Direct_Reset_def
      Unregister_objs)

lemma tries_inactive:
  assumes "\<not> dt_active d" "r \<noteq> 0 \<or> n = 0"
  shows "tries n (attempt r (env_tp (direct_env conn close)) oper) (d, w) = (Inl exhausted, (d, w))"
  using assms by (induction n) (auto simp: attempt_def direct_env_def Direct_Conn_def lift_terr_def)

lemma do_refused:
  assumes "online h (d, w)" "request_fits req" "Dispatch router req (objs (ww_shared w)) = (Inl err, objs (ww_shared w))"
    "0 \<le> eretries c" "eretries c < 2147483647"
  shows "\<exists>d' w'. do c (env_tp (direct_env (served router identity) hang_up))
      (cip_op (env_send (direct_env (served router identity) hang_up)) req k) (d, w) = Some (Inl exhausted, (d', w')) \<and>
    \<not> dt_active d' \<and> objs (ww_shared w') = objs (ww_shared w)"
proof -
  obtain d' w' where a: "attempt (eretries c) (env_tp (direct_env (served router identity) hang_up))
      (cip_op (env_send (direct_env (served router identity) hang_up)) req k) (d, w) = (None, (d', w'))"
    "\<not> dt_active d'" "objs (ww_shared w') = objs (ww_shared w)"
    using attempt_refused [OF assms(1-3)] by blast
  have n: "0 + int (Suc (nat (eretries c))) = eretries c + 1" using assms(4) by simp
  from a show ?thesis by (simp add: do_def do_loop_tries [OF assms(5,4) n] tries_inactive)
qed

section \<open>Properties\<close>


definition demo_shared :: "TagObject shared" where
  "demo_shared = \<lparr>nextSession = 0, objs = demo_tags\<rparr>"


text \<open>
  C40: The example server cannot be read or written through the client.  It registers its tag object
  under a class, and the client addresses tags by name: the router refuses the path, so every \<^verbatim>\<open>ReadTag\<close>
  and \<^verbatim>\<open>WriteTag\<close> of a client with a bounded number of retries ends with an error, and the tags stay
  as they were.
\<close>

theorem demo_server_unreachable:
  assumes "nextSession sh + 1 \<noteq> 0" "op_ok oper" "0 \<le> eretries c" "eretries c < 2147483647"
  shows "let conn = served demo_router identity in
    \<exists>d w err w'. EipClient_Connect conn hang_up (dialled sh) = (Inr d, w) \<and>
      client_op c (direct_env conn hang_up) oper (d, w) = Some (Inl err, w') \<and>
      objs (ww_shared (snd w')) = objs sh"
proof -
  obtain d w where dw: "EipClient_Connect (served demo_router identity) hang_up (dialled sh) = (Inr d, w)"
    "online (nextSession sh + 1) (d, w)" "objs (ww_shared w) = objs sh"
    using Connect_online [OF assms(1)] by blast
  have no: "symbolicHandler demo_router = None" by (simp add: demo_router_def RegisterObject_def NewMessageRouter_def)
  note refused = do_refused [OF dw(2) _ _ assms(3,4), of _ demo_router]
  have "\<exists>err w'. client_op c (direct_env (served demo_router identity) hang_up) oper (d, w) = Some (Inl err, w') \<and>
      objs (ww_shared (snd w')) = objs sh"
  proof (cases oper)
    case (OpRead n)
    have "request_fits (NewReadTagRequest (AddSymbolicSegment n NewPath) 1)"
      using OpRead assms(2) by (simp add: NewReadTagRequest_def tag_request_fits)
    from refused [OF this] dw(3) OpRead assms(2) show ?thesis
      by (fastforce simp: ReadTag_def ReadTagElements_def simple_tag_path NewReadTagRequest_def Dispatch_no_symbols [OF no])
  next
    case (OpWrite n v)
    show ?thesis
    proof (cases "\<exists>dt data. GoTypeToCIPType v = Inr dt \<and> Marshal v = Inr data")
      case True
      then obtain dt data where v: "GoTypeToCIPType v = Inr dt" "Marshal v = Inr data" by blast
      have "request_fits (NewWriteTagRequest (AddSymbolicSegment n NewPath) dt 1 data)"
        using OpWrite assms(2) v by (simp add: NewWriteTagRequest_def tag_request_fits)
      from refused [OF this] dw(3) OpWrite assms(2) v show ?thesis
        by (fastforce simp: WriteTag_value_def WriteTag_def simple_tag_path res_simps then_res_def NewWriteTagRequest_def
            Dispatch_no_symbols [OF no])
    next
      case False
      with OpWrite assms(2) dw(3) show ?thesis
        by (cases "GoTypeToCIPType v"; cases "Marshal v")
          (simp_all add: WriteTag_value_def simple_tag_path res_simps then_res_def)
    qed
  qed
  with dw(1) show ?thesis by (simp add: Let_def)
qed

theorem demo_server_unreachable_witness:
  "let conn = served demo_router default_identity in
    \<exists>d w err w'. EipClient_Connect conn hang_up (dialled demo_shared) = (Inr d, w) \<and>
      client_op NewEipClient (direct_env conn hang_up) (OpRead (bytes_of ''MyDINT'')) (d, w) = Some (Inl err, w') \<and>
      objs (ww_shared (snd w')) = demo_tags"
proof -
  have "op_ok (OpRead (bytes_of ''MyDINT''))" by code_simp
  then show ?thesis
    using demo_server_unreachable [of demo_shared "OpRead (bytes_of ''MyDINT'')" NewEipClient default_identity]
    by (simp add: demo_shared_def NewEipClient_def)
qed

end
