(* ===== verification/Pccc.thy ===== *)
theory Pccc
  imports Cip_Path
begin

text \<open>
  \<^verbatim>\<open>src/protocol/ethernetip/pccc\<close>, the framing layer: \<^verbatim>\<open>frame.go\<close> (file types, typed logical
  commands and replies), \<^verbatim>\<open>address.go\<close> (SLC data-table addresses) and \<^verbatim>\<open>timer.go\<close>.  Go's \<^verbatim>\<open>int\<close> is
  \<^typ>\<open>int\<close>; strings are sequences of bytes.  An address the parser accepts can be framed, and
  the text of an address parses back to it.
\<close>

unbundle bit_operations_syntax

section \<open>File types\<close>

type_synonym FileType = byte

abbreviation (input) FileTypeStatus :: FileType where "FileTypeStatus \<equiv> 0x84"
abbreviation (input) FileTypeBit :: FileType where "FileTypeBit \<equiv> 0x85"
abbreviation (input) FileTypeTimer :: FileType where "FileTypeTimer \<equiv> 0x86"
abbreviation (input) FileTypeCounter :: FileType where "FileTypeCounter \<equiv> 0x87"
abbreviation (input) FileTypeControl :: FileType where "FileTypeControl \<equiv> 0x88"
abbreviation (input) FileTypeInteger :: FileType where "FileTypeInteger \<equiv> 0x89"
abbreviation (input) FileTypeFloat :: FileType where "FileTypeFloat \<equiv> 0x8A"
abbreviation (input) FileTypeOutput :: FileType where "FileTypeOutput \<equiv> 0x8B"
abbreviation (input) FileTypeInput :: FileType where "FileTypeInput \<equiv> 0x8C"
abbreviation (input) FileTypeString :: FileType where "FileTypeString \<equiv> 0x8D"
abbreviation (input) FileTypeASCII :: FileType where "FileTypeASCII \<equiv> 0x8E"
abbreviation (input) FileTypeBCD :: FileType where "FileTypeBCD \<equiv> 0x8F"

definition fileTypeTable :: "(FileType \<times> byte list) list" where
  "fileTypeTable =
     [(FileTypeStatus, bytes_of ''S''), (FileTypeBit, bytes_of ''B''), (FileTypeTimer, bytes_of ''T''),
      (FileTypeCounter, bytes_of ''C''), (FileTypeControl, bytes_of ''R''), (FileTypeInteger, bytes_of ''N''),
      (FileTypeFloat, bytes_of ''F''), (FileTypeOutput, bytes_of ''O''), (FileTypeInput, bytes_of ''I''),
      (FileTypeString, bytes_of ''ST''), (FileTypeASCII, bytes_of ''A''), (FileTypeBCD, bytes_of ''D'')]"

definition Letter :: "FileType \<Rightarrow> byte list" where
  "Letter ft = (case find (\<lambda>e. fst e = ft) fileTypeTable of Some e \<Rightarrow> snd e | None \<Rightarrow> [])"

text \<open>
  \<^verbatim>\<open>strings.ToUpper\<close> as far as an address can tell: ASCII letters, and the two runes beyond ASCII
  whose upper case is ASCII (dotless i and long s).  The other runes beyond ASCII stay beyond
  ASCII, whatever their bytes, and are accepted nowhere.
\<close>

definition upper :: "byte \<Rightarrow> byte" where
  "upper c = (if 0x61 \<le> c \<and> c \<le> 0x7A then c - 0x20 else c)"

fun ToUpper :: "byte list \<Rightarrow> byte list" where
  "ToUpper [] = []"
| "ToUpper [c] = [upper c]"
| "ToUpper (c # d # s) =
     (if c = 0xC4 \<and> d = 0xB1 then 0x49 # ToUpper s
      else if c = 0xC5 \<and> d = 0xBF then 0x53 # ToUpper s
      else upper c # ToUpper (d # s))"

definition FileTypeFromLetter :: "byte list \<Rightarrow> FileType option" where
  "FileTypeFromLetter letter =
     map_option fst (find (\<lambda>e. snd e = ToUpper letter) fileTypeTable)"

section \<open>Frames\<close>

abbreviation (input) CmdProtectedTypedLogical :: byte where "CmdProtectedTypedLogical \<equiv> 0x0F"
abbreviation (input) FuncProtectedTypedLogicalRead :: byte where "FuncProtectedTypedLogicalRead \<equiv> 0xA2"
abbreviation (input) FuncProtectedTypedLogicalWrite :: byte where "FuncProtectedTypedLogicalWrite \<equiv> 0xAA"
abbreviation (input) ReplyBit :: byte where "ReplyBit \<equiv> 0x40"
abbreviation (input) StatusUseExtSTS :: byte where "StatusUseExtSTS \<equiv> 0xF0"

record Reply =
  r_Command :: byte
  r_STS :: byte
  r_TNS :: u16
  r_ExtSTS :: byte
  r_Data :: "byte list"

text \<open>Errors: a status of the controller, an error of the executor, or one of this package.\<close>

datatype perr = PCCCError byte byte | PExec cerr | PErrorf string

definition IsPCCCError :: "perr \<Rightarrow> bool" where
  "IsPCCCError err = (case err of PCCCError _ _ \<Rightarrow> True | _ \<Rightarrow> False)"

definition validateAddress :: "int \<Rightarrow> int \<Rightarrow> int \<Rightarrow> FileType \<Rightarrow> perr option" where
  "validateAddress fileNum elem subElem ft =
     (if Letter ft = [] then Some (PErrorf ''unknown file type'')
      else if fileNum < 0 \<or> fileNum > 255 then Some (PErrorf ''file number out of range [0,255]'')
      else if elem < 0 \<or> elem > 255 then Some (PErrorf ''element out of range [0,255]'')
      else if subElem < 0 \<or> subElem > 255 then Some (PErrorf ''sub-element out of range [0,255]'')
      else None)"

definition EncodeTypedRead :: "u16 \<Rightarrow> int \<Rightarrow> int \<Rightarrow> FileType \<Rightarrow> int \<Rightarrow> int \<Rightarrow> perr + byte list" where
  "EncodeTypedRead tns byteSize fileNum ft elem subElem =
     (case validateAddress fileNum elem subElem ft of
        Some err \<Rightarrow> Inl err
      | None \<Rightarrow>
          if byteSize < 1 \<or> byteSize > 255 then Inl (PErrorf ''byte size out of range [1,255]'')
          else Inr ([CmdProtectedTypedLogical, 0x00] @ le16 tns @
            [FuncProtectedTypedLogicalRead, word_of_int byteSize, word_of_int fileNum, ft,
             word_of_int elem, word_of_int subElem]))"

definition EncodeTypedWrite :: "u16 \<Rightarrow> int \<Rightarrow> FileType \<Rightarrow> int \<Rightarrow> int \<Rightarrow> byte list \<Rightarrow> perr + byte list" where
  "EncodeTypedWrite tns fileNum ft elem subElem data =
     (case validateAddress fileNum elem subElem ft of
        Some err \<Rightarrow> Inl err
      | None \<Rightarrow>
          if data = [] then Inl (PErrorf ''write data is empty'')
          else if length data > 240 then Inl (PErrorf ''write data too large'')
          else Inr ([CmdProtectedTypedLogical, 0x00] @ le16 tns @
            [FuncProtectedTypedLogicalWrite, word_of_int fileNum, ft, word_of_int elem, word_of_int subElem] @ data))"

definition DecodeReply :: "byte list \<Rightarrow> perr + Reply" where
  "DecodeReply raw =
     (if length raw < 4 then Inl (PErrorf ''reply too short'')
      else if raw ! 0 AND ReplyBit = 0 then Inl (PErrorf ''CMD has no reply bit set'')
      else
        (let r = \<lparr>r_Command = raw ! 0 AND NOT ReplyBit, r_STS = raw ! 1, r_TNS = le16_at raw 2,
                  r_ExtSTS = 0, r_Data = []\<rparr>;
             rest = drop 4 raw
         in if r_STS r = StatusUseExtSTS \<and> length rest < 1
            then Inl (PErrorf ''STS=0xF0 but reply missing EXT STS byte'')
            else
              (let (r, rest) =
                     (if r_STS r = StatusUseExtSTS then (r\<lparr>r_ExtSTS := rest ! 0\<rparr>, drop 1 rest) else (r, rest))
               in if r_STS r \<noteq> 0 then Inl (PCCCError (r_STS r) (r_ExtSTS r))
                  else Inr (r\<lparr>r_Data := rest\<rparr>))))"

section \<open>Status messages\<close>

definition localStatusMessages :: "(byte \<times> string) list" where
  "localStatusMessages =
     [(0x01, ''local: destination node out of buffer space''),
      (0x02, ''local: cannot guarantee delivery (link layer)''),
      (0x03, ''local: duplicate token holder detected''),
      (0x04, ''local: local port disconnected''),
      (0x05, ''local: application timed out waiting for response''),
      (0x06, ''local: duplicate node detected''),
      (0x07, ''local: station is offline''),
      (0x08, ''local: hardware fault''),
      (0x10, ''remote: illegal command or format''),
      (0x20, ''remote: host has a problem and will not communicate''),
      (0x30, ''remote: remote node host is missing, disconnected, or shut down''),
      (0x40, ''remote: host could not complete function due to hardware fault''),
      (0x50, ''remote: addressing problem or memory protect rungs''),
      (0x60, ''remote: function not allowed due to command-protection selection''),
      (0x70, ''remote: processor is in program mode''),
      (0x80, ''remote: compatibility-mode file missing or communication-zone problem''),
      (0x90, ''remote: remote node cannot buffer command''),
      (0xA0, ''remote: wait ACK (1775-KA buffer full)''),
      (0xB0, ''remote: remote node problem due to download''),
      (0xC0, ''remote: wait ACK (1775-KA buffer full)'')]"

definition extStatusMessages :: "(byte \<times> string) list" where
  "extStatusMessages =
     [(0x01, ''a field has an illegal value''),
      (0x02, ''fewer levels specified in address than minimum''),
      (0x03, ''more levels specified in address than system supports''),
      (0x04, ''symbol not found''),
      (0x05, ''symbol is of improper format''),
      (0x06, ''address does not point to something usable''),
      (0x07, ''file is wrong size''),
      (0x08, ''cannot complete request; situation changed since command started''),
      (0x09, ''data or file is too large''),
      (0x0A, ''transaction size plus word address is too large''),
      (0x0B, ''access denied, improper privilege''),
      (0x0C, ''condition cannot be generated; resource is not available''),
      (0x0D, ''condition already exists; resource is already available''),
      (0x0E, ''command cannot be executed''),
      (0x0F, ''histogram overflow''),
      (0x10, ''no access''),
      (0x11, ''illegal data type''),
      (0x12, ''invalid parameter or invalid data''),
      (0x13, ''address reference exists to deleted area''),
      (0x14, ''command execution failure for unknown reason''),
      (0x15, ''data conversion error''),
      (0x16, ''scanner not able to communicate with 1771 rack adapter''),
      (0x17, ''type mismatch''),
      (0x18, ''1771 module response was not valid''),
      (0x19, ''duplicated label''),
      (0x1A, ''file is open; another node owns it''),
      (0x1B, ''another node is the program owner''),
      (0x1E, ''data table element protection violation''),
      (0x1F, ''temporary internal problem'')]"

definition hex2 :: "byte \<Rightarrow> string" where
  "hex2 b = ''0x'' @ [hex_digit (unat b div 16), hex_digit (unat b mod 16)]"

definition StatusMessage :: "byte \<Rightarrow> byte \<Rightarrow> string" where
  "StatusMessage sts extSTS =
     (if sts = 0 then ''success''
      else if sts = StatusUseExtSTS then
        (case map_of extStatusMessages extSTS of Some msg \<Rightarrow> msg | None \<Rightarrow> ''extended status '' @ hex2 extSTS)
      else
        (case map_of localStatusMessages sts of Some msg \<Rightarrow> msg | None \<Rightarrow> ''status '' @ hex2 sts))"

definition Error_string :: "byte \<Rightarrow> byte \<Rightarrow> string" where
  "Error_string sts extSTS =
     (if sts = StatusUseExtSTS
      then ''pccc: STS='' @ hex2 sts @ '' EXT_STS='' @ hex2 extSTS @ '' ('' @ StatusMessage sts extSTS @ '')''
      else ''pccc: STS='' @ hex2 sts @ '' ('' @ StatusMessage sts extSTS @ '')'')"

section \<open>Addresses\<close>

record PcccAddress =
  a_FileType :: FileType
  a_FileNumber :: int
  a_Element :: int
  a_SubElement :: int
  a_BitNum :: int

definition isAlpha :: "byte \<Rightarrow> bool" where
  "isAlpha b \<longleftrightarrow> (0x41 \<le> b \<and> b \<le> 0x5A) \<or> (0x61 \<le> b \<and> b \<le> 0x7A)"

definition isDigit :: "byte \<Rightarrow> bool" where
  "isDigit b \<longleftrightarrow> 0x30 \<le> b \<and> b \<le> 0x39"

definition pccc_isAllDigits :: "byte list \<Rightarrow> bool" where
  "pccc_isAllDigits s \<longleftrightarrow> s \<noteq> [] \<and> list_all isDigit s"

definition isAllDigitsOrLeadingSign :: "byte list \<Rightarrow> bool" where
  "isAllDigitsOrLeadingSign s \<longleftrightarrow>
     (case s of
        [] \<Rightarrow> False
      | c # cs \<Rightarrow> if c = 0x2D \<or> c = 0x2B then cs \<noteq> [] \<and> pccc_isAllDigits cs else pccc_isAllDigits s)"

text \<open>\<^verbatim>\<open>strconv.Atoi\<close>: an optional sign, digits, and a result within 64 bits.\<close>

definition Atoi :: "byte list \<Rightarrow> int option" where
  "Atoi s =
     (let neg = (s \<noteq> [] \<and> hd s = 0x2D);
          ds = (if s \<noteq> [] \<and> (hd s = 0x2D \<or> hd s = 0x2B) then tl s else s);
          n = int (digits_value ds)
      in if \<not> pccc_isAllDigits ds then None
         else if neg then (if n \<le> 2 ^ 63 then Some (- n) else None)
         else (if n < 2 ^ 63 then Some n else None))"

definition implicitFileNumber :: "FileType \<Rightarrow> int option" where
  "implicitFileNumber ft =
     (if ft = FileTypeOutput then Some 0
      else if ft = FileTypeInput then Some 1
      else if ft = FileTypeStatus then Some 2
      else None)"

definition supportsBitSuffix :: "FileType \<Rightarrow> bool" where
  "supportsBitSuffix ft \<longleftrightarrow>
     ft \<in> {FileTypeInteger, FileTypeBit, FileTypeStatus, FileTypeInput, FileTypeOutput, FileTypeBCD}"

text \<open>The named fields: sub-element and bit.\<close>

type_synonym namedField = "int \<times> int"

definition timerFields :: "(byte list \<times> namedField) list" where
  "timerFields =
     [(bytes_of ''PRE'', (1, -1)), (bytes_of ''ACC'', (2, -1)), (bytes_of ''EN'', (0, 15)),
      (bytes_of ''TT'', (0, 14)), (bytes_of ''DN'', (0, 13))]"

definition counterFields :: "(byte list \<times> namedField) list" where
  "counterFields =
     [(bytes_of ''PRE'', (1, -1)), (bytes_of ''ACC'', (2, -1)), (bytes_of ''CU'', (0, 15)),
      (bytes_of ''CD'', (0, 14)), (bytes_of ''DN'', (0, 13)), (bytes_of ''OV'', (0, 12)),
      (bytes_of ''UN'', (0, 11)), (bytes_of ''UA'', (0, 10))]"

definition controlFields :: "(byte list \<times> namedField) list" where
  "controlFields =
     [(bytes_of ''LEN'', (1, -1)), (bytes_of ''POS'', (2, -1)), (bytes_of ''EN'', (0, 15)),
      (bytes_of ''EU'', (0, 14)), (bytes_of ''DN'', (0, 13)), (bytes_of ''EM'', (0, 12)),
      (bytes_of ''ER'', (0, 11)), (bytes_of ''UL'', (0, 10)), (bytes_of ''IN'', (0, 9)),
      (bytes_of ''FD'', (0, 8))]"

definition tableFor :: "FileType \<Rightarrow> (byte list \<times> namedField) list option" where
  "tableFor ft =
     (if ft = FileTypeTimer then Some timerFields
      else if ft = FileTypeCounter then Some counterFields
      else if ft = FileTypeControl then Some controlFields
      else None)"

definition lookupNamedField :: "FileType \<Rightarrow> byte list \<Rightarrow> namedField option" where
  "lookupNamedField ft name = (case tableFor ft of None \<Rightarrow> None | Some table \<Rightarrow> map_of table name)"

text \<open>The sub-element and bit of a field are its own, so the order of Go's map does not matter.\<close>

definition fieldNameFor :: "FileType \<Rightarrow> int \<Rightarrow> int \<Rightarrow> byte list option" where
  "fieldNameFor ft sub bitNum =
     (case tableFor ft of
        None \<Rightarrow> None
      | Some table \<Rightarrow> map_option fst (find (\<lambda>(name, f). fst f = sub \<and> snd f = bitNum) table))"

text \<open>\<^verbatim>\<open>splitSuffix\<close>: the main part, the suffix, and the separator found first.\<close>

abbreviation (input) slash :: byte where "slash \<equiv> 0x2F"
abbreviation (input) colon :: byte where "colon \<equiv> 0x3A"

definition splitSuffix :: "byte list \<Rightarrow> byte list \<times> byte list \<times> byte" where
  "splitSuffix up =
     (let main = takeWhile (\<lambda>c. c \<noteq> dot \<and> c \<noteq> slash) up in
      case dropWhile (\<lambda>c. c \<noteq> dot \<and> c \<noteq> slash) up of
        [] \<Rightarrow> (up, [], 0)
      | sep # sfx \<Rightarrow> (main, sfx, sep))"

definition splitLeadingLetters :: "byte list \<Rightarrow> byte list \<times> byte list" where
  "splitLeadingLetters s = (takeWhile isAlpha s, dropWhile isAlpha s)"

text \<open>\<^verbatim>\<open>strings.Cut\<close> with a one-byte separator.\<close>

definition Cut :: "byte \<Rightarrow> byte list \<Rightarrow> (byte list \<times> byte list) option" where
  "Cut sep s =
     (case dropWhile (\<lambda>c. c \<noteq> sep) s of
        [] \<Rightarrow> None
      | _ # right \<Rightarrow> Some (takeWhile (\<lambda>c. c \<noteq> sep) s, right))"

definition parse_file_number :: "FileType \<Rightarrow> byte list \<Rightarrow> perr + int" where
  "parse_file_number ft fileNumStr =
     (if fileNumStr = [] then
        (case implicitFileNumber ft of
           None \<Rightarrow> Inl (PErrorf ''missing file number'')
         | Some n \<Rightarrow> Inr n)
      else if \<not> pccc_isAllDigits fileNumStr then Inl (PErrorf ''invalid file number'')
      else case Atoi fileNumStr of
        None \<Rightarrow> Inl (PErrorf ''invalid file number'')
      | Some n \<Rightarrow>
          if n < 0 \<or> n > 255 then Inl (PErrorf ''file number out of range [0,255]'')
          else (case implicitFileNumber ft of
                  Some d \<Rightarrow> if n \<noteq> d then Inl (PErrorf ''file type requires file number'') else Inr n
                | None \<Rightarrow> Inr n))"

definition parse_element :: "byte list \<Rightarrow> perr + int" where
  "parse_element right =
     (if \<not> isAllDigitsOrLeadingSign right then Inl (PErrorf ''trailing garbage after element'')
      else case Atoi right of
        None \<Rightarrow> Inl (PErrorf ''invalid element'')
      | Some elem \<Rightarrow>
          if elem < 0 \<or> elem > 255 then Inl (PErrorf ''element out of range [0,255]'') else Inr elem)"

definition parse_suffix :: "byte \<Rightarrow> byte list \<Rightarrow> PcccAddress \<Rightarrow> perr + PcccAddress" where
  "parse_suffix sep sfx addr =
     (if sep = dot then
        (case lookupNamedField (a_FileType addr) sfx of
           None \<Rightarrow> Inl (PErrorf ''unknown field'')
         | Some (sub, bitNum) \<Rightarrow> Inr (addr\<lparr>a_SubElement := sub, a_BitNum := bitNum\<rparr>))
      else if sep = slash then
        (if dot \<in> set sfx \<or> slash \<in> set sfx then Inl (PErrorf ''trailing garbage after bit'')
         else if \<not> isAllDigitsOrLeadingSign sfx then Inl (PErrorf ''invalid bit'')
         else case Atoi sfx of
           None \<Rightarrow> Inl (PErrorf ''invalid bit'')
         | Some bitNum \<Rightarrow>
             if bitNum < 0 \<or> bitNum > 15 then Inl (PErrorf ''bit out of range [0,15]'')
             else if \<not> supportsBitSuffix (a_FileType addr)
             then Inl (PErrorf ''bit suffix not supported for file type'')
             else Inr (addr\<lparr>a_BitNum := bitNum\<rparr>))
      else Inr addr)"

definition ParseAddress :: "byte list \<Rightarrow> perr + PcccAddress" where
  "ParseAddress s =
     (let inp = TrimSpace s in
      if inp = [] then Inl (PErrorf ''empty address'')
      else case splitSuffix (ToUpper inp) of (mainPart, sfx, sep) \<Rightarrow>
        (case Cut colon mainPart of
           None \<Rightarrow> Inl (PErrorf ''missing ':' '')
         | Some (left, right) \<Rightarrow>
             if right = [] then Inl (PErrorf ''missing element number'')
             else case splitLeadingLetters left of (letters, fileNumStr) \<Rightarrow>
               if letters = [] then Inl (PErrorf ''missing file type'')
               else case FileTypeFromLetter letters of
                 None \<Rightarrow> Inl (PErrorf ''unknown file type'')
               | Some ft \<Rightarrow>
                   res_bind (parse_file_number ft fileNumStr) (\<lambda>fileNum.
                   res_bind (parse_element right) (\<lambda>elem.
                   parse_suffix sep sfx
                     \<lparr>a_FileType = ft, a_FileNumber = fileNum, a_Element = elem, a_SubElement = 0,
                      a_BitNum = -1\<rparr>))))"

text \<open>\<^verbatim>\<open>strconv.Itoa\<close> and \<^verbatim>\<open>Address.String\<close>.\<close>

definition Itoa :: "int \<Rightarrow> byte list" where
  "Itoa n = (if n < 0 then [0x2D] else []) @ decimal (nat \<bar>n\<bar>)"

definition Address_String :: "PcccAddress \<Rightarrow> byte list" where
  "Address_String a =
     (let main =
        (if implicitFileNumber (a_FileType a) = Some (a_FileNumber a)
         then Letter (a_FileType a) @ [colon] @ Itoa (a_Element a)
         else Letter (a_FileType a) @ Itoa (a_FileNumber a) @ [colon] @ Itoa (a_Element a))
      in case fieldNameFor (a_FileType a) (a_SubElement a) (a_BitNum a) of
           Some name \<Rightarrow> main @ [dot] @ name
         | None \<Rightarrow> if a_BitNum a \<ge> 0 then main @ [slash] @ Itoa (a_BitNum a) else main)"

section \<open>Timers and counters of an SLC\<close>

record SlcTimer =
  st_Control :: u16
  st_PRE :: u16
  st_ACC :: u16

definition SlcTimer_EN :: "SlcTimer \<Rightarrow> bool" where "SlcTimer_EN t \<longleftrightarrow> st_Control t AND push_bit 15 1 \<noteq> 0"
definition SlcTimer_TT :: "SlcTimer \<Rightarrow> bool" where "SlcTimer_TT t \<longleftrightarrow> st_Control t AND push_bit 14 1 \<noteq> 0"
definition SlcTimer_DN :: "SlcTimer \<Rightarrow> bool" where "SlcTimer_DN t \<longleftrightarrow> st_Control t AND push_bit 13 1 \<noteq> 0"

definition pccc_DecodeTimer :: "byte list \<Rightarrow> perr + SlcTimer" where
  "pccc_DecodeTimer b =
     (if length b < 6 then Inl (PErrorf ''timer requires 6 bytes'')
      else Inr \<lparr>st_Control = le16_at b 0, st_PRE = le16_at b 2, st_ACC = le16_at b 4\<rparr>)"

record SlcCounter =
  sc_Control :: u16
  sc_PRE :: u16
  sc_ACC :: u16

definition SlcCounter_CU :: "SlcCounter \<Rightarrow> bool" where "SlcCounter_CU c \<longleftrightarrow> sc_Control c AND push_bit 15 1 \<noteq> 0"
definition SlcCounter_CD :: "SlcCounter \<Rightarrow> bool" where "SlcCounter_CD c \<longleftrightarrow> sc_Control c AND push_bit 14 1 \<noteq> 0"
definition SlcCounter_DN :: "SlcCounter \<Rightarrow> bool" where "SlcCounter_DN c \<longleftrightarrow> sc_Control c AND push_bit 13 1 \<noteq> 0"
definition SlcCounter_OV :: "SlcCounter \<Rightarrow> bool" where "SlcCounter_OV c \<longleftrightarrow> sc_Control c AND push_bit 12 1 \<noteq> 0"
definition SlcCounter_UN :: "SlcCounter \<Rightarrow> bool" where "SlcCounter_UN c \<longleftrightarrow> sc_Control c AND push_bit 11 1 \<noteq> 0"

definition pccc_DecodeCounter :: "byte list \<Rightarrow> perr + SlcCounter" where
  "pccc_DecodeCounter b =
     (if length b < 6 then Inl (PErrorf ''counter requires 6 bytes'')
      else Inr \<lparr>sc_Control = le16_at b 0, sc_PRE = le16_at b 2, sc_ACC = le16_at b 4\<rparr>)"

section \<open>Addresses and their text\<close>

text \<open>The addresses the parser produces.\<close>

definition address_ok :: "PcccAddress \<Rightarrow> bool" where
  "address_ok a \<longleftrightarrow>
     Letter (a_FileType a) \<noteq> [] \<and> 0 \<le> a_FileNumber a \<and> a_FileNumber a \<le> 255 \<and>
     implicitFileNumber (a_FileType a) \<in> {None, Some (a_FileNumber a)} \<and>
     0 \<le> a_Element a \<and> a_Element a \<le> 255 \<and>
     (a_SubElement a = 0 \<and> a_BitNum a = -1 \<or>
      a_SubElement a = 0 \<and> 0 \<le> a_BitNum a \<and> a_BitNum a \<le> 15 \<and> supportsBitSuffix (a_FileType a) \<or>
      fieldNameFor (a_FileType a) (a_SubElement a) (a_BitNum a) \<noteq> None)"

lemma fileTypeTable_cases:
  assumes "Letter ft \<noteq> []"
  obtains l where "(ft, l) \<in> set fileTypeTable" "Letter ft = l"
proof -
  from assms obtain e where e: "find (\<lambda>e. fst e = ft) fileTypeTable = Some e"
    by (auto simp: Letter_def split: option.splits)
  then have "e \<in> set fileTypeTable \<and> fst e = ft" by (auto simp: find_Some_iff in_set_conv_nth)
  then show ?thesis using that [of "snd e"] e by (metis Letter_def option.simps(5) prod.collapse)
qed

lemma FileTypeFromLetter_known: "FileTypeFromLetter l = Some ft \<Longrightarrow> Letter ft \<noteq> []"
  by (auto simp: FileTypeFromLetter_def find_Some_iff fileTypeTable_def Letter_def less_Suc_eq
      nth_Cons' bytes_of_def split: if_splits)

lemma named_field_found:
  assumes "lookupNamedField ft name = Some (sub, bitNum)"
  shows "fieldNameFor ft sub bitNum \<noteq> None"
proof -
  obtain table where t: "tableFor ft = Some table" "map_of table name = Some (sub, bitNum)"
    using assms by (auto simp: lookupNamedField_def split: option.splits)
  then have "find (\<lambda>(name, f). fst f = sub \<and> snd f = bitNum) table \<noteq> None"
    using map_of_SomeD [OF t(2)] by (auto simp: find_None_iff)
  with t show ?thesis by (auto simp: fieldNameFor_def)
qed

lemma parse_suffix_ok:
  assumes "parse_suffix sep sfx a = Inr b" "a_SubElement a = 0" "a_BitNum a = -1"
  shows "a_FileType b = a_FileType a \<and> a_FileNumber b = a_FileNumber a \<and> a_Element b = a_Element a \<and>
    (a_SubElement b = 0 \<and> a_BitNum b = -1 \<or>
     a_SubElement b = 0 \<and> 0 \<le> a_BitNum b \<and> a_BitNum b \<le> 15 \<and> supportsBitSuffix (a_FileType b) \<or>
     fieldNameFor (a_FileType b) (a_SubElement b) (a_BitNum b) \<noteq> None)"
  using assms named_field_found [of "a_FileType a" sfx]
  by (auto simp: parse_suffix_def split: if_splits option.splits)

lemma parse_file_number_ok:
  "parse_file_number ft s = Inr n \<Longrightarrow> 0 \<le> n \<and> n \<le> 255 \<and> implicitFileNumber ft \<in> {None, Some n}"
  by (auto simp: parse_file_number_def implicitFileNumber_def split: if_splits option.splits)

lemma ParseAddress_ok:
  assumes "ParseAddress s = Inr a"
  shows "address_ok a"
proof -
  obtain ft fileNumStr fileNum right elem sep sfx where
    ft: "Letter ft \<noteq> []" and n: "parse_file_number ft fileNumStr = Inr fileNum"
    and e: "parse_element right = Inr elem"
    and sfx: "parse_suffix sep sfx \<lparr>a_FileType = ft, a_FileNumber = fileNum, a_Element = elem,
      a_SubElement = 0, a_BitNum = -1\<rparr> = Inr a"
    using assms
    by (auto simp: ParseAddress_def Let_def res_simps split: if_splits option.splits prod.splits)
      (blast dest: FileTypeFromLetter_known)
  have "0 \<le> elem \<and> elem \<le> 255" using e by (auto simp: parse_element_def split: if_splits option.splits)
  with ft parse_file_number_ok [OF n] parse_suffix_ok [OF sfx] show ?thesis
    by (auto simp: address_ok_def)
qed

text \<open>Text of an address: upper case, no white space at either end.\<close>

definition address_char :: "byte \<Rightarrow> bool" where
  "address_char c \<longleftrightarrow> (0x41 \<le> c \<and> c \<le> 0x5A) \<or> (0x2E \<le> c \<and> c \<le> 0x3A)"

lemma trim_front_kept:
  assumes "s \<noteq> []" "\<forall>p \<in> set sps. p \<noteq> [] \<longrightarrow> hd p \<noteq> hd s"
  shows "trim_front sps s = s"
proof -
  have "find (\<lambda>p. p \<noteq> [] \<and> prefix p s) sps = None"
    using assms by (auto simp: find_None_iff prefix_def)
  then show ?thesis by (simp add: trim_front.simps [of sps s])
qed

lemma utf8_spaces_not_address:
  "\<forall>p \<in> set utf8_spaces. p \<noteq> [] \<and> \<not> address_char (hd p) \<and> \<not> address_char (last p)"
  by (simp add: utf8_spaces_def upt_rec word_le_nat_alt address_char_def)

lemma TrimSpace_address:
  assumes "s \<noteq> []" "list_all address_char s"
  shows "TrimSpace s = s"
proof -
  have "address_char (hd s)" "address_char (last s)" using assms by (auto simp: list_all_iff)
  have "trim_front utf8_spaces s = s"
    by (rule trim_front_kept [OF assms(1)]) (use \<open>address_char (hd s)\<close> utf8_spaces_not_address in metis)
  moreover have "trim_front (map rev utf8_spaces) (rev s) = rev s"
  proof (rule trim_front_kept, simp_all add: assms(1) hd_rev, clarify)
    fix p assume "p \<in> set utf8_spaces" "last p = last s"
    with \<open>address_char (last s)\<close> utf8_spaces_not_address show False by metis
  qed
  ultimately show ?thesis by (simp add: TrimSpace_def)
qed

lemma ToUpper_address: "list_all address_char s \<Longrightarrow> ToUpper s = s"
  by (induction s rule: ToUpper.induct) (auto simp: address_char_def upper_def word_le_nat_alt)

lemma pccc_isAllDigits_eq: "pccc_isAllDigits s = isAllDigits s"
  by (simp add: pccc_isAllDigits_def isAllDigits_def isDigit_def list_all_iff)

lemma Itoa_digits: "0 \<le> n \<Longrightarrow> pccc_isAllDigits (Itoa n) \<and> list_all isDigit (Itoa n) \<and> Itoa n \<noteq> []"
  using decimal_digits [of "nat \<bar>n\<bar>"]
  by (auto simp: Itoa_def pccc_isAllDigits_def isAllDigits_def isDigit_def list_all_iff)

lemma digit_not_sign: "pccc_isAllDigits s \<Longrightarrow> hd s \<noteq> 0x2D \<and> hd s \<noteq> 0x2B"
  by (cases s) (auto simp: pccc_isAllDigits_def isDigit_def)

lemma Atoi_Itoa:
  assumes "0 \<le> n" "n < 2 ^ 63"
  shows "Atoi (Itoa n) = Some n"
proof -
  have d: "pccc_isAllDigits (Itoa n)" using Itoa_digits [OF assms(1)] by blast
  moreover have "digits_value (Itoa n) = nat n" using assms(1) by (simp add: Itoa_def digits_value_decimal)
  ultimately show ?thesis using assms digit_not_sign [OF d] by (simp add: Atoi_def Let_def)
qed

lemma signed_digits: "pccc_isAllDigits s \<Longrightarrow> isAllDigitsOrLeadingSign s"
  using digit_not_sign [of s] by (cases s) (auto simp: isAllDigitsOrLeadingSign_def pccc_isAllDigits_def)

lemma digit_chars: "isDigit c \<Longrightarrow> address_char c \<and> \<not> isAlpha c \<and> c \<noteq> dot \<and> c \<noteq> slash \<and> c \<noteq> colon"
  by (auto simp: isDigit_def address_char_def isAlpha_def word_le_nat_alt)

lemma separator_chars:
  "\<not> isAlpha dot" "\<not> isAlpha slash" "\<not> isAlpha colon" "\<not> isDigit dot" "\<not> isDigit slash" "\<not> isDigit colon"
  by (simp_all add: isAlpha_def isDigit_def)

lemma letters_text:
  "\<forall>e \<in> set fileTypeTable. FileTypeFromLetter (snd e) = Some (fst e) \<and>
     list_all (\<lambda>c. isAlpha c \<and> address_char c) (snd e)"
  by (simp add: fileTypeTable_def FileTypeFromLetter_def bytes_of_def upper_def isAlpha_def address_char_def)

lemma Letter_text:
  assumes "Letter ft \<noteq> []"
  shows "FileTypeFromLetter (Letter ft) = Some ft \<and> list_all (\<lambda>c. isAlpha c \<and> address_char c) (Letter ft)"
proof -
  obtain l where "(ft, l) \<in> set fileTypeTable" "Letter ft = l" by (rule fileTypeTable_cases [OF assms])
  with letters_text show ?thesis by fastforce
qed

lemma fields_text:
  "\<forall>e \<in> set timerFields. map_of timerFields (fst e) = Some (snd e) \<and>
     list_all (\<lambda>c. isAlpha c \<and> address_char c) (fst e)"
  "\<forall>e \<in> set counterFields. map_of counterFields (fst e) = Some (snd e) \<and>
     list_all (\<lambda>c. isAlpha c \<and> address_char c) (fst e)"
  "\<forall>e \<in> set controlFields. map_of controlFields (fst e) = Some (snd e) \<and>
     list_all (\<lambda>c. isAlpha c \<and> address_char c) (fst e)"
  by (simp_all add: timerFields_def counterFields_def controlFields_def bytes_of_def isAlpha_def address_char_def)

lemma fieldNameFor_entry:
  "fieldNameFor ft sub bitNum = Some name \<Longrightarrow> \<exists>table. tableFor ft = Some table \<and> (name, sub, bitNum) \<in> set table"
  by (auto simp: fieldNameFor_def find_Some_iff in_set_conv_nth split: option.splits)

lemma field_text:
  assumes "fieldNameFor ft sub bitNum = Some name"
  shows "lookupNamedField ft name = Some (sub, bitNum) \<and> list_all (\<lambda>c. isAlpha c \<and> address_char c) name"
proof -
  obtain table where t: "tableFor ft = Some table" "(name, sub, bitNum) \<in> set table"
    using fieldNameFor_entry [OF assms] by blast
  have "map_of table (fst e) = Some (snd e) \<and> list_all (\<lambda>c. isAlpha c \<and> address_char c) (fst e)"
    if "e \<in> set table" for e
    using that t(1) fields_text by (auto simp: tableFor_def split: if_splits)
  with t show ?thesis by (fastforce simp: lookupNamedField_def)
qed

lemma splitSuffix_parts:
  assumes "list_all (\<lambda>c. c \<noteq> dot \<and> c \<noteq> slash) main" "tail = [] \<or> hd tail = dot \<or> hd tail = slash"
  shows "splitSuffix (main @ tail) = (main, tl tail, if tail = [] then 0 else hd tail)"
proof -
  have "takeWhile (\<lambda>c. c \<noteq> dot \<and> c \<noteq> slash) (main @ tail) = main"
    "dropWhile (\<lambda>c. c \<noteq> dot \<and> c \<noteq> slash) (main @ tail) = tail"
    using assms by (cases tail; auto simp: list_all_iff takeWhile_append dropWhile_append)+
  then show ?thesis
    by (cases tail) (simp_all add: splitSuffix_def del: takeWhile_eq_all_conv dropWhile_eq_Nil_conv)
qed

lemma Cut_parts: "list_all (\<lambda>c. c \<noteq> colon) l \<Longrightarrow> Cut colon (l @ [colon] @ r) = Some (l, r)"
  by (auto simp: Cut_def list_all_iff takeWhile_append dropWhile_append)

lemma splitLeadingLetters_parts:
  "\<lbrakk>list_all isAlpha l; list_all (\<lambda>c. \<not> isAlpha c) r\<rbrakk> \<Longrightarrow> splitLeadingLetters (l @ r) = (l, r)"
  by (cases r) (auto simp: splitLeadingLetters_def list_all_iff takeWhile_append dropWhile_append)

lemma ParseAddress_text:
  assumes "Letter ft \<noteq> []" "list_all isDigit F" "parse_file_number ft F = Inr n" "0 \<le> e" "e \<le> 255"
    "tail = [] \<or> hd tail = dot \<or> hd tail = slash" "list_all address_char tail"
  shows "ParseAddress (Letter ft @ F @ [colon] @ Itoa e @ tail) =
    parse_suffix (if tail = [] then 0 else hd tail) (tl tail)
      \<lparr>a_FileType = ft, a_FileNumber = n, a_Element = e, a_SubElement = 0, a_BitNum = -1\<rparr>"
proof -
  let ?l = "Letter ft @ F" and ?r = "Itoa e"
  let ?main = "?l @ [colon] @ ?r"
  note L = Letter_text [OF assms(1)]
  have E: "pccc_isAllDigits ?r" "list_all isDigit ?r" "?r \<noteq> []" using Itoa_digits [OF assms(4)] by auto
  have chars: "list_all address_char (?main @ tail)"
    using L assms(2,7) E(2) digit_chars by (auto simp: list_all_iff address_char_def)
  have "list_all (\<lambda>c. c \<noteq> dot \<and> c \<noteq> slash) ?main" "list_all (\<lambda>c. c \<noteq> colon) ?l"
    using L assms(2) E(2) separator_chars by (auto simp: list_all_iff)
  note split = splitSuffix_parts [OF this(1) assms(6)] Cut_parts [OF this(2), of ?r]
  have lead: "splitLeadingLetters ?l = (Letter ft, F)"
    using L assms(2) digit_chars by (intro splitLeadingLetters_parts) (auto simp: list_all_iff)
  have "parse_element ?r = Inr e"
    using Atoi_Itoa [of e] assms(4,5) signed_digits [OF E(1)] by (simp add: parse_element_def)
  with split lead L E(3) assms(1,3) TrimSpace_address [OF _ chars] ToUpper_address [OF chars]
  show ?thesis by (simp add: ParseAddress_def)
qed

lemma parse_file_number_text:
  assumes "0 \<le> n" "n \<le> 255" "implicitFileNumber ft \<in> {None, Some n}"
  shows "parse_file_number ft (Itoa n) = Inr n"
  using assms Itoa_digits [OF assms(1)] Atoi_Itoa [of n] by (auto simp: parse_file_number_def)

lemma parse_suffix_text:
  assumes "address_ok a" "a_BitNum a \<noteq> -1 \<or> a_SubElement a \<noteq> 0"
  obtains sep sfx where "sep = dot \<or> sep = slash" "list_all address_char sfx"
    "Address_String a = Address_String (a\<lparr>a_SubElement := 0, a_BitNum := -1\<rparr>) @ [sep] @ sfx"
    "parse_suffix sep sfx (a\<lparr>a_SubElement := 0, a_BitNum := -1\<rparr>) = Inr a"
proof -
  have none: "fieldNameFor ft 0 (-1) = None" for ft
    by (simp add: fieldNameFor_def tableFor_def timerFields_def counterFields_def controlFields_def)
  show thesis
  proof (cases "fieldNameFor (a_FileType a) (a_SubElement a) (a_BitNum a)")
    case (Some name)
    from field_text [OF this] Some show ?thesis
      by (intro that [of dot name])
        (auto simp: list_all_iff parse_suffix_def Address_String_def none Let_def)
  next
    case None
    with assms have b: "a_SubElement a = 0" "0 \<le> a_BitNum a" "a_BitNum a \<le> 15" "supportsBitSuffix (a_FileType a)"
      by (auto simp: address_ok_def)
    note d = Itoa_digits [OF b(2)]
    have "dot \<notin> set (Itoa (a_BitNum a))" "slash \<notin> set (Itoa (a_BitNum a))"
      "list_all address_char (Itoa (a_BitNum a))"
      using d digit_chars by (auto simp: list_all_iff)
    with b None Atoi_Itoa [of "a_BitNum a"] signed_digits [of "Itoa (a_BitNum a)"] d show ?thesis
      by (intro that [of slash "Itoa (a_BitNum a)"]) (auto simp: parse_suffix_def Address_String_def none Let_def)
  qed
qed

lemma Address_String_main:
  assumes "address_ok a" "a_SubElement a = 0" "a_BitNum a = -1"
  obtains F where "Address_String a = Letter (a_FileType a) @ F @ [colon] @ Itoa (a_Element a)"
    "list_all isDigit F" "parse_file_number (a_FileType a) F = Inr (a_FileNumber a)"
proof -
  have none: "fieldNameFor (a_FileType a) 0 (-1) = None"
    by (simp add: fieldNameFor_def tableFor_def timerFields_def counterFields_def controlFields_def)
  show thesis
  proof (cases "implicitFileNumber (a_FileType a) = Some (a_FileNumber a)")
    case True
    with assms none show ?thesis
      by (intro that [of "[]"]) (auto simp: Address_String_def parse_file_number_def)
  next
    case False
    have "parse_file_number (a_FileType a) (Itoa (a_FileNumber a)) = Inr (a_FileNumber a)"
      using assms by (intro parse_file_number_text) (auto simp: address_ok_def)
    with False assms none Itoa_digits [of "a_FileNumber a"] show ?thesis
      by (intro that [of "Itoa (a_FileNumber a)"]) (auto simp: Address_String_def address_ok_def)
  qed
qed

lemma Address_String_roundtrip:
  assumes "address_ok a"
  shows "ParseAddress (Address_String a) = Inr a"
proof -
  let ?b = "a\<lparr>a_SubElement := 0, a_BitNum := -1\<rparr>"
  have b: "address_ok ?b" and l: "Letter (a_FileType a) \<noteq> []" and e: "0 \<le> a_Element a" "a_Element a \<le> 255"
    using assms by (auto simp: address_ok_def)
  obtain F where F: "Address_String ?b = Letter (a_FileType a) @ F @ [colon] @ Itoa (a_Element a)"
    "list_all isDigit F" "parse_file_number (a_FileType a) F = Inr (a_FileNumber a)"
    using Address_String_main [OF b] by auto
  have eq: "?b = \<lparr>a_FileType = a_FileType a, a_FileNumber = a_FileNumber a, a_Element = a_Element a,
      a_SubElement = 0, a_BitNum = -1\<rparr>" by (cases a) simp
  note parse = ParseAddress_text [OF l F(2,3) e, folded eq]
  show ?thesis
  proof (cases "a_BitNum a = -1 \<and> a_SubElement a = 0")
    case True
    then have "?b = a" by (cases a) simp
    with F(1) parse [of "[]"] show ?thesis by (simp add: parse_suffix_def)
  next
    case False
    then obtain sep sfx where "sep = dot \<or> sep = slash" "list_all address_char sfx"
      "Address_String a = Address_String ?b @ [sep] @ sfx" "parse_suffix sep sfx ?b = Inr a"
      using parse_suffix_text [OF assms] by blast
    with F(1) parse [of "sep # sfx"] show ?thesis by (auto simp: address_char_def)
  qed
qed

lemma address_ok_valid:
  assumes "address_ok a"
  shows "validateAddress (a_FileNumber a) (a_Element a) (a_SubElement a) (a_FileType a) = None \<and>
    -1 \<le> a_BitNum a \<and> a_BitNum a \<le> 15 \<and> 0 \<le> a_SubElement a \<and> a_SubElement a \<le> 2"
proof -
  have fields: "\<forall>e \<in> set timerFields \<union> set counterFields \<union> set controlFields.
      0 \<le> fst (snd e) \<and> fst (snd e) \<le> 2 \<and> -1 \<le> snd (snd e) \<and> snd (snd e) \<le> 15"
    by (simp add: timerFields_def counterFields_def controlFields_def)
  have "0 \<le> sub \<and> sub \<le> 2 \<and> -1 \<le> bitNum \<and> bitNum \<le> 15" if f: "fieldNameFor ft sub bitNum \<noteq> None" for ft sub bitNum
  proof -
    obtain name table where "tableFor ft = Some table" "(name, sub, bitNum) \<in> set table"
      using f fieldNameFor_entry by blast
    then have "(name, sub, bitNum) \<in> set timerFields \<union> set counterFields \<union> set controlFields"
      by (auto simp: tableFor_def split: if_splits)
    with fields have "0 \<le> fst (sub, bitNum) \<and> fst (sub, bitNum) \<le> 2 \<and> -1 \<le> snd (sub, bitNum) \<and> snd (sub, bitNum) \<le> 15"
      by (metis snd_conv)
    then show ?thesis by simp
  qed
  then show ?thesis
    using assms by (fastforce simp: address_ok_def validateAddress_def)
qed

section \<open>Properties\<close>

text \<open>
  C22: the text of an address is its inverse.  The addresses the parser produces are exactly
  those with a known file type, numbers in range, and a bit or field of the file type; for
  each of them parsing its text gives it back.
\<close>

theorem pccc_address_roundtrip:
  "(\<exists>s. ParseAddress s = Inr a) \<longleftrightarrow> ParseAddress (Address_String a) = Inr a"
  using Address_String_roundtrip ParseAddress_ok by blast

text \<open>
  Every address the parser accepts can be framed, its bit number is none or within a word,
  and its sub-element is a word of a three-word element.
\<close>

theorem pccc_parsed_address_framed:
  assumes "ParseAddress s = Inr a"
  shows "validateAddress (a_FileNumber a) (a_Element a) (a_SubElement a) (a_FileType a) = None \<and>
    -1 \<le> a_BitNum a \<and> a_BitNum a \<le> 15 \<and> 0 \<le> a_SubElement a \<and> a_SubElement a \<le> 2"
  by (rule address_ok_valid [OF ParseAddress_ok [OF assms]])

theorem pccc_parsed_address_framed_witness:
  "\<exists>a. ParseAddress (bytes_of '' t4:12.acc '') = Inr a \<and> a_SubElement a = 2 \<and>
     validateAddress (a_FileNumber a) (a_Element a) (a_SubElement a) (a_FileType a) = None"
proof -
  have "ParseAddress (bytes_of '' t4:12.acc '') =
    Inr \<lparr>a_FileType = 0x86, a_FileNumber = 4, a_Element = 12, a_SubElement = 2, a_BitNum = -1\<rparr>"
    by code_simp
  from this pccc_parsed_address_framed [OF this] show ?thesis by simp
qed

text \<open>
  What a typed command says and how its reply is read.  A frame carries the transaction
  number, the size or the data, and the address byte by byte; a reply is taken apart the same
  way, and a status other than success is the error, never data.
\<close>

theorem pccc_frames:
  assumes "validateAddress f e sub ft = None" "1 \<le> n" "n \<le> 255" "data \<noteq> []" "length data \<le> 240"
  shows "EncodeTypedRead tns n f ft e sub =
      Inr ([0x0F, 0] @ le16 tns @ [0xA2, word_of_int n, word_of_int f, ft, word_of_int e, word_of_int sub]) \<and>
    EncodeTypedWrite tns f ft e sub data =
      Inr ([0x0F, 0] @ le16 tns @ [0xAA, word_of_int f, ft, word_of_int e, word_of_int sub] @ data) \<and>
    DecodeReply ([0x4F, 0] @ le16 tns @ data) =
      Inr \<lparr>r_Command = 0x0F, r_STS = 0, r_TNS = tns, r_ExtSTS = 0, r_Data = data\<rparr> \<and>
    (\<forall>sts. sts \<noteq> 0 \<longrightarrow> sts \<noteq> 0xF0 \<longrightarrow> DecodeReply ([0x4F, sts] @ le16 tns @ data) = Inl (PCCCError sts 0)) \<and>
    DecodeReply ([0x4F, 0xF0] @ le16 tns @ data) = Inl (PCCCError 0xF0 (hd data))"
  using assms le16_at_append [of "[0x4F, sts]" 2 tns data for sts]
  by (auto simp: EncodeTypedRead_def EncodeTypedWrite_def DecodeReply_def Let_def hd_conv_nth)

theorem pccc_frames_witness:
  "EncodeTypedRead 0x34 2 7 0x89 3 0 = Inr [0x0F, 0, 0x34, 0, 0xA2, 2, 7, 0x89, 3, 0] \<and>
   DecodeReply [0x4F, 0xF0, 0x34, 0, 0x06] = Inl (PCCCError 0xF0 0x06)"
  using pccc_frames [of 7 3 0 "0x89" 2 "[0x06]" "0x34"]
  by (simp add: validateAddress_def Letter_def fileTypeTable_def bytes_of_def le16_def)

end
