(* ===== verification/Tag_Tools.thy ===== *)
theory Tag_Tools
  imports Tag_Server Pccc
begin

text \<open>
  Two command-line programs of \<^verbatim>\<open>src/examples/ethernetip\<close>: \<^verbatim>\<open>write_tag\<close>, which writes a value given as
  text and reads it back, and \<^verbatim>\<open>custom_type\<close>, whose structure is registered with the type registry.
  Go's parsing of floats is an argument.
\<close>

section \<open>Numbers as text\<close>

text \<open>\<^verbatim>\<open>strconv.ParseUint\<close>, \<^verbatim>\<open>ParseInt\<close> and \<^verbatim>\<open>ParseBool\<close> in base 10, at a bit size.\<close>

definition ParseUint :: "nat \<Rightarrow> byte list \<Rightarrow> cerr + nat" where
  "ParseUint bits s =
     (if isAllDigits s \<and> digits_value s < 2 ^ bits then Inr (digits_value s) else Inl (CIPErrorf ''strconv.ParseUint''))"

definition ParseInt :: "nat \<Rightarrow> byte list \<Rightarrow> cerr + int" where
  "ParseInt bits s =
     (let neg = (s \<noteq> [] \<and> hd s = 0x2D);
          digits = (if s \<noteq> [] \<and> (hd s = 0x2D \<or> hd s = 0x2B) then tl s else s);
          un = digits_value digits
      in if isAllDigits digits \<and> (if neg then un \<le> 2 ^ (bits - 1) else un < 2 ^ (bits - 1))
         then Inr (if neg then - int un else int un)
         else Inl (CIPErrorf ''strconv.ParseInt''))"

definition ParseBool :: "byte list \<Rightarrow> cerr + bool" where
  "ParseBool s =
     (if s \<in> set (map bytes_of [''1'', ''t'', ''T'', ''true'', ''TRUE'', ''True'']) then Inr True
      else if s \<in> set (map bytes_of [''0'', ''f'', ''F'', ''false'', ''FALSE'', ''False'']) then Inr False
      else Inl (CIPErrorf ''strconv.ParseBool''))"

section \<open>Writing a value given as text\<close>

record float_parser =
  ParseFloat32 :: "byte list \<Rightarrow> cerr + u32"
  ParseFloat64 :: "byte list \<Rightarrow> cerr + u64"

definition parseValue :: "float_parser \<Rightarrow> byte list \<Rightarrow> byte list \<Rightarrow> cerr + cip_value" where
  "parseValue fp typeName s =
     (let t = ToUpper typeName in
      if t = bytes_of ''BOOL'' then res_bind (ParseBool s) (\<lambda>v. Inr (GBool v))
      else if t = bytes_of ''SINT'' then res_bind (ParseInt 8 s) (\<lambda>v. Inr (GInt8 (word_of_int v)))
      else if t = bytes_of ''INT'' then res_bind (ParseInt 16 s) (\<lambda>v. Inr (GInt16 (word_of_int v)))
      else if t = bytes_of ''DINT'' then res_bind (ParseInt 32 s) (\<lambda>v. Inr (GInt32 (word_of_int v)))
      else if t = bytes_of ''LINT'' then res_bind (ParseInt 64 s) (\<lambda>v. Inr (GInt64 (word_of_int v)))
      else if t = bytes_of ''USINT'' then res_bind (ParseUint 8 s) (\<lambda>v. Inr (GUint8 (word_of_nat v)))
      else if t = bytes_of ''UINT'' then res_bind (ParseUint 16 s) (\<lambda>v. Inr (GUint16 (word_of_nat v)))
      else if t = bytes_of ''UDINT'' then res_bind (ParseUint 32 s) (\<lambda>v. Inr (GUint32 (word_of_nat v)))
      else if t = bytes_of ''ULINT'' then res_bind (ParseUint 64 s) (\<lambda>v. Inr (GUint64 (word_of_nat v)))
      else if t = bytes_of ''REAL'' then res_bind (ParseFloat32 fp s) (\<lambda>v. Inr (GFloat32 v))
      else if t = bytes_of ''LREAL'' then res_bind (ParseFloat64 fp s) (\<lambda>v. Inr (GFloat64 v))
      else if t = bytes_of ''STRING'' then Inr (GString s)
      else Inl (CIPErrorf ''unsupported CIP type''))"

text \<open>A number of the given width at the front of the data.\<close>

definition front :: "nat \<Rightarrow> (byte list \<Rightarrow> cip_value) \<Rightarrow> byte list \<Rightarrow> cerr + cip_value" where
  "front n f data = (if length data < n then Inl (CIPErrorf ''not enough data'') else Inr (f (take n data)))"

definition typed_value :: "byte list \<Rightarrow> byte list \<Rightarrow> cerr + cip_value" where
  "typed_value typeName data =
     (let t = ToUpper typeName in
      if t = bytes_of ''BOOL'' then front 1 (\<lambda>b. GBool (b ! 0 \<noteq> 0)) data
      else if t = bytes_of ''SINT'' then front 1 (\<lambda>b. GInt8 (le_get b)) data
      else if t = bytes_of ''INT'' then front 2 (\<lambda>b. GInt16 (le_get b)) data
      else if t = bytes_of ''DINT'' then front 4 (\<lambda>b. GInt32 (le_get b)) data
      else if t = bytes_of ''LINT'' then front 8 (\<lambda>b. GInt64 (le_get b)) data
      else if t = bytes_of ''USINT'' then front 1 (\<lambda>b. GUint8 (le_get b)) data
      else if t = bytes_of ''UINT'' then front 2 (\<lambda>b. GUint16 (le_get b)) data
      else if t = bytes_of ''UDINT'' then front 4 (\<lambda>b. GUint32 (le_get b)) data
      else if t = bytes_of ''ULINT'' then front 8 (\<lambda>b. GUint64 (le_get b)) data
      else if t = bytes_of ''REAL'' then front 4 (\<lambda>b. GFloat32 (le_get b)) data
      else if t = bytes_of ''LREAL'' then front 8 (\<lambda>b. GFloat64 (le_get b)) data
      else if t = bytes_of ''STRING'' then
        (if length data < 4 then Inl (CIPErrorf ''not enough data for STRING length prefix'')
         else let strLen = unat (le32_at data 0) in
           if length data < 4 + strLen then Inl (CIPErrorf ''not enough data for STRING body'')
           else Inr (GString (take strLen (drop 4 data))))
      else Inl (CIPErrorf ''unsupported CIP type for decoding''))"

definition decodeValue :: "byte list \<Rightarrow> byte list \<Rightarrow> cerr + cip_value" where
  "decodeValue typeName raw =
     (if length raw < 2 then Inl (CIPErrorf ''raw data too short'')
      else let hdrLen = (if le16_at raw 0 \<ge> TypeSTRUCT then 4 else 2) in
        if length raw < hdrLen then Inl (CIPErrorf ''raw data too short for header'')
        else typed_value typeName (drop hdrLen raw))"

text \<open>
  The run of \<^verbatim>\<open>write_tag\<close> after it has connected: the value it shows in the end, or the error it
  stops with.  The value is parsed before the connection is made.
\<close>

definition write_tag :: "float_parser \<Rightarrow> EipClient \<Rightarrow> ('c, 'w) eip_env \<Rightarrow> byte list \<Rightarrow> byte list \<Rightarrow> byte list \<Rightarrow> 'w \<Rightarrow>
    ((cerr + cip_value) \<times> 'w) option" where
  "write_tag fp c env tagName typeName val w =
     (case parseValue fp typeName val of
        Inl err \<Rightarrow> Some (Inl err, w)
      | Inr goValue \<Rightarrow>
          Option.bind (WriteTag_value c env tagName goValue w) (\<lambda>(r, w).
          case r of
            Inl err \<Rightarrow> Some (Inl err, w)
          | Inr _ \<Rightarrow> then_res (ReadTag c env tagName w) (decodeValue typeName)))"

section \<open>A registered structure\<close>

record SetOn3Timer =
  s3_PRE :: u32
  s3_ACC :: u32
  s3_EN :: bool
  s3_EN2 :: bool
  s3_EN3 :: bool
  s3_TT :: bool
  s3_DN :: bool

definition SetOn3Timer_UnmarshalCIP :: "byte list \<Rightarrow> cerr + SetOn3Timer" where
  "SetOn3Timer_UnmarshalCIP data =
     (if length data < 12 then Inl (CIPErrorf ''SET_ON_3_TMR: need 12 bytes'')
      else let status = le32_at data 0 in
        Inr \<lparr>s3_PRE = le32_at data 4, s3_ACC = le32_at data 8,
             s3_EN = (status AND push_bit 31 1 \<noteq> 0), s3_EN2 = (status AND push_bit 28 1 \<noteq> 0),
             s3_EN3 = (status AND push_bit 27 1 \<noteq> 0), s3_TT = (status AND push_bit 30 1 \<noteq> 0),
             s3_DN = (status AND push_bit 29 1 \<noteq> 0)\<rparr>)"

definition SetOn3Timer_MarshalCIP :: "SetOn3Timer \<Rightarrow> byte list" where
  "SetOn3Timer_MarshalCIP s =
     le32 (set_flag (s3_DN s) 29 (set_flag (s3_TT s) 30 (set_flag (s3_EN3 s) 27
       (set_flag (s3_EN2 s) 28 (set_flag (s3_EN s) 31 0))))) @
     le32 (s3_PRE s) @ le32 (s3_ACC s)"

definition custom_init :: "registry \<Rightarrow> registry option" where
  "custom_init = RegisterType 0x2F83
     (rockwell_codec ''SET_ON_3_TMR'' 0x2F83 SetOn3Timer_UnmarshalCIP SetOn3Timer_MarshalCIP)"

interpretation set_on_3_codec: struct_codec "''SET_ON_3_TMR''" SetOn3Timer_UnmarshalCIP SetOn3Timer_MarshalCIP
  by unfold_locales (simp_all add: SetOn3Timer_UnmarshalCIP_def SetOn3Timer_MarshalCIP_def Let_def
      le32_at_def le32_def nth_append get_le32_le32 flag_bit bit_set_flag del: push_bit_of_1)

section \<open>Text to value and back\<close>

lemma ParseInt_decimal:
  assumes "0 < bits" "- (2 ^ (bits - 1)) \<le> v" "v < 2 ^ (bits - 1)"
  shows "ParseInt bits ((if v < 0 then [0x2D] else []) @ decimal (nat \<bar>v\<bar>)) = Inr v"
proof -
  have "hd (decimal n) \<noteq> 0x2D \<and> hd (decimal n) \<noteq> 0x2B" for n
    using decimal_digits [of n] decimal_not_Nil [of n] unfolding isAllDigits_def
    by (cases "decimal n") (auto simp: word_le_nat_alt)
  moreover have "nat \<bar>v\<bar> \<le> 2 ^ (bits - 1)" "0 \<le> v \<Longrightarrow> nat \<bar>v\<bar> < 2 ^ (bits - 1)"
    using assms(2,3) by (auto simp: nat_le_iff nat_less_iff)
  ultimately show ?thesis
    by (simp add: ParseInt_def Let_def decimal_digits digits_value_decimal) linarith
qed

lemma front_put [simp]: "front n f (le_put n w @ extra) = Inr (f (le_put n w))"
  by (simp add: front_def)

lemma front_bool [simp]: "front (Suc 0) f (b # extra) = Inr (f [b])"
  by (simp add: front_def)

lemma if_pick:
  "\<lbrakk>(if b then x else y) = r; \<lbrakk>b; x = r\<rbrakk> \<Longrightarrow> P; \<lbrakk>\<not> b; y = r\<rbrakk> \<Longrightarrow> P\<rbrakk> \<Longrightarrow> P"
  by (simp split: if_splits)

text \<open>The Go type of a parsed value, by the name of its CIP type.\<close>

lemma parsed_kind:
  assumes "parseValue fp typeName s = Inr v"
  shows "(ToUpper typeName, v) \<in>
    {bytes_of ''BOOL''} \<times> range GBool \<union> {bytes_of ''SINT''} \<times> range GInt8 \<union> {bytes_of ''INT''} \<times> range GInt16 \<union>
    {bytes_of ''DINT''} \<times> range GInt32 \<union> {bytes_of ''LINT''} \<times> range GInt64 \<union>
    {bytes_of ''USINT''} \<times> range GUint8 \<union> {bytes_of ''UINT''} \<times> range GUint16 \<union>
    {bytes_of ''UDINT''} \<times> range GUint32 \<union> {bytes_of ''ULINT''} \<times> range GUint64 \<union>
    {bytes_of ''REAL''} \<times> range GFloat32 \<union> {bytes_of ''LREAL''} \<times> range GFloat64 \<union>
    {bytes_of ''STRING''} \<times> range GString"
  using assms unfolding parseValue_def Let_def
  by (elim if_pick; clarsimp simp: res_bind_Inr_iff)

lemma decode_written:
  assumes "parseValue fp typeName s = Inr v" "GoTypeToCIPType v = Inr dt" "Marshal v = Inr data"
  shows "dt < TypeSTRUCT" "typed_value typeName (data @ extra) = Inr v"
  using parsed_kind [OF assms(1)] assms(2,3)
  by (auto simp: typed_value_def bytes_of_def le_get_put word_less_nat_alt)

lemma decodeValue_written:
  assumes "parseValue fp typeName s = Inr v" "GoTypeToCIPType v = Inr dt" "Marshal v = Inr data"
  shows "decodeValue typeName (le16 dt @ data @ extra) = Inr v"
proof -
  have "le16_at (le16 dt @ data @ extra) 0 = dt" using le16_at_append [of "[]" 0 dt "data @ extra"] by simp
  moreover have "\<not> TypeSTRUCT \<le> dt" using decode_written(1) [OF assms] by simp
  ultimately show ?thesis using decode_written(2) [OF assms] by (simp add: decodeValue_def)
qed

lemma parsed_small:
  assumes "parseValue fp typeName s = Inr v" "ToUpper typeName \<noteq> bytes_of ''STRING''"
  shows "\<exists>dt data. GoTypeToCIPType v = Inr dt \<and> Marshal v = Inr data \<and> length data \<le> 8"
  using parsed_kind [OF assms(1)] assms(2) by auto

section \<open>Properties\<close>

text \<open>
  C33: The \<^verbatim>\<open>write_tag\<close> program shows the value it was given.  Against a tag server that routes symbols
  to its tag object, for every text that parses as a value of the named type other than STRING and
  every plain tag name, the program connects, writes, reads back and decodes exactly the parsed
  value, and it replaces that one tag and no other.  A STRING parses but is never written: the
  program ends with the client's error and the tags are unchanged.
\<close>

theorem write_tag_shows_value:
  assumes "nextSession sh + 1 \<noteq> 0" "simple_tag n" "tags_fit (objs sh)" "parseValue fp typeName s = Inr v"
  shows "let conn = served (RegisterSymbolicHandler TagObject_HandleRequest mr) identity in
    \<exists>d w w' r. EipClient_Connect conn hang_up (dialled sh) = (Inr d, w) \<and>
      write_tag fp c (direct_env conn hang_up) n typeName s (d, w) = Some (r, (d, w')) \<and>
      (if ToUpper typeName = bytes_of ''STRING''
       then (\<exists>err. r = Inl err) \<and> abs_tags (objs (ww_shared w')) = abs_tags (objs sh)
       else r = Inr v \<and> (\<exists>e. abs_tags (objs (ww_shared w')) = (abs_tags (objs sh))(n \<mapsto> e)))"
proof -
  let ?conn = "served (RegisterSymbolicHandler TagObject_HandleRequest mr) identity"
  obtain d w where dw: "EipClient_Connect ?conn hang_up (dialled sh) = (Inr d, w)"
    "online (nextSession sh + 1) (d, w)" "objs (ww_shared w) = objs sh"
    using Connect_online [OF assms(1)] by blast
  show ?thesis
  proof (cases "ToUpper typeName = bytes_of ''STRING''")
    case True
    with parsed_kind [OF assms(4)] have "\<exists>str. v = GString str" by (auto simp: bytes_of_def)
    with WriteTag_value_fails [of v c "direct_env ?conn hang_up" n "(d, w)"] assms(4) dw True show ?thesis
      by (auto simp: write_tag_def Let_def)
  next
    case False
    then obtain dt data where v: "GoTypeToCIPType v = Inr dt" "Marshal v = Inr data" "length data \<le> 8"
      using parsed_small [OF assms(4)] by blast
    let ?w = "w\<lparr>ww_shared := (ww_shared w)\<lparr>objs := SetTag n dt data (objs (ww_shared w))\<rparr>\<rparr>"
    have "WriteTag_value c (direct_env ?conn hang_up) n v (d, w) = Some (Inr (), (d, ?w))"
      using v WriteTag_online [OF dw(2) assms(2), of data c mr identity dt]
      by (simp add: WriteTag_value_def simple_tag_path [OF assms(2)] res_simps)
    moreover have "ReadTag c (direct_env ?conn hang_up) n (d, ?w) = Some (Inr (le16 dt @ data), (d, ?w))"
      using dw assms(2,3) v(3) ReadTag_online [of "nextSession sh + 1" d ?w n c mr identity]
      by (simp add: online_def tags_fit_SetTag) (simp add: SetTag_def update_conv')
    ultimately have "write_tag fp c (direct_env ?conn hang_up) n typeName s (d, w) = Some (Inr v, (d, ?w))"
      using decodeValue_written [OF assms(4) v(1,2), of "[]"] assms(4)
      by (simp add: write_tag_def then_res_def res_simps)
    with dw False show ?thesis by (auto simp: Let_def)
  qed
qed

definition no_floats :: float_parser where
  "no_floats = \<lparr>ParseFloat32 = (\<lambda>_. Inl (CIPErrorf ''strconv.ParseFloat'')),
                ParseFloat64 = (\<lambda>_. Inl (CIPErrorf ''strconv.ParseFloat''))\<rparr>"

theorem write_tag_shows_value_witness:
  "let conn = served (RegisterSymbolicHandler TagObject_HandleRequest NewMessageRouter) default_identity in
    \<exists>d w w'. EipClient_Connect conn hang_up (dialled \<lparr>nextSession = 0, objs = NewTagObject\<rparr>) = (Inr d, w) \<and>
      write_tag no_floats NewEipClient (direct_env conn hang_up) (bytes_of ''Level'') (bytes_of ''int'') (bytes_of ''-300'') (d, w) =
        Some (Inr (GInt16 (-300)), (d, w'))"
proof -
  let ?sh = "\<lparr>nextSession = 0, objs = NewTagObject\<rparr>"
  have u: "ToUpper (bytes_of ''int'') = bytes_of ''INT''" by code_simp
  have names: "bytes_of ''INT'' \<noteq> bytes_of ''BOOL''" "bytes_of ''INT'' \<noteq> bytes_of ''SINT''"
    "bytes_of ''INT'' \<noteq> bytes_of ''STRING''" by (simp_all add: bytes_of_def)
  have "ParseInt 16 (bytes_of ''-300'') = Inr (-300)"
    by (simp add: ParseInt_def bytes_of_def isAllDigits_def digits_value_def)
  then have v: "parseValue no_floats (bytes_of ''int'') (bytes_of ''-300'') = Inr (GInt16 (-300))"
    by (simp add: parseValue_def u names res_simps)
  have n: "simple_tag (bytes_of ''Level'')" by code_simp
  have f: "tags_fit (objs ?sh)" by (simp add: tags_fit_def NewTagObject_def)
  have t: "(ToUpper (bytes_of ''int'') = bytes_of ''STRING'') = False" by (simp add: u names)
  have "nextSession ?sh + 1 \<noteq> 0" by simp
  from write_tag_shows_value [OF this n f v, of NewMessageRouter default_identity NewEipClient]
  show ?thesis unfolding t Let_def if_False by blast
qed

text \<open>
  The custom structure is found in the registry.  On a registry without its code, \<^verbatim>\<open>init\<close> of
  \<^verbatim>\<open>custom_type\<close> succeeds; then the code, with or without the array flag, names the structure, decoding
  undoes encoding, and a second registration panics.
\<close>

theorem custom_type_registered:
  assumes "reg 0x2F83 = None"
  shows "\<exists>reg'. custom_init reg = Some reg' \<and>
    CipType_String reg' 0x2F83 = ''SET_ON_3_TMR'' \<and> CipType_String reg' 0xAF83 = ''SET_ON_3_TMR[]'' \<and>
    (\<forall>x. SetOn3Timer_UnmarshalCIP (SetOn3Timer_MarshalCIP x) = Inr x) \<and>
    (\<forall>x. \<exists>tc. LookupType 0xAF83 reg' = Some tc \<and>
      tc_Unmarshal tc (SetOn3Timer_MarshalCIP x) = Inr (GCodec 0x2F83 (Inr (SetOn3Timer_MarshalCIP x)))) \<and>
    custom_init reg' = None"
proof -
  have b: "Base 0x2F83 = 0x2F83" "Base 0xAF83 = 0x2F83" by (simp_all add: Base_def)
  obtain reg' where r: "custom_init reg = Some reg'"
    using assms by (simp add: custom_init_def RegisterType_def Let_def b)
  note r' = r [unfolded custom_init_def]
  have "map_of typeNames (Base 0x2F83) = None" by (simp add: b typeNames_def)
  with set_on_3_codec.displayed [OF r', of "0x2F83"] set_on_3_codec.displayed [OF r', of "0xAF83"]
    set_on_3_codec.registered [OF r', of "0xAF83"] set_on_3_codec.registered(3) [OF r', of "0x2F83"]
    set_on_3_codec.decode_encode r show ?thesis
    by (auto simp: b IsArray_def custom_init_def rockwell_codec_def res_simps)
qed

theorem custom_type_registered_witness:
  "\<exists>reg. custom_init Map.empty = Some reg \<and> CipType_String reg 0xAF83 = ''SET_ON_3_TMR[]''"
  using custom_type_registered [of Map.empty] by auto

end
