(* ===== verification/Probe.thy ===== *)
theory Probe
  imports Eip_System Tag_Tools Diagnostics
begin

text \<open>
  \<^verbatim>\<open>src/examples/ethernetip/probe\<close>: a program that asks a device for everything it will tell.  Each
  section is a function of the session's request operation; its report holds what is printed.  The
  program slices replies by lengths it computes in the width of the length field, so the slices that
  panic are modelled as such, and the loop over the assembly instances is a partial function.
\<close>

unbundle bit_operations_syntax

section \<open>Requests\<close>

type_synonym 'w cip_send = "MessageRouterRequest \<Rightarrow> 'w \<Rightarrow> (cerr + MessageRouterResponse) \<times> 'w"

definition cipReq :: "'w cip_send \<Rightarrow> USINT \<Rightarrow> Path \<Rightarrow> 'w \<Rightarrow> (cerr + MessageRouterResponse) \<times> 'w" where
  "cipReq send service path w = send \<lparr>Service = service, RequestPath = path, RequestData = []\<rparr> w"

text \<open>The data of a successful reply with at least so many bytes.\<close>

definition reply_data :: "nat \<Rightarrow> cerr + MessageRouterResponse \<Rightarrow> byte list option" where
  "reply_data n r =
     (case r of
        Inl err \<Rightarrow> None
      | Inr resp \<Rightarrow> if IsSuccess resp \<and> length (ResponseData resp) \<ge> n then Some (ResponseData resp) else None)"

definition get_attribute :: "'w cip_send \<Rightarrow> UINT \<Rightarrow> UINT \<Rightarrow> nat \<Rightarrow> 'w \<Rightarrow> byte list option \<times> 'w" where
  "get_attribute send class attr n w =
     apfst (reply_data n) (cipReq send ServiceGetAttributeSingle (BuildPath class 1 attr) w)"

section \<open>Identity\<close>

text \<open>Nothing to show, a panic, or what is shown.\<close>

datatype 'a probed = Absent | Panics | Shows 'a

record identity_report =
  id_name :: "byte list"
  id_vendor :: u16
  id_type :: u16
  id_code :: u16
  id_major :: byte
  id_minor :: byte
  id_serial :: u32
  id_status :: u16

text \<open>A slice \<^verbatim>\<open>d[low:high]\<close>; it panics unless \<^verbatim>\<open>low <= high <= len(d)\<close>.\<close>

definition slice :: "byte list \<Rightarrow> nat \<Rightarrow> nat \<Rightarrow> byte list option" where
  "slice d low high = (if low \<le> high \<and> high \<le> length d then Some (take (high - low) (drop low d)) else None)"

text \<open>The length of the name is a byte, and \<^verbatim>\<open>15+nameLen\<close> is computed as a byte.\<close>

definition show_identity :: "byte list \<Rightarrow> identity_report probed" where
  "show_identity d =
     (let nameLen = d ! 14; stop = unat (15 + nameLen) in
      case (if stop \<le> length d then slice d 15 stop else Some []) of
        None \<Rightarrow> Panics
      | Some name \<Rightarrow>
          Shows \<lparr>id_name = name, id_vendor = le16_at d 0, id_type = le16_at d 2, id_code = le16_at d 4,
                 id_major = d ! 6, id_minor = d ! 7, id_serial = le32_at d 10, id_status = le16_at d 8\<rparr>)"

definition probe_identity :: "'w cip_send \<Rightarrow> 'w \<Rightarrow> identity_report probed \<times> 'w" where
  "probe_identity send w =
     (case cipReq send ServiceGetAttributeAll (BuildPath 0x01 1 0) w of (r, w) \<Rightarrow>
       ((case reply_data 15 r of None \<Rightarrow> Absent | Some d \<Rightarrow> show_identity d), w))"

definition vendorName :: "u16 \<Rightarrow> string" where
  "vendorName vid =
     (if vid = 1 then ''Rockwell Automation'' else if vid = 424 then ''Teknic'' else ''Unknown'')"

definition deviceTypeName :: "u16 \<Rightarrow> string" where
  "deviceTypeName dt =
     (case map_of
        [(0, ''Generic''), (2, ''AC Drive''), (7, ''General Purpose Discrete I/O''),
         (12, ''Communications Adapter''), (14, ''Programmable Logic Controller''),
         (22, ''Safety Discrete I/O''), (24, ''HMI''), (33, ''Generic Safety''), (43, ''Servo Drive''),
         (150, ''AC/DC Drive (vendor specific)'')] dt of
        Some name \<Rightarrow> name
      | None \<Rightarrow> ''Type '' @ show_int (unat dt))"

section \<open>TCP/IP interface and link\<close>

definition capability_flags :: "u32 \<Rightarrow> string list" where
  "capability_flags cap =
     (if cap AND 0x01 \<noteq> 0 then [''BOOTP''] else []) @ (if cap AND 0x02 \<noteq> 0 then [''DNS''] else []) @
     (if cap AND 0x04 \<noteq> 0 then [''DHCP''] else []) @ (if cap AND 0x10 \<noteq> 0 then [''HW-Configurable''] else []) @
     (if cap AND 0x20 \<noteq> 0 then [''ACD''] else [])"

text \<open>An address is sent in little-endian order: its bytes are turned round.\<close>

definition ip_at :: "byte list \<Rightarrow> nat \<Rightarrow> byte list" where
  "ip_at d i = [d ! (i + 3), d ! (i + 2), d ! (i + 1), d ! i]"

text \<open>The length of the host name is 16 bits wide, and so is \<^verbatim>\<open>2+strLen\<close>.\<close>

definition show_hostname :: "byte list \<Rightarrow> byte list probed" where
  "show_hostname d =
     (let strLen = le16_at d 0; stop = unat (2 + strLen) in
      if stop \<le> length d then
        (case slice d 2 stop of None \<Rightarrow> Panics | Some name \<Rightarrow> if name = [] then Absent else Shows name)
      else Absent)"

record tcpip_report =
  tcp_status :: "u32 option"
  tcp_capability :: "(u32 \<times> string list) option"
  tcp_addresses :: "(byte list \<times> byte list \<times> byte list) option"
  tcp_hostname :: "byte list probed"

definition probe_tcpip :: "'w cip_send \<Rightarrow> 'w \<Rightarrow> tcpip_report \<times> 'w" where
  "probe_tcpip send w =
     (case get_attribute send 0xF5 1 4 w of (status, w) \<Rightarrow>
      (case get_attribute send 0xF5 3 4 w of (cap, w) \<Rightarrow>
      (case get_attribute send 0xF5 5 12 w of (ip, w) \<Rightarrow>
      (case get_attribute send 0xF5 6 2 w of (host, w) \<Rightarrow>
        (\<lparr>tcp_status = map_option (\<lambda>d. le32_at d 0) status,
          tcp_capability = map_option (\<lambda>d. (le32_at d 0, capability_flags (le32_at d 0))) cap,
          tcp_addresses = map_option (\<lambda>d. (ip_at d 0, ip_at d 4, ip_at d 8)) ip,
          tcp_hostname = (case host of None \<Rightarrow> Absent | Some d \<Rightarrow> show_hostname d)\<rparr>, w)))))"

record link_report =
  link_speed :: "u32 option"
  link_status :: "(bool \<times> bool) option"
  link_mac :: "byte list option"

definition probe_link :: "'w cip_send \<Rightarrow> 'w \<Rightarrow> link_report \<times> 'w" where
  "probe_link send w =
     (case get_attribute send 0xF6 1 4 w of (speed, w) \<Rightarrow>
      (case get_attribute send 0xF6 2 4 w of (flags, w) \<Rightarrow>
      (case get_attribute send 0xF6 3 6 w of (mac, w) \<Rightarrow>
        (\<lparr>link_speed = map_option (\<lambda>d. le32_at d 0) speed,
          link_status = map_option (\<lambda>d. (le32_at d 0 AND 0x02 \<noteq> 0, le32_at d 0 AND 0x01 \<noteq> 0)) flags,
          link_mac = map_option (take 6) mac\<rparr>, w))))"

section \<open>Assembly instances\<close>

record assembly_row =
  row_inst :: u16
  row_len :: nat
  row_preview :: "byte list"
  row_more :: bool
  row_words :: "(u16 \<times> u16) option"

definition show_assembly :: "u16 \<Rightarrow> byte list \<Rightarrow> assembly_row" where
  "show_assembly inst data =
     \<lparr>row_inst = inst, row_len = length data, row_preview = take 24 data, row_more = (length data > 24),
      row_words = (if length data = 12 then Some (le16_at data 0, le16_at data 2) else None)\<rparr>"

text \<open>The loop \<^verbatim>\<open>for inst := uint16(1); inst <= uint16(max); inst++\<close>; \<^const>\<open>None\<close> is a loop that never ends.\<close>

partial_function (option) assembly_loop ::
    "'w cip_send \<Rightarrow> u16 \<Rightarrow> u16 \<Rightarrow> assembly_row list \<Rightarrow> 'w \<Rightarrow> (assembly_row list \<times> 'w) option" where
  "assembly_loop send most inst rows w =
     (if inst \<le> most then
        (case cipReq send ServiceGetAttributeSingle (BuildPath 0x04 inst 3) w of (r, w) \<Rightarrow>
          assembly_loop send most (inst + 1)
            (case reply_data 0 r of None \<Rightarrow> rows | Some data \<Rightarrow> rows @ [show_assembly inst data]) w)
      else Some (rows, w))"

definition probe_assemblies :: "'w cip_send \<Rightarrow> int \<Rightarrow> 'w \<Rightarrow> (assembly_row list \<times> 'w) option" where
  "probe_assemblies send maxAssembly w = assembly_loop send (word_of_int maxAssembly) 1 [] w"

section \<open>Connection manager and classes\<close>

fun probe_counters :: "'w cip_send \<Rightarrow> UINT list \<Rightarrow> 'w \<Rightarrow> u16 option list \<times> 'w" where
  "probe_counters send [] w = ([], w)"
| "probe_counters send (attr # attrs) w =
     (case get_attribute send 0x06 attr 2 w of (d, w) \<Rightarrow>
      (case probe_counters send attrs w of (cs, w) \<Rightarrow> (map_option (\<lambda>d. le16_at d 0) d # cs, w)))"

definition class_names :: "(UINT \<times> string) list" where
  "class_names =
     [(0x01, ''Identity''), (0x02, ''Message Router''), (0x03, ''DeviceNet''), (0x04, ''Assembly''),
      (0x05, ''Connection''), (0x06, ''Connection Manager''), (0x07, ''Register''),
      (0x08, ''Discrete Input Point''), (0x09, ''Discrete Output Point''), (0x0A, ''Analog Input Point''),
      (0x0B, ''Analog Output Point''), (0x0F, ''Parameter''), (0x10, ''Parameter Group''),
      (0x1D, ''Discrete Input Group''), (0x1E, ''Discrete Output Group''), (0x1F, ''Discrete Group''),
      (0x20, ''Analog Input Group''), (0x21, ''Analog Output Group''), (0x22, ''Analog Group''),
      (0x28, ''Motor Data''), (0x29, ''Control Supervisor''), (0x2A, ''AC/DC Drive''),
      (0x2B, ''Acknowledge Handler''), (0x37, ''S-Analog Sensor''), (0x38, ''S-Analog Actuator''),
      (0x39, ''S-Single Stage Controller''), (0x3A, ''S-Gas Calibration''), (0x6B, ''Symbol''),
      (0xAC, ''IO (Logix)''), (0xB2, ''Logix5000''), (0xF5, ''TCP/IP Interface''), (0xF6, ''Ethernet Link'')]"

text \<open>A class is tried with instance 0, then with instance 1.\<close>

fun probe_classes :: "'w cip_send \<Rightarrow> (UINT \<times> string) list \<Rightarrow> 'w \<Rightarrow> (UINT \<times> string \<times> nat) list \<times> 'w" where
  "probe_classes send [] w = ([], w)"
| "probe_classes send ((class, name) # cs) w =
     (case cipReq send ServiceGetAttributeAll (BuildPath class 0 0) w of (r0, w) \<Rightarrow>
      (case (if reply_data 0 r0 = None then cipReq send ServiceGetAttributeAll (BuildPath class 1 0) w else (r0, w)) of
         (r, w) \<Rightarrow>
           (case probe_classes send cs w of (rows, w) \<Rightarrow>
             ((case reply_data 0 r of None \<Rightarrow> rows | Some d \<Rightarrow> (class, name, length d) # rows), w))))"

section \<open>Tags\<close>

function cipTypeName :: "u16 \<Rightarrow> string" where
  "cipTypeName t =
     (if t AND 0x8000 \<noteq> 0 then cipTypeName (t AND 0x0FFF) @ ''[]''
      else case map_of
        [(TypeBOOL, ''BOOL''), (TypeSINT, ''SINT''), (TypeINT, ''INT''), (TypeDINT, ''DINT''), (TypeLINT, ''LINT''),
         (TypeREAL, ''REAL''), (TypeLREAL, ''LREAL''), (TypeSTRING, ''STRING'')] t of
        Some name \<Rightarrow> name
      | None \<Rightarrow> if t \<ge> 0x0100 then ''STRUCT'' else ''0x'' @ hex4 t)"
  by pat_completeness auto
termination
  by (relation "measure (\<lambda>t. of_bool (t AND 0x8000 \<noteq> 0))") (auto simp: and.assoc)

declare cipTypeName.simps [simp del]

text \<open>At most fifty tags are listed, with the number of those left out.\<close>

definition show_tags :: "SymbolInstance list \<Rightarrow> (byte list \<times> u16 \<times> string) list \<times> nat" where
  "show_tags ts =
     (let show = (if length ts > 50 then 50 else length ts) in
      (map (\<lambda>t. (SymName t, SymType t, cipTypeName (SymType t))) (take show ts), length ts - show))"

text \<open>A value as it is printed; a float by its bit pattern, and bytes in hexadecimal.\<close>

datatype shown_value =
    ShowsBool bool | ShowsInt int | ShowsReal u32 | ShowsLReal u64 | ShowsText "byte list" | ShowsHex "byte list"

definition formatTagValue :: "byte list \<Rightarrow> CipType \<Rightarrow> shown_value" where
  "formatTagValue data dt =
     (if length data < 2 then ShowsHex data
      else let hdrLen = (if le16_at data 0 \<ge> TypeSTRUCT then 4 else 2) in
        if length data < hdrLen then ShowsHex data
        else let payload = drop hdrLen data in
          if dt = TypeBOOL \<and> length payload \<ge> 1 then ShowsBool (payload ! 0 \<noteq> 0)
          else if dt = TypeSINT \<and> length payload \<ge> 1 then ShowsInt (sint (payload ! 0))
          else if dt = TypeINT \<and> length payload \<ge> 2 then ShowsInt (sint (le16_at payload 0))
          else if dt = TypeDINT \<and> length payload \<ge> 4 then ShowsInt (sint (le32_at payload 0))
          else if dt = TypeLINT \<and> length payload \<ge> 8 then ShowsInt (sint (le_get (take 8 payload) :: u64))
          else if dt = TypeREAL \<and> length payload \<ge> 4 then ShowsReal (le32_at payload 0)
          else if dt = TypeLREAL \<and> length payload \<ge> 8 then ShowsLReal (le_get (take 8 payload))
          else ShowsHex data)"

text \<open>The values of up to ten readable tags of four types; a tag that cannot be read is skipped.\<close>

fun sample_values :: "EipClient \<Rightarrow> ('c, 'w) eip_env \<Rightarrow> nat \<Rightarrow> SymbolInstance list \<Rightarrow> 'w \<Rightarrow>
    ((byte list \<times> shown_value) list \<times> 'w) option" where
  "sample_values c env cnt [] w = Some ([], w)"
| "sample_values c env cnt (t # ts) w =
     (if cnt \<ge> 10 then Some ([], w)
      else if SymType t \<in> {TypeDINT, TypeREAL, TypeINT, TypeBOOL} then
        Option.bind (ReadTag c env (SymName t) w) (\<lambda>(r, w).
          case r of
            Inl err \<Rightarrow> sample_values c env cnt ts w
          | Inr data \<Rightarrow>
              map_option (apfst (Cons (SymName t, formatTagValue data (SymType t)))) (sample_values c env (cnt + 1) ts w))
      else sample_values c env cnt ts w)"

section \<open>Slices by a length that wraps\<close>

text \<open>A name of 241 bytes or more panics, whatever the reply holds; a shorter one never does.\<close>

lemma show_identity_panics:
  assumes "15 \<le> length d"
  shows "show_identity d = Panics \<longleftrightarrow> 241 \<le> unat (d ! 14)"
  using assms unsigned_less [of "d ! 14", where ?'a = nat] unat_plus_if' [of 15 "d ! 14"]
  by (auto simp: show_identity_def slice_def Let_def split: option.split)

lemma show_hostname_panics:
  assumes "2 \<le> length d"
  shows "show_hostname d = Panics \<longleftrightarrow> 65534 \<le> unat (le16_at d 0)"
  using assms unsigned_less [of "le16_at d 0", where ?'a = nat] unat_plus_if' [of 2 "le16_at d 0"]
  by (auto simp: show_hostname_def slice_def Let_def split: option.split)

text \<open>The layout of the reply, and that the program reads it.\<close>

definition identity_bytes :: "identity_report \<Rightarrow> byte list" where
  "identity_bytes r =
     le16 (id_vendor r) @ le16 (id_type r) @ le16 (id_code r) @ [id_major r, id_minor r] @ le16 (id_status r) @
     le32 (id_serial r) @ [word_of_nat (length (id_name r))] @ id_name r"

lemma show_identity_bytes:
  assumes "length (id_name r) \<le> 240"
  shows "show_identity (identity_bytes r @ extra) = Shows r"
proof -
  have "unat (15 + word_of_nat (length (id_name r)) :: byte) = 15 + length (id_name r)"
    using assms unat_plus_if' [of "15 :: byte" "word_of_nat (length (id_name r))"] by (simp add: unat_count_byte)
  then show ?thesis
    by (simp add: show_identity_def identity_bytes_def slice_def le16_at_def le32_at_def le16_def le32_def nth_append
        get_le16_le16 [unfolded le16_def] get_le32_le32 [unfolded le32_def])
qed

section \<open>The loop over the instances\<close>

fun scan :: "'w cip_send \<Rightarrow> nat list \<Rightarrow> 'w \<Rightarrow> assembly_row list \<times> 'w" where
  "scan send [] w = ([], w)"
| "scan send (i # is) w =
     (case cipReq send ServiceGetAttributeSingle (BuildPath 0x04 (word_of_nat i) 3) w of (r, w) \<Rightarrow>
      apfst (append (case reply_data 0 r of None \<Rightarrow> [] | Some data \<Rightarrow> [show_assembly (word_of_nat i) data])) (scan send is w))"

lemma apfst_append [simp]:
  "apfst ((@) []) p = p" "apfst ((@) xs) (apfst ((@) ys) p) = apfst ((@) (xs @ ys)) p"
  by (cases p; simp)+

lemma assembly_loop_forever: "assembly_loop send 0xFFFF inst rows w = None"
proof -
  have "most \<noteq> 0xFFFF" if "assembly_loop send most inst rows w = Some r" for most inst rows w r
  proof (rule assembly_loop.raw_induct [OF _ that, where P = "\<lambda>send most inst rows w r. most \<noteq> 0xFFFF"])
    fix loop :: "'a cip_send \<Rightarrow> u16 \<Rightarrow> u16 \<Rightarrow> assembly_row list \<Rightarrow> 'a \<Rightarrow> (assembly_row list \<times> 'a) option"
      and send most inst rows w r
    assume ih: "\<And>send most inst rows w r. loop send most inst rows w = Some r \<Longrightarrow> most \<noteq> 0xFFFF"
      and body: "(if inst \<le> most then
        (case cipReq send ServiceGetAttributeSingle (BuildPath 0x04 inst 3) w of (x, w) \<Rightarrow>
          loop send most (inst + 1)
            (case reply_data 0 x of None \<Rightarrow> rows | Some data \<Rightarrow> rows @ [show_assembly inst data]) w)
        else Some (rows, w)) = Some r"
    have "inst \<le> 0xFFFF" using unsigned_less [of inst, where ?'a = nat] by (simp add: word_le_nat_alt)
    with body ih show "most \<noteq> 0xFFFF" by (auto split: prod.splits if_splits)
  qed
  then show ?thesis by (cases "assembly_loop send 0xFFFF inst rows w") blast+
qed

lemma assembly_loop_scan:
  assumes "most \<noteq> 0xFFFF" "i \<le> Suc (unat most)"
  shows "assembly_loop send most (word_of_nat i) rows w = Some (apfst (append rows) (scan send [i..<Suc (unat most)] w))"
proof -
  have "unat most \<noteq> unat (0xFFFF :: u16)" using assms(1) by (simp add: word_unat_eq_iff)
  then have m: "unat most < 65535" using unsigned_less [of most, where ?'a = nat] by simp
  have le: "(word_of_nat i :: u16) \<le> most \<longleftrightarrow> i \<le> unat most" if "i \<le> Suc (unat most)" for i
    using that m by (simp add: word_le_nat_alt unat_word_of_nat)
  show ?thesis using assms(2)
  proof (induction "Suc (unat most) - i" arbitrary: i rows w)
    case 0
    with le [of i] show ?case by (subst assembly_loop.simps) simp
  next
    case (Suc n)
    then have i: "i \<le> unat most" "n = Suc (unat most) - Suc i" by simp_all
    have "(word_of_nat i :: u16) + 1 = word_of_nat (Suc i)" by (simp add: add.commute)
    with Suc(1) [OF i(2)] i(1) le [of i] show ?case
      by (subst assembly_loop.simps) (auto simp: upt_conv_Cons split: prod.split option.split simp del: upt_Suc of_nat_Suc)
  qed
qed

lemma probe_assemblies_ends:
  "probe_assemblies send maxAssembly w =
     (if word_of_int maxAssembly = (0xFFFF :: u16) then None
      else Some (scan send [1..<Suc (unat (word_of_int maxAssembly :: u16))] w))"
  using assembly_loop_scan [of "word_of_int maxAssembly" 1 send "[]" w] assembly_loop_forever [of send 1 "[]" w]
  by (auto simp: probe_assemblies_def)

section \<open>Against the assembly object\<close>

lemma BuildPath_assembly: "BuildPath 0x04 i 3 = AddClass 0x04 NewPath @ AddAttribute 3 (AddInstance i NewPath)"
  by (simp add: BuildPath_def AddClass_def AddInstance_def AddAttribute_def NewPath_def)

lemma get_assembly_served:
  assumes "in_session h w" "instances (objs (ww_shared w)) (ucast i) = r" "\<forall>data. r = Some data \<longrightarrow> length data \<le> 65000"
  shows "\<exists>x. cipReq (Session_SendCIPRequest (served assembly_router identity) h) ServiceGetAttributeSingle (BuildPath 0x04 i 3) w = (x, w) \<and>
    reply_data 0 x = r"
proof -
  let ?req = "\<lparr>Service = ServiceGetAttributeSingle, RequestPath = BuildPath 0x04 i 3, RequestData = []\<rparr>"
  let ?resp = "case r of None \<Rightarrow> status_response 0x0E StatusObjectDoesNotExist [] [] | Some data \<Rightarrow> status_response 0x0E 0 [] data"
  have "request_fits ?req"
    by (simp add: request_fits_def MRRequest_Encode_def BuildPath_def AddClass_def AddInstance_def AddAttribute_def NewPath_def)
  moreover have "Dispatch assembly_router ?req (objs (ww_shared w)) = (Inr ?resp, objs (ww_shared w))"
    using assms(2) unfolding BuildPath_assembly
    by (simp add: Dispatch_class assembly_router_def RegisterObject_def Assembly_HandleRequest_def target_path
        GetAttributeSingle_def split: option.split)
  moreover have "response_fits ?resp"
    using assms(3) by (auto simp: response_fits_def status_response_def MRResponse_Encode_def split: option.split)
  ultimately have "Session_SendCIPRequest (served assembly_router identity) h ?req w = (Inr ?resp, w)"
    using SendCIPRequest_served [OF assms(1), of ?req assembly_router ?resp "objs (ww_shared w)" identity] by simp
  moreover have "reply_data 0 (Inr ?resp) = r"
    by (simp add: reply_data_def IsSuccess_def status_response_def split: option.split)
  ultimately show ?thesis unfolding cipReq_def by blast
qed

definition assembly_rows :: "AssemblyObject \<Rightarrow> nat list \<Rightarrow> assembly_row list" where
  "assembly_rows ao is = concat (map (\<lambda>i.
     case instances ao (word_of_nat i) of None \<Rightarrow> [] | Some data \<Rightarrow> [show_assembly (word_of_nat i) data]) is)"

lemma scan_served:
  assumes "in_session h w" "\<forall>i data. instances (objs (ww_shared w)) i = Some data \<longrightarrow> length data \<le> 65000" "\<forall>i \<in> set is. i < 65536"
  shows "scan (Session_SendCIPRequest (served assembly_router identity) h) is w = (assembly_rows (objs (ww_shared w)) is, w)"
  using assms(3)
proof (induction "is")
  case (Cons i "is")
  have "ucast (word_of_nat i :: u16) = (word_of_nat i :: u32)" using Cons.prems 
    by (simp add: word_unat_eq_iff unsigned_ucast_eq unat_word_of_nat take_bit_nat_eq_self)
  then obtain x where "cipReq (Session_SendCIPRequest (served assembly_router identity) h) ServiceGetAttributeSingle
      (BuildPath 0x04 (word_of_nat i) 3) w = (x, w)" "reply_data 0 x = instances (objs (ww_shared w)) (word_of_nat i)"
    using get_assembly_served [OF assms(1), of "word_of_nat i" "instances (objs (ww_shared w)) (word_of_nat i)" identity] assms(2)
    by auto
  with Cons show ?case by (auto simp: assembly_rows_def)
qed (simp add: assembly_rows_def)

section \<open>Properties\<close>

text \<open>
  C18: What the probe lists and when it ends.  In a session with a server of assemblies the probe shows
  exactly the registered instances from 1 to the given number, with their sizes and data, and leaves
  the server as it was; but with 65535, or any number that is 65535 modulo 65536, the counter wraps
  and the loop never ends.
\<close>

theorem probe_assemblies_complete:
  assumes "in_session h w" "\<forall>i data. instances (objs (ww_shared w)) i = Some data \<longrightarrow> length data \<le> 65000"
  shows "probe_assemblies (Session_SendCIPRequest (served assembly_router identity) h) maxAssembly w =
    (if maxAssembly mod 65536 = 65535 then None
     else Some (assembly_rows (objs (ww_shared w)) [1..<Suc (nat (maxAssembly mod 65536))], w))"
proof -
  have m: "unat (word_of_int maxAssembly :: u16) = nat (maxAssembly mod 65536)"
    by (simp add: unat_eq_nat_uint uint_word_of_int)
  have "word_of_int maxAssembly = (0xFFFF :: u16) \<longleftrightarrow> maxAssembly mod 65536 = 65535"
    by (simp add: word_uint_eq_iff uint_word_of_int)
  moreover have "\<forall>i \<in> set [1..<Suc (nat (maxAssembly mod 65536))]. i < 65536"
    using pos_mod_bound [of 65536 maxAssembly] by (auto simp: less_Suc_eq_le)
  ultimately show ?thesis
    using scan_served [OF assms, of "[1..<Suc (nat (maxAssembly mod 65536))]" identity]
    unfolding probe_assemblies_ends m by simp
qed

theorem probe_assemblies_complete_witness:
  "let w = \<lparr>ww_pending = [], ww_handle = 1, ww_closed = False,
      ww_shared = \<lparr>nextSession = 1, objs = RegisterAssembly 2 [5, 6] NewAssemblyObject\<rparr>\<rparr>;
      send = Session_SendCIPRequest (served assembly_router default_identity) 1
   in probe_assemblies send 3 w = Some ([show_assembly 2 [5, 6]], w) \<and> probe_assemblies send 65535 w = None"
proof -
  let ?w = "\<lparr>ww_pending = [], ww_handle = 1, ww_closed = False,
      ww_shared = \<lparr>nextSession = 1, objs = RegisterAssembly 2 [5, 6] NewAssemblyObject\<rparr>\<rparr>"
  have "in_session 1 ?w" by (simp add: in_session_def)
  moreover have "\<forall>i data. instances (objs (ww_shared ?w)) i = Some data \<longrightarrow> length data \<le> 65000"
    by (simp add: RegisterAssembly_def NewAssemblyObject_def)
  moreover have "assembly_rows (objs (ww_shared ?w)) [1..<Suc 3] = [show_assembly 2 [5, 6]]"
    by (simp add: assembly_rows_def RegisterAssembly_def NewAssemblyObject_def upt_rec)
  ultimately show ?thesis
    using probe_assemblies_complete [of 1 ?w default_identity 3] probe_assemblies_complete [of 1 ?w default_identity 65535]
    by (simp add: Let_def)
qed

text \<open>
  The probe panics on a long name.  It computes the end of the product name in a byte: for a reply
  to the identity request that announces 241 bytes or more the end wraps below the start and the slice
  panics, even where the reply is as long as announced; every other reply is shown, and one of the
  specified layout with its fields.  The host name has the same fault at 65534.
\<close>

theorem probe_name_panics:
  assumes "cipReq send ServiceGetAttributeAll (BuildPath 0x01 1 0) w = (Inr resp, w')" "IsSuccess resp"
    "15 \<le> length (ResponseData resp)" "2 \<le> length d"
  shows "(fst (probe_identity send w) = Panics \<longleftrightarrow> 241 \<le> unat (ResponseData resp ! 14)) \<and>
    (\<forall>r extra. ResponseData resp = identity_bytes r @ extra \<and> length (id_name r) \<le> 240 \<longrightarrow>
       probe_identity send w = (Shows r, w')) \<and>
    (show_hostname d = Panics \<longleftrightarrow> 65534 \<le> unat (le16_at d 0))"
  using assms show_identity_panics [OF assms(3)] show_identity_bytes show_hostname_panics [OF assms(4)]
  by (auto simp: probe_identity_def reply_data_def)

theorem probe_name_panics_witness:
  "fst (probe_identity (\<lambda>req w. (Inr (status_response 1 0 [] (replicate 14 0 @ [250] @ replicate 250 65)), w)) ()) = Panics"
proof -
  let ?resp = "status_response 1 0 [] (replicate 14 0 @ [250] @ replicate 250 65)"
  have "IsSuccess ?resp" "15 \<le> length (ResponseData ?resp)" "ResponseData ?resp ! 14 = 250"
    by (simp_all add: IsSuccess_def status_response_def nth_append)
  with probe_name_panics [of "\<lambda>req w. (Inr ?resp, w)" "()" ?resp "()" "[0, 0]"] show ?thesis
    by (simp add: cipReq_def)
qed

end
