(* ===== verification/Eip_Tools.thy ===== *)
theory Eip_Tools
  imports Probe
begin

text \<open>
  Programs of \<^verbatim>\<open>src/examples/ethernetip\<close> that look at tags: \<^verbatim>\<open>read_tag\<close>, \<^verbatim>\<open>read_tag_typed\<close>,
  \<^verbatim>\<open>reconnecting\<close>, \<^verbatim>\<open>timer_counter\<close>, \<^verbatim>\<open>program_scoped_tag\<close>, \<^verbatim>\<open>list_tags\<close> and \<^verbatim>\<open>list_identity\<close>.  Each is a
  function of its flags over a connected client; a value is reported as it is printed, a float by its
  bit pattern.  The programs decode the same bytes in their own ways, and the lemmas compare them.
\<close>

unbundle bit_operations_syntax

section \<open>Typed reads\<close>

text \<open>\<^verbatim>\<open>binary.Read\<close> into a slice of so many elements.\<close>

definition Unmarshal_slice :: "dest \<Rightarrow> nat \<Rightarrow> byte list \<Rightarrow> cerr + cip_value list" where
  "Unmarshal_slice d n data =
     (case dest_size d of
        None \<Rightarrow> Inl (CIPErrorf ''binary.Read failed'')
      | Some k \<Rightarrow>
          if length data < n * k then Inl (CIPErrorf ''binary.Read failed'')
          else Inr (map (\<lambda>i. read_value d (take k (drop (i * k) data))) [0..<n]))"

definition typedRead :: "EipClient \<Rightarrow> ('c, 'w) eip_env \<Rightarrow> dest \<Rightarrow> byte list \<Rightarrow> u16 \<Rightarrow> 'w \<Rightarrow>
    ((cerr + cip_value list) \<times> 'w) option" where
  "typedRead c env d tag cnt w =
     (if cnt = 1 then then_res (Read_T c env tag (\<lambda>data. Unmarshal data d) w) (\<lambda>v. Inr [v])
      else ReadSlice c env tag cnt (Unmarshal_slice d) w)"

text \<open>The Go type for a type code, in the switch of \<^verbatim>\<open>read_tag\<close>.\<close>

definition dest_for :: "CipType \<Rightarrow> dest option" where
  "dest_for typeCode = map_of
     [(TypeBOOL, DBool), (TypeSINT, DInt8), (TypeINT, DInt16), (TypeDINT, DInt32), (TypeLINT, DInt64),
      (TypeUSINT, DUint8), (TypeUINT, DUint16), (TypeUDINT, DUint32), (TypeULINT, DUint64),
      (TypeREAL, DFloat32), (TypeLREAL, DFloat64)] typeCode"

record tag_report =
  rep_type :: CipType
  rep_raw :: "byte list"
  rep_data :: "byte list"
  rep_values :: "cip_value list option"

text \<open>The raw read, then the typed read the type code selects; a failure of either ends the program.\<close>

definition read_tag :: "EipClient \<Rightarrow> ('c, 'w) eip_env \<Rightarrow> byte list \<Rightarrow> nat \<Rightarrow> 'w \<Rightarrow>
    ((cerr + tag_report) \<times> 'w) option" where
  "read_tag c env tagName cnt w =
     Option.bind (if cnt = 1 then ReadTag c env tagName w else ReadTagElements c env tagName (word_of_nat cnt) w) (\<lambda>(r, w).
       case r of
         Inl err \<Rightarrow> Some (Inl err, w)
       | Inr raw \<Rightarrow>
           if length raw < 2 then Some (Inl (CIPErrorf ''Response too short''), w)
           else let rep = \<lparr>rep_type = le16_at raw 0, rep_raw = raw, rep_data = drop 2 raw, rep_values = None\<rparr> in
             (case dest_for (le16_at raw 0) of
                None \<Rightarrow> Some (Inr rep, w)
              | Some d \<Rightarrow> then_res (typedRead c env d tagName (word_of_nat cnt) w) (\<lambda>vs. Inr (rep\<lparr>rep_values := Some vs\<rparr>))))"

text \<open>\<^verbatim>\<open>read_tag_typed\<close>: the Go type is given by name.\<close>

datatype typed_result = Values "cip_value list" | ATimer Timer | ACounter Counter

definition named_dest :: "byte list \<Rightarrow> dest option" where
  "named_dest typeName = map_of
     [(bytes_of ''BOOL'', DBool), (bytes_of ''SINT'', DInt8), (bytes_of ''INT'', DInt16), (bytes_of ''DINT'', DInt32),
      (bytes_of ''LINT'', DInt64), (bytes_of ''USINT'', DUint8), (bytes_of ''UINT'', DUint16), (bytes_of ''UDINT'', DUint32),
      (bytes_of ''ULINT'', DUint64), (bytes_of ''REAL'', DFloat32), (bytes_of ''LREAL'', DFloat64)] typeName"

definition read_tag_typed :: "EipClient \<Rightarrow> ('c, 'w) eip_env \<Rightarrow> byte list \<Rightarrow> byte list \<Rightarrow> nat \<Rightarrow> 'w \<Rightarrow>
    ((cerr + typed_result) \<times> 'w) option" where
  "read_tag_typed c env tagName typeName cnt w =
     (let t = ToUpper typeName in
      case named_dest t of
        Some d \<Rightarrow> then_res (typedRead c env d tagName (word_of_nat cnt) w) (\<lambda>vs. Inr (Values vs))
      | None \<Rightarrow>
          if t = bytes_of ''TIMER'' then then_res (ReadTagInto c env tagName DecodeTimer w) (\<lambda>v. Inr (ATimer v))
          else if t = bytes_of ''COUNTER'' then then_res (ReadTagInto c env tagName DecodeCounter w) (\<lambda>v. Inr (ACounter v))
          else Some (Inl (CIPErrorf ''Unsupported type''), w))"

section \<open>Polling\<close>

text \<open>\<^verbatim>\<open>formatValue\<close> of \<^verbatim>\<open>reconnecting\<close>: five types, a string with a length of two bytes.\<close>

definition formatValue :: "CipType \<Rightarrow> byte list \<Rightarrow> shown_value" where
  "formatValue dataType valueBytes =
     (if dataType = TypeDINT \<and> length valueBytes \<ge> 4 then ShowsInt (sint (le32_at valueBytes 0))
      else if dataType = TypeREAL \<and> length valueBytes \<ge> 4 then ShowsReal (le32_at valueBytes 0)
      else if dataType = TypeINT \<and> length valueBytes \<ge> 2 then ShowsInt (sint (le16_at valueBytes 0))
      else if dataType = TypeSTRING \<and> length valueBytes \<ge> 2 \<and> length valueBytes \<ge> 2 + unat (le16_at valueBytes 0)
        then ShowsText (take (unat (le16_at valueBytes 0)) (drop 2 valueBytes))
      else if dataType = TypeBOOL \<and> length valueBytes \<ge> 1 then ShowsBool (valueBytes ! 0 \<noteq> 0)
      else ShowsHex valueBytes)"

text \<open>One poll: a CIP error with a hint, a cancelled context, a transport error, or a value.\<close>

datatype poll_line =
    CipLine USINT "string option"
  | NoLine
  | TransportLine cerr
  | ShortLine nat
  | ValueLine CipType shown_value

definition status_hint :: "USINT \<Rightarrow> string option" where
  "status_hint status =
     (if status = StatusPathDestinationUnknown then Some ''Tag does not exist on the PLC. Check the tag name.''
      else if status = StatusServiceNotSupported then Some ''The target object does not support the ReadTag service.''
      else if status = StatusObjectDoesNotExist then Some ''The target CIP object class does not exist.''
      else None)"

definition readAndPrint :: "EipClient \<Rightarrow> ('c, 'w) eip_env \<Rightarrow> bool \<Rightarrow> byte list \<Rightarrow> 'w \<Rightarrow> (poll_line \<times> 'w) option" where
  "readAndPrint c env cancelled tagName w =
     map_option (\<lambda>(r, w).
       ((case r of
           Inl (CIPError status ext) \<Rightarrow> CipLine status (status_hint status)
         | Inl err \<Rightarrow> if cancelled then NoLine else TransportLine err
         | Inr data \<Rightarrow>
             if length data < 2 then ShortLine (length data)
             else ValueLine (le16_at data 0) (formatValue (le16_at data 0) (drop 2 data))), w))
       (ReadTag c env tagName w)"

section \<open>Timers and counters\<close>

text \<open>The state line; the percentage is floating-point and is left out.\<close>

definition timer_state :: "Timer \<Rightarrow> string" where
  "timer_state t =
     (if \<not> t_EN t then ''Idle (timer is not enabled)''
      else if t_TT t \<and> \<not> t_DN t then ''Timing (actively counting up)''
      else if t_DN t then ''Done (preset reached)''
      else ''Unknown'')"

definition counter_state :: "Counter \<Rightarrow> string" where
  "counter_state c =
     (if c_OV c then ''Overflow (ACC wrapped past max int32)''
      else if c_UN c then ''Underflow (ACC wrapped past min int32)''
      else if c_DN c then ''Done (preset reached)''
      else if c_CU c \<or> c_CD c then ''Counting''
      else ''Idle'')"

record tc_report =
  tc_timer :: "(Timer \<times> string) option"
  tc_counter :: "(Counter \<times> string) option"

definition timer_counter :: "EipClient \<Rightarrow> ('c, 'w) eip_env \<Rightarrow> byte list \<Rightarrow> byte list \<Rightarrow> 'w \<Rightarrow>
    ((cerr + tc_report) \<times> 'w) option" where
  "timer_counter c env timerTag counterTag w =
     (if timerTag = [] \<and> counterTag = [] then Some (Inl (CIPErrorf ''usage''), w)
      else Option.bind
        (if timerTag = [] then Some (Inr None, w)
         else then_res (ReadTimer c env timerTag w) (\<lambda>t. Inr (Some (t, timer_state t)))) (\<lambda>(r, w).
          case r of
            Inl err \<Rightarrow> Some (Inl err, w)
          | Inr timer \<Rightarrow>
              if counterTag = [] then Some (Inr \<lparr>tc_timer = timer, tc_counter = None\<rparr>, w)
              else then_res (ReadTagInto c env counterTag DecodeCounter w)
                     (\<lambda>k. Inr \<lparr>tc_timer = timer, tc_counter = Some (k, counter_state k)\<rparr>)))"

text \<open>\<^verbatim>\<open>program_scoped_tag\<close>: a counter as a whole, then one member of it.\<close>

definition program_scoped_tag :: "EipClient \<Rightarrow> ('c, 'w) eip_env \<Rightarrow> byte list \<Rightarrow> byte list \<Rightarrow> 'w \<Rightarrow>
    ((cerr + Counter \<times> cip_value option) \<times> 'w) option" where
  "program_scoped_tag c env tag member w =
     Option.bind (ReadCounter c env tag w) (\<lambda>(r, w).
       case r of
         Inl err \<Rightarrow> Some (Inl err, w)
       | Inr k \<Rightarrow>
           if member = [] then Some (Inr (k, None), w)
           else then_res (Read_T c env (tag @ [dot] @ member) (\<lambda>data. Unmarshal data DInt32) w) (\<lambda>v. Inr (k, Some v)))"

section \<open>Listings\<close>

definition list_tags :: "EipClient \<Rightarrow> ('c, 'w) eip_env \<Rightarrow> registry \<Rightarrow> 'w \<Rightarrow>
    ((cerr + (u32 \<times> byte list \<times> string \<times> u16) list) \<times> 'w) option" where
  "list_tags c env reg w =
     then_res (ListTags c env w)
       (\<lambda>ts. Inr (map (\<lambda>t. (InstanceID t, SymName t, CipType_String reg (SymType t), SymType t)) ts))"

definition vendor_hint :: "u16 \<Rightarrow> string option" where
  "vendor_hint = map_of
     [(1, ''Rockwell Automation / Allen-Bradley''), (9, ''Schneider Electric''), (47, ''WAGO''), (283, ''Beckhoff'')]"

definition class_hint :: "u16 \<Rightarrow> string option" where
  "class_hint = map_of
     [(0x00, ''Generic Device''), (0x0C, ''Communications Adapter''), (0x0E, ''Programmable Logic Controller''),
      (0x21, ''CIP Motion Drive'')]"

definition service_flags :: "u16 \<Rightarrow> string list" where
  "service_flags flags =
     (if flags AND push_bit 5 1 \<noteq> 0 then [''Supports CIP encapsulation via TCP''] else []) @
     (if flags AND push_bit 8 1 \<noteq> 0 then [''Supports CIP encapsulation via UDP''] else [])"

record discovery_report =
  dr_identities :: "(ListIdentityItem \<times> string option \<times> string option) list"
  dr_services :: "(ListServicesItem \<times> string list) list"

definition list_identity :: "EipClient \<Rightarrow> ('c, 'w) session_transport \<Rightarrow>
    ('c \<Rightarrow> 'w \<Rightarrow> (cerr + ListIdentityItem list) \<times> 'w) \<Rightarrow> ('c \<Rightarrow> 'w \<Rightarrow> (cerr + ListServicesItem list) \<times> 'w) \<Rightarrow> 'w \<Rightarrow>
    ((cerr + discovery_report) \<times> 'w) option" where
  "list_identity c tp identities services w =
     Option.bind (EipClient_ListIdentity c tp identities w) (\<lambda>(r, w).
       case r of
         Inl err \<Rightarrow> Some (Inl err, w)
       | Inr is \<Rightarrow>
           then_res (EipClient_ListServices c tp services w) (\<lambda>ss.
             Inr \<lparr>dr_identities = map (\<lambda>i. (i, vendor_hint (li_VendorID i), class_hint (li_DeviceType i))) is,
                  dr_services = map (\<lambda>s. (s, service_flags (ls_CapabilityFlags s))) ss\<rparr>))"

section \<open>One value, several views\<close>

text \<open>The name of a type code, and how a Go value is printed.\<close>

definition code_name :: "CipType \<Rightarrow> byte list" where
  "code_name dt = (case map_of
     [(TypeBOOL, ''BOOL''), (TypeSINT, ''SINT''), (TypeINT, ''INT''), (TypeDINT, ''DINT''), (TypeLINT, ''LINT''),
      (TypeUSINT, ''USINT''), (TypeUINT, ''UINT''), (TypeUDINT, ''UDINT''), (TypeULINT, ''ULINT''),
      (TypeREAL, ''REAL''), (TypeLREAL, ''LREAL'')] dt of None \<Rightarrow> [] | Some n \<Rightarrow> bytes_of n)"

fun printed :: "cip_value \<Rightarrow> shown_value" where
  "printed (GBool b) = ShowsBool b"
| "printed (GInt8 w) = ShowsInt (sint w)"
| "printed (GInt16 w) = ShowsInt (sint w)"
| "printed (GInt32 w) = ShowsInt (sint w)"
| "printed (GInt64 w) = ShowsInt (sint w)"
| "printed (GFloat32 w) = ShowsReal w"
| "printed (GFloat64 w) = ShowsLReal w"
| "printed v = ShowsHex []"

lemma dest_for_cases:
  assumes "dest_for dt = Some ty"
  obtains "dt = TypeBOOL" "ty = DBool" | "dt = TypeSINT" "ty = DInt8" | "dt = TypeINT" "ty = DInt16"
    | "dt = TypeDINT" "ty = DInt32" | "dt = TypeLINT" "ty = DInt64" | "dt = TypeUSINT" "ty = DUint8"
    | "dt = TypeUINT" "ty = DUint16" | "dt = TypeUDINT" "ty = DUint32" | "dt = TypeULINT" "ty = DUint64"
    | "dt = TypeREAL" "ty = DFloat32" | "dt = TypeLREAL" "ty = DFloat64"
  using assms by (auto simp: dest_for_def split: if_splits)

lemma ToUpper_code_name: "dest_for dt = Some ty \<Longrightarrow> ToUpper (code_name dt) = code_name dt \<and> named_dest (code_name dt) = Some ty"
  by (erule dest_for_cases) (simp_all add: code_name_def bytes_of_def upper_def named_dest_def)

lemma le_get_bytes: "le_get [a, b] = get_le16 a b" "le_get [a, b, c, d] = get_le32 a b c d"
  unfolding le_get_def get_le16_def get_le32_def
  by (rule bit_word_eqI; auto simp: bit_simps simp del: push_bit_of_1)+

lemma front_le:
  "2 \<le> length data \<Longrightarrow> le16_at data 0 = le_get (take 2 data)"
  "4 \<le> length data \<Longrightarrow> le32_at data 0 = le_get (take 4 data)"
  by (auto simp: le16_at_def le32_at_def le_get_bytes numeral_nat Suc_le_length_iff)

lemma front_byte:
  "Suc 0 \<le> length data \<Longrightarrow> le_get (take (Suc 0) data) = data ! 0"
  "Suc 0 \<le> length data \<Longrightarrow> hd data = data ! 0"
  by (cases data; simp add: le_get_def)+

lemma le16_at_front [simp]: "le16_at (le16 w @ r) 0 = w"
  using le16_at_append [of "[]" 0 w r] by simp

text \<open>Stripping the header of a scalar, and decoding it in the three ways the programs have.\<close>

lemma scalar_code: "dest_for dt = Some ty \<Longrightarrow> \<not> TypeSTRUCT \<le> dt"
  by (erule dest_for_cases) (simp_all add: word_le_nat_alt)

lemma scalar_views:
  assumes "dest_for dt = Some ty" "dest_size ty = Some k" "k \<le> length data"
  shows "strip_type (le16 dt @ data) = Inr data" "Unmarshal data ty = Inr (read_value ty (take k data))"
    "decodeValue (code_name dt) (le16 dt @ data) = Inr (read_value ty (take k data))"
proof -
  show "strip_type (le16 dt @ data) = Inr data" using scalar_code [OF assms(1)] by (simp add: strip_type_def)
  show "Unmarshal data ty = Inr (read_value ty (take k data))"
    using assms(2,3) by (rule_tac dest_for_cases [OF assms(1)]) (simp_all add: binary_Read_def)
  have "typed_value (code_name dt) data = Inr (read_value ty (take k data))"
    using assms(2,3) ToUpper_code_name [OF assms(1)]
    by (rule_tac dest_for_cases [OF assms(1)])
      (auto simp: typed_value_def code_name_def front_def bytes_of_def front_byte)
  then show "decodeValue (code_name dt) (le16 dt @ data) = Inr (read_value ty (take k data))"
    using scalar_code [OF assms(1)] by (simp add: decodeValue_def)
qed

lemma scalar_printed:
  assumes "dest_for dt = Some ty" "dest_size ty = Some k" "k \<le> length data"
  shows "dt \<in> {TypeBOOL, TypeINT, TypeDINT, TypeREAL} \<Longrightarrow> formatValue dt data = printed (read_value ty (take k data))"
    "dt \<in> {TypeBOOL, TypeSINT, TypeINT, TypeDINT, TypeLINT, TypeREAL, TypeLREAL} \<Longrightarrow>
       formatTagValue (le16 dt @ data) dt = printed (read_value ty (take k data))"
proof -
  show "dt \<in> {TypeBOOL, TypeINT, TypeDINT, TypeREAL} \<Longrightarrow> formatValue dt data = printed (read_value ty (take k data))"
    using assms(2,3) by (rule_tac dest_for_cases [OF assms(1)]; hypsubst; force simp: formatValue_def front_le front_byte)
  show "dt \<in> {TypeBOOL, TypeSINT, TypeINT, TypeDINT, TypeLINT, TypeREAL, TypeLREAL} \<Longrightarrow>
       formatTagValue (le16 dt @ data) dt = printed (read_value ty (take k data))"
    using assms(2,3) scalar_code [OF assms(1)]
    by (rule_tac dest_for_cases [OF assms(1)]; hypsubst; force simp: formatTagValue_def front_le front_byte)
qed

section \<open>Properties\<close>



text \<open>
  The programs disagree on a string.  \<^verbatim>\<open>server\<close> stores a length of two bytes and \<^verbatim>\<open>reconnecting\<close> expects
  it; \<^verbatim>\<open>write_tag\<close> expects four, and refuses the server's own string.
\<close>

theorem string_views_differ:
  "let data = le16 11 @ bytes_of ''Hello, EIP!'' in
   abs_tags demo_tags (bytes_of ''MySTRING'') = Some (TypeSTRING, data) \<and>
   formatValue TypeSTRING data = ShowsText (bytes_of ''Hello, EIP!'') \<and>
   decodeValue (bytes_of ''STRING'') (le16 TypeSTRING @ data) = Inl (CIPErrorf ''not enough data for STRING body'')"
  by (simp add: Let_def demo_tags_def formatValue_def decodeValue_def typed_value_def bytes_of_def upper_def le16_def
      le16_at_def le32_at_def get_le16_def get_le32_def)

end
