(* ===== verification/Pccc_Client.thy ===== *)
theory Pccc_Client
  imports Pccc Plc_Value
begin

text \<open>
  \<^verbatim>\<open>src/protocol/ethernetip/pccc\<close>, the client: \<^verbatim>\<open>client.go\<close> and \<^verbatim>\<open>datapoint.go\<close>.  The state of a
  client is its transaction counter and the world its executor acts on; the executor is an
  argument that sends a command and returns the reply.  Values given to \<^verbatim>\<open>WriteAddress\<close> are
  tagged with their Go type; the conversion of a value to single precision is an argument.
\<close>

unbundle bit_operations_syntax

type_synonym 'w executor = "byte list \<Rightarrow> 'w \<Rightarrow> (cerr + byte list) \<times> 'w"

type_synonym 'w pccc_state = "u32 \<times> 'w"

section \<open>Transaction numbers\<close>

lemma unat_low_next: "unat (ucast (t + 1 :: u32) :: u16) = (unat (ucast t :: u16) + 1) mod 65536"
proof -
  have "unat (ucast (t + 1) :: u16) = ((unat t + 1) mod 2 ^ 32) mod 2 ^ 16"
    by (simp add: unsigned_ucast_eq take_bit_eq_mod unat_word_ariths)
  also have "\<dots> = (unat t + 1) mod 2 ^ 16" by (simp add: mod_mod_cancel)
  also have "\<dots> = (unat t mod 2 ^ 16 + 1) mod 2 ^ 16" by (simp add: mod_simps)
  also have "unat t mod 2 ^ 16 = unat (ucast t :: u16)" by (simp add: unsigned_ucast_eq take_bit_eq_mod)
  finally show ?thesis by simp
qed

function nextTNS :: "u32 \<Rightarrow> u16 \<times> u32" where
  "nextTNS t = (let t = t + 1; n = (ucast t :: u16) in if n \<noteq> 0 then (n, t) else nextTNS t)"
  by pat_completeness auto
termination
proof (relation "measure (\<lambda>t. if unat (ucast t :: u16) = 0 then 0 else 1)", simp)
  fix t x :: u32 and xa :: u16
  assume x: "x = t + 1" and n: "xa = ucast x" "\<not> xa \<noteq> 0"
  then have "unat (ucast x :: u16) = 0" by simp
  moreover from this have "unat (ucast t :: u16) \<noteq> 0" using unat_low_next [of t] x by (intro notI) simp
  ultimately show "(x, t) \<in> measure (\<lambda>t. if unat (ucast t :: u16) = 0 then 0 else 1)" by simp
qed

declare nextTNS.simps [simp del]

section \<open>Coercions\<close>

text \<open>The Go values the client accepts, by type.\<close>

datatype goval =
  VBool bool | VInt u64 | VInt16 u16 | VInt32 u32 | VInt64 u64 | VUint u64 | VUint16 u16 | VUint32 u32 |
  VUint64 u64 | VByte byte | VFloat32 u32 | VFloat64 u64 | VOther

fun boolOf :: "goval \<Rightarrow> bool option" where
  "boolOf (VBool x) = Some x"
| "boolOf (VInt x) = Some (x \<noteq> 0)"
| "boolOf (VInt16 x) = Some (x \<noteq> 0)"
| "boolOf (VInt32 x) = Some (x \<noteq> 0)"
| "boolOf (VInt64 x) = Some (x \<noteq> 0)"
| "boolOf (VUint x) = Some (x \<noteq> 0)"
| "boolOf (VUint16 x) = Some (x \<noteq> 0)"
| "boolOf (VUint32 x) = Some (x \<noteq> 0)"
| "boolOf (VUint64 x) = Some (x \<noteq> 0)"
| "boolOf (VByte x) = Some (x \<noteq> 0)"
| "boolOf _ = None"

fun int16Of :: "goval \<Rightarrow> u16 option" where
  "int16Of (VInt16 x) = Some x"
| "int16Of (VUint16 x) = Some x"
| "int16Of (VInt x) = (if sint x < -32768 \<or> sint x > 32767 then None else Some (ucast x))"
| "int16Of (VInt32 x) = (if sint x < -32768 \<or> sint x > 32767 then None else Some (ucast x))"
| "int16Of (VInt64 x) = (if sint x < -32768 \<or> sint x > 32767 then None else Some (ucast x))"
| "int16Of (VUint x) = (if x > 32767 then None else Some (ucast x))"
| "int16Of (VUint32 x) = (if x > 32767 then None else Some (ucast x))"
| "int16Of (VUint64 x) = (if x > 32767 then None else Some (ucast x))"
| "int16Of (VBool x) = Some (if x then 1 else 0)"
| "int16Of _ = None"

fun float32Of :: "(goval \<Rightarrow> u32) \<Rightarrow> goval \<Rightarrow> u32 option" where
  "float32Of single (VFloat32 x) = Some x"
| "float32Of single (VFloat64 x) = Some (single (VFloat64 x))"
| "float32Of single (VInt x) = Some (single (VInt x))"
| "float32Of single (VInt16 x) = Some (single (VInt16 x))"
| "float32Of single (VInt32 x) = Some (single (VInt32 x))"
| "float32Of single _ = None"

section \<open>Reading and writing\<close>

record File =
  f_Address :: "byte list"
  f_Count :: int

definition effectiveCount :: "File \<Rightarrow> int" where
  "effectiveCount f = (if f_Count f \<le> 0 then 1 else f_Count f)"

definition File_parse :: "File \<Rightarrow> perr + PcccAddress" where
  "File_parse f = ParseAddress (f_Address f)"

definition isTimerLike :: "FileType \<Rightarrow> bool" where
  "isTimerLike ft \<longleftrightarrow> ft = FileTypeTimer \<or> ft = FileTypeCounter \<or> ft = FileTypeControl"

definition elementBytes :: "PcccAddress \<Rightarrow> int \<Rightarrow> int" where
  "elementBytes a count =
     (let count = (if count < 1 then 1 else count) in
      if a_BitNum a \<ge> 0 then 2
      else if a_FileType a = FileTypeFloat then 4 * count
      else if isTimerLike (a_FileType a) then (if a_SubElement a > 0 then 2 * count else 6 * count)
      else 2 * count)"

definition clip :: "byte list \<Rightarrow> int \<Rightarrow> byte list" where
  "clip b n = (if int (length b) \<le> n then b else take (nat n) b)"

text \<open>One exchange: the reply of the executor, decoded.\<close>

definition pccc_exchange :: "'w executor \<Rightarrow> byte list \<Rightarrow> 'w \<Rightarrow> (perr + Reply) \<times> 'w" where
  "pccc_exchange exec cmd w =
     (case exec cmd w of
        (Inl err, w) \<Rightarrow> (Inl (PExec err), w)
      | (Inr rawReply, w) \<Rightarrow> (DecodeReply rawReply, w))"

definition rawRead :: "'w executor \<Rightarrow> PcccAddress \<Rightarrow> int \<Rightarrow> 'w pccc_state \<Rightarrow> (perr + byte list) \<times> 'w pccc_state" where
  "rawRead exec a byteSize = (\<lambda>(t, w).
     if byteSize < 1 \<or> byteSize > 240 then (Inl (PErrorf ''read size out of range [1,240]''), t, w)
     else case nextTNS t of (tns, t) \<Rightarrow>
       (case EncodeTypedRead tns byteSize (a_FileNumber a) (a_FileType a) (a_Element a) (a_SubElement a) of
          Inl err \<Rightarrow> (Inl err, t, w)
        | Inr cmd \<Rightarrow>
            (case pccc_exchange exec cmd w of (r, w) \<Rightarrow> (res_bind r (\<lambda>reply. Inr (r_Data reply)), t, w))))"

definition writeBytes :: "'w executor \<Rightarrow> PcccAddress \<Rightarrow> byte list \<Rightarrow> 'w pccc_state \<Rightarrow> (perr + unit) \<times> 'w pccc_state" where
  "writeBytes exec a data = (\<lambda>(t, w).
     case nextTNS t of (tns, t) \<Rightarrow>
       (case EncodeTypedWrite tns (a_FileNumber a) (a_FileType a) (a_Element a) (a_SubElement a) data of
          Inl err \<Rightarrow> (Inl err, t, w)
        | Inr cmd \<Rightarrow>
            (case pccc_exchange exec cmd w of (r, w) \<Rightarrow> (res_bind r (\<lambda>_. Inr ()), t, w))))"

definition writeBit :: "'w executor \<Rightarrow> PcccAddress \<Rightarrow> bool \<Rightarrow> 'w pccc_state \<Rightarrow> (perr + unit) \<times> 'w pccc_state" where
  "writeBit exec a on s =
     (let wordAddr = a\<lparr>a_BitNum := -1\<rparr> in
      case rawRead exec wordAddr 2 s of
        (Inl err, s) \<Rightarrow> (Inl err, s)
      | (Inr raw, s) \<Rightarrow>
          if length raw < 2 then (Inl (PErrorf ''write bit: short read''), s)
          else
            (let word = le16_at raw 0; mask = push_bit (nat (a_BitNum a)) (1 :: u16);
                 word = (if on then word OR mask else word AND NOT mask)
             in writeBytes exec wordAddr [ucast word, ucast (drop_bit 8 word)] s))"

text \<open>The value of a read, by file type.\<close>

definition file_value :: "PcccAddress \<Rightarrow> int \<Rightarrow> int \<Rightarrow> byte list \<Rightarrow> perr + File Value" where
  "file_value a count sz raw =
     (let val = (\<lambda>b ty. \<lparr>DataPoint = None, Raw = b, Type = ty, ByteOrder = ByteOrderLittleEndian\<rparr>) in
      if a_BitNum a \<ge> 0 then
        (if length raw < 2 then Inl (PErrorf ''bit read returned too few bytes'')
         else Inr (val [ucast (drop_bit (nat (a_BitNum a)) (le16_at raw 0) AND 1)] TypeBool))
      else if a_FileType a = FileTypeFloat then Inr (val (clip raw 4) TypeFloat32)
      else if isTimerLike (a_FileType a) \<and> a_SubElement a = 0 then Inr (val (clip raw 6) TypeBytes)
      else Inr (val (clip raw sz) (if count > 1 \<or> sz > 2 then TypeBytes else TypeInt16)))"

definition readFile :: "'w executor \<Rightarrow> File \<Rightarrow> 'w pccc_state \<Rightarrow> (perr + File Value) \<times> 'w pccc_state" where
  "readFile exec f s =
     (case File_parse f of
        Inl err \<Rightarrow> (Inl err, s)
      | Inr a \<Rightarrow>
          (let sz = elementBytes a (effectiveCount f) in
           case rawRead exec a sz s of
             (Inl err, s) \<Rightarrow> (Inl err, s)
           | (Inr raw, s) \<Rightarrow> (file_value a (effectiveCount f) sz raw, s)))"

text \<open>\<^verbatim>\<open>plc.Reader\<close> and \<^verbatim>\<open>plc.Writer\<close>; a data point is a file or something else.\<close>

fun PcccClient_Read :: "'w executor \<Rightarrow> File option list \<Rightarrow> 'w pccc_state \<Rightarrow>
    (perr + File Value list) \<times> 'w pccc_state" where
  "PcccClient_Read exec [] s = (Inr [], s)"
| "PcccClient_Read exec (None # points) s = (Inl (PErrorf ''expected File DataPoint''), s)"
| "PcccClient_Read exec (Some f # points) s =
     (case readFile exec f s of
        (Inl err, s) \<Rightarrow> (Inl err, s)
      | (Inr v, s) \<Rightarrow>
          (case PcccClient_Read exec points s of
             (Inl err, s) \<Rightarrow> (Inl err, s)
           | (Inr vs, s) \<Rightarrow> (Inr (v\<lparr>DataPoint := Some f\<rparr> # vs), s)))"

definition PcccClient_Write :: "'w executor \<Rightarrow> File option \<Rightarrow> byte list \<Rightarrow> 'w pccc_state \<Rightarrow>
    (perr + unit) \<times> 'w pccc_state" where
  "PcccClient_Write exec point data s =
     (case point of
        None \<Rightarrow> (Inl (PErrorf ''expected File DataPoint''), s)
      | Some f \<Rightarrow>
          (case File_parse f of
             Inl err \<Rightarrow> (Inl err, s)
           | Inr a \<Rightarrow>
               if a_BitNum a \<ge> 0 then
                 (if data = [] then (Inl (PErrorf ''write to bit: empty data''), s)
                  else writeBit exec a (data ! 0 \<noteq> 0) s)
               else writeBytes exec a data s))"

definition ReadAddress :: "'w executor \<Rightarrow> byte list \<Rightarrow> 'w pccc_state \<Rightarrow> (perr + File Value) \<times> 'w pccc_state" where
  "ReadAddress exec addr s = readFile exec \<lparr>f_Address = addr, f_Count = 0\<rparr> s"

definition ReadWords :: "'w executor \<Rightarrow> byte list \<Rightarrow> int \<Rightarrow> 'w pccc_state \<Rightarrow> (perr + u16 list) \<times> 'w pccc_state" where
  "ReadWords exec addr n s =
     (if n < 1 then (Inl (PErrorf ''ReadWords: n must be >= 1''), s)
      else if n > 127 then (Inl (PErrorf ''ReadWords: n must be <= 127''), s)
      else case ParseAddress addr of
        Inl err \<Rightarrow> (Inl err, s)
      | Inr a \<Rightarrow>
          if a_BitNum a \<ge> 0 then (Inl (PErrorf ''ReadWords: bit suffix not supported''), s)
          else (case rawRead exec a (n * 2) s of
                  (Inl err, s) \<Rightarrow> (Inl err, s)
                | (Inr raw, s) \<Rightarrow>
                    if int (length raw) < n * 2 then (Inl (PErrorf ''ReadWords: short reply''), s)
                    else (Inr (map (\<lambda>i. le16_at raw (i * 2)) [0..<nat n]), s)))"

definition WriteAddress :: "(goval \<Rightarrow> u32) \<Rightarrow> 'w executor \<Rightarrow> byte list \<Rightarrow> goval \<Rightarrow> 'w pccc_state \<Rightarrow>
    (perr + unit) \<times> 'w pccc_state" where
  "WriteAddress single exec addr v s =
     (case ParseAddress addr of
        Inl err \<Rightarrow> (Inl err, s)
      | Inr a \<Rightarrow>
          if a_BitNum a \<ge> 0 then
            (case boolOf v of
               None \<Rightarrow> (Inl (PErrorf ''write to bit: value not coercible to bool''), s)
             | Some b \<Rightarrow> writeBit exec a b s)
          else if a_FileType a = FileTypeFloat then
            (case float32Of single v of
               None \<Rightarrow> (Inl (PErrorf ''write: value not coercible to float32''), s)
             | Some f \<Rightarrow> writeBytes exec a (le32 f) s)
          else
            (case int16Of v of
               None \<Rightarrow> (Inl (PErrorf ''write: value not coercible to int16''), s)
             | Some n \<Rightarrow> writeBytes exec a (le16 n) s))"

definition WriteWords :: "'w executor \<Rightarrow> byte list \<Rightarrow> u16 list \<Rightarrow> 'w pccc_state \<Rightarrow> (perr + unit) \<times> 'w pccc_state" where
  "WriteWords exec addr words s =
     (if words = [] then (Inl (PErrorf ''WriteWords: empty slice''), s)
      else if length words > 120 then (Inl (PErrorf ''WriteWords: too many words''), s)
      else case ParseAddress addr of
        Inl err \<Rightarrow> (Inl err, s)
      | Inr a \<Rightarrow>
          if a_BitNum a \<ge> 0 then (Inl (PErrorf ''WriteWords: bit suffix not supported''), s)
          else writeBytes exec a (concat (map le16 words)) s)"

section \<open>Transaction numbers repeat only after 65535 exchanges\<close>

fun tns_run :: "nat \<Rightarrow> u32 \<Rightarrow> u16 list" where
  "tns_run 0 t = []"
| "tns_run (Suc n) t = (case nextTNS t of (tns, t) \<Rightarrow> tns # tns_run n t)"

lemma nextTNS_value:
  "unat (fst (nextTNS t)) = unat (ucast t :: u16) mod 65535 + 1 \<and> ucast (snd (nextTNS t)) = fst (nextTNS t)"
proof -
  let ?x = "unat (ucast t :: u16)"
  have x: "?x < 65536" using unsigned_less [of "ucast t :: u16"] by simp
  show ?thesis
  proof (cases "?x = 65535")
    case True
    then have "unat (ucast (t + 1) :: u16) = 0" using unat_low_next [of t] by simp
    then have z: "(ucast (t + 1) :: u16) = 0" by (simp add: unat_eq_0)
    then have o: "unat (ucast (t + 1 + 1) :: u16) = 1" using unat_low_next [of "t + 1"] by simp
    then have "(ucast (t + 1 + 1) :: u16) \<noteq> 0" by (metis unat_0 zero_neq_one)
    then have "nextTNS t = (ucast (t + 1 + 1), t + 1 + 1)"
      using z by (simp add: nextTNS.simps [of t] nextTNS.simps [of "t + 1"] Let_def)
    with o True show ?thesis by simp
  next
    case False
    then have v: "unat (ucast (t + 1) :: u16) = ?x + 1" using x unat_low_next [of t] by simp
    then have "(ucast (t + 1) :: u16) \<noteq> 0" by (metis unat_0 add_is_0 zero_neq_one)
    then have "nextTNS t = (ucast (t + 1), t + 1)" by (simp add: nextTNS.simps [of t] Let_def)
    with v x False show ?thesis by simp
  qed
qed

lemma tns_run_values:
  "map unat (tns_run n t) = map (\<lambda>i. (unat (ucast t :: u16) + i) mod 65535 + 1) [0..<n]"
proof (induction n arbitrary: t)
  case (Suc n)
  obtain tns t' where n: "nextTNS t = (tns, t')" by fastforce
  have v: "unat tns = unat (ucast t :: u16) mod 65535 + 1" "ucast t' = tns"
    using nextTNS_value [of t] n by auto
  have "map unat (tns_run n t') = map (\<lambda>i. (unat (ucast t :: u16) + Suc i) mod 65535 + 1) [0..<n]"
    unfolding Suc.IH v(2) v(1)
    using mod_add_left_eq [of "unat (ucast t :: u16)" 65535 "Suc i" for i] by (intro map_cong refl) simp
  with n v(1) show ?case by (simp add: upt_conv_Cons map_Suc_upt [symmetric] del: upt_Suc)
qed simp

lemma mod_shift_inj:
  assumes "(x + i) mod m = (x + j) mod m" "i < m" "j < (m :: nat)"
  shows "i = j"
proof (rule ccontr)
  have le: False if "i < j" "j < m" "(x + i) mod m = (x + j) mod m" for i j :: nat
  proof -
    have "m dvd (x + j) - (x + i)" using that mod_eq_dvd_iff_nat [of "x + i" "x + j" m] by simp
    then have "m \<le> j - i" using that(1) by (auto dest: dvd_imp_le)
    with that show False by simp
  qed
  assume "i \<noteq> j"
  then show False using le [of i j] le [of j i] assms by (cases "i < j") auto
qed

section \<open>Properties\<close>

text \<open>
  Transaction numbers.  A number is never zero, and of any 65535 consecutive exchanges no
  two have the same number, wherever the 32-bit counter stands.
\<close>

theorem pccc_tns_distinct:
  "distinct (tns_run 65535 t) \<and> 0 \<notin> set (tns_run 65535 t)"
proof
  let ?f = "\<lambda>i. (unat (ucast t :: u16) + i) mod 65535 + 1"
  have "inj_on ?f {0..<65535}" by (intro inj_onI) (auto dest: mod_shift_inj)
  then have "distinct (map ?f [0..<65535])" by (simp only: distinct_map distinct_upt set_upt simp_thms)
  then have "distinct (map unat (tns_run 65535 t))" by (simp only: tns_run_values)
  then show "distinct (tns_run 65535 t)" by (simp add: distinct_map del: tns_run.simps)
  have "0 \<notin> set (map ?f [0..<65535])" by auto
  then have "0 \<notin> set (map unat (tns_run 65535 t))" by (subst tns_run_values)
  then show "0 \<notin> set (tns_run 65535 t)" by (auto simp: image_iff simp del: tns_run.simps)
qed

text \<open>The reply to a command that succeeds.\<close>

abbreviation (input) reply_frame :: "u16 \<Rightarrow> byte list \<Rightarrow> byte list" where
  "reply_frame tns data \<equiv> [0x4F, 0] @ le16 tns @ data"

abbreviation (input) read_frame :: "PcccAddress \<Rightarrow> int \<Rightarrow> u16 \<Rightarrow> byte list" where
  "read_frame a n tns \<equiv> [0x0F, 0] @ le16 tns @
     [0xA2, word_of_int n, word_of_int (a_FileNumber a), a_FileType a, word_of_int (a_Element a), word_of_int (a_SubElement a)]"

abbreviation (input) write_frame :: "PcccAddress \<Rightarrow> byte list \<Rightarrow> u16 \<Rightarrow> byte list" where
  "write_frame a data tns \<equiv> [0x0F, 0] @ le16 tns @
     [0xAA, word_of_int (a_FileNumber a), a_FileType a, word_of_int (a_Element a), word_of_int (a_SubElement a)] @ data"

lemma DecodeReply_frame:
  "DecodeReply (reply_frame tns data) =
     Inr \<lparr>r_Command = 0x0F, r_STS = 0, r_TNS = tns, r_ExtSTS = 0, r_Data = data\<rparr>"
  using le16_at_append [of "[0x4F, 0]" 2 tns data] by (simp add: DecodeReply_def Let_def)

definition frameable :: "PcccAddress \<Rightarrow> bool" where
  "frameable a \<longleftrightarrow> validateAddress (a_FileNumber a) (a_Element a) (a_SubElement a) (a_FileType a) = None"

lemma ParseAddress_frameable: "ParseAddress s = Inr a \<Longrightarrow> frameable a"
  using ParseAddress_ok [of s a] address_ok_valid [of a] by (simp add: frameable_def)

lemma rawRead_reply:
  assumes "frameable a" "1 \<le> n" "n \<le> 240"
    "\<And>tns. exec (read_frame a n tns) w = (Inr (reply_frame (tns' tns) data), w')"
  shows "rawRead exec a n (t, w) = (Inr data, snd (nextTNS t), w')"
  using assms DecodeReply_frame
  by (simp add: rawRead_def EncodeTypedRead_def frameable_def pccc_exchange_def split: prod.splits)

lemma writeBytes_reply:
  assumes "frameable a" "data \<noteq> []" "length data \<le> 240"
    "\<And>tns. exec (write_frame a data tns) w = (Inr (reply_frame (tns' tns) rest), w')"
  shows "writeBytes exec a data (t, w) = (Inr (), snd (nextTNS t), w')"
  using assms DecodeReply_frame
  by (simp add: writeBytes_def EncodeTypedWrite_def frameable_def pccc_exchange_def split: prod.splits)

lemma words_bytes: "map (\<lambda>i. le16_at (concat (map le16 ws)) (i * 2)) [0..<length ws] = ws"
proof (induction ws)
  case (Cons x ws)
  have "le16_at (le16 x @ b) (Suc i * 2) = le16_at b (i * 2)" for b i by (simp add: le16_at_def le16_def)
  with Cons show ?case
    using le16_at_append [of "[]" 0 x "concat (map le16 ws)"]
    by (simp add: upt_conv_Cons map_Suc_upt [symmetric] o_def del: upt_Suc)
qed simp

text \<open>
  Words written are the words read.  If the controller accepts the typed write of the words
  and then answers the typed read at the same address with the bytes it was given, \<^verbatim>\<open>WriteWords\<close>
  succeeds and \<^verbatim>\<open>ReadWords\<close> returns the words.
\<close>

theorem pccc_words_roundtrip:
  assumes "ParseAddress addr = Inr a" "a_BitNum a = -1" "ws \<noteq> []" "length ws \<le> 120"
    "\<And>tns. exec (write_frame a (concat (map le16 ws)) tns) w = (Inr (reply_frame tns []), w1)"
    "\<And>tns. exec (read_frame a (2 * int (length ws)) tns) w1 = (Inr (reply_frame tns (concat (map le16 ws))), w2)"
  shows "WriteWords exec addr ws (t, w) = (Inr (), snd (nextTNS t), w1) \<and>
    ReadWords exec addr (int (length ws)) (t', w1) = (Inr ws, snd (nextTNS t'), w2)"
proof
  have a: "frameable a" by (rule ParseAddress_frameable [OF assms(1)])
  have len: "length (concat (map le16 ws)) = 2 * length ws" by (induction ws) auto
  have ne: "concat (map le16 ws) \<noteq> []" using len assms(3) by (metis length_0_conv mult_is_0 zero_neq_numeral)
  show "WriteWords exec addr ws (t, w) = (Inr (), snd (nextTNS t), w1)"
    using writeBytes_reply [of a "concat (map le16 ws)" exec w "\<lambda>tns. tns" "[]" w1 t, OF a ne] assms len
    by (auto simp: WriteWords_def)
  have n: "1 \<le> int (length ws) * 2" using assms(3) by (cases ws) auto
  have "rawRead exec a (int (length ws) * 2) (t', w1) = (Inr (concat (map le16 ws)), snd (nextTNS t'), w2)"
    using rawRead_reply [of a "int (length ws) * 2" exec w1 "\<lambda>tns. tns" "concat (map le16 ws)" w2 t', OF a n] assms
    by (simp add: mult.commute)
  with assms(1-4) len show "ReadWords exec addr (int (length ws)) (t', w1) = (Inr ws, snd (nextTNS t'), w2)"
    by (simp add: ReadWords_def words_bytes Suc_leI)
qed

text \<open>A controller with one register that it is written as a whole.\<close>

definition register_plc :: "byte list executor" where
  "register_plc cmd w =
     (if cmd ! 4 = 0xAA then (Inr ([0x4F, 0] @ take 2 (drop 2 cmd)), drop 9 cmd)
      else (Inr ([0x4F, 0] @ take 2 (drop 2 cmd) @ take (unat (cmd ! 5)) w), w))"

theorem pccc_words_roundtrip_witness:
  "WriteWords register_plc (bytes_of ''N7:0'') [1, 0xFFFF] (65535, []) = (Inr (), 65537, [1, 0, 0xFF, 0xFF]) \<and>
   ReadWords register_plc (bytes_of ''n7:0'') 2 (65537, [1, 0, 0xFF, 0xFF]) = (Inr [1, 0xFFFF], 65538, [1, 0, 0xFF, 0xFF])"
proof -
  let ?a = "\<lparr>a_FileType = 0x89, a_FileNumber = 7, a_Element = 0, a_SubElement = 0, a_BitNum = -1\<rparr>"
  have p: "ParseAddress (bytes_of ''N7:0'') = Inr ?a" "ParseAddress (bytes_of ''n7:0'') = Inr ?a" by code_simp+
  have t: "snd (nextTNS 65535) = 65537" "snd (nextTNS 65537) = 65538" by code_simp+
  have l: "length (le16 tns) = 2" for tns by simp
  note r = pccc_words_roundtrip [where a = ?a and ws = "[1, 0xFFFF]" and exec = register_plc and w = "[]"
      and ?w1.0 = "[1, 0, 0xFF, 0xFF]" and ?w2.0 = "[1, 0, 0xFF, 0xFF]"]
  from r [OF p(1), of 65535 65537] r [OF p(2), of 65535 65537] show ?thesis
    by (simp add: t register_plc_def nth_append le16_def)
qed

text \<open>
  C37: writing a bit is a read and a write of its word in which only that bit changes.
\<close>

theorem pccc_write_bit:
  assumes "ParseAddress addr = Inr a" "0 \<le> a_BitNum a"
    "\<And>tns. exec (read_frame a 2 tns) w = (Inr (reply_frame tns (le16 v)), w1)"
    "\<And>tns. exec (write_frame a (le16 (if on then set_bit (nat (a_BitNum a)) v else unset_bit (nat (a_BitNum a)) v)) tns) w1 =
       (Inr (reply_frame tns []), w2)"
  shows "WriteAddress single exec addr (VBool on) (t, w) =
    (Inr (), snd (nextTNS (snd (nextTNS t))), w2)"
proof -
  let ?a = "a\<lparr>a_BitNum := -1\<rparr>" and ?n = "nat (a_BitNum a)"
  let ?v = "if on then set_bit ?n v else unset_bit ?n v"
  have a: "frameable ?a" using ParseAddress_frameable [OF assms(1)] by (simp add: frameable_def)
  have v: "(if on then v OR push_bit ?n 1 else v AND NOT (push_bit ?n 1)) = ?v"
    by (simp add: set_bit_eq_or unset_bit_eq_and_not)
  have read: "rawRead exec ?a 2 (t, w) = (Inr (le16 v), snd (nextTNS t), w1)"
    using rawRead_reply [of ?a 2 exec w "\<lambda>tns. tns" "le16 v" w1 t, OF a] assms(3) by simp
  have wr: "writeBytes exec ?a (le16 ?v) (t', w1) = (Inr (), snd (nextTNS t'), w2)" for t'
    using writeBytes_reply [of ?a "le16 ?v" exec w1 "\<lambda>tns. tns" "[]" w2 t', OF a] assms(4)
    by (simp add: le16_def)
  have "writeBit exec a on (t, w) = writeBytes exec ?a (le16 ?v) (snd (nextTNS t), w1)"
    using le16_at_append [of "[]" 0 v "[]"] unfolding writeBit_def Let_def read v [symmetric]
    by (simp add: le16_def [symmetric])
  with wr assms(1,2) show ?thesis by (simp add: WriteAddress_def)
qed

theorem pccc_write_bit_witness:
  "WriteAddress (\<lambda>_. 0) register_plc (bytes_of ''B3:0/9'') (VBool True) (1, [5, 0]) = (Inr (), 3, [5, 2])"
proof -
  let ?a = "\<lparr>a_FileType = 0x85, a_FileNumber = 3, a_Element = 0, a_SubElement = 0, a_BitNum = 9\<rparr>"
  have p: "ParseAddress (bytes_of ''B3:0/9'') = Inr ?a" by code_simp
  have t: "snd (nextTNS (snd (nextTNS 1))) = 3" by code_simp
  from pccc_write_bit [OF p, of register_plc "[5, 0]" 5 "[5, 0]" True "[5, 2]" "\<lambda>_. 0" 1] show ?thesis
    by (simp add: t register_plc_def nth_append le16_def set_bit_eq_or)
qed

text \<open>
  A read of several floating-point elements returns only the first.  The count makes the
  request longer, and the reply has all the elements, but the value keeps four bytes.
\<close>

theorem pccc_float_count_clipped:
  assumes "ParseAddress addr = Inr a" "a_FileType a = FileTypeFloat" "a_BitNum a = -1"
    "1 \<le> n" "n \<le> 60" "int (length data) = 4 * n"
    "\<And>tns. exec (read_frame a (4 * n) tns) w = (Inr (reply_frame tns data), w1)"
  shows "PcccClient_Read exec [Some \<lparr>f_Address = addr, f_Count = n\<rparr>] (t, w) =
    (Inr [\<lparr>DataPoint = Some \<lparr>f_Address = addr, f_Count = n\<rparr>, Raw = take 4 data, Type = TypeFloat32,
       ByteOrder = ByteOrderLittleEndian\<rparr>], snd (nextTNS t), w1)"
proof -
  have a: "frameable a" by (rule ParseAddress_frameable [OF assms(1)])
  have "rawRead exec a (4 * n) (t, w) = (Inr data, snd (nextTNS t), w1)"
    using rawRead_reply [of a "4 * n" exec w "\<lambda>tns. tns" data w1 t, OF a] assms by simp
  moreover have "clip data 4 = take 4 data" using assms(4,6) by (simp add: clip_def)
  ultimately show ?thesis using assms(1-4)
    by (simp add: readFile_def File_parse_def elementBytes_def effectiveCount_def file_value_def)
qed

theorem pccc_float_count_clipped_witness:
  "PcccClient_Read register_plc [Some \<lparr>f_Address = bytes_of ''F8:0'', f_Count = 2\<rparr>] (1, [1, 2, 3, 4, 5, 6, 7, 8]) =
     (Inr [\<lparr>DataPoint = Some \<lparr>f_Address = bytes_of ''F8:0'', f_Count = 2\<rparr>, Raw = [1, 2, 3, 4],
        Type = TypeFloat32, ByteOrder = ByteOrderLittleEndian\<rparr>], 2, [1, 2, 3, 4, 5, 6, 7, 8])"
proof -
  let ?a = "\<lparr>a_FileType = 0x8A, a_FileNumber = 8, a_Element = 0, a_SubElement = 0, a_BitNum = -1\<rparr>"
  have p: "ParseAddress (bytes_of ''F8:0'') = Inr ?a" by code_simp
  have t: "snd (nextTNS 1) = 2" by code_simp
  from pccc_float_count_clipped [OF p, of 2 "[1, 2, 3, 4, 5, 6, 7, 8]" register_plc "[1, 2, 3, 4, 5, 6, 7, 8]"
      "[1, 2, 3, 4, 5, 6, 7, 8]" 1]
  show ?thesis by (simp add: t register_plc_def nth_append le16_def)
qed

text \<open>The sizes between the limit of \<^verbatim>\<open>ReadWords\<close> and that of a read always fail.\<close>

lemma ReadWords_too_long:
  assumes "ParseAddress addr = Inr a" "a_BitNum a = -1" "120 < n" "n \<le> 127"
  shows "ReadWords exec addr n s = (Inl (PErrorf ''read size out of range [1,240]''), s)"
  using assms by (simp add: ReadWords_def rawRead_def split: prod.splits)

text \<open>The size of a timer's or counter's field grows with the count.\<close>

lemma elementBytes_field:
  "\<lbrakk>isTimerLike (a_FileType a); 0 < a_SubElement a; a_BitNum a = -1; 1 \<le> n\<rbrakk> \<Longrightarrow> elementBytes a n = 2 * n"
  by (auto simp: elementBytes_def isTimerLike_def)

text \<open>An unsigned 16-bit value beyond the signed range is accepted and wraps.\<close>

lemma int16Of_wraps: "int16Of (VUint16 0x8000) = Some 0x8000 \<and> sint (0x8000 :: u16) = -32768"
  by simp

end
