(* ===== verification/Modbus_Tools.thy ===== *)
theory Modbus_Tools
  imports Modbus_System Tag_Tools
begin

text \<open>
  The command-line programs of \<^verbatim>\<open>src/examples/modbus\<close>.  A program is a function of its flags over
  the client and its transport, from the world to a report and the world: the report holds the values
  and verdicts that are printed, in the order of the program, and leaves out column widths and captions.
  An index out of range is the report \<^verbatim>\<open>Panicked\<close>.  Connecting is left out: a program starts with
  a connected client.  The programs are verified once, in a locale that states what a client and its
  link to a device promise, and the locale is interpreted on client, wire and server.
\<close>

unbundle bit_operations_syntax

section \<open>Reports\<close>

text \<open>What \<^verbatim>\<open>handleError\<close> prints: the operation, whether it was a Modbus exception, and the hints.\<close>

datatype complaint = Complaint string bool merr "ExceptionCode list"

definition handleError :: "ExceptionCode list \<Rightarrow> string \<Rightarrow> merr \<Rightarrow> complaint" where
  "handleError hinted operation err =
     Complaint operation (IsModbusError err) err
       (if IsModbusError err then filter (IsExceptionError err) hinted else [])"

definition write_error :: "string \<Rightarrow> merr \<Rightarrow> complaint" where
  "write_error = handleError [ExceptionDataAddressNotAvailable, ExceptionInvalidDataValue]"

definition read_error :: "string \<Rightarrow> merr \<Rightarrow> complaint" where
  "read_error = handleError [ExceptionDataAddressNotAvailable, ExceptionFunctionCodeNotSupported]"

definition read_write_error :: "string \<Rightarrow> merr \<Rightarrow> complaint" where
  "read_write_error = handleError [ExceptionFunctionCodeNotSupported, ExceptionDataAddressNotAvailable]"

definition identification_error :: "string \<Rightarrow> merr \<Rightarrow> complaint" where
  "identification_error = handleError [ExceptionFunctionCodeNotSupported, ExceptionInvalidDataValue]"

text \<open>The verification of a write: a row of address, written and read value each, and PASS or not.\<close>

datatype 'v verdict =
    Failed complaint
  | Checked "(int \<times> 'v \<times> 'v) list" bool
  | Panicked

record 'v report =
  shown :: "merr + (int \<times> 'v) list"
  verdict :: "'v verdict"

text \<open>A table of values by address; the printed address does not wrap.\<close>

definition table :: "int \<Rightarrow> 'v list \<Rightarrow> (int \<times> 'v) list" where
  "table address vs = map (\<lambda>i. (address + int i, vs ! i)) [0..<length vs]"

definition show_read :: "int \<Rightarrow> merr + 'v list \<Rightarrow> merr + (int \<times> 'v) list" where
  "show_read address r = res_bind r (\<lambda>vs. Inr (table address vs))"

section \<open>Writing and reading back\<close>

text \<open>
  The body of \<^verbatim>\<open>writeSingleCoil\<close> and of \<^verbatim>\<open>writeSingleRegister\<close>: read, write, read back.  A failure of
  the first read is a warning.
\<close>

definition write_one :: "('w \<Rightarrow> (merr + 'v list) \<times> 'w) \<Rightarrow> ('w \<Rightarrow> (merr + unit) \<times> 'w) \<Rightarrow> string \<Rightarrow> string \<Rightarrow>
    Address \<Rightarrow> 'v \<Rightarrow> 'w \<Rightarrow> 'v report \<times> 'w" where
  "write_one read write wname rname address value w =
     (case read w of (before, w) \<Rightarrow>
      let shown = show_read (uint address) (res_bind before (\<lambda>vs. Inr (take 1 vs))) in
      if before = Inr [] then (\<lparr>shown = shown, verdict = Panicked\<rparr>, w)
      else (case write w of
         (Inl err, w) \<Rightarrow> (\<lparr>shown = shown, verdict = Failed (write_error wname err)\<rparr>, w)
       | (Inr _, w) \<Rightarrow>
           (case read w of
              (Inl err, w) \<Rightarrow> (\<lparr>shown = shown, verdict = Failed (write_error rname err)\<rparr>, w)
            | (Inr after, w) \<Rightarrow>
                (\<lparr>shown = shown,
                  verdict = (case after of
                      [] \<Rightarrow> Panicked
                    | v # _ \<Rightarrow> Checked [(uint address, value, v)] (v = value))\<rparr>, w))))"

text \<open>The comparison loop; \<^const>\<open>None\<close> is an index out of range.\<close>

fun compare_loop :: "int \<Rightarrow> nat \<Rightarrow> 'v list \<Rightarrow> 'v list \<Rightarrow> ((int \<times> 'v \<times> 'v) list \<times> bool) option" where
  "compare_loop address i [] after = Some ([], True)"
| "compare_loop address i (v # vs) after =
     (if i < length after
      then map_option (\<lambda>(rows, ok). ((address + int i, v, after ! i) # rows, after ! i = v \<and> ok))
             (compare_loop address (Suc i) vs after)
      else None)"

definition verify_rows :: "int \<Rightarrow> 'v list \<Rightarrow> 'v list \<Rightarrow> 'v verdict" where
  "verify_rows address vs after =
     (case compare_loop address 0 vs after of None \<Rightarrow> Panicked | Some (rows, ok) \<Rightarrow> Checked rows ok)"

text \<open>The body of \<^verbatim>\<open>writeMultipleCoils\<close> and of \<^verbatim>\<open>writeMultipleRegisters\<close>.\<close>

definition write_many :: "('w \<Rightarrow> (merr + 'v list) \<times> 'w) \<Rightarrow> ('w \<Rightarrow> (merr + unit) \<times> 'w) \<Rightarrow> string \<Rightarrow> string \<Rightarrow>
    Address \<Rightarrow> 'v list \<Rightarrow> 'w \<Rightarrow> 'v report \<times> 'w" where
  "write_many read write wname rname address vs w =
     (case read w of (before, w) \<Rightarrow>
      let shown = show_read (uint address) before in
      (case write w of
         (Inl err, w) \<Rightarrow> (\<lparr>shown = shown, verdict = Failed (write_error wname err)\<rparr>, w)
       | (Inr _, w) \<Rightarrow>
           (case read w of
              (Inl err, w) \<Rightarrow> (\<lparr>shown = shown, verdict = Failed (write_error rname err)\<rparr>, w)
            | (Inr after, w) \<Rightarrow>
                (\<lparr>shown = shown, verdict = verify_rows (uint address) vs after\<rparr>, w))))"

definition writeSingleCoil :: "Client \<Rightarrow> ('c, 'w) transport \<Rightarrow> Address \<Rightarrow> bool \<Rightarrow> 'w \<Rightarrow> bool report \<times> 'w" where
  "writeSingleCoil client tp address value =
     write_one (Client_ReadCoils client tp address 1) (Client_WriteSingleCoil client tp address value)
       ''WriteSingleCoil'' ''ReadCoils (verify)'' address value"

definition writeMultipleCoils ::
    "Client \<Rightarrow> ('c, 'w) transport \<Rightarrow> Address \<Rightarrow> bool list \<Rightarrow> 'w \<Rightarrow> bool report \<times> 'w" where
  "writeMultipleCoils client tp address vs =
     write_many (Client_ReadCoils client tp address (word_of_nat (length vs)))
       (Client_WriteMultipleCoils client tp address vs)
       ''WriteMultipleCoils'' ''ReadCoils (verify)'' address vs"

definition writeSingleRegister :: "Client \<Rightarrow> ('c, 'w) transport \<Rightarrow> Address \<Rightarrow> u16 \<Rightarrow> 'w \<Rightarrow> u16 report \<times> 'w" where
  "writeSingleRegister client tp address value =
     write_one (Client_ReadHoldingRegisters client tp address 1) (Client_WriteSingleRegister client tp address value)
       ''WriteSingleRegister'' ''ReadHoldingRegisters (verify)'' address value"

definition writeMultipleRegisters ::
    "Client \<Rightarrow> ('c, 'w) transport \<Rightarrow> Address \<Rightarrow> u16 list \<Rightarrow> 'w \<Rightarrow> u16 report \<times> 'w" where
  "writeMultipleRegisters client tp address vs =
     write_many (Client_ReadHoldingRegisters client tp address (word_of_nat (length vs)))
       (Client_WriteMultipleRegisters client tp address vs)
       ''WriteMultipleRegisters'' ''ReadHoldingRegisters (verify)'' address vs"

section \<open>Arguments\<close>

text \<open>Ways to call a program wrongly, each an exit before anything is sent.\<close>

datatype usage = NoValue | BadValue nat "byte list" | NoneGiven | TooMany | BadCount

datatype 'v args = Single 'v | Multiple "'v list"

text \<open>
  \<^verbatim>\<open>strings.ToLower\<close> as far as a comparison with ASCII words can tell: ASCII letters, and the two
  runes beyond ASCII whose lower case is ASCII (dotted capital I and the Kelvin sign).
\<close>

definition lower :: "byte \<Rightarrow> byte" where
  "lower c = (if 0x41 \<le> c \<and> c \<le> 0x5A then c + 0x20 else c)"

fun ToLower :: "byte list \<Rightarrow> byte list" where
  "ToLower (c # d # e # s) =
     (if c = 0xC4 \<and> d = 0xB0 then 0x69 # ToLower (e # s)
      else if c = 0xE2 \<and> d = 0x84 \<and> e = 0xAA then 0x6B # ToLower s
      else lower c # ToLower (d # e # s))"
| "ToLower [c, d] = (if c = 0xC4 \<and> d = 0xB0 then [0x69] else [lower c, lower d])"
| "ToLower [c] = [lower c]"
| "ToLower [] = []"

definition coil_word :: "byte list \<Rightarrow> bool option" where
  "coil_word part =
     (let word = ToLower (TrimSpace part) in
      if word \<in> set (map bytes_of [''on'', ''true'', ''1'']) then Some True
      else if word \<in> set (map bytes_of [''off'', ''false'', ''0'']) then Some False
      else None)"

definition register_word :: "byte list \<Rightarrow> u16 option" where
  "register_word part =
     (case ParseUint 16 (TrimSpace part) of Inl _ \<Rightarrow> None | Inr v \<Rightarrow> Some (word_of_nat v))"

text \<open>The loop over the parts of a comma-separated list.\<close>

fun parse_words :: "(byte list \<Rightarrow> 'v option) \<Rightarrow> nat \<Rightarrow> byte list list \<Rightarrow> usage + 'v list" where
  "parse_words word i [] = Inr []"
| "parse_words word i (part # parts) =
     (case word part of
        None \<Rightarrow> Inl (BadValue i (TrimSpace part))
      | Some v \<Rightarrow> res_bind (parse_words word (Suc i) parts) (\<lambda>vs. Inr (v # vs)))"

definition parse_values :: "(byte list \<Rightarrow> 'v option) \<Rightarrow> nat \<Rightarrow> byte list \<Rightarrow> usage + 'v list" where
  "parse_values word most values =
     res_bind (parse_words word 0 (split_on comma values)) (\<lambda>vs.
       if length vs = 0 then Inl NoneGiven
       else if length vs > most then Inl TooMany
       else Inr vs)"

definition write_coils_args :: "byte list \<Rightarrow> byte list \<Rightarrow> usage + bool args" where
  "write_coils_args value values =
     (if value = [] \<and> values = [] then Inl NoValue
      else if value \<noteq> [] \<and> coil_word value = None then Inl (BadValue 0 value)
      else if values \<noteq> [] then res_bind (parse_values coil_word MaxWriteCoilCount values) (\<lambda>vs. Inr (Multiple vs))
      else Inr (Single (the (coil_word value))))"

definition write_registers_args :: "int \<Rightarrow> byte list \<Rightarrow> usage + u16 args" where
  "write_registers_args value values =
     (if value < 0 \<and> values = [] then Inl NoValue
      else if values \<noteq> []
        then res_bind (parse_values register_word MaxWriteRegisterCount values) (\<lambda>vs. Inr (Multiple vs))
      else Inr (Single (word_of_int value)))"

definition run_args :: "usage + 'v args \<Rightarrow> ('v \<Rightarrow> 'w \<Rightarrow> 'v report \<times> 'w) \<Rightarrow> ('v list \<Rightarrow> 'w \<Rightarrow> 'v report \<times> 'w) \<Rightarrow>
    'w \<Rightarrow> (usage + 'v report) \<times> 'w" where
  "run_args args single multiple w =
     (case args of
        Inl u \<Rightarrow> (Inl u, w)
      | Inr (Single v) \<Rightarrow> apfst Inr (single v w)
      | Inr (Multiple vs) \<Rightarrow> apfst Inr (multiple vs w))"

definition write_coils :: "Client \<Rightarrow> ('c, 'w) transport \<Rightarrow> int \<Rightarrow> byte list \<Rightarrow> byte list \<Rightarrow> 'w \<Rightarrow>
    (usage + bool report) \<times> 'w" where
  "write_coils client tp address value values =
     run_args (write_coils_args value values) (writeSingleCoil client tp (word_of_int address))
       (writeMultipleCoils client tp (word_of_int address))"

definition write_registers :: "Client \<Rightarrow> ('c, 'w) transport \<Rightarrow> int \<Rightarrow> int \<Rightarrow> byte list \<Rightarrow> 'w \<Rightarrow>
    (usage + u16 report) \<times> 'w" where
  "write_registers client tp address value values =
     run_args (write_registers_args value values) (writeSingleRegister client tp (word_of_int address))
       (writeMultipleRegisters client tp (word_of_int address))"

section \<open>Reading and writing in one transaction\<close>

record rw_report =
  rw_target :: "merr + (int \<times> u16) list"
  rw_source :: "merr + (int \<times> u16) list"
  rw_results :: "complaint + (int \<times> u16) list"
  rw_verdict :: "u16 verdict option"

definition read_write_args :: "int \<Rightarrow> byte list \<Rightarrow> usage + u16 list" where
  "read_write_args readCount writeValues =
     (if readCount < 1 \<or> readCount > int MaxReadWriteReadCount then Inl BadCount
      else if writeValues = [] then Inl NoneGiven
      else parse_values register_word MaxReadWriteWriteCount writeValues)"

text \<open>A failing transaction is an exit; a failing verification is only printed.\<close>

definition read_write_body :: "Client \<Rightarrow> ('c, 'w) transport \<Rightarrow> int \<Rightarrow> int \<Rightarrow> int \<Rightarrow> u16 list \<Rightarrow> 'w \<Rightarrow>
    rw_report \<times> 'w" where
  "read_write_body client tp readAddress readCount writeAddress writeVals w =
     (let ra = word_of_int readAddress; rq = word_of_int readCount;
          wa = word_of_int writeAddress; wq = word_of_nat (length writeVals) in
      case Client_ReadHoldingRegisters client tp wa wq w of (preWrite, w) \<Rightarrow>
      (case Client_ReadHoldingRegisters client tp ra rq w of (preRead, w) \<Rightarrow>
       (let r = \<lparr>rw_target = show_read writeAddress preWrite, rw_source = show_read readAddress preRead,
                 rw_results = Inr [], rw_verdict = None\<rparr> in
        case Client_ReadWriteMultipleRegisters client tp ra rq wa writeVals w of
          (Inl err, w) \<Rightarrow> (r\<lparr>rw_results := Inl (read_write_error ''ReadWriteMultipleRegisters'' err)\<rparr>, w)
        | (Inr readResults, w) \<Rightarrow>
            (let r = r\<lparr>rw_results := Inr (table readAddress readResults)\<rparr> in
             case Client_ReadHoldingRegisters client tp wa wq w of
               (Inl err, w) \<Rightarrow>
                 (r\<lparr>rw_verdict := Some (Failed (read_write_error ''ReadHoldingRegisters (verify)'' err))\<rparr>, w)
             | (Inr verifyRegs, w) \<Rightarrow>
                 (r\<lparr>rw_verdict := Some (verify_rows writeAddress writeVals verifyRegs)\<rparr>, w)))))"

definition read_write_registers :: "Client \<Rightarrow> ('c, 'w) transport \<Rightarrow> int \<Rightarrow> int \<Rightarrow> int \<Rightarrow> byte list \<Rightarrow> 'w \<Rightarrow>
    (usage + rw_report) \<times> 'w" where
  "read_write_registers client tp readAddress readCount writeAddress writeValues w =
     (case read_write_args readCount writeValues of
        Inl u \<Rightarrow> (Inl u, w)
      | Inr writeVals \<Rightarrow> apfst Inr (read_write_body client tp readAddress readCount writeAddress writeVals w))"

section \<open>Reading\<close>

text \<open>
  The bit-level view of \<^verbatim>\<open>displayBoolValues\<close>.  One byte: the loop that sets its bits, and the loop
  that prints them from the highest down, with a dot for a bit past the values.
\<close>

definition byte_loop :: "bool list \<Rightarrow> nat \<Rightarrow> nat \<Rightarrow> byte" where
  "byte_loop vs startBit endBit =
     foldl (\<lambda>byteVal bitIdx. if vs ! bitIdx then byteVal OR push_bit (bitIdx - startBit) 1 else byteVal)
       0 [startBit..<endBit]"

definition bits_text :: "bool list \<Rightarrow> nat \<Rightarrow> byte \<Rightarrow> string" where
  "bits_text vs startBit byteVal =
     map (\<lambda>bitIdx. if startBit + bitIdx < length vs
                   then (if drop_bit bitIdx byteVal AND 1 = 1 then CHR ''1'' else CHR ''0'')
                   else CHR ''.'') (rev [0..<8])"

record shown_byte =
  byte_index :: nat
  first_addr :: int
  last_addr :: int
  bit_text :: string
  byte_val :: byte

function byte_rows :: "int \<Rightarrow> bool list \<Rightarrow> nat \<Rightarrow> shown_byte list" where
  "byte_rows startAddress vs byteIdx =
     (if byteIdx * 8 < length vs then
        (let startBit = byteIdx * 8;
             endBit = (if startBit + 8 > length vs then length vs else startBit + 8);
             byteVal = byte_loop vs startBit endBit
         in \<lparr>byte_index = byteIdx, first_addr = startAddress + int startBit,
             last_addr = startAddress + int endBit - 1,
             bit_text = bits_text vs startBit byteVal, byte_val = byteVal\<rparr> #
            byte_rows startAddress vs (Suc byteIdx))
      else [])"
  by pat_completeness auto
termination
  by (relation "measure (\<lambda>(a, vs, i). length vs - 8 * i)") auto

declare byte_rows.simps [simp del]

record bool_display =
  states :: "(int \<times> bool) list"
  byte_view :: "shown_byte list"
  onCount :: nat

definition displayBoolValues :: "Address \<Rightarrow> bool list \<Rightarrow> bool_display" where
  "displayBoolValues startAddress vs =
     \<lparr>states = table (uint startAddress) vs,
      byte_view = byte_rows (uint startAddress) vs 0,
      onCount = foldl (\<lambda>n v. if v then n + 1 else n) 0 vs\<rparr>"

definition readCoils :: "Client \<Rightarrow> ('c, 'w) transport \<Rightarrow> Address \<Rightarrow> Quantity \<Rightarrow> 'w \<Rightarrow>
    (complaint + bool_display) \<times> 'w" where
  "readCoils client tp address quantity w =
     (case Client_ReadCoils client tp address quantity w of
        (Inl err, w) \<Rightarrow> (Inl (read_error ''ReadCoils'' err), w)
      | (Inr vs, w) \<Rightarrow> (Inr (displayBoolValues address vs), w))"

definition readDiscreteInputs :: "Client \<Rightarrow> ('c, 'w) transport \<Rightarrow> Address \<Rightarrow> Quantity \<Rightarrow> 'w \<Rightarrow>
    (complaint + bool_display) \<times> 'w" where
  "readDiscreteInputs client tp address quantity w =
     (case Client_ReadDiscreteInputs client tp address quantity w of
        (Inl err, w) \<Rightarrow> (Inl (read_error ''ReadDiscreteInputs'' err), w)
      | (Inr vs, w) \<Rightarrow> (Inr (displayBoolValues address vs), w))"

definition read_coils :: "Client \<Rightarrow> ('c, 'w) transport \<Rightarrow> int \<Rightarrow> int \<Rightarrow> bool \<Rightarrow> 'w \<Rightarrow>
    (usage + complaint + bool_display) \<times> 'w" where
  "read_coils client tp address count discrete w =
     (if count < 1 \<or> count > int MaxCoilCount then (Inl BadCount, w)
      else apfst Inr
        (if discrete then readDiscreteInputs client tp (word_of_int address) (word_of_int count) w
         else readCoils client tp (word_of_int address) (word_of_int count) w))"

text \<open>\<^verbatim>\<open>read_registers\<close>: three reads, each reported on its own; \<^verbatim>\<open>registers[0]\<close> may be out of range.\<close>

record registers_display =
  single_value :: "complaint + u16 option"
  holding_values :: "complaint + (int \<times> u16) list"
  input_values :: "complaint + (int \<times> u16) list"

definition or_complain :: "string \<Rightarrow> (merr + 'v) \<times> 'w \<Rightarrow> ('v \<Rightarrow> 'r) \<Rightarrow> (complaint + 'r) \<times> 'w" where
  "or_complain name r f =
     (case r of (Inl err, w) \<Rightarrow> (Inl (read_error name err), w) | (Inr v, w) \<Rightarrow> (Inr (f v), w))"

definition read_registers :: "Client \<Rightarrow> ('c, 'w) transport \<Rightarrow> int \<Rightarrow> int \<Rightarrow> 'w \<Rightarrow>
    (usage + registers_display) \<times> 'w" where
  "read_registers client tp address count w =
     (if count < 1 \<or> count > int MaxRegisterCount then (Inl BadCount, w)
      else let a = word_of_int address; q = word_of_int count in
        case or_complain ''ReadHoldingRegisters (single)'' (Client_ReadHoldingRegisters client tp a 1 w)
          (\<lambda>vs. if vs = [] then None else Some (vs ! 0)) of (one, w) \<Rightarrow>
        (case or_complain ''ReadHoldingRegisters (multiple)'' (Client_ReadHoldingRegisters client tp a q w)
          (table address) of (many, w) \<Rightarrow>
         (case or_complain ''ReadInputRegisters'' (Client_ReadInputRegisters client tp a q w)
           (table address) of (inputs, w) \<Rightarrow>
            (Inr \<lparr>single_value = one, holding_values = many, input_values = inputs\<rparr>, w))))"

section \<open>The polling program\<close>

text \<open>One turn of \<^verbatim>\<open>reconnecting\<close>'s loop: a tick polls five registers, a signal ends the loop.\<close>

datatype poll_report =
    PollException merr bool
  | PollTransport merr
  | Polled "(int \<times> u16) list"

datatype wake = Tick | Signal

definition poll_once :: "Client \<Rightarrow> ('c, 'w) transport \<Rightarrow> int \<Rightarrow> 'w \<Rightarrow> poll_report \<times> 'w" where
  "poll_once client tp address w =
     (case Client_ReadHoldingRegisters client tp (word_of_int address) 5 w of
        (Inl err, w) \<Rightarrow>
          ((if IsModbusError err then PollException err (IsExceptionError err ExceptionDataAddressNotAvailable)
            else PollTransport err), w)
      | (Inr vs, w) \<Rightarrow> (Polled (table address vs), w))"

fun poll_loop :: "Client \<Rightarrow> ('c, 'w) transport \<Rightarrow> int \<Rightarrow> nat \<Rightarrow> wake list \<Rightarrow> 'w \<Rightarrow> (nat \<times> poll_report) list \<times> 'w" where
  "poll_loop client tp address pollCount [] w = ([], w)"
| "poll_loop client tp address pollCount (Signal # evs) w = ([], w)"
| "poll_loop client tp address pollCount (Tick # evs) w =
     (case poll_once client tp address w of (p, w) \<Rightarrow>
      (case poll_loop client tp address (Suc pollCount) evs w of (ps, w) \<Rightarrow>
         ((Suc pollCount, p) # ps, w)))"

section \<open>Every data type\<close>

text \<open>\<^verbatim>\<open>all_data_types\<close>: a list of operations, each run whatever became of the ones before it.\<close>

record demo =
  results :: "(merr + outcome) list"
  allOK :: bool

definition demo_op :: "Client \<Rightarrow> ('c, 'w) transport \<Rightarrow> command \<Rightarrow> demo \<times> 'w \<Rightarrow> demo \<times> 'w" where
  "demo_op client tp cmd = (\<lambda>(dm, w).
     case Client_exec client tp cmd w of
       (Inl err, w) \<Rightarrow> (dm\<lparr>results := results dm @ [Inl err], allOK := False\<rparr>, w)
     | (Inr out, w) \<Rightarrow> (dm\<lparr>results := results dm @ [Inr out]\<rparr>, w))"

abbreviation (input) coilPattern :: "bool list" where
  "coilPattern \<equiv> [True, False, True, False, True, True, False, True]"

definition coils_section :: "command list" where
  "coils_section = [CReadCoils 0 10, CWriteCoil 5 True, CWriteCoils 0 coilPattern, CReadCoils 0 10]"

definition inputs_section :: "command list" where
  "inputs_section = [CReadInputs 0 8]"

definition holding_section :: "command list" where
  "holding_section =
     [CReadHolding 0 10, CWriteRegister 0 42, CWriteRegisters 5 [100, 200, 300, 400, 500], CReadHolding 0 10]"

definition input_registers_section :: "command list" where
  "input_registers_section = [CReadInRegs 0 10]"

definition read_write_section :: "command list" where
  "read_write_section = [CReadWrite 0 3 8 [9999, 8888], CReadHolding 8 2]"

text \<open>A Modbus exception to Read Exception Status does not count as a failure.\<close>

definition exception_status_section ::
    "Client \<Rightarrow> ('c, 'w) transport \<Rightarrow> demo \<times> 'w \<Rightarrow> (merr + byte) \<times> demo \<times> 'w" where
  "exception_status_section client tp = (\<lambda>(dm, w).
     case Client_ReadExceptionStatus client tp w of
       (Inl err, w) \<Rightarrow> (Inl err, (if IsModbusError err then dm else dm\<lparr>allOK := False\<rparr>), w)
     | (Inr status, w) \<Rightarrow> (Inr status, dm, w))"

definition demo_commands :: "command list" where
  "demo_commands =
     coils_section @ inputs_section @ holding_section @ input_registers_section @ read_write_section"

definition all_data_types :: "Client \<Rightarrow> ('c, 'w) transport \<Rightarrow> 'w \<Rightarrow> (merr + byte) \<times> demo \<times> 'w" where
  "all_data_types client tp w =
     exception_status_section client tp
       (fold (demo_op client tp) demo_commands (\<lparr>results = [], allOK = True\<rparr>, w))"

text \<open>
  \<^verbatim>\<open>printSection\<close>: the title centred in a line of 72.  Go's division truncates towards zero, and
  \<^verbatim>\<open>strings.Repeat\<close> panics on a negative count, which is \<^const>\<open>None\<close>.
\<close>

definition Repeat :: "char \<Rightarrow> int \<Rightarrow> string option" where
  "Repeat c n = (if n < 0 then None else Some (replicate (nat n) c))"

definition trunc_half :: "int \<Rightarrow> int" where
  "trunc_half n = (if n < 0 then - (- n div 2) else n div 2)"

definition printSection :: "string \<Rightarrow> string list option" where
  "printSection title =
     (let width = 72; padding = trunc_half (width - int (length title) - 2);
          padding = (if padding < 0 then 0 else padding) in
      case Repeat CHR ''='' width of None \<Rightarrow> None | Some bar \<Rightarrow>
      (case Repeat CHR ''='' padding of None \<Rightarrow> None | Some l \<Rightarrow>
       (case Repeat CHR ''='' (width - padding - int (length title) - 2) of None \<Rightarrow> None | Some r \<Rightarrow>
          Some [bar, l @ '' '' @ title @ '' '' @ r, bar, []])))"

fun join :: "string \<Rightarrow> string list \<Rightarrow> string" where
  "join sep [] = []"
| "join sep [s] = s"
| "join sep (s # t # ss) = s @ sep @ join sep (t # ss)"

definition formatBools :: "bool list \<Rightarrow> string" where
  "formatBools vs = ''['' @ join '', '' (map (\<lambda>v. if v then ''ON'' else ''OFF'') vs) @ '']''"

section \<open>Identification\<close>

abbreviation (input) MoreFollowsYes :: byte where "MoreFollowsYes \<equiv> 0xFF"
abbreviation (input) DeviceIDVendorName :: byte where "DeviceIDVendorName \<equiv> 0x00"

record id_report =
  first_objects :: DeviceIdentification
  more_objects :: "(merr + DeviceIdentification) option"

text \<open>\<^verbatim>\<open>device_identification\<close> asks once more when the device announces that more objects follow.\<close>

definition device_identification :: "Client \<Rightarrow> ('c, 'w) transport \<Rightarrow> 'w \<Rightarrow> (complaint + id_report) \<times> 'w" where
  "device_identification client tp w =
     (case Client_ReadDeviceIdentification client tp ReadDeviceIDBasicStream DeviceIDVendorName w of
        (Inl err, w) \<Rightarrow> (Inl (identification_error ''ReadDeviceIdentification'' err), w)
      | (Inr deviceID, w) \<Rightarrow>
          (if MoreFollows deviceID = MoreFollowsYes
           then (case Client_ReadDeviceIdentification client tp ReadDeviceIDBasicStream (NextObjectID deviceID) w of
                   (further, w) \<Rightarrow> (Inr \<lparr>first_objects = deviceID, more_objects = Some further\<rparr>, w))
           else (Inr \<lparr>first_objects = deviceID, more_objects = None\<rparr>, w)))"

section \<open>The example server's data\<close>

definition demo_store :: MemoryStore where
  "demo_store =
     (let s = NewMemoryStore;
          s = fold (\<lambda>(a, v) s. SetCoil s a v)
                [(0, True), (1, False), (2, True), (3, True), (4, False), (5, True), (6, False), (7, False),
                 (8, True), (9, False)] s;
          s = fold (\<lambda>(a, v) s. SetDiscreteInput s a v)
                [(0, True), (1, True), (2, False), (3, True), (4, False), (5, True), (6, True), (7, False)] s;
          s = fold (\<lambda>(a, v) s. SetHoldingRegister s a v)
                [(0, 1000), (1, 500), (2, 60), (3, 100), (4, 4000), (5, 2048), (6, 0), (7, 1), (8, 300), (9, 50)] s
      in fold (\<lambda>(a, v) s. SetInputRegister s a v)
           [(0, 985), (1, 487), (2, 59), (3, 97), (4, 3950), (5, 2100), (6, 24), (7, 1250), (8, 12345), (9, 42)] s)"

section \<open>No index out of range\<close>

lemma call_parsed: "call c tp fc rd parse w = (Inr v, w') \<Longrightarrow> \<exists>data. parse data = Inr v"
  by (auto simp: call_def split: sum.splits prod.splits)

lemma parse_lengths:
  "parseBitResponse data q = Inr bs \<Longrightarrow> length bs = unat q"
  "parseRegisterResponse data q = Inr rs \<Longrightarrow> length rs = unat q"
  by (auto simp: parseBitResponse_def parseRegisterResponse_def Let_def unpack_bits_def split: if_splits)

text \<open>Whatever the transport delivers, a read that succeeds has as many values as were asked for.\<close>

lemma read_lengths:
  "Client_ReadCoils c tp a q w = (Inr bs, w') \<Longrightarrow> length bs = unat q"
  "Client_ReadHoldingRegisters c tp a q w = (Inr rs, w') \<Longrightarrow> length rs = unat q"
  unfolding client_defs ParseReadCoilsResponse_def ParseReadHoldingRegistersResponse_def
  by (auto dest!: call_parsed intro: parse_lengths)

lemma compare_loop_total: "i + length vs \<le> length after \<Longrightarrow> \<exists>rows ok. compare_loop a i vs after = Some (rows, ok)"
  by (induction vs arbitrary: i) fastforce+

lemma verify_rows_total: "length vs \<le> length after \<Longrightarrow> verify_rows a vs after \<noteq> Panicked"
  using compare_loop_total [of 0 vs after a] by (auto simp: verify_rows_def)

lemma write_one_total:
  assumes "\<And>w vs w'. read w = (Inr vs, w') \<Longrightarrow> vs \<noteq> []"
  shows "verdict (fst (write_one read write n m a v w)) \<noteq> Panicked"
  by (auto simp: write_one_def Let_def dest!: assms split: sum.splits prod.splits list.splits)

lemma write_many_total:
  assumes "\<And>w xs w'. read w = (Inr xs, w') \<Longrightarrow> length vs \<le> length xs"
  shows "verdict (fst (write_many read write n m a vs w)) \<noteq> Panicked"
  using assms by (auto simp: write_many_def Let_def verify_rows_total split: sum.splits prod.splits)

lemma unat_count16: "n < 2 ^ 16 \<Longrightarrow> unat (word_of_nat n :: u16) = n"
  by (simp add: unat_word_of_nat)

lemma unat_int16: "\<lbrakk>0 \<le> n; n < 2 ^ 16\<rbrakk> \<Longrightarrow> unat (word_of_int n :: u16) = nat n"
  using unat_word_of_nat [of "nat n", where ?'a = 16] by simp

lemma write_verdicts:
  "verdict (fst (writeSingleCoil c tp a v w)) \<noteq> Panicked"
  "verdict (fst (writeSingleRegister c tp a r w)) \<noteq> Panicked"
  "length vs \<le> MaxWriteCoilCount \<Longrightarrow> verdict (fst (writeMultipleCoils c tp a vs w)) \<noteq> Panicked"
  "length rs \<le> MaxWriteRegisterCount \<Longrightarrow> verdict (fst (writeMultipleRegisters c tp a rs w)) \<noteq> Panicked"
  unfolding writeSingleCoil_def writeSingleRegister_def writeMultipleCoils_def writeMultipleRegisters_def
  by (rule write_one_total write_many_total; fastforce dest: read_lengths simp: unat_count16)+

lemma read_write_verdict:
  assumes "length vs \<le> MaxReadWriteWriteCount"
  shows "rw_verdict (fst (read_write_body c tp ra rc wa vs w)) \<noteq> Some Panicked"
proof -
  have "verify_rows wa vs xs \<noteq> Panicked"
    if "Client_ReadHoldingRegisters c tp (word_of_int wa) (word_of_nat (length vs)) w = (Inr xs, w')" for xs w w'
    using read_lengths(2) [OF that] assms by (intro verify_rows_total) (simp add: unat_count16)
  then show ?thesis by (auto simp: read_write_body_def Let_def split: sum.split prod.split)
qed

section \<open>Comparing and parsing\<close>

definition pass :: "int \<Rightarrow> 'v list \<Rightarrow> 'v verdict" where
  "pass a vs = Checked (map (\<lambda>i. (a + int i, vs ! i, vs ! i)) [0..<length vs]) True"

lemma compare_loop_same:
  "compare_loop a i (drop i vs) vs = Some (map (\<lambda>j. (a + int j, vs ! j, vs ! j)) [i..<length vs], True)"
proof (induction "length vs - i" arbitrary: i)
  case (Suc n)
  then have "i < length vs" by simp
  then have "drop i vs = vs ! i # drop (Suc i) vs" by (rule Cons_nth_drop_Suc [symmetric])
  moreover have "n = length vs - Suc i" using Suc(2) by simp
  ultimately show ?case using Suc(1) [of "Suc i"] \<open>i < length vs\<close> by (simp add: upt_conv_Cons)
qed simp

lemma verify_rows_same [simp]: "verify_rows a vs vs = pass a vs"
  using compare_loop_same [of a 0 vs] by (simp add: verify_rows_def pass_def)

fun arg_values :: "'v args \<Rightarrow> 'v list" where
  "arg_values (Single v) = [v]"
| "arg_values (Multiple vs) = vs"

lemma parse_values_bounds:
  assumes "parse_values word most values = Inr vs"
  shows "vs \<noteq> []" "length vs \<le> most"
  using assms by (auto simp: parse_values_def res_simps split: if_splits)

lemma write_coils_args_ok:
  "write_coils_args value values = Inr args \<Longrightarrow> arg_values args \<noteq> [] \<and> length (arg_values args) \<le> MaxWriteCoilCount"
  by (auto simp: write_coils_args_def res_simps dest: parse_values_bounds split: if_splits)

lemma write_registers_args_ok:
  "write_registers_args value values = Inr args \<Longrightarrow>
     arg_values args \<noteq> [] \<and> length (arg_values args) \<le> MaxWriteRegisterCount"
  by (auto simp: write_registers_args_def res_simps dest: parse_values_bounds split: if_splits)

lemma read_write_args_ok:
  "read_write_args n text = Inr vs \<Longrightarrow>
     vs \<noteq> [] \<and> length vs \<le> MaxReadWriteWriteCount \<and> 1 \<le> n \<and> n \<le> int MaxReadWriteReadCount"
  by (auto simp: read_write_args_def dest: parse_values_bounds split: if_splits)

section \<open>A link to a device\<close>

text \<open>
  What the programs rely on: a client over a transport whose world presents a device executes every
  command within the limits as one step of that device.
\<close>

locale modbus_link =
  fixes cl :: Client and tp :: "('c, 'w) transport" and presents :: "'w \<Rightarrow> device \<Rightarrow> bool"
  assumes exec: "\<lbrakk>presents w d; command_ok cmd\<rbrakk> \<Longrightarrow>
    \<exists>w'. Client_exec cl tp cmd w = (Inr (fst (exec_device cmd d)), w') \<and> presents w' (snd (exec_device cmd d))"
begin

lemma read_coils_link:
  assumes "presents w d" "0 < unat q" "unat q \<le> MaxCoilCount"
  obtains w' where "Client_ReadCoils cl tp a q w = (Inr (read_range (d_coils d) a (unat q)), w')" "presents w' d"
  using exec [OF assms(1), of "CReadCoils a q"] assms(2,3)
  by (auto simp: map_res_def res_simps split: prod.splits)

lemma read_inputs_link:
  assumes "presents w d" "0 < unat q" "unat q \<le> MaxCoilCount"
  obtains w' where "Client_ReadDiscreteInputs cl tp a q w = (Inr (read_range (d_inputs d) a (unat q)), w')" "presents w' d"
  using exec [OF assms(1), of "CReadInputs a q"] assms(2,3)
  by (auto simp: map_res_def res_simps split: prod.splits)

lemma read_holding_link:
  assumes "presents w d" "0 < unat q" "unat q \<le> MaxRegisterCount"
  obtains w' where "Client_ReadHoldingRegisters cl tp a q w = (Inr (read_range (d_holding d) a (unat q)), w')" "presents w' d"
  using exec [OF assms(1), of "CReadHolding a q"] assms(2,3)
  by (auto simp: map_res_def res_simps split: prod.splits)

lemma read_inregs_link:
  assumes "presents w d" "0 < unat q" "unat q \<le> MaxRegisterCount"
  obtains w' where "Client_ReadInputRegisters cl tp a q w = (Inr (read_range (d_inregs d) a (unat q)), w')" "presents w' d"
  using exec [OF assms(1), of "CReadInRegs a q"] assms(2,3)
  by (auto simp: map_res_def res_simps split: prod.splits)

lemma write_coil_link:
  assumes "presents w d"
  obtains w' where "Client_WriteSingleCoil cl tp a v w = (Inr (), w')"
    "presents w' (d\<lparr>d_coils := write_range (d_coils d) a [v]\<rparr>)"
  using exec [OF assms(1), of "CWriteCoil a v"] by (auto simp: map_res_def res_simps split: prod.splits)

lemma write_register_link:
  assumes "presents w d"
  obtains w' where "Client_WriteSingleRegister cl tp a v w = (Inr (), w')"
    "presents w' (d\<lparr>d_holding := write_range (d_holding d) a [v]\<rparr>)"
  using exec [OF assms(1), of "CWriteRegister a v"] by (auto simp: map_res_def res_simps split: prod.splits)

lemma write_coils_link:
  assumes "presents w d" "vs \<noteq> []" "length vs \<le> MaxWriteCoilCount"
  obtains w' where "Client_WriteMultipleCoils cl tp a vs w = (Inr (), w')"
    "presents w' (d\<lparr>d_coils := write_range (d_coils d) a vs\<rparr>)"
  using exec [OF assms(1), of "CWriteCoils a vs"] assms(2,3)
  by (auto simp: map_res_def res_simps split: prod.splits)

lemma write_registers_link:
  assumes "presents w d" "vs \<noteq> []" "length vs \<le> MaxWriteRegisterCount"
  obtains w' where "Client_WriteMultipleRegisters cl tp a vs w = (Inr (), w')"
    "presents w' (d\<lparr>d_holding := write_range (d_holding d) a vs\<rparr>)"
  using exec [OF assms(1), of "CWriteRegisters a vs"] assms(2,3)
  by (auto simp: map_res_def res_simps split: prod.splits)

lemma read_write_link:
  assumes "presents w d" "0 < unat rq" "unat rq \<le> MaxReadWriteReadCount" "vs \<noteq> []" "length vs \<le> MaxReadWriteWriteCount"
  obtains w' where "Client_ReadWriteMultipleRegisters cl tp ra rq wa vs w =
      (Inr (read_range (write_range (d_holding d) wa vs) ra (unat rq)), w')"
    "presents w' (d\<lparr>d_holding := write_range (d_holding d) wa vs\<rparr>)"
  using exec [OF assms(1), of "CReadWrite ra rq wa vs"] assms(2-)
  by (auto simp: map_res_def res_simps Let_def split: prod.splits)

text \<open>The two shapes of a write program, over any pair of a read and a write that hit the same range.\<close>

lemma write_one_link:
  assumes "presents w d"
    and r: "\<And>w d. presents w d \<Longrightarrow> \<exists>w'. read w = (Inr (read_range (get d) a 1), w') \<and> presents w' d"
    and wr: "\<And>w d. presents w d \<Longrightarrow> \<exists>w'. write w = (Inr (), w') \<and> presents w' (put d)"
    and g: "get (put d) = write_range (get d) a [v]"
  shows "\<exists>w'. write_one read write n m a v w =
      (\<lparr>shown = Inr (table (uint a) (read_range (get d) a 1)), verdict = pass (uint a) [v]\<rparr>, w') \<and> presents w' (put d)"
proof -
  obtain w1 where 1: "read w = (Inr (read_range (get d) a 1), w1)" "presents w1 d" using r [OF assms(1)] by blast
  obtain w2 where 2: "write w1 = (Inr (), w2)" "presents w2 (put d)" using wr [OF 1(2)] by blast
  obtain w3 where 3: "read w2 = (Inr (read_range (get (put d)) a 1), w3)" "presents w3 (put d)" using r [OF 2(2)] by blast
  have "read_range (get (put d)) a 1 = [v]" using read_write_same [of "[v]" "get d" a] g by simp
  with 1 2 3 show ?thesis
    by (auto simp: write_one_def show_read_def pass_def read_range_def)
qed

lemma write_many_link:
  assumes "presents w d"
    and r: "\<And>w d. presents w d \<Longrightarrow> \<exists>w'. read w = (Inr (read_range (get d) a (length vs)), w') \<and> presents w' d"
    and wr: "\<And>w d. presents w d \<Longrightarrow> \<exists>w'. write w = (Inr (), w') \<and> presents w' (put d)"
    and g: "get (put d) = write_range (get d) a vs" and "length vs \<le> 2 ^ 16"
  shows "\<exists>w'. write_many read write n m a vs w =
      (\<lparr>shown = Inr (table (uint a) (read_range (get d) a (length vs))), verdict = pass (uint a) vs\<rparr>, w') \<and>
      presents w' (put d)"
proof -
  obtain w1 where 1: "read w = (Inr (read_range (get d) a (length vs)), w1)" "presents w1 d" using r [OF assms(1)] by blast
  obtain w2 where 2: "write w1 = (Inr (), w2)" "presents w2 (put d)" using wr [OF 1(2)] by blast
  obtain w3 where 3: "read w2 = (Inr (read_range (get (put d)) a (length vs)), w3)" "presents w3 (put d)"
    using r [OF 2(2)] by blast
  have "read_range (get (put d)) a (length vs) = vs" using read_write_same [OF assms(5), of "get d" a] g by simp
  with 1 2 3 show ?thesis by (auto simp: write_many_def show_read_def)
qed
end

context modbus_link
begin

lemma write_coils_many_link:
  assumes "presents w d" "vs \<noteq> []" "length vs \<le> MaxWriteCoilCount"
  shows "\<exists>w'. writeMultipleCoils cl tp a vs w =
      (\<lparr>shown = Inr (table (uint a) (read_range (d_coils d) a (length vs))), verdict = pass (uint a) vs\<rparr>, w') \<and>
      presents w' (d\<lparr>d_coils := write_range (d_coils d) a vs\<rparr>)"
  unfolding writeMultipleCoils_def
proof (rule write_many_link [OF assms(1), where put = "\<lambda>d. d\<lparr>d_coils := write_range (d_coils d) a vs\<rparr>"])
  show "\<exists>w'. Client_ReadCoils cl tp a (word_of_nat (length vs)) w =
      (Inr (read_range (d_coils d) a (length vs)), w') \<and> presents w' d" if "presents w d" for w d
    using read_coils_link [OF that, of "word_of_nat (length vs)" a] assms(2,3) by (auto simp: unat_count16)
  show "\<exists>w'. Client_WriteMultipleCoils cl tp a vs w = (Inr (), w') \<and>
      presents w' (d\<lparr>d_coils := write_range (d_coils d) a vs\<rparr>)" if "presents w d" for w d
    using that assms(2,3) by (rule write_coils_link) auto
qed (use assms(3) in simp_all)

lemma write_registers_many_link:
  assumes "presents w d" "vs \<noteq> []" "length vs \<le> MaxWriteRegisterCount"
  shows "\<exists>w'. writeMultipleRegisters cl tp a vs w =
      (\<lparr>shown = Inr (table (uint a) (read_range (d_holding d) a (length vs))), verdict = pass (uint a) vs\<rparr>, w') \<and>
      presents w' (d\<lparr>d_holding := write_range (d_holding d) a vs\<rparr>)"
  unfolding writeMultipleRegisters_def
proof (rule write_many_link [OF assms(1), where put = "\<lambda>d. d\<lparr>d_holding := write_range (d_holding d) a vs\<rparr>"])
  show "\<exists>w'. Client_ReadHoldingRegisters cl tp a (word_of_nat (length vs)) w =
      (Inr (read_range (d_holding d) a (length vs)), w') \<and> presents w' d" if "presents w d" for w d
    using read_holding_link [OF that, of "word_of_nat (length vs)" a] assms(2,3) by (auto simp: unat_count16)
  show "\<exists>w'. Client_WriteMultipleRegisters cl tp a vs w = (Inr (), w') \<and>
      presents w' (d\<lparr>d_holding := write_range (d_holding d) a vs\<rparr>)" if "presents w d" for w d
    using that assms(2,3) by (rule write_registers_link) auto
qed (use assms(3) in simp_all)

lemma write_coils_single_link:
  assumes "presents w d"
  shows "\<exists>w'. writeSingleCoil cl tp a v w =
      (\<lparr>shown = Inr (table (uint a) (read_range (d_coils d) a 1)), verdict = pass (uint a) [v]\<rparr>, w') \<and>
      presents w' (d\<lparr>d_coils := write_range (d_coils d) a [v]\<rparr>)"
  unfolding writeSingleCoil_def
proof (rule write_one_link [OF assms, where put = "\<lambda>d. d\<lparr>d_coils := write_range (d_coils d) a [v]\<rparr>"])
  show "\<exists>w'. Client_ReadCoils cl tp a 1 w = (Inr (read_range (d_coils d) a 1), w') \<and> presents w' d"
    if "presents w d" for w d
    using read_coils_link [OF that, of 1 a] by auto
  show "\<exists>w'. Client_WriteSingleCoil cl tp a v w = (Inr (), w') \<and>
      presents w' (d\<lparr>d_coils := write_range (d_coils d) a [v]\<rparr>)" if "presents w d" for w d
    using that by (rule write_coil_link) auto
qed simp

lemma write_registers_single_link:
  assumes "presents w d"
  shows "\<exists>w'. writeSingleRegister cl tp a v w =
      (\<lparr>shown = Inr (table (uint a) (read_range (d_holding d) a 1)), verdict = pass (uint a) [v]\<rparr>, w') \<and>
      presents w' (d\<lparr>d_holding := write_range (d_holding d) a [v]\<rparr>)"
  unfolding writeSingleRegister_def
proof (rule write_one_link [OF assms, where put = "\<lambda>d. d\<lparr>d_holding := write_range (d_holding d) a [v]\<rparr>"])
  show "\<exists>w'. Client_ReadHoldingRegisters cl tp a 1 w = (Inr (read_range (d_holding d) a 1), w') \<and> presents w' d"
    if "presents w d" for w d
    using read_holding_link [OF that, of 1 a] by auto
  show "\<exists>w'. Client_WriteSingleRegister cl tp a v w = (Inr (), w') \<and>
      presents w' (d\<lparr>d_holding := write_range (d_holding d) a [v]\<rparr>)" if "presents w d" for w d
    using that by (rule write_register_link) auto
qed simp

text \<open>The programs: the parsed values end up in the device, and the verification passes.\<close>

lemma write_coils_passes:
  fixes address :: int
  assumes "presents w d" "write_coils_args value values = Inr args"
  defines "a \<equiv> word_of_int address" and "vs \<equiv> arg_values args"
  shows "\<exists>w'. write_coils cl tp address value values w =
      (Inr \<lparr>shown = Inr (table (uint a) (read_range (d_coils d) a (length vs))), verdict = pass (uint a) vs\<rparr>, w') \<and>
      presents w' (d\<lparr>d_coils := write_range (d_coils d) a vs\<rparr>)"
proof (cases args)
  case (Single v)
  with write_coils_single_link [OF assms(1), of a v] assms(2) show ?thesis
    by (auto simp: write_coils_def run_args_def a_def vs_def)
next
  case (Multiple xs)
  with write_coils_many_link [OF assms(1), of xs a] write_coils_args_ok [OF assms(2)] assms(2) show ?thesis
    by (auto simp: write_coils_def run_args_def a_def vs_def)
qed

lemma write_registers_passes:
  fixes address :: int
  assumes "presents w d" "write_registers_args value values = Inr args"
  defines "a \<equiv> word_of_int address" and "vs \<equiv> arg_values args"
  shows "\<exists>w'. write_registers cl tp address value values w =
      (Inr \<lparr>shown = Inr (table (uint a) (read_range (d_holding d) a (length vs))), verdict = pass (uint a) vs\<rparr>, w') \<and>
      presents w' (d\<lparr>d_holding := write_range (d_holding d) a vs\<rparr>)"
proof (cases args)
  case (Single v)
  with write_registers_single_link [OF assms(1), of a v] assms(2) show ?thesis
    by (auto simp: write_registers_def run_args_def a_def vs_def)
next
  case (Multiple xs)
  with write_registers_many_link [OF assms(1), of xs a] write_registers_args_ok [OF assms(2)] assms(2) show ?thesis
    by (auto simp: write_registers_def run_args_def a_def vs_def)
qed

lemma read_write_passes:
  fixes readAddress writeAddress :: int
  assumes "presents w d" "read_write_args readCount text = Inr vs"
  defines "ra \<equiv> word_of_int readAddress" and "wa \<equiv> word_of_int writeAddress" and "n \<equiv> nat readCount"
    and "h \<equiv> d_holding d"
  shows "\<exists>w'. read_write_registers cl tp readAddress readCount writeAddress text w =
      (Inr \<lparr>rw_target = Inr (table writeAddress (read_range h wa (length vs))),
            rw_source = Inr (table readAddress (read_range h ra n)),
            rw_results = Inr (table readAddress (read_range (write_range h wa vs) ra n)),
            rw_verdict = Some (pass writeAddress vs)\<rparr>, w') \<and>
      presents w' (d\<lparr>d_holding := write_range h wa vs\<rparr>)"
proof -
  let ?rq = "word_of_int readCount :: u16" and ?wq = "word_of_nat (length vs) :: u16"
  note ok = read_write_args_ok [OF assms(2)]
  have rq: "unat ?rq = n" "0 < n" "n \<le> MaxReadWriteReadCount" using ok by (auto simp: unat_int16 n_def)
  have wq: "unat ?wq = length vs" "0 < length vs" "length vs \<le> MaxRegisterCount" using ok by (auto simp: unat_count16)
  obtain w1 where 1: "Client_ReadHoldingRegisters cl tp wa ?wq w = (Inr (read_range h wa (length vs)), w1)" "presents w1 d"
    using read_holding_link [OF assms(1), of ?wq wa] wq by (auto simp: h_def)
  obtain w2 where 2: "Client_ReadHoldingRegisters cl tp ra ?rq w1 = (Inr (read_range h ra n), w2)" "presents w2 d"
    using read_holding_link [OF 1(2), of ?rq ra] rq by (auto simp: h_def)
  obtain w3 where 3: "Client_ReadWriteMultipleRegisters cl tp ra ?rq wa vs w2 =
      (Inr (read_range (write_range h wa vs) ra n), w3)" "presents w3 (d\<lparr>d_holding := write_range h wa vs\<rparr>)"
    using read_write_link [OF 2(2), of ?rq vs ra wa] rq ok by (auto simp: h_def)
  obtain w4 where 4: "Client_ReadHoldingRegisters cl tp wa ?wq w3 = (Inr (read_range (write_range h wa vs) wa (length vs)), w4)"
      "presents w4 (d\<lparr>d_holding := write_range h wa vs\<rparr>)"
    using read_holding_link [OF 3(2), of ?wq wa] wq by auto
  have "read_range (write_range h wa vs) wa (length vs) = vs" using ok by (intro read_write_same) simp
  with 1 2 3 4 assms(2) show ?thesis
    by (auto simp: read_write_registers_def read_write_body_def Let_def show_read_def
        ra_def [symmetric] wa_def [symmetric])
qed

text \<open>Operations that all succeed: the demonstration reports the outcomes of the device.\<close>

lemma demo_ops:
  assumes "presents w d" "list_all command_ok cmds"
  shows "\<exists>w'. fold (demo_op cl tp) cmds (dm, w) =
      (dm\<lparr>results := results dm @ map Inr (fst (device_run cmds d))\<rparr>, w') \<and> presents w' (snd (device_run cmds d))"
  using assms
proof (induction cmds arbitrary: w d dm)
  case (Cons cmd cmds)
  obtain w1 where 1: "Client_exec cl tp cmd w = (Inr (fst (exec_device cmd d)), w1)" "presents w1 (snd (exec_device cmd d))"
    using exec [OF Cons.prems(1), of cmd] Cons.prems(2) by auto
  let ?dm = "dm\<lparr>results := results dm @ [Inr (fst (exec_device cmd d))]\<rparr>"
  have "demo_op cl tp cmd (dm, w) = (?dm, w1)" using 1 by (simp add: demo_op_def)
  with Cons.IH [OF 1(2), of ?dm] Cons.prems(2) show ?case by (auto split: prod.splits)
qed auto
end

section \<open>The link over the wire\<close>

definition idle_server :: "TCPConn \<times> MemoryStore \<Rightarrow> device \<Rightarrow> bool" where
  "idle_server w d \<longleftrightarrow> quiescent (fst w) \<and> mem_device (snd w) = d"

interpretation wire_link: modbus_link "\<lparr>unitID = u, retries = int n\<rparr>" "wire (setupDefaultHandlers memoryStore) now" idle_server
  for u n now
proof
  fix w d cmd assume w: "idle_server w d" "command_ok cmd"
  obtain c s where cs: "w = (c, s)" by (cases w)
  have "quiescent c" "mem_device s = d" using w(1) cs by (auto simp: idle_server_def)
  then show "\<exists>w'. Client_exec \<lparr>unitID = u, retries = int n\<rparr> (wire (setupDefaultHandlers memoryStore) now) cmd w =
      (Inr (fst (exec_device cmd d)), w') \<and> idle_server w' (snd (exec_device cmd d))"
    using mem_store.client_refines_device [OF w(2), of c "\<lparr>unitID = u, retries = int n\<rparr>" s now]
    by (fastforce simp: idle_server_def cs)
qed

section \<open>The bit-level view\<close>

lemma bit_byte_loop:
  assumes "s \<le> e" "e \<le> s + 8" "k < 8"
  shows "bit (byte_loop vs s e) k \<longleftrightarrow> s + k < e \<and> vs ! (s + k)"
  using assms
proof (induction e rule: dec_induct)
  case (step e)
  have "byte_loop vs s (Suc e) =
      (if vs ! e then byte_loop vs s e OR push_bit (e - s) 1 else byte_loop vs s e)"
    using step(1) by (simp add: byte_loop_def)
  then show ?case using step by (auto simp: bit_simps less_Suc_eq)
qed (simp add: byte_loop_def)

lemma byte_loop_pack:
  assumes "8 * j < length vs"
  shows "byte_loop vs (j * 8) (if j * 8 + 8 > length vs then length vs else j * 8 + 8) = pack_byte vs j"
  using assms by (intro bit_word_eqI) (auto simp: bit_byte_loop mult.commute)

lemma byte_rows_map:
  "byte_rows a vs j = map (\<lambda>k. \<lparr>byte_index = k, first_addr = a + int (8 * k),
       last_addr = a + int (min (8 * k + 8) (length vs)) - 1,
       bit_text = bits_text vs (8 * k) (pack_byte vs k), byte_val = pack_byte vs k\<rparr>) [j..<bytes_for_bits (length vs)]"
proof (induction a vs j rule: byte_rows.induct)
  case (1 a vs j)
  show ?case
  proof (cases "j * 8 < length vs")
    case True
    then have "j < bytes_for_bits (length vs)" by (auto simp: bytes_for_bits_def)
    with True 1 byte_loop_pack [of j vs] show ?thesis
      by (subst byte_rows.simps) (auto simp: Let_def upt_conv_Cons mult.commute min_def)
  next
    case False
    then have "bytes_for_bits (length vs) \<le> j" by (auto simp: bytes_for_bits_def)
    with False show ?thesis by (subst byte_rows.simps) simp
  qed
qed

text \<open>Reading the printed bits back.\<close>

definition read_bits :: "string \<Rightarrow> bool list" where
  "read_bits s = map (\<lambda>c. c = CHR ''1'') (filter (\<lambda>c. c \<noteq> CHR ''.'') (rev s))"

lemma read_bits_text:
  "read_bits (bits_text vs (8 * j) (pack_byte vs j)) = take 8 (drop (8 * j) vs)"
proof -
  let ?n = "length vs - 8 * j"
  have "bits_text vs (8 * j) (pack_byte vs j) =
      map (\<lambda>k. if k < ?n then (if vs ! (8 * j + k) then CHR ''1'' else CHR ''0'') else CHR ''.'') (rev [0..<8])"
    by (auto simp: bits_text_def less_diff_conv add.commute and_one_eq mod_2_eq_odd bit_iff_odd_drop_bit [symmetric])
  then have "read_bits (bits_text vs (8 * j) (pack_byte vs j)) =
      map (\<lambda>k. vs ! (8 * j + k)) (filter (\<lambda>k. k < ?n) [0..<8])"
    by (auto simp: read_bits_def rev_map filter_map comp_def intro!: map_cong filter_cong)
  also have "filter (\<lambda>k. k < n) [0..<m] = [0..<min m n]" for m n :: nat
    by (induction m) (auto simp: min_def not_less_eq_eq dest: le_antisym)
  finally show ?thesis by (auto intro!: nth_equalityI)
qed

lemma concat_chunks: "concat (map (\<lambda>j. take 8 (drop (8 * j) vs)) [i..<bytes_for_bits (length vs)]) = drop (8 * i) vs"
proof (induction "bytes_for_bits (length vs) - i" arbitrary: i)
  case 0
  then show ?case by (auto simp: bytes_for_bits_def)
next
  case (Suc n)
  have "drop (8 * i) vs = take 8 (drop (8 * i) vs) @ drop (8 * Suc i) vs"
    by (subst append_take_drop_id [of 8 "drop (8 * i) vs", symmetric]) (simp add: add.commute)
  with Suc(1) [of "Suc i"] Suc(2) show ?case by (simp add: upt_conv_Cons)
qed

lemma upto_chunk:
  "8 * k < n \<Longrightarrow> [a + 8 * int k..a + int (min (8 * k + 8) n) - 1] = take 8 (drop (8 * k) (map (\<lambda>j. a + int j) [0..<n]))"
  by (intro nth_equalityI) (auto simp: nth_upto min_def split: if_splits)

lemma count_loop: "foldl (\<lambda>n v. if v then n + 1 else n) (n :: nat) vs = n + length (filter id vs)"
  by (induction vs arbitrary: n) auto

section \<open>Titles\<close>

text \<open>
  A title of up to 70 characters is centred in a line of exactly 72; a longer one panics, although the
  function limits the padding for that case.
\<close>

lemma printSection_width:
  "(case printSection title of
      None \<Rightarrow> 70 < length title
    | Some ls \<Rightarrow> length title \<le> 70 \<and> map length ls = [72, 72, 72, 0])"
  by (auto simp: printSection_def Repeat_def trunc_half_def Let_def)

section \<open>Properties\<close>


lemma idle_connect: "idle_server (snd (connect None NewTCPConn), s) (mem_device s)"
  by (simp add: idle_server_def quiescent_connect)


text \<open>
  No reply makes a program panic.  Whatever the transport delivers, a read that succeeds has as many
  values as the program asked for, so the unchecked indexing in \<^verbatim>\<open>write_coils\<close>, \<^verbatim>\<open>write_registers\<close>,
  \<^verbatim>\<open>read_write_registers\<close> and \<^verbatim>\<open>read_registers\<close> stays in range.
\<close>

theorem tools_never_panic:
  "(case fst (write_coils client tp address value values w) of Inl _ \<Rightarrow> True | Inr r \<Rightarrow> verdict r \<noteq> Panicked) \<and>
   (case fst (write_registers client tp address number numbers w) of Inl _ \<Rightarrow> True | Inr r \<Rightarrow> verdict r \<noteq> Panicked) \<and>
   (case fst (read_write_registers client tp address readCount writeAddress text w) of
      Inl _ \<Rightarrow> True | Inr r \<Rightarrow> rw_verdict r \<noteq> Some Panicked) \<and>
   (case fst (read_registers client tp address count w) of Inl _ \<Rightarrow> True | Inr r \<Rightarrow> single_value r \<noteq> Inr None)"
proof (intro conjI)
  show "case fst (write_coils client tp address value values w) of Inl _ \<Rightarrow> True | Inr r \<Rightarrow> verdict r \<noteq> Panicked"
    by (auto simp: write_coils_def run_args_def dest: write_coils_args_ok
        split: sum.split args.split intro: write_verdicts [THEN notE])
  show "case fst (write_registers client tp address number numbers w) of Inl _ \<Rightarrow> True | Inr r \<Rightarrow> verdict r \<noteq> Panicked"
    by (auto simp: write_registers_def run_args_def dest: write_registers_args_ok
        split: sum.split args.split intro: write_verdicts [THEN notE])
  show "case fst (read_write_registers client tp address readCount writeAddress text w) of
      Inl _ \<Rightarrow> True | Inr r \<Rightarrow> rw_verdict r \<noteq> Some Panicked"
    using read_write_verdict [of _ client tp address readCount writeAddress w]
    by (auto simp: read_write_registers_def dest: read_write_args_ok split: sum.split)
  show "case fst (read_registers client tp address count w) of Inl _ \<Rightarrow> True | Inr r \<Rightarrow> single_value r \<noteq> Inr None"
    by (auto simp: read_registers_def or_complain_def Let_def dest: read_lengths split: sum.split prod.split)
qed

text \<open>
  C32: The byte view shows what was on the wire.  The bytes that \<^verbatim>\<open>read_coils\<close> prints under the states are
  the bytes of the server's reply behind its byte count, one row of eight bits for each, the bits read
  from the right are the states, the rows cover the addresses without gap, and the count of the summary
  is that of the states that are on.
\<close>

theorem display_shows_wire:
  fixes address :: int
  assumes "idle_server w d" "1 \<le> count" "count \<le> int MaxCoilCount"
  defines "vs \<equiv> read_range (d_coils d) (word_of_int address) (nat count)"
  shows "\<exists>w' view. read_coils \<lparr>unitID = u, retries = 2\<rparr> (wire (setupDefaultHandlers memoryStore) now)
        address count False w = (Inr (Inr view), w') \<and> idle_server w' d \<and>
      map snd (states view) = vs \<and>
      tl (response_data (CReadCoils (word_of_int address) (word_of_int count)) d) = map byte_val (byte_view view) \<and>
      concat (map (\<lambda>r. read_bits (bit_text r)) (byte_view view)) = vs \<and>
      list_all (\<lambda>r. length (bit_text r) = 8) (byte_view view) \<and>
      concat (map (\<lambda>r. [first_addr r..last_addr r]) (byte_view view)) = map fst (states view) \<and>
      onCount view = length (filter id vs)"
proof -
  let ?a = "word_of_int address :: u16" and ?q = "word_of_int count :: u16"
  let ?view = "displayBoolValues ?a vs"
  have q: "unat ?q = nat count" using assms(2,3) by (simp add: unat_int16)
  have n: "length vs = nat count" by (simp add: vs_def)
  obtain w' where w': "Client_ReadCoils \<lparr>unitID = u, retries = 2\<rparr> (wire (setupDefaultHandlers memoryStore) now) ?a ?q w =
      (Inr vs, w')" "idle_server w' d"
    using wire_link.read_coils_link [OF assms(1), of ?q u 2 now ?a] assms(2,3) q
    by (auto simp: vs_def nat_le_iff)
  have f1: "read_coils \<lparr>unitID = u, retries = 2\<rparr> (wire (setupDefaultHandlers memoryStore) now) address count False w =
      (Inr (Inr ?view), w')"
    using w'(1) assms(2,3) by (simp add: read_coils_def readCoils_def)
  have f2: "map snd (states ?view) = vs"
    by (simp add: displayBoolValues_def table_def comp_def map_nth)
  have f3: "tl (response_data (CReadCoils ?a ?q) d) = map byte_val (byte_view ?view)"
    by (simp add: displayBoolValues_def byte_rows_map q vs_def pack_bits_def)
  have f4: "concat (map (\<lambda>r. read_bits (bit_text r)) (byte_view ?view)) = vs"
    using concat_chunks [of vs 0] by (simp add: displayBoolValues_def byte_rows_map comp_def read_bits_text)
  have f5: "list_all (\<lambda>r. length (bit_text r) = 8) (byte_view ?view)"
    by (simp add: displayBoolValues_def byte_rows_map list_all_iff bits_text_def)
  have f6: "concat (map (\<lambda>r. [first_addr r..last_addr r]) (byte_view ?view)) = map fst (states ?view)"
  proof -
    let ?as = "map (\<lambda>j. uint ?a + int j) [0..<length vs]"
    have "map (\<lambda>r. [first_addr r..last_addr r]) (byte_view ?view) =
        map (\<lambda>k. take 8 (drop (8 * k) ?as)) [0..<bytes_for_bits (length ?as)]"
      by (auto simp: displayBoolValues_def byte_rows_map bytes_for_bits_def intro!: upto_chunk)
    also have "concat \<dots> = ?as" using concat_chunks [of ?as 0] by simp
    finally show ?thesis by (simp add: displayBoolValues_def table_def comp_def)
  qed
  have f7: "onCount ?view = length (filter id vs)" by (simp add: displayBoolValues_def count_loop)
  from f1 f2 f3 f4 f5 f6 f7 w'(2) show ?thesis by (intro exI [of _ w'] exI [of _ ?view] conjI)
qed

theorem display_shows_wire_witness:
  "\<exists>w' view. read_coils \<lparr>unitID = 1, retries = 2\<rparr> (wire (setupDefaultHandlers memoryStore) 0)
        8 3 False (snd (connect None NewTCPConn), demo_store) = (Inr (Inr view), w') \<and>
      map snd (states view) = [True, False, False] \<and> map byte_val (byte_view view) = [1]"
proof -
  have r: "read_range (d_coils (mem_device demo_store)) 8 3 = [True, False, False]"
    by (simp add: mem_device_def bank_def demo_store_def SetCoil_def SetDiscreteInput_def SetHoldingRegister_def
        SetInputRegister_def NewMemoryStore_def read_range_def upt_rec)
  have "pack_bits [True, False, False] = [1]" by code_simp
  with display_shows_wire [OF idle_connect [of demo_store], where count = 3 and address = 8 and u = 1 and now = 0] r
  show ?thesis by auto
qed

lemma demo_outcomes:
  "\<exists>bs. fst (device_run demo_commands d) ! 3 = Bits (coilPattern @ bs)"
  "\<exists>rs. fst (device_run demo_commands d) ! 8 = Regs (42 # rs @ [100, 200, 300, 400, 500])"
  "fst (device_run demo_commands d) ! 11 = Regs [9999, 8888]"
  "length (fst (device_run demo_commands d)) = 12"
  by (simp_all add: demo_commands_def coils_section_def inputs_section_def holding_section_def
        input_registers_section_def read_write_section_def Let_def read_range_def write_range_def upt_rec)



text \<open>
  \<^verbatim>\<open>write_registers\<close> takes its single value from an \<^verbatim>\<open>int\<close> flag and converts it: a value past 65535 is
  written modulo 65536 and verified, where the list form refuses it.
\<close>

theorem write_registers_truncates:
  "write_registers_args 70000 [] = Inr (Single 4464)"
  "write_registers_args (-1) (bytes_of ''70000'') = Inl (BadValue 0 (bytes_of ''70000''))"
  by (simp_all add: write_registers_args_def parse_values_def register_word_def ParseUint_def bytes_of_def TrimSpace_digits
      isAllDigits_def digits_value_def)

text \<open>The polling program numbers its polls and survives every error; only a signal ends it.\<close>

lemma poll_loop_counts:
  "map fst (fst (poll_loop client tp address n evs w)) = [Suc n..<Suc n + length (takeWhile (\<lambda>e. e = Tick) evs)]"
proof (induction evs arbitrary: n w)
  case (Cons e evs)
  then show ?case by (cases e) (simp_all add: case_prod_unfold upt_conv_Cons del: upt_Suc)
qed simp

end
