(* ===== verification/Pccc_Tools.thy ===== *)
theory Pccc_Tools
  imports Pccc_Client Modbus_Tools
begin

text \<open>
  The programs under \<^verbatim>\<open>src/examples/ethernetip\<close> that talk to an SLC or MicroLogix controller:
  \<^verbatim>\<open>pccc_read\<close>, \<^verbatim>\<open>pccc_write\<close> and \<^verbatim>\<open>pccc_monitor\<close>.  What a program prints is a value; the flags, the
  dialling and the printing are left out, and the conversion of a text to single precision is an
  argument.  The reader and the monitor show the same value for the same reply, and what the
  writer is given is what both show, as far as a word can hold it.
\<close>

unbundle bit_operations_syntax

section \<open>pccc_read\<close>

definition pccc_read_size :: "PcccAddress \<Rightarrow> int" where
  "pccc_read_size a =
     (if a_FileType a = FileTypeFloat then 4
      else if isTimerLike (a_FileType a) then (if a_SubElement a > 0 \<or> a_BitNum a \<ge> 0 then 2 else 6)
      else 2)"

datatype pccc_shown =
    ShortReply nat
  | ShownReal u32
  | ShownElement u16 u16 u16
  | ShownBit u16 int u16
  | ShownWord u16

text \<open>A word, whole or one bit of it; the first case falls through to it.\<close>

definition printWord :: "PcccAddress \<Rightarrow> byte list \<Rightarrow> pccc_shown" where
  "printWord a data =
     (if length data < 2 then ShortReply (length data)
      else let word = le16_at data 0 in
           if a_BitNum a \<ge> 0 then ShownBit (drop_bit (nat (a_BitNum a)) word AND 1) (a_BitNum a) word
           else ShownWord word)"

definition printValue :: "PcccAddress \<Rightarrow> byte list \<Rightarrow> pccc_shown" where
  "printValue a data =
     (if a_FileType a = FileTypeFloat then
        (if length data < 4 then ShortReply (length data) else ShownReal (le_get (take 4 data)))
      else if isTimerLike (a_FileType a) then
        (if a_SubElement a = 0 \<and> a_BitNum a < 0 then
           (if length data < 6 then ShortReply (length data)
            else ShownElement (le16_at data 0) (le16_at data 2) (le16_at data 4))
         else printWord a data)
      else printWord a data)"

record pccc_report =
  pr_address :: PcccAddress
  pr_size :: int
  pr_request :: "byte list"
  pr_reply :: "byte list"
  pr_mismatch :: bool
  pr_value :: pccc_shown

text \<open>The transaction number is the low half of the clock.\<close>

definition pccc_read :: "'w executor \<Rightarrow> u64 \<Rightarrow> byte list \<Rightarrow> 'w \<Rightarrow> (perr + pccc_report) \<times> 'w" where
  "pccc_read exec nanos tag w =
     (if tag = [] then (Inl (PErrorf ''-tag is required''), w)
      else case ParseAddress tag of
        Inl err \<Rightarrow> (Inl err, w)
      | Inr a \<Rightarrow>
          (let byteSize = pccc_read_size a; tns = ucast (nanos AND 0xFFFF) in
           case EncodeTypedRead tns byteSize (a_FileNumber a) (a_FileType a) (a_Element a) (a_SubElement a) of
             Inl err \<Rightarrow> (Inl err, w)
           | Inr cmd \<Rightarrow>
               (case exec cmd w of
                  (Inl err, w) \<Rightarrow> (Inl (PExec err), w)
                | (Inr rawReply, w) \<Rightarrow>
                    (case DecodeReply rawReply of
                       Inl err \<Rightarrow> (Inl err, w)
                     | Inr r \<Rightarrow>
                         (Inr \<lparr>pr_address = a, pr_size = byteSize, pr_request = cmd, pr_reply = rawReply,
                               pr_mismatch = (r_TNS r \<noteq> tns), pr_value = printValue a (r_Data r)\<rparr>, w)))))"

section \<open>pccc_write\<close>

text \<open>The text of \<^verbatim>\<open>-value\<close> as the Go value for the address.\<close>

definition pccc_coerce :: "(byte list \<Rightarrow> u32 option) \<Rightarrow> PcccAddress \<Rightarrow> byte list \<Rightarrow> string + goval" where
  "pccc_coerce ParseFloat a val =
     (if a_BitNum a \<ge> 0 then
        (if ToLower val \<in> set (map bytes_of [''1'', ''true'', ''on'', ''high'']) then Inr (VBool True)
         else if ToLower val \<in> set (map bytes_of [''0'', ''false'', ''off'', ''low'']) then Inr (VBool False)
         else Inl ''bit write: -value must be 0 or 1'')
      else if a_FileType a = FileTypeFloat then
        (case ParseFloat val of None \<Rightarrow> Inl ''float write'' | Some f \<Rightarrow> Inr (VFloat32 f))
      else
        (case Atoi val of None \<Rightarrow> Inl ''integer write'' | Some n \<Rightarrow> Inr (VInt16 (word_of_int n))))"

definition pccc_write :: "(byte list \<Rightarrow> u32 option) \<Rightarrow> (goval \<Rightarrow> u32) \<Rightarrow> 'w executor \<Rightarrow> byte list \<Rightarrow> byte list \<Rightarrow> 'w pccc_state \<Rightarrow>
    (perr + goval) \<times> 'w pccc_state" where
  "pccc_write ParseFloat single exec tag val s =
     (case ParseAddress tag of
        Inl err \<Rightarrow> (Inl err, s)
      | Inr a \<Rightarrow>
          (case pccc_coerce ParseFloat a val of
             Inl err \<Rightarrow> (Inl (PErrorf err), s)
           | Inr goVal \<Rightarrow>
               (case WriteAddress single exec tag goVal s of
                  (Inl err, s) \<Rightarrow> (Inl err, s)
                | (Inr _, s) \<Rightarrow> (Inr goVal, s))))"

section \<open>pccc_monitor\<close>

definition monitor_addresses :: "byte list \<Rightarrow> string + byte list list" where
  "monitor_addresses tagList =
     (let tags = map TrimSpace (split_on 0x2C tagList) in
      if length tags = 0 \<or> tags ! 0 = [] then Inl ''-tags is required'' else Inr tags)"

datatype pccc_text = TextBool bool | TextFloat u32 | TextInt u64 | TextHex "byte list"

definition pccc_formatValue :: "'dp Value \<Rightarrow> pccc_text" where
  "pccc_formatValue v =
     (case Type v of
        TypeBool \<Rightarrow> TextBool (Value_Bool v)
      | TypeFloat32 \<Rightarrow> (case Value_Float32 v of Inr f \<Rightarrow> TextFloat f | Inl _ \<Rightarrow> TextHex (Raw v))
      | TypeInt16 \<Rightarrow> (case Value_Int v of Inr i \<Rightarrow> TextInt i | Inl _ \<Rightarrow> TextHex (Raw v))
      | _ \<Rightarrow> TextHex (Raw v))"

text \<open>What the loop prints for an event: an error, a changed value, or nothing.\<close>

definition monitor_prints :: "(perr + 'dp Value) \<Rightarrow> bool \<Rightarrow> (perr + pccc_text) option" where
  "monitor_prints ev changed =
     (case ev of Inl err \<Rightarrow> Some (Inl err)
      | Inr v \<Rightarrow> if \<not> changed then None else Some (Inr (pccc_formatValue v)))"

section \<open>Lemmas\<close>

text \<open>The texts of reader and monitor for one value.\<close>

fun same_value :: "pccc_shown \<Rightarrow> pccc_text \<Rightarrow> bool" where
  "same_value (ShownReal f) t \<longleftrightarrow> t = TextFloat f"
| "same_value (ShownElement ctl pre acc) t \<longleftrightarrow> t = TextHex (le16 ctl @ le16 pre @ le16 acc)"
| "same_value (ShownBit b n word) t \<longleftrightarrow> t = TextBool (b \<noteq> 0) \<and> (b \<noteq> 0 \<longleftrightarrow> bit word (nat n))"
| "same_value (ShownWord word) t \<longleftrightarrow> t = TextInt (scast word)"
| "same_value (ShortReply n) t \<longleftrightarrow> False"

lemma parsed_no_float_bit:
  assumes "ParseAddress s = Inr a"
  shows "\<not> (a_FileType a = FileTypeFloat \<and> 0 \<le> a_BitNum a)"
  using ParseAddress_ok [OF assms]
  by (auto simp: address_ok_def supportsBitSuffix_def fieldNameFor_def tableFor_def)

lemma pccc_sizes_agree:
  assumes "ParseAddress s = Inr a"
  shows "pccc_read_size a = elementBytes a 1"
  using parsed_no_float_bit [OF assms] by (auto simp: pccc_read_size_def elementBytes_def isTimerLike_def)


lemma le16_value: "(le_get [x, y] :: u16) = get_le16 x y"
  by (simp add: le_get_def get_le16_def)

lemma bit_low: "drop_bit n (w :: u16) AND 1 = of_bool (bit w n)"
  by (simp add: and_one_eq mod_2_eq_odd bit_iff_odd_drop_bit)

lemma front_elements:
  "4 \<le> length data \<Longrightarrow> clip data 4 = take 4 data"
  "2 \<le> length data \<Longrightarrow> clip data 2 = take 2 data"
  "6 \<le> length data \<Longrightarrow> clip data 6 = le16 (le16_at data 0) @ le16 (le16_at data 2) @ le16 (le16_at data 4)"
proof -
  show "4 \<le> length data \<Longrightarrow> clip data 4 = take 4 data" "2 \<le> length data \<Longrightarrow> clip data 2 = take 2 data"
    by (auto simp: clip_def)
  assume "6 \<le> length data"
  then show "clip data 6 = le16 (le16_at data 0) @ le16 (le16_at data 2) @ le16 (le16_at data 4)"
    by (auto simp: clip_def le16_at_def le16_get_le16 numeral_nat Suc_le_length_iff)
qed

lemma pccc_views:
  assumes "\<not> (a_FileType a = FileTypeFloat \<and> 0 \<le> a_BitNum a)" "0 \<le> a_SubElement a" "elementBytes a 1 \<le> int (length data)"
  shows "\<exists>v. file_value a 1 (elementBytes a 1) data = Inr v \<and> same_value (printValue a data) (pccc_formatValue v)"
proof (cases "0 \<le> a_BitNum a")
  case True
  then show ?thesis using assms
    by (auto simp: elementBytes_def file_value_def Let_def printValue_def printWord_def pccc_formatValue_def Value_Bool_def bit_low)
next
  case False
  consider "a_FileType a = FileTypeFloat" | "isTimerLike (a_FileType a)" "a_SubElement a = 0" | "elementBytes a 1 = 2"
      "\<not> (isTimerLike (a_FileType a) \<and> a_SubElement a = 0)" "a_FileType a \<noteq> FileTypeFloat"
  proof -
    have "elementBytes a 1 = 2" if "\<not> (isTimerLike (a_FileType a) \<and> a_SubElement a = 0)" "a_FileType a \<noteq> FileTypeFloat"
      using that False assms(2) by (auto simp: elementBytes_def)
    with that show thesis by blast
  qed
  then show ?thesis
  proof cases
    case 1
    then show ?thesis using assms(3) False
      by (simp add: elementBytes_def file_value_def printValue_def pccc_formatValue_def front_elements Value_Float32_def with_order_def)
  next
    case 2
    then have "a_FileType a \<noteq> FileTypeFloat" by (auto simp: isTimerLike_def)
    then show ?thesis using 2 assms(3) False
      by (simp add: elementBytes_def file_value_def printValue_def pccc_formatValue_def front_elements)
  next
    case 3
    then have two: "2 \<le> length data" using assms(3) by simp
    then have "take 2 data = [data ! 0, data ! 1]" by (auto simp: numeral_nat Suc_le_length_iff)
    with 3 two False show ?thesis
      by (auto simp: file_value_def printValue_def printWord_def pccc_formatValue_def front_elements Value_Int_def with_order_def
          le16_value le16_at_def)
  qed
qed

lemma parsed_sub: "ParseAddress s = Inr a \<Longrightarrow> 0 \<le> a_SubElement a"
  using ParseAddress_frameable [of s a] by (auto simp: frameable_def validateAddress_def split: if_splits)

lemma pccc_read_reply:
  assumes "ParseAddress tag = Inr a" "tag \<noteq> []"
    "\<And>tns. exec (read_frame a (pccc_read_size a) tns) w = (Inr (reply_frame tns data), w')"
  shows "\<exists>r. pccc_read exec nanos tag w = (Inr r, w') \<and> pr_address r = a \<and> \<not> pr_mismatch r \<and> pr_value r = printValue a data"
proof -
  have "frameable a" by (rule ParseAddress_frameable [OF assms(1)])
  moreover have "1 \<le> pccc_read_size a" "pccc_read_size a \<le> 240" by (simp_all add: pccc_read_size_def)
  ultimately show ?thesis using assms DecodeReply_frame
    by (simp add: pccc_read_def Let_def EncodeTypedRead_def frameable_def)
qed

section \<open>Properties\<close>

text \<open>
  C20: reader and monitor of a PCCC controller show the same.  For every address both accept and a
  controller that answers the typed read of that address with enough bytes, \<^verbatim>\<open>pccc_read\<close> and the
  client behind \<^verbatim>\<open>pccc_monitor\<close> ask for the same number of bytes, both succeed, and what they show is the
  same: the bit, the float, the signed word, or the three words of a timer, counter or control.
\<close>

theorem pccc_viewers_agree:
  assumes "ParseAddress tag = Inr a" "tag \<noteq> []" "pccc_read_size a \<le> int (length data)"
    "\<And>tns. exec (read_frame a (pccc_read_size a) tns) w = (Inr (reply_frame tns data), w')"
  shows "\<exists>r v t'. pccc_read exec nanos tag w = (Inr r, w') \<and> \<not> pr_mismatch r \<and>
    ReadAddress exec tag (t, w) = (Inr v, t', w') \<and>
    (\<exists>text. monitor_prints (Inr v) True = Some (Inr text) \<and> same_value (pr_value r) text)"
proof -
  have sz: "pccc_read_size a = elementBytes a 1" by (rule pccc_sizes_agree [OF assms(1)])
  obtain r where r: "pccc_read exec nanos tag w = (Inr r, w')" "\<not> pr_mismatch r" "pr_value r = printValue a data"
    using pccc_read_reply [OF assms(1,2), of exec w data w' nanos] assms(4) by blast
  obtain v where v: "file_value a 1 (elementBytes a 1) data = Inr v" "same_value (printValue a data) (pccc_formatValue v)"
    using pccc_views [OF parsed_no_float_bit [OF assms(1)] parsed_sub [OF assms(1)]] assms(3) sz by auto
  have "rawRead exec a (elementBytes a 1) (t, w) = (Inr data, snd (nextTNS t), w')"
    using rawRead_reply [of a "elementBytes a 1" exec w "\<lambda>tns. tns" data w' t, OF ParseAddress_frameable [OF assms(1)]] assms(4)
    by (simp add: sz [symmetric]) (simp add: pccc_read_size_def)
  then have "ReadAddress exec tag (t, w) = (Inr v, snd (nextTNS t), w')"
    using assms(1) v(1) by (simp add: ReadAddress_def readFile_def File_parse_def effectiveCount_def)
  then show ?thesis using r v(2) by (auto simp: monitor_prints_def)
qed

text \<open>
  What \<^verbatim>\<open>pccc_write\<close> is given is what \<^verbatim>\<open>pccc_read\<close> shows.  For an integer in the range of a word and an
  address of a word, and a controller that stores what it is written, the reader run after the
  writer shows the word of that integer.
\<close>

theorem pccc_write_then_read:
  assumes "ParseAddress tag = Inr a" "tag \<noteq> []" "a_BitNum a < 0" "a_FileType a \<noteq> FileTypeFloat" "pccc_read_size a = 2"
    "Atoi val = Some n" "-32768 \<le> n" "n \<le> 32767"
    "\<And>tns. exec (write_frame a (le16 (word_of_int n)) tns) w = (Inr (reply_frame tns []), w1)"
    "\<And>tns. exec (read_frame a 2 tns) w1 = (Inr (reply_frame tns (le16 (word_of_int n))), w2)"
  shows "\<exists>t' r x. pccc_write ParseFloat single exec tag val (t, w) = (Inr (VInt16 (word_of_int n)), t', w1) \<and>
    pccc_read exec nanos tag w1 = (Inr r, w2) \<and> pr_value r = ShownWord x \<and> sint x = n"
proof -
  let ?n = "word_of_int n :: u16"
  have "writeBytes exec a (le16 ?n) (t, w) = (Inr (), snd (nextTNS t), w1)"
    using writeBytes_reply [of a "le16 ?n" exec w "\<lambda>tns. tns" "[]" w1 t, OF ParseAddress_frameable [OF assms(1)]] assms(9)
    by (simp add: le16_def)
  then have wr: "pccc_write ParseFloat single exec tag val (t, w) = (Inr (VInt16 ?n), snd (nextTNS t), w1)"
    using assms(1,3,4,6) by (simp add: pccc_write_def pccc_coerce_def WriteAddress_def)
  obtain r where rd: "pccc_read exec nanos tag w1 = (Inr r, w2)" "pr_value r = printValue a (le16 ?n)"
    using pccc_read_reply [OF assms(1,2), of exec w1 "le16 ?n" w2 nanos] assms(10) unfolding assms(5) by blast
  have "printValue a (le16 ?n) = printWord a (le16 ?n)"
    using assms(3-5) by (auto simp: printValue_def pccc_read_size_def split: if_splits)
  also have "\<dots> = ShownWord ?n"
    using assms(3) le16_at_append [of "[]" 0 ?n "[]"] by (simp add: printWord_def)
  finally have "pr_value r = ShownWord ?n" by (simp add: rd(2))
  moreover have "sint ?n = n" using assms(7,8) by (simp add: signed_of_int signed_take_bit_int_eq_self)
  ultimately show ?thesis using wr rd(1) by blast
qed

text \<open>Any other integer is cut to a word without an error, which the client would have refused.\<close>

lemma pccc_write_truncates:
  assumes "a_BitNum a < 0" "a_FileType a \<noteq> FileTypeFloat"
  shows "pccc_coerce ParseFloat a (bytes_of ''65536'') = Inr (VInt16 0) \<and> int16Of (VInt 65536) = None"
proof -
  have "Atoi (bytes_of ''65536'') = Some 65536"
    by (simp add: Atoi_def pccc_isAllDigits_eq isAllDigits_def digits_value_def bytes_of_def)
  then show ?thesis using assms by (simp add: pccc_coerce_def)
qed

theorem pccc_viewers_agree_witness:
  "\<exists>r v t'. pccc_read register_plc 7 (bytes_of ''N7:0'') [0xFE, 0xFF] = (Inr r, [0xFE, 0xFF]) \<and>
     ReadAddress register_plc (bytes_of ''N7:0'') (1, [0xFE, 0xFF]) = (Inr v, t', [0xFE, 0xFF]) \<and>
     (\<exists>text. monitor_prints (Inr v) True = Some (Inr text) \<and> same_value (pr_value r) text)"
proof -
  let ?a = "\<lparr>a_FileType = 0x89, a_FileNumber = 7, a_Element = 0, a_SubElement = 0, a_BitNum = -1\<rparr>"
  have p: "ParseAddress (bytes_of ''N7:0'') = Inr ?a" by code_simp
  have ne: "bytes_of ''N7:0'' \<noteq> []" by (simp add: bytes_of_def)
  have sz: "pccc_read_size ?a = 2" by (simp add: pccc_read_size_def isTimerLike_def)
  from pccc_viewers_agree [OF p ne, of "[0xFE, 0xFF]" register_plc "[0xFE, 0xFF]" "[0xFE, 0xFF]" 7 1] show ?thesis
    by (auto simp: sz register_plc_def nth_append le16_def)
qed

theorem pccc_write_then_read_witness:
  "\<exists>t' r x. pccc_write (\<lambda>_. None) (\<lambda>_. 0) register_plc (bytes_of ''N7:0'') (bytes_of ''-2'') (1, []) =
       (Inr (VInt16 (word_of_int (-2))), t', [0xFE, 0xFF]) \<and>
     pccc_read register_plc 7 (bytes_of ''N7:0'') [0xFE, 0xFF] = (Inr r, [0xFE, 0xFF]) \<and> pr_value r = ShownWord x \<and> sint x = -2"
proof -
  let ?a = "\<lparr>a_FileType = 0x89, a_FileNumber = 7, a_Element = 0, a_SubElement = 0, a_BitNum = -1\<rparr>"
  have p: "ParseAddress (bytes_of ''N7:0'') = Inr ?a" by code_simp
  have ne: "bytes_of ''N7:0'' \<noteq> []" by (simp add: bytes_of_def)
  have sz: "pccc_read_size ?a = 2" by (simp add: pccc_read_size_def isTimerLike_def)
  have v: "Atoi (bytes_of ''-2'') = Some (-2)" by code_simp
  have b: "le16 (word_of_int (-2)) = [0xFE, 0xFF]" by (simp add: le16_def)
  show ?thesis
  proof (rule pccc_write_then_read [OF p ne _ _ sz v])
    show "register_plc (write_frame ?a (le16 (word_of_int (-2))) tns) [] = (Inr (reply_frame tns []), [0xFE, 0xFF])" for tns
      by (simp add: b register_plc_def nth_append) (simp add: le16_def)
    show "register_plc (read_frame ?a 2 tns) [0xFE, 0xFF] = (Inr (reply_frame tns (le16 (word_of_int (-2)))), [0xFE, 0xFF])" for tns
      by (simp add: b register_plc_def nth_append) (simp add: le16_def)
  qed simp_all
qed

end
