(* ===== verification/Lua_Scripts.thy ===== *)
theory Lua_Scripts
  imports Prelude
begin

text \<open>
  The Lua scripts the programs under \<^verbatim>\<open>src/examples/lua\<close> carry.  The condition monitor
  (\<^verbatim>\<open>condition_monitor/main.go\<close>): its signal tracker, its condition engine, its three conditions and its
  scan loop; \<^verbatim>\<open>monitor_tags\<close> and \<^verbatim>\<open>ethernetip_client\<close>, which pick tags from a listing and read them.
  The methods of the client, the clock and the pause are arguments.  Lua's values are a type with
  nil, the booleans and the language's equality.  A condition is active in the script exactly when
  the sequence of successful reads satisfies it, and its callbacks run on its transitions only; the
  marks of \<^verbatim>\<open>monitor_tags\<close> are the changes since the last cycle that succeeded.
\<close>

section \<open>Lua's values\<close>

record 'v lua_values =
  lv_nil :: 'v
  lv_bool :: "bool \<Rightarrow> 'v"
  lv_eq :: "'v \<Rightarrow> 'v \<Rightarrow> bool"
  lv_tostring :: "'v \<Rightarrow> string"

text \<open>
  Equality of the language: it is symmetric and transitive, but not reflexive, because of the
  float that is not a number; nil and the two booleans are equal to themselves only.
\<close>

definition lua_values_ok :: "'v lua_values \<Rightarrow> bool" where
  "lua_values_ok L \<longleftrightarrow>
     (\<forall>x y. lv_eq L x y \<longrightarrow> lv_eq L y x) \<and> (\<forall>x y z. lv_eq L x y \<longrightarrow> lv_eq L y z \<longrightarrow> lv_eq L x z) \<and>
     (\<forall>a b. lv_eq L (lv_bool L a) (lv_bool L b) \<longleftrightarrow> a = b) \<and>
     lv_eq L (lv_nil L) (lv_nil L) \<and> (\<forall>a. \<not> lv_eq L (lv_nil L) (lv_bool L a))"

section \<open>Signal tracker\<close>

text \<open>A table gives nil for a key it lacks; a time is a number, which is true in a condition.\<close>

record 'v signals =
  sig_val :: "string \<Rightarrow> 'v"
  sig_since :: "string \<Rightarrow> int option"

definition sig_set :: "'v lua_values \<Rightarrow> string \<Rightarrow> 'v \<Rightarrow> int \<Rightarrow> 'v signals \<Rightarrow> 'v signals" where
  "sig_set L name new_val now sig =
     (let sig = (if \<not> lv_eq L (sig_val sig name) new_val
                 then sig\<lparr>sig_since := (sig_since sig)(name \<mapsto> now)\<rparr> else sig);
          sig = (if sig_since sig name = None
                 then sig\<lparr>sig_since := (sig_since sig)(name \<mapsto> now)\<rparr> else sig)
      in sig\<lparr>sig_val := (sig_val sig)(name := new_val)\<rparr>)"

definition sig_get :: "string \<Rightarrow> 'v signals \<Rightarrow> 'v" where
  "sig_get name sig = sig_val sig name"

definition held :: "'v lua_values \<Rightarrow> string \<Rightarrow> 'v \<Rightarrow> int \<Rightarrow> int \<Rightarrow> 'v signals \<Rightarrow> bool" where
  "held L name expected ms now sig =
     (if \<not> lv_eq L (sig_val sig name) expected then False
      else now - (case sig_since sig name of Some t \<Rightarrow> t | None \<Rightarrow> now) \<ge> ms)"

section \<open>Condition engine\<close>

text \<open>An \<^verbatim>\<open>eval\<close> may raise an error, which \<^verbatim>\<open>pcall\<close> turns into false; the callbacks print a line.\<close>

record 'v condition =
  c_name :: string
  c_eval :: "'v signals \<Rightarrow> int \<Rightarrow> string + bool"
  c_on_active :: string
  c_on_clear :: string

datatype line =
    Fired int string
  | ScanStatus int int string string

record 'v script =
  sc_sig :: "'v signals"
  sc_conditions :: "'v condition list"
  sc_state :: "string \<Rightarrow> bool"
  sc_cycle :: int
  sc_out :: "line list"

text \<open>\<^verbatim>\<open>define\<close> enters the state of the condition as cleared.\<close>

definition define_condition :: "'v condition \<Rightarrow> 'v script \<Rightarrow> 'v script" where
  "define_condition c s = s\<lparr>sc_conditions := sc_conditions s @ [c], sc_state := (sc_state s)(c_name c := False)\<rparr>"

definition callback :: "('w \<Rightarrow> int \<times> 'w) \<Rightarrow> string \<Rightarrow> 'v script \<Rightarrow> 'w \<Rightarrow> 'v script \<times> 'w" where
  "callback clock_ms text s w = (let (ms, w) = clock_ms w in (s\<lparr>sc_out := sc_out s @ [Fired ms text]\<rparr>, w))"

definition evaluate_one :: "('w \<Rightarrow> int \<times> 'w) \<Rightarrow> int \<Rightarrow> 'v condition \<Rightarrow> 'v script \<Rightarrow> 'w \<Rightarrow> 'v script \<times> 'w" where
  "evaluate_one clock_ms now c s w =
     (let result = (case c_eval c (sc_sig s) now of Inl _ \<Rightarrow> False | Inr b \<Rightarrow> b);
          active = sc_state s (c_name c)
      in if result \<and> \<not> active
         then callback clock_ms (c_on_active c) (s\<lparr>sc_state := (sc_state s)(c_name c := True)\<rparr>) w
         else if \<not> result \<and> active
         then callback clock_ms (c_on_clear c) (s\<lparr>sc_state := (sc_state s)(c_name c := False)\<rparr>) w
         else (s, w))"

fun evaluate_loop :: "('w \<Rightarrow> int \<times> 'w) \<Rightarrow> int \<Rightarrow> 'v condition list \<Rightarrow> 'v script \<Rightarrow> 'w \<Rightarrow> 'v script \<times> 'w" where
  "evaluate_loop clock_ms now [] s w = (s, w)"
| "evaluate_loop clock_ms now (c # cs) s w =
     (let (s, w) = evaluate_one clock_ms now c s w in evaluate_loop clock_ms now cs s w)"

definition evaluate :: "('w \<Rightarrow> int \<times> 'w) \<Rightarrow> int \<Rightarrow> 'v script \<Rightarrow> 'w \<Rightarrow> 'v script \<times> 'w" where
  "evaluate clock_ms now s w = evaluate_loop clock_ms now (sc_conditions s) s w"

section \<open>Tags and conditions\<close>

text \<open>The signal's name and the tag it is read from.\<close>

definition tags :: "(string \<times> string) list" where
  "tags = [(''estop'', ''EStop''), (''is_running'', ''MachineRunning''), (''estop_clear'', ''EStopReset''),
           (''drive_ready'', ''DriveReady'')]"

text \<open>The dash of the printed lines is three bytes.\<close>

abbreviation (input) dash :: string where
  "dash \<equiv> '' '' @ [CHR 0xE2, CHR 0x80, CHR 0x94] @ '' ''"

definition safe_to_run :: "'v lua_values \<Rightarrow> 'v condition" where
  "safe_to_run L = \<lparr>c_name = ''safe_to_run'',
     c_eval = (\<lambda>sig now. Inr (lv_eq L (sig_get ''estop'' sig) (lv_bool L False)
                \<and> lv_eq L (sig_get ''is_running'' sig) (lv_bool L True)
                \<and> held L ''estop_clear'' (lv_bool L True) 500 now sig
                \<and> held L ''is_running'' (lv_bool L True) 1000 now sig)),
     c_on_active = ''ACTIVE  safe_to_run'' @ dash @ ''machine cleared to operate'',
     c_on_clear = ''CLEARED safe_to_run''\<rparr>"

definition drive_fault :: "'v lua_values \<Rightarrow> 'v condition" where
  "drive_fault L = \<lparr>c_name = ''drive_fault'',
     c_eval = (\<lambda>sig now. Inr (lv_eq L (sig_get ''is_running'' sig) (lv_bool L True)
                \<and> held L ''drive_ready'' (lv_bool L False) 200 now sig)),
     c_on_active = ''ALARM   drive_fault'' @ dash @ ''drive not ready while running'',
     c_on_clear = ''CLEARED drive_fault''\<rparr>"

definition estop_active :: "'v lua_values \<Rightarrow> 'v condition" where
  "estop_active L = \<lparr>c_name = ''estop_active'',
     c_eval = (\<lambda>sig now. Inr (lv_eq L (sig_get ''estop'' sig) (lv_bool L True))),
     c_on_active = ''ESTOP   emergency stop engaged'',
     c_on_clear = ''CLEARED e-stop released''\<rparr>"

definition script_start :: "'v lua_values \<Rightarrow> 'v script" where
  "script_start L =
     define_condition (estop_active L) (define_condition (drive_fault L) (define_condition (safe_to_run L)
       \<lparr>sc_sig = \<lparr>sig_val = (\<lambda>_. lv_nil L), sig_since = (\<lambda>_. None)\<rparr>, sc_conditions = [],
        sc_state = (\<lambda>_. False), sc_cycle = 0, sc_out = []\<rparr>))"

section \<open>Scan loop\<close>

text \<open>\<^verbatim>\<open>read_tag\<close> gives a Lua error or a value, or does not return; an error leaves the signal alone.\<close>

type_synonym ('v, 'w) tag_reader = "string \<Rightarrow> 'w \<Rightarrow> ((string + 'v) \<times> 'w) option"

fun read_signals :: "'v lua_values \<Rightarrow> ('v, 'w) tag_reader \<Rightarrow> int \<Rightarrow> (string \<times> string) list \<Rightarrow> 'v signals \<Rightarrow> 'w \<Rightarrow>
    ('v signals \<times> 'w) option" where
  "read_signals L read_tag now [] sig w = Some (sig, w)"
| "read_signals L read_tag now ((name, tag) # ts) sig w =
     (case read_tag tag w of
        None \<Rightarrow> None
      | Some (Inl err, w) \<Rightarrow> read_signals L read_tag now ts sig w
      | Some (Inr val, w) \<Rightarrow> read_signals L read_tag now ts (sig_set L name val now sig) w)"

fun concat_with :: "string \<Rightarrow> string list \<Rightarrow> string" where
  "concat_with sep [] = []"
| "concat_with sep [x] = x"
| "concat_with sep (x # y # xs) = x @ sep @ concat_with sep (y # xs)"

definition status_line :: "'v lua_values \<Rightarrow> int \<Rightarrow> 'v script \<Rightarrow> line" where
  "status_line L now s =
     (let parts = map (\<lambda>(name, tag). name @ ''='' @ lv_tostring L (sig_get name (sc_sig s))) tags;
          active = map c_name (filter (\<lambda>c. sc_state s (c_name c)) (sc_conditions s));
          active_str = (if 0 < length active then concat_with '', '' active else ''none'')
      in ScanStatus now (sc_cycle s) (concat_with ''  '' parts) active_str)"

text \<open>The body of the loop, after the test of \<^verbatim>\<open>MAX_CYCLES\<close>.\<close>

definition scan_cycle :: "'v lua_values \<Rightarrow> ('v, 'w) tag_reader \<Rightarrow> ('w \<Rightarrow> int \<times> 'w) \<Rightarrow> (int \<Rightarrow> 'w \<Rightarrow> 'w) \<Rightarrow> int \<Rightarrow>
    'v script \<Rightarrow> 'w \<Rightarrow> ('v script \<times> 'w) option" where
  "scan_cycle L read_tag clock_ms sleep_ms POLL_MS s w =
     (let (now, w) = clock_ms w in
      case read_signals L read_tag now tags (sc_sig s) w of
        None \<Rightarrow> None
      | Some (sig, w) \<Rightarrow>
          (let (s, w) = evaluate clock_ms now (s\<lparr>sc_sig := sig\<rparr>) w;
               s = (if sc_cycle s mod 50 = 0 then s\<lparr>sc_out := sc_out s @ [status_line L now s]\<rparr> else s)
           in Some (s, sleep_ms POLL_MS w)))"

partial_function (option) scan_loop :: "'v lua_values \<Rightarrow> ('v, 'w) tag_reader \<Rightarrow> ('w \<Rightarrow> int \<times> 'w) \<Rightarrow> (int \<Rightarrow> 'w \<Rightarrow> 'w) \<Rightarrow>
    int \<Rightarrow> int \<Rightarrow> 'v script \<Rightarrow> 'w \<Rightarrow> ('v script \<times> 'w) option" where
  "scan_loop L read_tag clock_ms sleep_ms POLL_MS MAX_CYCLES s w =
     (let s = s\<lparr>sc_cycle := sc_cycle s + 1\<rparr> in
      if MAX_CYCLES > 0 \<and> sc_cycle s > MAX_CYCLES then Some (s, w)
      else case scan_cycle L read_tag clock_ms sleep_ms POLL_MS s w of
             None \<Rightarrow> None
           | Some (s, w) \<Rightarrow> scan_loop L read_tag clock_ms sleep_ms POLL_MS MAX_CYCLES s w)"

section \<open>Scripts that list and read tags\<close>

text \<open>A listed tag by name and type code; both scripts pick scalar DINTs, up to a number.\<close>

fun pick_dints :: "nat \<Rightarrow> (string \<times> int) list \<Rightarrow> string list \<Rightarrow> string list" where
  "pick_dints most [] picked = picked"
| "pick_dints most ((name, typ) # ts) picked =
     pick_dints most ts (if typ = 0x00C4 \<and> length picked < most then picked @ [name] else picked)"

text \<open>An element of a table by its index from 1, or nil.\<close>

definition lua_index :: "'v lua_values \<Rightarrow> 'v list \<Rightarrow> nat \<Rightarrow> 'v" where
  "lua_index L vs i = (if 1 \<le> i \<and> i \<le> length vs then vs ! (i - 1) else lv_nil L)"

fun mark_values :: "'v lua_values \<Rightarrow> 'v list \<Rightarrow> nat \<Rightarrow> string list \<Rightarrow> (string \<Rightarrow> 'v) \<Rightarrow>
    (string \<times> 'v \<times> bool) list \<times> (string \<Rightarrow> 'v)" where
  "mark_values L vs i [] prev = ([], prev)"
| "mark_values L vs i (name # names) prev =
     (let val = lua_index L vs i;
          changed = (\<not> lv_eq L (prev name) (lv_nil L) \<and> \<not> lv_eq L (prev name) val);
          (line, prev) = mark_values L vs (i + 1) names (prev(name := val))
      in ((name, val, changed) # line, prev))"

datatype 'v tags_line =
    NoDints
  | Values nat "(string \<times> 'v \<times> bool) list"
  | CycleError nat string

text \<open>The loop over the cycles, with what is left of them.\<close>

fun monitor_cycles :: "'v lua_values \<Rightarrow> ('w \<Rightarrow> (string + 'v list) \<times> 'w) \<Rightarrow> string list \<Rightarrow> nat \<Rightarrow> nat \<Rightarrow> (string \<Rightarrow> 'v) \<Rightarrow> 'w \<Rightarrow>
    'v tags_line list \<times> 'w" where
  "monitor_cycles L read_tags names cycle 0 prev w = ([], w)"
| "monitor_cycles L read_tags names cycle (Suc n) prev w =
     (case read_tags w of
        (Inl err, w) \<Rightarrow> apfst ((#) (CycleError cycle err)) (monitor_cycles L read_tags names (cycle + 1) n prev w)
      | (Inr vs, w) \<Rightarrow>
          (let (line, prev) = mark_values L vs 1 names prev
           in apfst ((#) (Values cycle line)) (monitor_cycles L read_tags names (cycle + 1) n prev w)))"

definition monitor_tags :: "'v lua_values \<Rightarrow> (string list \<Rightarrow> 'w \<Rightarrow> (string + 'v list) \<times> 'w) \<Rightarrow> int \<Rightarrow> (string \<times> int) list \<Rightarrow> 'w \<Rightarrow>
    'v tags_line list \<times> 'w" where
  "monitor_tags L read_tags POLL_CYCLES listed w =
     (let names = pick_dints 3 listed [] in
      if length names = 0 then ([NoDints], w)
      else monitor_cycles L (read_tags names) names 1 (nat POLL_CYCLES) (\<lambda>_. lv_nil L) w)"

text \<open>\<^verbatim>\<open>ethernetip_client\<close>: up to five DINTs that can be read, then three in one batch, then a tag that should not exist.\<close>

fun read_dints :: "('v, 'w) tag_reader \<Rightarrow> (string \<times> int) list \<Rightarrow> nat \<Rightarrow> 'w \<Rightarrow> ((string \<times> 'v) list \<times> 'w) option" where
  "read_dints read_tag [] dint_count w = Some ([], w)"
| "read_dints read_tag ((name, typ) # ts) dint_count w =
     (if typ = 0x00C4 \<and> dint_count < 5
      then case read_tag name w of
             None \<Rightarrow> None
           | Some (Inl err, w) \<Rightarrow> read_dints read_tag ts dint_count w
           | Some (Inr val, w) \<Rightarrow> map_option (apfst ((#) (name, val))) (read_dints read_tag ts (dint_count + 1) w)
      else read_dints read_tag ts dint_count w)"

record 'v script_report =
  sr_shown :: "(string \<times> int) list"
  sr_more :: nat
  sr_dints :: "(string \<times> 'v) list"
  sr_batch :: "(string + (string \<times> 'v) list) option"
  sr_missing :: "string option"

definition ethernetip_client :: "'v lua_values \<Rightarrow> ('v, 'w) tag_reader \<Rightarrow> (string list \<Rightarrow> 'w \<Rightarrow> ((string + 'v list) \<times> 'w) option) \<Rightarrow>
    (string \<times> int) list \<Rightarrow> 'w \<Rightarrow> ('v script_report \<times> 'w) option" where
  "ethernetip_client L read_tag read_tags listed w =
     (let nshow = min (length listed) 20;
          batch_names = pick_dints 3 listed []
      in case read_dints read_tag listed 0 w of
           None \<Rightarrow> None
         | Some (dints, w) \<Rightarrow>
             (case (if 0 < length batch_names
                    then map_option (apfst (\<lambda>r. Some (case r of Inl err \<Rightarrow> Inl err
                           | Inr vs \<Rightarrow> Inr (zip batch_names (map (lua_index L vs) [1..<length batch_names + 1])))))
                           (read_tags batch_names w)
                    else Some (None, w)) of
                None \<Rightarrow> None
              | Some (batch, w) \<Rightarrow>
                  (case read_tag ''THIS_TAG_DOES_NOT_EXIST_12345'' w of
                     None \<Rightarrow> None
                   | Some (r, w) \<Rightarrow>
                       Some (\<lparr>sr_shown = take nshow listed, sr_more = length listed - nshow, sr_dints = dints,
                              sr_batch = batch, sr_missing = (case r of Inl err \<Rightarrow> Some err | Inr _ \<Rightarrow> None)\<rparr>, w))))"

section \<open>Histories\<close>

text \<open>What the reads of one cycle gave, in the order of the tags.\<close>

fun poll_tags :: "('v, 'w) tag_reader \<Rightarrow> (string \<times> string) list \<Rightarrow> 'w \<Rightarrow> ((string \<times> (string + 'v)) list \<times> 'w) option" where
  "poll_tags read_tag [] w = Some ([], w)"
| "poll_tags read_tag ((name, tag) # ts) w =
     (case read_tag tag w of
        None \<Rightarrow> None
      | Some (r, w) \<Rightarrow>
          (case poll_tags read_tag ts w of None \<Rightarrow> None | Some (rs, w) \<Rightarrow> Some ((name, r) # rs, w)))"

type_synonym 'v history = "(int \<times> (string \<times> (string + 'v)) list) list"

text \<open>The successful reads of a signal, each with the time of its cycle.\<close>

definition cycle_reads :: "string \<Rightarrow> int \<times> (string \<times> (string + 'v)) list \<Rightarrow> (int \<times> 'v) list" where
  "cycle_reads name c = (case c of (now, rs) \<Rightarrow> List.map_filter
     (\<lambda>(n, r). case r of Inl _ \<Rightarrow> None | Inr v \<Rightarrow> if n = name then Some (now, v) else None) rs)"

definition signal_reads :: "string \<Rightarrow> 'v history \<Rightarrow> (int \<times> 'v) list" where
  "signal_reads name h = concat (map (cycle_reads name) h)"

text \<open>The last successful read gave a value.\<close>

definition reads_as :: "'v lua_values \<Rightarrow> string \<Rightarrow> 'v \<Rightarrow> 'v history \<Rightarrow> bool" where
  "reads_as L name v h \<longleftrightarrow> signal_reads name h \<noteq> [] \<and> lv_eq L (snd (last (signal_reads name h))) v"

text \<open>Every successful read gave the value, from one on that is old enough.\<close>

definition steady :: "'v lua_values \<Rightarrow> string \<Rightarrow> 'v \<Rightarrow> int \<Rightarrow> int \<Rightarrow> 'v history \<Rightarrow> bool" where
  "steady L name v ms now h \<longleftrightarrow>
     (\<exists>before t x later. signal_reads name h = before @ (t, x) # later \<and> t + ms \<le> now \<and>
        list_all (\<lambda>(_, y). lv_eq L y v) ((t, x) # later))"

text \<open>What the three conditions say of a history.\<close>

definition safe_spec :: "'v lua_values \<Rightarrow> int \<Rightarrow> 'v history \<Rightarrow> bool" where
  "safe_spec L now h \<longleftrightarrow>
     reads_as L ''estop'' (lv_bool L False) h \<and> reads_as L ''is_running'' (lv_bool L True) h \<and>
     steady L ''estop_clear'' (lv_bool L True) 500 now h \<and> steady L ''is_running'' (lv_bool L True) 1000 now h"

definition fault_spec :: "'v lua_values \<Rightarrow> int \<Rightarrow> 'v history \<Rightarrow> bool" where
  "fault_spec L now h \<longleftrightarrow>
     reads_as L ''is_running'' (lv_bool L True) h \<and> steady L ''drive_ready'' (lv_bool L False) 200 now h"

definition estop_spec :: "'v lua_values \<Rightarrow> int \<Rightarrow> 'v history \<Rightarrow> bool" where
  "estop_spec L now h \<longleftrightarrow> reads_as L ''estop'' (lv_bool L True) h"

text \<open>A condition of the history at its last cycle; before the first none holds.\<close>

definition at_last :: "(int \<Rightarrow> 'v history \<Rightarrow> bool) \<Rightarrow> 'v history \<Rightarrow> bool" where
  "at_last P h \<longleftrightarrow> h \<noteq> [] \<and> P (fst (last h)) h"

text \<open>The runs of the loop, with what was read.\<close>

inductive scans :: "'v lua_values \<Rightarrow> ('v, 'w) tag_reader \<Rightarrow> ('w \<Rightarrow> int \<times> 'w) \<Rightarrow> (int \<Rightarrow> 'w \<Rightarrow> 'w) \<Rightarrow> int \<Rightarrow> 'w \<Rightarrow>
    'v history \<Rightarrow> 'v script \<Rightarrow> 'w \<Rightarrow> bool"
  for L read_tag clock_ms sleep_ms POLL_MS w0 where
  scans_start: "scans L read_tag clock_ms sleep_ms POLL_MS w0 [] (script_start L) w0"
| scans_cycle: "\<lbrakk>scans L read_tag clock_ms sleep_ms POLL_MS w0 h s w; clock_ms w = (now, w1);
     poll_tags read_tag tags w1 = Some (rs, w2);
     scan_cycle L read_tag clock_ms sleep_ms POLL_MS (s\<lparr>sc_cycle := sc_cycle s + 1\<rparr>) w = Some (s', w')\<rbrakk>
    \<Longrightarrow> scans L read_tag clock_ms sleep_ms POLL_MS w0 (h @ [(now, rs)]) s' w'"

section \<open>The tracker follows the reads\<close>

lemma lua_values_okD:
  assumes "lua_values_ok L"
  shows "lv_eq L x y \<Longrightarrow> lv_eq L y x" "lv_eq L x y \<Longrightarrow> lv_eq L y z \<Longrightarrow> lv_eq L x z"
    "lv_eq L (lv_bool L a) (lv_bool L b) \<longleftrightarrow> a = b" "\<not> lv_eq L (lv_nil L) (lv_bool L a)"
  using assms unfolding lua_values_ok_def by blast+

definition track :: "'v lua_values \<Rightarrow> 'v \<times> int option \<Rightarrow> int \<times> 'v \<Rightarrow> 'v \<times> int option" where
  "track L p r = (case p of (pv, ps) \<Rightarrow> case r of (t, v) \<Rightarrow>
     (v, if \<not> lv_eq L pv v \<or> ps = None then Some t else ps))"

definition tracked :: "'v lua_values \<Rightarrow> 'v history \<Rightarrow> 'v signals \<Rightarrow> bool" where
  "tracked L h sig \<longleftrightarrow> (\<forall>name. (sig_val sig name, sig_since sig name) =
     foldl (track L) (lv_nil L, None) (signal_reads name h))"

lemma sig_set_track:
  "(sig_val (sig_set L n v now sig) name, sig_since (sig_set L n v now sig) name) =
     (if n = name then track L (sig_val sig name, sig_since sig name) (now, v) else (sig_val sig name, sig_since sig name))"
  by (auto simp: sig_set_def track_def Let_def)

definition apply_reads :: "'v lua_values \<Rightarrow> int \<Rightarrow> (string \<times> (string + 'v)) list \<Rightarrow> 'v signals \<Rightarrow> 'v signals" where
  "apply_reads L now rs sig = foldl (\<lambda>sig (n, r). case r of Inl _ \<Rightarrow> sig | Inr v \<Rightarrow> sig_set L n v now sig) sig rs"

lemma read_signals_poll:
  "read_signals L read_tag now ts sig w =
     map_option (\<lambda>(rs, w). (apply_reads L now rs sig, w)) (poll_tags read_tag ts w)"
  by (induction ts arbitrary: sig w) (auto simp: apply_reads_def split: option.splits sum.splits prod.splits)

lemma cycle_reads_simps [simp]:
  "cycle_reads name (now, []) = []"
  "cycle_reads name (now, (n, Inl e) # rs) = cycle_reads name (now, rs)"
  "cycle_reads name (now, (n, Inr v) # rs) = (if n = name then (now, v) # cycle_reads name (now, rs) else cycle_reads name (now, rs))"
  by (simp_all add: cycle_reads_def map_filter_simps)

lemma apply_reads_simps [simp]:
  "apply_reads L now [] sig = sig"
  "apply_reads L now ((n, Inl e) # rs) sig = apply_reads L now rs sig"
  "apply_reads L now ((n, Inr v) # rs) sig = apply_reads L now rs (sig_set L n v now sig)"
  by (simp_all add: apply_reads_def)

lemma apply_reads_track:
  "(sig_val (apply_reads L now rs sig) name, sig_since (apply_reads L now rs sig) name) =
     foldl (track L) (sig_val sig name, sig_since sig name) (cycle_reads name (now, rs))"
proof (induction rs arbitrary: sig)
  case (Cons c rs)
  obtain n r where c: "c = (n, r)" by (cases c)
  show ?case using Cons.IH [of sig] by (cases r) (simp_all add: c Cons.IH sig_set_track)
qed simp

lemma tracked_cycle:
  assumes "tracked L h sig"
  shows "tracked L (h @ [(now, rs)]) (apply_reads L now rs sig)"
  using assms unfolding tracked_def by (simp add: apply_reads_track signal_reads_def)

text \<open>The time of a tracked signal is that of the first of the reads that agree with the last.\<close>

lemma track_step: "track L (pv, ps) (t, v) = (v, if \<not> lv_eq L pv v \<or> ps = None then Some t else ps)"
  by (simp add: track_def)

lemma foldl_track_last: "rs \<noteq> [] \<Longrightarrow> fst (foldl (track L) p rs) = snd (last rs)"
  by (induction rs rule: rev_induct) (auto simp: track_def split: prod.splits)

lemma foldl_track_since:
  assumes "lua_values_ok L" "lv_eq L (fst (foldl (track L) (lv_nil L, None) rs)) (lv_bool L b)"
  shows "\<exists>before t x later. rs = before @ (t, x) # later \<and> snd (foldl (track L) (lv_nil L, None) rs) = Some t \<and>
     list_all (\<lambda>(_, y). lv_eq L y (lv_bool L b)) ((t, x) # later) \<and>
     (before = [] \<or> \<not> lv_eq L (snd (last before)) (lv_bool L b))"
  using assms(2)
proof (induction rs rule: rev_induct)
  case Nil
  then show ?case using lua_values_okD(4) [OF assms(1)] by simp
next
  case (snoc r rs)
  obtain t v where r: "r = (t, v)" by (cases r)
  obtain pv ps where p: "foldl (track L) (lv_nil L, None) rs = (pv, ps)" by (cases "foldl (track L) (lv_nil L, None) rs")
  have v: "lv_eq L v (lv_bool L b)" using snoc.prems by (simp add: r p track_step)
  show ?case
  proof (cases "lv_eq L pv v")
    case True
    then have "lv_eq L pv (lv_bool L b)" using lua_values_okD(2) [OF assms(1) True v] by simp
    then obtain before t' x later where d: "rs = before @ (t', x) # later" "ps = Some t'"
        "list_all (\<lambda>(_, y). lv_eq L y (lv_bool L b)) ((t', x) # later)"
        "before = [] \<or> \<not> lv_eq L (snd (last before)) (lv_bool L b)"
      using snoc.IH by (auto simp: p)
    show ?thesis
      by (rule exI [of _ before], rule exI [of _ t'], rule exI [of _ x], rule exI [of _ "later @ [(t, v)]"])
         (use d v True p in \<open>simp add: r track_step\<close>)
  next
    case False
    have "rs = [] \<or> \<not> lv_eq L (snd (last rs)) (lv_bool L b)"
      using False foldl_track_last [of rs L "(lv_nil L, None)"] lua_values_okD(1,2) [OF assms(1)] v by (metis p fst_conv)
    then show ?thesis
      by (intro exI [of _ rs] exI [of _ t] exI [of _ v] exI [of _ "[]"]) (simp add: r p track_step False v)
  qed
qed

lemma held_steady:
  assumes "lua_values_ok L" "tracked L h sig" "sorted (map fst (signal_reads name h))"
  shows "held L name (lv_bool L b) ms now sig \<longleftrightarrow> steady L name (lv_bool L b) ms now h"
proof
  let ?rs = "signal_reads name h"
  have tr: "sig_val sig name = fst (foldl (track L) (lv_nil L, None) ?rs)"
      "sig_since sig name = snd (foldl (track L) (lv_nil L, None) ?rs)"
    using assms(2) unfolding tracked_def by (metis fst_conv, metis snd_conv)
  {
    assume "held L name (lv_bool L b) ms now sig"
    then have eq: "lv_eq L (sig_val sig name) (lv_bool L b)"
        and ms: "now - (case sig_since sig name of Some t \<Rightarrow> t | None \<Rightarrow> now) \<ge> ms"
      by (simp_all add: held_def split: if_splits)
    show "steady L name (lv_bool L b) ms now h"
      using foldl_track_since [OF assms(1) eq [unfolded tr(1)]] ms unfolding steady_def tr(2) by fastforce
  next
    assume "steady L name (lv_bool L b) ms now h"
    then obtain before t x later where d: "?rs = before @ (t, x) # later" "t + ms \<le> now"
        "list_all (\<lambda>(_, y). lv_eq L y (lv_bool L b)) ((t, x) # later)"
      unfolding steady_def by blast
    have "snd (last ?rs) = snd (last ((t, x) # later))" by (simp add: d(1))
    moreover have "lv_eq L (snd (last ((t, x) # later))) (lv_bool L b)"
      using d(3) unfolding list_all_iff by (metis (no_types, lifting) last_in_set list.discI case_prod_beta)
    ultimately have eq: "lv_eq L (sig_val sig name) (lv_bool L b)"
      unfolding tr(1) using foldl_track_last [of ?rs L "(lv_nil L, None)"] by (simp add: d(1))
    then obtain before' t' x' later' where m: "?rs = before' @ (t', x') # later'" "sig_since sig name = Some t'"
        "before' = [] \<or> \<not> lv_eq L (snd (last before')) (lv_bool L b)"
      using foldl_track_since [OF assms(1) eq [unfolded tr(1)]] unfolding tr(2) by blast
    have "t' \<le> t"
    proof (cases "length before' \<le> length before")
      case True
      have l: "length before < length ?rs" by (simp add: d(1))
      have "fst (?rs ! length before') \<le> fst (?rs ! length before)"
        using True l sorted_nth_mono [OF assms(3) True] by simp
      moreover have "?rs ! length before = (t, x)" "?rs ! length before' = (t', x')" by (simp add: d(1), simp add: m(1))
      ultimately show ?thesis by simp
    next
      case False
      then have "before' \<noteq> []" by auto
      have "last before' = ?rs ! (length before' - 1)" using \<open>before' \<noteq> []\<close> by (simp add: m(1) last_conv_nth nth_append)
      also have "\<dots> = ((t, x) # later) ! (length before' - 1 - length before)"
      proof -
        have "\<not> length before' - 1 < length before" using False by simp
        then show ?thesis unfolding d(1) by (simp only: nth_append if_False)
      qed
      also have "\<dots> \<in> set ((t, x) # later)"
      proof (rule nth_mem)
        show "length before' - 1 - length before < length ((t, x) # later)"
          using arg_cong [OF m(1), of length] arg_cong [OF d(1), of length] False by simp
      qed
      finally have "lv_eq L (snd (last before')) (lv_bool L b)" using d(3) unfolding list_all_iff by fastforce
      then show ?thesis using m(3) \<open>before' \<noteq> []\<close> by simp
    qed
    then show "held L name (lv_bool L b) ms now sig" using d(2) eq by (simp add: held_def m(2))
  }
qed

lemma get_reads_as:
  assumes "lua_values_ok L" "tracked L h sig"
  shows "lv_eq L (sig_get name sig) (lv_bool L b) \<longleftrightarrow> reads_as L name (lv_bool L b) h"
proof -
  have "sig_get name sig = fst (foldl (track L) (lv_nil L, None) (signal_reads name h))"
    using assms(2) unfolding tracked_def sig_get_def by (metis fst_conv)
  then show ?thesis
    using lua_values_okD(4) [OF assms(1)] by (cases "signal_reads name h = []") (simp_all add: reads_as_def foldl_track_last)
qed

text \<open>The times of the reads of a signal are sorted when those of the cycles are.\<close>

lemma cycle_reads_time: "(t, v) \<in> set (cycle_reads name c) \<Longrightarrow> t = fst c"
  by (auto simp: cycle_reads_def List.map_filter_def split: sum.splits if_splits)

lemma sorted_same: "(\<And>x. x \<in> set xs \<Longrightarrow> x = a) \<Longrightarrow> sorted xs"
  by (induction xs) auto

lemma sorted_signal_reads:
  assumes "sorted (map fst h)"
  shows "sorted (map fst (signal_reads name h))"
  using assms
proof (induction h)
  case (Cons c h)
  have "sorted (map fst (cycle_reads name c))"
    by (rule sorted_same [of _ "fst c"]) (auto dest: cycle_reads_time)
  moreover have "fst c \<le> t" if "t \<in> fst ` set (signal_reads name h)" for t
    using that Cons.prems by (fastforce simp: signal_reads_def dest: cycle_reads_time)
  ultimately show ?case using Cons
    by (auto simp: signal_reads_def sorted_append dest!: cycle_reads_time)
qed (simp add: signal_reads_def)

section \<open>The engine follows the conditions\<close>

definition fired :: "line list \<Rightarrow> string list" where
  "fired ls = List.map_filter (\<lambda>l. case l of Fired _ text \<Rightarrow> Some text | ScanStatus _ _ _ _ \<Rightarrow> None) ls"

lemma fired_simps [simp]:
  "fired [] = []" "fired (ls @ ks) = fired ls @ fired ks" "fired [Fired ms text] = [text]" "fired [ScanStatus a b c d] = []"
  by (simp_all add: fired_def map_filter_simps List.map_filter_def)

definition transition :: "'v condition \<Rightarrow> bool \<Rightarrow> bool \<Rightarrow> string list" where
  "transition c old new = (if new \<and> \<not> old then [c_on_active c] else if \<not> new \<and> old then [c_on_clear c] else [])"

definition cond_result :: "'v condition \<Rightarrow> 'v signals \<Rightarrow> int \<Rightarrow> bool" where
  "cond_result c sig now = (case c_eval c sig now of Inl _ \<Rightarrow> False | Inr b \<Rightarrow> b)"

lemma evaluate_one_effect:
  assumes "evaluate_one clock_ms now c s w = (s', w')"
  shows "sc_sig s' = sc_sig s" "sc_conditions s' = sc_conditions s" "sc_cycle s' = sc_cycle s"
    "sc_state s' = (sc_state s)(c_name c := cond_result c (sc_sig s) now)"
    "fired (sc_out s') = fired (sc_out s) @ transition c (sc_state s (c_name c)) (cond_result c (sc_sig s) now)"
  using assms
  by (auto simp: evaluate_one_def callback_def cond_result_def transition_def Let_def fun_upd_idem_iff
           split: sum.splits prod.splits if_splits)

text \<open>The whole list, for conditions with different names.\<close>

lemma evaluate_loop_effect:
  assumes "evaluate_loop clock_ms now cs s w = (s', w')" "distinct (map c_name cs)"
  shows "sc_sig s' = sc_sig s \<and> sc_conditions s' = sc_conditions s \<and> sc_cycle s' = sc_cycle s \<and>
    (\<forall>c\<in>set cs. sc_state s' (c_name c) = cond_result c (sc_sig s) now) \<and>
    (\<forall>n. n \<notin> c_name ` set cs \<longrightarrow> sc_state s' n = sc_state s n) \<and>
    fired (sc_out s') = fired (sc_out s) @
      concat (map (\<lambda>c. transition c (sc_state s (c_name c)) (cond_result c (sc_sig s) now)) cs)"
  using assms
proof (induction cs arbitrary: s w)
  case (Cons c cs)
  obtain s1 w1 where s1: "evaluate_one clock_ms now c s w = (s1, w1)" by (cases "evaluate_one clock_ms now c s w")
  note e = evaluate_one_effect [OF s1]
  have loop: "evaluate_loop clock_ms now cs s1 w1 = (s', w')" using Cons.prems(1) by (simp add: s1)
  have other: "sc_state s1 (c_name d) = sc_state s (c_name d)" if "d \<in> set cs" for d
  proof -
    have "c_name d \<noteq> c_name c" using that Cons.prems(2) by (metis distinct.simps(2) imageI list.simps(9) set_map)
    then show ?thesis by (simp add: e(4))
  qed
  then have m: "map (\<lambda>d. transition d (sc_state s1 (c_name d)) (cond_result d (sc_sig s1) now)) cs =
      map (\<lambda>d. transition d (sc_state s (c_name d)) (cond_result d (sc_sig s) now)) cs"
    by (simp only: e(1) map_eq_conv ball_simps) simp
  have d: "distinct (map c_name cs)" and n: "c_name c \<notin> c_name ` set cs" using Cons.prems(2) by simp_all
  have f: "fired (sc_out s') = fired (sc_out s1) @
      concat (map (\<lambda>c. transition c (sc_state s (c_name c)) (cond_result c (sc_sig s) now)) cs)"
    using Cons.IH [OF loop d] by (simp only: m)
  show ?case using Cons.IH [OF loop d] n by (simp add: f e)
qed simp

definition conditions_of :: "'v lua_values \<Rightarrow> ('v condition \<times> (int \<Rightarrow> 'v history \<Rightarrow> bool)) list" where
  "conditions_of L = [(safe_to_run L, safe_spec L), (drive_fault L, fault_spec L), (estop_active L, estop_spec L)]"

lemma conditions_names: "distinct (map c_name (map fst (conditions_of L)))"
  by (simp add: conditions_of_def safe_to_run_def drive_fault_def estop_active_def)

lemma conditions_results:
  assumes "lua_values_ok L" "tracked L h sig" "sorted (map fst h)" "(c, P) \<in> set (conditions_of L)"
  shows "cond_result c sig now = P now h"
  using assms(4) held_steady [OF assms(1,2) sorted_signal_reads [OF assms(3)]] get_reads_as [OF assms(1,2)]
  by (auto simp: conditions_of_def cond_result_def safe_to_run_def drive_fault_def estop_active_def
                 safe_spec_def fault_spec_def estop_spec_def)

text \<open>The lines that tell of transitions, as the history has them.\<close>

definition transitions :: "'v lua_values \<Rightarrow> 'v history \<Rightarrow> nat \<Rightarrow> string list" where
  "transitions L h k = concat (map (\<lambda>(c, P). transition c (at_last P (take k h)) (at_last P (take (Suc k) h))) (conditions_of L))"

definition monitor_inv :: "'v lua_values \<Rightarrow> 'v history \<Rightarrow> 'v script \<Rightarrow> bool" where
  "monitor_inv L h s \<longleftrightarrow> tracked L h (sc_sig s) \<and> sc_conditions s = map fst (conditions_of L) \<and> sc_cycle s = int (length h) \<and>
     (\<forall>(c, P)\<in>set (conditions_of L). sc_state s (c_name c) = at_last P h) \<and>
     fired (sc_out s) = concat (map (transitions L h) [0..<length h])"

lemma monitor_inv_start: "monitor_inv L [] (script_start L)"
  by (simp add: monitor_inv_def script_start_def define_condition_def tracked_def signal_reads_def conditions_of_def at_last_def)

lemma monitor_inv_cycle:
  assumes "lua_values_ok L" "monitor_inv L h s" "sorted (map fst (h @ [(now, rs)]))"
    and clock: "clock_ms w = (now, w1)" and polled: "poll_tags read_tag tags w1 = Some (rs, w2)"
    and cyc: "scan_cycle L read_tag clock_ms sleep_ms POLL_MS (s\<lparr>sc_cycle := sc_cycle s + 1\<rparr>) w = Some (s', w')"
  shows "monitor_inv L (h @ [(now, rs)]) s'"
proof -
  let ?h = "h @ [(now, rs)]" and ?cs = "map fst (conditions_of L)"
  let ?sig = "apply_reads L now rs (sc_sig s)"
  let ?s = "s\<lparr>sc_cycle := sc_cycle s + 1, sc_sig := ?sig\<rparr>"
  have tr: "tracked L ?h ?sig" using assms(2) tracked_cycle unfolding monitor_inv_def by blast
  have cs: "sc_conditions s = ?cs" using assms(2) by (simp add: monitor_inv_def)
  obtain s1 w3 where ev: "evaluate_loop clock_ms now ?cs ?s w2 = (s1, w3)"
    by (cases "evaluate_loop clock_ms now ?cs ?s w2")
  have s': "s' = (if sc_cycle s1 mod 50 = 0 then s1\<lparr>sc_out := sc_out s1 @ [status_line L now s1]\<rparr> else s1)"
    using cyc by (simp add: scan_cycle_def clock read_signals_poll polled evaluate_def cs ev)
  note e = evaluate_loop_effect [OF ev conditions_names]
  have res: "cond_result c ?sig now = at_last P ?h" if "(c, P) \<in> set (conditions_of L)" for c P
    using conditions_results [OF assms(1) tr assms(3) that] by (simp add: at_last_def)
  have old: "sc_state s (c_name c) = at_last P h" if "(c, P) \<in> set (conditions_of L)" for c P
    using assms(2) that unfolding monitor_inv_def by blast
  have "sc_state s1 (c_name c) = at_last P ?h" if "(c, P) \<in> set (conditions_of L)" for c P
    using e that res [OF that] by force
  moreover have "fired (sc_out s1) = concat (map (transitions L ?h) [0..<length ?h])"
  proof -
    have "fired (sc_out s1) = fired (sc_out s) @ concat (map (\<lambda>c. transition c (sc_state s (c_name c)) (cond_result c ?sig now)) ?cs)"
      using e by simp
    also have "map (\<lambda>c. transition c (sc_state s (c_name c)) (cond_result c ?sig now)) ?cs =
        map (\<lambda>(c, P). transition c (at_last P h) (at_last P ?h)) (conditions_of L)"
      using res old by (auto simp: map_eq_conv)
    also have "fired (sc_out s) = concat (map (transitions L h) [0..<length h])"
      using assms(2) by (simp add: monitor_inv_def)
    also have "map (transitions L h) [0..<length h] = map (transitions L ?h) [0..<length h]"
      by (auto simp: transitions_def)
    finally show ?thesis by (simp add: transitions_def)
  qed
  ultimately show ?thesis using tr cs e assms(2)
    by (auto simp: monitor_inv_def s' status_line_def Let_def)
qed

lemma scans_monitor_inv:
  assumes "lua_values_ok L" "scans L read_tag clock_ms sleep_ms POLL_MS w0 h s w" "sorted (map fst h)"
  shows "monitor_inv L h s"
  using assms(2,3)
proof (induction rule: scans.induct)
  case (scans_cycle h s w now w1 rs w2 s' w')
  then show ?case using monitor_inv_cycle [OF assms(1)] by (simp add: sorted_append)
qed (rule monitor_inv_start)

section \<open>The loop\<close>

lemma evaluate_cycle:
  "evaluate_loop clock_ms now cs s w = (s', w') \<Longrightarrow> sc_cycle s' = sc_cycle s"
  by (induction cs arbitrary: s w) (auto split: prod.splits dest: evaluate_one_effect(3))

lemma scan_cycle_keeps:
  "scan_cycle L read_tag clock_ms sleep_ms POLL_MS s w = Some (s', w') \<Longrightarrow> sc_cycle s' = sc_cycle s"
  by (auto simp: scan_cycle_def evaluate_def Let_def split: prod.splits option.splits if_splits dest: evaluate_cycle)

lemma scan_cycle_polls:
  assumes "scan_cycle L read_tag clock_ms sleep_ms POLL_MS s w = Some (s', w')"
  obtains now w1 rs w2 where "clock_ms w = (now, w1)" "poll_tags read_tag tags w1 = Some (rs, w2)"
  using assms by (auto simp: scan_cycle_def read_signals_poll split: prod.splits option.splits)

lemma poll_tags_returns: "(\<And>tag w. read_tag tag w \<noteq> None) \<Longrightarrow> poll_tags read_tag ts w \<noteq> None"
proof (induction ts arbitrary: w)
  case (Cons nt ts)
  obtain n t where "nt = (n, t)" by (cases nt)
  moreover obtain r w' where "read_tag t w = Some (r, w')" using Cons.prems by (metis not_None_eq surj_pair)
  moreover obtain rs w'' where "poll_tags read_tag ts w' = Some (rs, w'')" using Cons by (metis not_None_eq surj_pair)
  ultimately show ?case by simp
qed simp

lemma scan_cycle_returns:
  assumes "\<And>tag w. read_tag tag w \<noteq> None"
  obtains s' w' where "scan_cycle L read_tag clock_ms sleep_ms POLL_MS s w = Some (s', w')"
proof -
  obtain now w1 where c: "clock_ms w = (now, w1)" by (cases "clock_ms w")
  have "poll_tags read_tag tags w1 \<noteq> None" by (rule poll_tags_returns) (rule assms)
  then obtain rs w2 where "poll_tags read_tag tags w1 = Some (rs, w2)" by fast
  then have "scan_cycle L read_tag clock_ms sleep_ms POLL_MS s w \<noteq> None"
    by (simp add: scan_cycle_def c read_signals_poll Let_def split_def)
  then show ?thesis by (cases "scan_cycle L read_tag clock_ms sleep_ms POLL_MS s w") (auto intro: that)
qed

lemma scans_cycle_count: "scans L read_tag clock_ms sleep_ms POLL_MS w0 h s w \<Longrightarrow> sc_cycle s = int (length h)"
  by (induction rule: scans.induct)
     (auto simp: script_start_def define_condition_def dest!: scan_cycle_keeps)

lemma scans_extend:
  assumes "scans L read_tag clock_ms sleep_ms POLL_MS w0 h s w"
    "scan_cycle L read_tag clock_ms sleep_ms POLL_MS (s\<lparr>sc_cycle := sc_cycle s + 1\<rparr>) w = Some (s', w')"
  obtains c where "scans L read_tag clock_ms sleep_ms POLL_MS w0 (h @ [c]) s' w'"
  using scan_cycle_polls [OF assms(2)] scans_cycle [OF assms(1) _ _ assms(2)] by metis

lemma scan_loop_from:
  assumes "\<And>tag w. read_tag tag w \<noteq> None"
    and "scans L read_tag clock_ms sleep_ms POLL_MS w0 h s w" "length h + k = nat MAX_CYCLES" "0 < MAX_CYCLES"
  shows "\<exists>h' s' w'. scan_loop L read_tag clock_ms sleep_ms POLL_MS MAX_CYCLES s w = Some (s'\<lparr>sc_cycle := MAX_CYCLES + 1\<rparr>, w') \<and>
    scans L read_tag clock_ms sleep_ms POLL_MS w0 h' s' w' \<and> length h' = nat MAX_CYCLES"
  using assms(2,3)
proof (induction k arbitrary: h s w)
  case 0
  then show ?case using assms(4) scans_cycle_count [OF 0(1)]
    by (subst scan_loop.simps) (auto intro!: exI [of _ h] exI [of _ s])
next
  case (Suc k)
  obtain s1 w1 where c: "scan_cycle L read_tag clock_ms sleep_ms POLL_MS (s\<lparr>sc_cycle := sc_cycle s + 1\<rparr>) w = Some (s1, w1)"
    by (rule scan_cycle_returns [OF assms(1)])
  obtain x where x: "scans L read_tag clock_ms sleep_ms POLL_MS w0 (h @ [x]) s1 w1" by (rule scans_extend [OF Suc.prems(1) c])
  have "scan_loop L read_tag clock_ms sleep_ms POLL_MS MAX_CYCLES s w = scan_loop L read_tag clock_ms sleep_ms POLL_MS MAX_CYCLES s1 w1"
  proof -
    have "\<not> sc_cycle s + 1 > MAX_CYCLES" using scans_cycle_count [OF Suc.prems(1)] Suc.prems(2) by linarith
    then show ?thesis by (subst scan_loop.simps) (simp add: c Let_def)
  qed
  then show ?case using Suc.IH [OF x] Suc.prems(2) by simp
qed

lemma scan_loop_forever:
  fixes L :: "'a lua_values" and read_tag :: "('a, 'b) tag_reader"
  assumes "MAX_CYCLES \<le> 0"
  shows "scan_loop L read_tag clock_ms sleep_ms POLL_MS MAX_CYCLES s w = None"
proof -
  have "0 < m" if "scan_loop L read_tag clock_ms sleep_ms POLL_MS m s w = Some r" for m s w r
  proof (rule scan_loop.raw_induct [OF _ that, where P = "\<lambda>L read_tag clock_ms sleep_ms POLL_MS m s w r. 0 < m"])
    fix loop :: "'a lua_values \<Rightarrow> ('a, 'b) tag_reader \<Rightarrow> ('b \<Rightarrow> int \<times> 'b) \<Rightarrow> (int \<Rightarrow> 'b \<Rightarrow> 'b) \<Rightarrow>
        int \<Rightarrow> int \<Rightarrow> 'a script \<Rightarrow> 'b \<Rightarrow> ('a script \<times> 'b) option"
      and L read_tag clock_ms sleep_ms POLL_MS m s w r
    assume ih: "\<And>L read_tag clock_ms sleep_ms POLL_MS m s w r. loop L read_tag clock_ms sleep_ms POLL_MS m s w = Some r \<Longrightarrow> 0 < m"
      and body: "(let s = s\<lparr>sc_cycle := sc_cycle s + 1\<rparr> in
      if m > 0 \<and> sc_cycle s > m then Some (s, w)
      else case scan_cycle L read_tag clock_ms sleep_ms POLL_MS s w of
             None \<Rightarrow> None
           | Some (s, w) \<Rightarrow> loop L read_tag clock_ms sleep_ms POLL_MS m s w) = Some r"
    show "0 < m" using body by (auto simp: Let_def split: if_splits option.splits prod.splits dest: ih)
  qed
  then show ?thesis using assms by (cases "scan_loop L read_tag clock_ms sleep_ms POLL_MS MAX_CYCLES s w") fastforce+
qed

section \<open>Properties\<close>

text \<open>
  C11: the condition monitor tells the truth about the reads.  After any number of scan cycles of the
  script, over any tag reader and a clock that does not run backwards, each of the three conditions
  is active exactly when the history satisfies it at its last cycle (a signal's last successful read
  for \<^verbatim>\<open>get\<close>; for \<^verbatim>\<open>held\<close>, all successful reads from one on that is at least the hold time old), and
  the lines printed by the callbacks are, in order, one per transition and nothing else.
\<close>

theorem conditions_follow_reads:
  assumes "lua_values_ok L" "scans L read_tag clock_ms sleep_ms POLL_MS w0 h s w" "sorted (map fst h)"
  shows "sc_state s ''safe_to_run'' = at_last (safe_spec L) h \<and>
    sc_state s ''drive_fault'' = at_last (fault_spec L) h \<and>
    sc_state s ''estop_active'' = at_last (estop_spec L) h \<and>
    fired (sc_out s) = concat (map (transitions L h) [0..<length h])"
  using scans_monitor_inv [OF assms]
  by (simp add: monitor_inv_def conditions_of_def safe_to_run_def drive_fault_def estop_active_def)

text \<open>
  The scan loop ends exactly when it is told to.  If every read returns, the loop with
  \<^verbatim>\<open>MAX_CYCLES\<close> greater than zero ends after that many cycles, in a state these cycles lead to; with
  zero or less it never ends.
\<close>

theorem scan_loop_ends:
  assumes "\<And>tag w. read_tag tag w \<noteq> None"
  shows "if 0 < MAX_CYCLES
    then \<exists>h s w. scan_loop L read_tag clock_ms sleep_ms POLL_MS MAX_CYCLES (script_start L) w0 = Some (s\<lparr>sc_cycle := MAX_CYCLES + 1\<rparr>, w) \<and>
           scans L read_tag clock_ms sleep_ms POLL_MS w0 h s w \<and> length h = nat MAX_CYCLES
    else scan_loop L read_tag clock_ms sleep_ms POLL_MS MAX_CYCLES (script_start L) w0 = None"
proof (cases "0 < MAX_CYCLES")
  case True
  then show ?thesis using scan_loop_from [OF assms scans_start _ True, of "nat MAX_CYCLES"] by simp
next
  case False
  then show ?thesis using scan_loop_forever [of MAX_CYCLES] by simp
qed

text \<open>A run on a value type of its own: one cycle with the emergency stop engaged.\<close>

definition sample_values_lua :: "bool option lua_values" where
  "sample_values_lua = \<lparr>lv_nil = None, lv_bool = Some, lv_eq = (=), lv_tostring = (\<lambda>_. ''v'')\<rparr>"

lemma sample_values_lua_ok: "lua_values_ok sample_values_lua"
  by (auto simp: lua_values_ok_def sample_values_lua_def)

definition sample_reader :: "(bool option, int) tag_reader" where
  "sample_reader tag w = (if tag = ''DriveReady'' then Some (Inl ''timeout'', w) else Some (Inr (Some (tag = ''EStop'')), w))"

definition sample_history :: "bool option history" where
  "sample_history = [(0, [(''estop'', Inr (Some True)), (''is_running'', Inr (Some False)),
     (''estop_clear'', Inr (Some False)), (''drive_ready'', Inl ''timeout'')])]"

lemma sample_scan:
  "\<exists>s w. scans sample_values_lua sample_reader (\<lambda>w. (w, w)) (\<lambda>ms w. w + ms) 100 0 sample_history s w"
proof -
  have p: "poll_tags sample_reader tags 0 = Some (snd (hd sample_history), 0)"
    by (simp add: sample_reader_def tags_def sample_history_def)
  obtain s w where "scan_cycle sample_values_lua sample_reader (\<lambda>w. (w, w)) (\<lambda>ms w. w + ms) 100
      (script_start sample_values_lua\<lparr>sc_cycle := sc_cycle (script_start sample_values_lua) + 1\<rparr>) 0 = Some (s, w)"
    by (rule scan_cycle_returns [of sample_reader]) (auto simp: sample_reader_def)
  from scans_cycle [OF scans_start _ p this] show ?thesis by (auto simp: sample_history_def)
qed

theorem conditions_follow_reads_witness:
  "\<exists>s w. scans sample_values_lua sample_reader (\<lambda>w. (w, w)) (\<lambda>ms w. w + ms) 100 0 sample_history s w \<and>
     sc_state s ''estop_active'' \<and> \<not> sc_state s ''safe_to_run'' \<and> fired (sc_out s) = [''ESTOP   emergency stop engaged'']"
proof -
  have eq: "lv_eq sample_values_lua = (=)" by (simp add: sample_values_lua_def)
  have spec: "at_last (estop_spec sample_values_lua) sample_history" "\<not> at_last (safe_spec sample_values_lua) sample_history"
      "\<not> at_last (fault_spec sample_values_lua) sample_history"
    by (simp_all add: at_last_def estop_spec_def safe_spec_def fault_spec_def reads_as_def signal_reads_def sample_history_def eq)
       (simp_all add: sample_values_lua_def)
  have "concat (map (transitions sample_values_lua sample_history) [0..<length sample_history]) =
      [c_on_active (estop_active sample_values_lua)]"
    using spec by (simp add: transitions_def conditions_of_def transition_def at_last_def sample_history_def)
  moreover obtain s w where run: "scans sample_values_lua sample_reader (\<lambda>w. (w, w)) (\<lambda>ms w. w + ms) 100 0 sample_history s w"
    using sample_scan by blast
  moreover have "sorted (map fst sample_history)" by (simp add: sample_history_def)
  ultimately show ?thesis using conditions_follow_reads [OF sample_values_lua_ok run] spec
    by (auto simp: estop_active_def)
qed

theorem scan_loop_ends_witness:
  "(\<exists>s w. scan_loop sample_values_lua sample_reader (\<lambda>w. (w, w)) (\<lambda>ms w. w + ms) 100 3 (script_start sample_values_lua) 0 = Some (s, w)) \<and>
   scan_loop sample_values_lua sample_reader (\<lambda>w. (w, w)) (\<lambda>ms w. w + ms) 100 0 (script_start sample_values_lua) 0 = None"
proof -
  have r: "sample_reader tag w \<noteq> None" for tag w by (simp add: sample_reader_def)
  show ?thesis
    using scan_loop_ends [of sample_reader 3, OF r] scan_loop_ends [of sample_reader 0, OF r] by fastforce
qed

section \<open>Reads that fail\<close>

text \<open>
  A signal keeps its value and its time while its reads fail.  One good cycle followed by failures
  only, until a second later, makes \<^verbatim>\<open>safe_to_run\<close> active, although nothing has been read since.
\<close>

lemma steady_once:
  "signal_reads name h = [(t, x)] \<Longrightarrow> lv_eq L x v \<Longrightarrow> t + ms \<le> now \<Longrightarrow> steady L name v ms now h"
  unfolding steady_def by (intro exI [of _ "[]"] exI [of _ t] exI [of _ x]) simp

lemma stale_reads_activate:
  assumes "lua_values_ok L" "ts \<noteq> []" "t0 + 1000 \<le> last ts"
  defines "good \<equiv> [(''estop'', Inr (lv_bool L False)), (''is_running'', Inr (lv_bool L True)),
      (''estop_clear'', Inr (lv_bool L True)), (''drive_ready'', Inr (lv_bool L True))]"
    and "failed \<equiv> map (\<lambda>(name, tag). (name, Inl ''connection lost'')) tags"
  shows "at_last (safe_spec L) ((t0, good) # map (\<lambda>t. (t, failed)) ts)"
proof -
  have none: "cycle_reads name (t, failed) = []" for name t by (simp add: failed_def tags_def)
  have once: "signal_reads name ((t0, good) # map (\<lambda>t. (t, failed)) ts) = cycle_reads name (t0, good)" for name
    by (simp add: signal_reads_def comp_def none concat_eq_Nil_conv)
  have last: "fst (last ((t0, good) # map (\<lambda>t. (t, failed)) ts)) = last ts" using assms(2) by (simp add: last_map)
  show ?thesis using assms(3)
    unfolding at_last_def last safe_spec_def reads_as_def once
    by (auto simp: good_def lua_values_okD(3) [OF assms(1)] once [unfolded good_def] intro!: steady_once [of _ _ t0 "lv_bool L True"])
qed

section \<open>Marks\<close>

lemma pick_dints_take:
  "length picked \<le> most \<Longrightarrow>
   pick_dints most ts picked = take most (picked @ map fst (filter (\<lambda>(n, t). t = 0x00C4) ts))"
proof (induction ts arbitrary: picked)
  case (Cons t ts)
  obtain n ty where t: "t = (n, ty)" by (cases t)
  show ?case using Cons.IH [of "picked @ [n]"] Cons.IH [of picked] Cons.prems by (auto simp: t)
qed simp

text \<open>The values of the last cycle that succeeded decide which are marked.\<close>

lemma mark_values_line:
  assumes "mark_values L vs i names prev = (line, prev')" "distinct names"
  shows "length line = length names \<and> (\<forall>n. n \<notin> set names \<longrightarrow> prev' n = prev n) \<and>
    (\<forall>k<length names. prev' (names ! k) = lua_index L vs (i + k) \<and>
       line ! k = (names ! k, lua_index L vs (i + k),
         \<not> lv_eq L (prev (names ! k)) (lv_nil L) \<and> \<not> lv_eq L (prev (names ! k)) (lua_index L vs (i + k))))"
  using assms
proof (induction names arbitrary: i prev line)
  case (Cons name names)
  obtain rest where m: "mark_values L vs (i + 1) names (prev(name := lua_index L vs i)) = (rest, prev')"
      "line = (name, lua_index L vs i, \<not> lv_eq L (prev name) (lv_nil L) \<and> \<not> lv_eq L (prev name) (lua_index L vs i)) # rest"
    using Cons.prems(1) by (auto simp: Let_def split: prod.splits)
  have d: "distinct names" "name \<notin> set names" using Cons.prems(2) by simp_all
  note ih = Cons.IH [OF m(1) d(1)]
  have "names ! k \<noteq> name" if "k < length names" for k using that d(2) nth_mem by metis
  then show ?case using ih d(2) by (auto simp: m(2) nth_Cons split: nat.splits)
qed simp

end
