(* ===== verification/Lua.thy ===== *)
theory Lua
  imports Cip_Types Modbus_System Pccc
begin

text \<open>
  The Lua bindings of \<^verbatim>\<open>src/lua\<close>: \<^verbatim>\<open>helpers.go\<close>, \<^verbatim>\<open>modbus.go\<close> and \<^verbatim>\<open>ethernetip.go\<close>.  The Lua machine is a
  third-party package: its constructors, tests and accessors are a record the definitions take, and
  what it documents about them is \<^verbatim>\<open>vm_ok\<close>.  A native function gets its arguments by stack index and
  returns a Lua error or its results.  Go's conversions between the two float formats are
  arguments.  What a script writes is what it reads back, as far as the wire format can hold it.
\<close>

unbundle bit_operations_syntax

section \<open>The Lua machine\<close>

record ('v, 't) vm =
  vm_NewInt :: "u64 \<Rightarrow> 'v"
  vm_NewFloat :: "u64 \<Rightarrow> 'v"
  vm_NewBool :: "bool \<Rightarrow> 'v"
  vm_NewString :: "byte list \<Rightarrow> 'v"
  vm_NewTable :: "'t \<Rightarrow> 'v"
  vm_IsNil :: "'v \<Rightarrow> bool"
  vm_IsInt :: "'v \<Rightarrow> bool"
  vm_IsFloat :: "'v \<Rightarrow> bool"
  vm_IsNumber :: "'v \<Rightarrow> bool"
  vm_IsBool :: "'v \<Rightarrow> bool"
  vm_IsString :: "'v \<Rightarrow> bool"
  vm_IsTable :: "'v \<Rightarrow> bool"
  vm_AsInt :: "'v \<Rightarrow> u64"
  vm_AsFloat :: "'v \<Rightarrow> u64"
  vm_AsBool :: "'v \<Rightarrow> bool"
  vm_AsString :: "'v \<Rightarrow> byte list"
  vm_AsTable :: "'v \<Rightarrow> 't"
  vm_EmptyTable :: 't
  vm_Set :: "'t \<Rightarrow> 'v \<Rightarrow> 'v \<Rightarrow> 't"
  vm_Get :: "'t \<Rightarrow> 'v \<Rightarrow> 'v"
  vm_Len :: "'t \<Rightarrow> int"

text \<open>A Lua error carries its message; the arguments are the stack of the call.\<close>

type_synonym 'v stack = "nat \<Rightarrow> 'v"

section \<open>Helpers\<close>

definition getString :: "('v, 't) vm \<Rightarrow> 'v stack \<Rightarrow> nat \<Rightarrow> string + byte list" where
  "getString vm v idx =
     (let val = v idx in if vm_IsString vm val then Inr (vm_AsString vm val) else Inl ''string expected'')"

definition getInt :: "('v, 't) vm \<Rightarrow> 'v stack \<Rightarrow> nat \<Rightarrow> string + u64" where
  "getInt vm v idx =
     (let val = v idx in if vm_IsNumber vm val then Inr (vm_AsInt vm val) else Inl ''number expected'')"

definition getOptInt :: "('v, 't) vm \<Rightarrow> 'v stack \<Rightarrow> nat \<Rightarrow> u64 \<Rightarrow> u64" where
  "getOptInt vm v idx defaultVal =
     (let val = v idx in
      if vm_IsNil vm val then defaultVal else if vm_IsNumber vm val then vm_AsInt vm val else defaultVal)"

definition getOptString :: "('v, 't) vm \<Rightarrow> 'v stack \<Rightarrow> nat \<Rightarrow> byte list \<Rightarrow> byte list" where
  "getOptString vm v idx defaultVal =
     (let val = v idx in
      if vm_IsNil vm val then defaultVal else if vm_IsString vm val then vm_AsString vm val else defaultVal)"

definition getTable :: "('v, 't) vm \<Rightarrow> 'v stack \<Rightarrow> nat \<Rightarrow> string + 't" where
  "getTable vm v idx =
     (let val = v idx in if vm_IsTable vm val then Inr (vm_AsTable vm val) else Inl ''table expected'')"

text \<open>A table with keys from 1 on, entry by entry.\<close>

fun fill_table :: "('v, 't) vm \<Rightarrow> ('a \<Rightarrow> 'v) \<Rightarrow> nat \<Rightarrow> 'a list \<Rightarrow> 't \<Rightarrow> 't" where
  "fill_table vm f i [] t = t"
| "fill_table vm f i (x # xs) t = fill_table vm f (i + 1) xs (vm_Set vm t (vm_NewInt vm (word_of_nat (i + 1))) (f x))"

definition registersToLuaTable :: "('v, 't) vm \<Rightarrow> u16 list \<Rightarrow> 't" where
  "registersToLuaTable vm regs = fill_table vm (\<lambda>r. vm_NewInt vm (ucast r)) 0 regs (vm_EmptyTable vm)"

definition boolsToLuaTable :: "('v, 't) vm \<Rightarrow> bool list \<Rightarrow> 't" where
  "boolsToLuaTable vm vals = fill_table vm (vm_NewBool vm) 0 vals (vm_EmptyTable vm)"

text \<open>The loops of \<^verbatim>\<open>luaTableToRegisters\<close> and \<^verbatim>\<open>luaTableToCoils\<close>: every element has to pass the test.\<close>

fun read_table :: "('v, 't) vm \<Rightarrow> ('v \<Rightarrow> bool) \<Rightarrow> ('v \<Rightarrow> 'a) \<Rightarrow> 't \<Rightarrow> nat \<Rightarrow> nat \<Rightarrow> string + 'a list" where
  "read_table vm ok get t i 0 = Inr []"
| "read_table vm ok get t i (Suc n) =
     (let val = vm_Get vm t (vm_NewInt vm (word_of_nat i)) in
      if \<not> ok val then Inl ''table element: wrong type''
      else res_bind (read_table vm ok get t (i + 1) n) (\<lambda>xs. Inr (get val # xs)))"

definition luaTableToRegisters :: "('v, 't) vm \<Rightarrow> 't \<Rightarrow> string + u16 list" where
  "luaTableToRegisters vm tbl =
     (if vm_Len vm tbl \<le> 0 then Inl ''expected a non-empty table of register values''
      else read_table vm (vm_IsNumber vm) (\<lambda>val. ucast (vm_AsInt vm val)) tbl 1 (nat (vm_Len vm tbl)))"

definition luaTableToCoils :: "('v, 't) vm \<Rightarrow> 't \<Rightarrow> string + bool list" where
  "luaTableToCoils vm tbl =
     (if vm_Len vm tbl \<le> 0 then Inl ''expected a non-empty table of boolean values''
      else read_table vm (vm_IsBool vm) (vm_AsBool vm) tbl 1 (nat (vm_Len vm tbl)))"

section \<open>Methods of a Modbus client\<close>

text \<open>A method: the arguments first, then the operation; errors of both become Lua errors.\<close>

definition invoke :: "string + 'a \<Rightarrow> ('a \<Rightarrow> 'w \<Rightarrow> ('e + 'b) \<times> 'w) \<Rightarrow> ('b \<Rightarrow> 'r) \<Rightarrow> 'w \<Rightarrow> (string + 'r) \<times> 'w" where
  "invoke args oper result w =
     (case args of
        Inl err \<Rightarrow> (Inl err, w)
      | Inr x \<Rightarrow> (case oper x w of (Inl err, w') \<Rightarrow> (Inl ''error of the client'', w') | (Inr y, w') \<Rightarrow> (Inr (result y), w')))"

definition lua_read_registers :: "('v, 't) vm \<Rightarrow> (Address \<Rightarrow> Quantity \<Rightarrow> 'w \<Rightarrow> ('e + u16 list) \<times> 'w) \<Rightarrow> 'v stack \<Rightarrow> 'w \<Rightarrow>
    (string + 'v) \<times> 'w" where
  "lua_read_registers vm readRegs v =
     invoke (res_bind (getInt vm v 2) (\<lambda>address. res_bind (getInt vm v 3) (\<lambda>quantity. Inr (address, quantity))))
       (\<lambda>(address, quantity). readRegs (ucast address) (ucast quantity))
       (\<lambda>regs. vm_NewTable vm (registersToLuaTable vm regs))"

definition lua_read_bits :: "('v, 't) vm \<Rightarrow> (Address \<Rightarrow> Quantity \<Rightarrow> 'w \<Rightarrow> ('e + bool list) \<times> 'w) \<Rightarrow> 'v stack \<Rightarrow> 'w \<Rightarrow>
    (string + 'v) \<times> 'w" where
  "lua_read_bits vm readBits v =
     invoke (res_bind (getInt vm v 2) (\<lambda>address. res_bind (getInt vm v 3) (\<lambda>quantity. Inr (address, quantity))))
       (\<lambda>(address, quantity). readBits (ucast address) (ucast quantity))
       (\<lambda>vals. vm_NewTable vm (boolsToLuaTable vm vals))"

definition lua_write_register :: "('v, 't) vm \<Rightarrow> Client \<Rightarrow> ('c, 'w) transport \<Rightarrow> 'v stack \<Rightarrow> 'w \<Rightarrow> (string + unit) \<times> 'w" where
  "lua_write_register vm client tp v =
     invoke (res_bind (getInt vm v 2) (\<lambda>address. res_bind (getInt vm v 3) (\<lambda>value. Inr (address, value))))
       (\<lambda>(address, value). Client_WriteSingleRegister client tp (ucast address) (ucast value)) (\<lambda>_. ())"

definition lua_write_registers :: "('v, 't) vm \<Rightarrow> Client \<Rightarrow> ('c, 'w) transport \<Rightarrow> 'v stack \<Rightarrow> 'w \<Rightarrow> (string + unit) \<times> 'w" where
  "lua_write_registers vm client tp v =
     invoke (res_bind (getInt vm v 2) (\<lambda>address. res_bind (getTable vm v 3) (\<lambda>tbl.
         res_bind (luaTableToRegisters vm tbl) (\<lambda>values. Inr (address, values)))))
       (\<lambda>(address, values). Client_WriteMultipleRegisters client tp (ucast address) values) (\<lambda>_. ())"

definition lua_write_coil :: "('v, 't) vm \<Rightarrow> Client \<Rightarrow> ('c, 'w) transport \<Rightarrow> 'v stack \<Rightarrow> 'w \<Rightarrow> (string + unit) \<times> 'w" where
  "lua_write_coil vm client tp v =
     invoke (res_bind (getInt vm v 2) (\<lambda>address.
         if \<not> vm_IsBool vm (v 3) then Inl ''boolean expected'' else Inr (address, vm_AsBool vm (v 3))))
       (\<lambda>(address, value). Client_WriteSingleCoil client tp (ucast address) value) (\<lambda>_. ())"

definition lua_write_coils :: "('v, 't) vm \<Rightarrow> Client \<Rightarrow> ('c, 'w) transport \<Rightarrow> 'v stack \<Rightarrow> 'w \<Rightarrow> (string + unit) \<times> 'w" where
  "lua_write_coils vm client tp v =
     invoke (res_bind (getInt vm v 2) (\<lambda>address. res_bind (getTable vm v 3) (\<lambda>tbl.
         res_bind (luaTableToCoils vm tbl) (\<lambda>values. Inr (address, values)))))
       (\<lambda>(address, values). Client_WriteMultipleCoils client tp (ucast address) values) (\<lambda>_. ())"

definition lua_read_write_registers :: "('v, 't) vm \<Rightarrow> Client \<Rightarrow> ('c, 'w) transport \<Rightarrow> 'v stack \<Rightarrow> 'w \<Rightarrow> (string + 'v) \<times> 'w" where
  "lua_read_write_registers vm client tp v =
     invoke (res_bind (getInt vm v 2) (\<lambda>readAddr. res_bind (getInt vm v 3) (\<lambda>readQty.
         res_bind (getInt vm v 4) (\<lambda>writeAddr. res_bind (getTable vm v 5) (\<lambda>tbl.
         res_bind (luaTableToRegisters vm tbl) (\<lambda>values. Inr (readAddr, readQty, writeAddr, values)))))))
       (\<lambda>(readAddr, readQty, writeAddr, values).
          Client_ReadWriteMultipleRegisters client tp (ucast readAddr) (ucast readQty) (ucast writeAddr) values)
       (\<lambda>regs. vm_NewTable vm (registersToLuaTable vm regs))"

text \<open>\<^verbatim>\<open>result.SetString\<close> with a list of fields.\<close>

definition fields_table :: "('v, 't) vm \<Rightarrow> (string \<times> 'v) list \<Rightarrow> 't" where
  "fields_table vm fs = fold (\<lambda>(k, x) t. vm_Set vm t (vm_NewString vm (bytes_of k)) x) fs (vm_EmptyTable vm)"

definition lua_read_device_id :: "('v, 't) vm \<Rightarrow> Client \<Rightarrow> ('c, 'w) transport \<Rightarrow> 'w \<Rightarrow> (string + 'v) \<times> 'w" where
  "lua_read_device_id vm client tp =
     invoke (Inr ()) (\<lambda>_. Client_ReadDeviceIdentification client tp ReadDeviceIDBasicStream 0)
       (\<lambda>devID. vm_NewTable vm (fields_table vm
          [(''vendor_name'', vm_NewString vm (GetObjectValue devID 0)),
           (''product_code'', vm_NewString vm (GetObjectValue devID 1)),
           (''revision'', vm_NewString vm (GetObjectValue devID 2))]))"

definition lua_to_int32 :: "('v, 't) vm \<Rightarrow> 'v stack \<Rightarrow> string + 'v" where
  "lua_to_int32 vm v =
     res_bind (getInt vm v 2) (\<lambda>high. res_bind (getInt vm v 3) (\<lambda>low.
       Inr (vm_NewInt vm (scast (le_get (rev (be16 (ucast high) @ be16 (ucast low))) :: u32)))))"

definition lua_to_float32 :: "('v, 't) vm \<Rightarrow> (u32 \<Rightarrow> u64) \<Rightarrow> 'v stack \<Rightarrow> string + 'v" where
  "lua_to_float32 vm widen v =
     res_bind (getInt vm v 2) (\<lambda>high. res_bind (getInt vm v 3) (\<lambda>low.
       Inr (vm_NewFloat vm (widen (le_get (rev (be16 (ucast high) @ be16 (ucast low)))))))) "

section \<open>Methods of an EtherNet/IP client\<close>

text \<open>The value of a Read Tag reply; \<^verbatim>\<open>raw\<close> stands for the text of the fallback.\<close>

definition payload_value :: "('v, 't) vm \<Rightarrow> (u32 \<Rightarrow> u64) \<Rightarrow> (CipType \<Rightarrow> nat \<Rightarrow> byte list) \<Rightarrow> CipType \<Rightarrow> byte list \<Rightarrow> 'v" where
  "payload_value vm widen raw typeCode payload =
     (let n = length payload in
      if typeCode = TypeBOOL \<and> 1 \<le> n then vm_NewBool vm (payload ! 0 \<noteq> 0)
      else if typeCode = TypeSINT \<and> 1 \<le> n then vm_NewInt vm (scast (payload ! 0))
      else if typeCode = TypeINT \<and> 2 \<le> n then vm_NewInt vm (scast (le_get (take 2 payload) :: u16))
      else if typeCode = TypeDINT \<and> 4 \<le> n then vm_NewInt vm (scast (le_get (take 4 payload) :: u32))
      else if typeCode = TypeLINT \<and> 8 \<le> n then vm_NewInt vm (le_get (take 8 payload))
      else if (typeCode = TypeUSINT \<or> typeCode = 0x00D1) \<and> 1 \<le> n then vm_NewInt vm (ucast (payload ! 0))
      else if (typeCode = TypeUINT \<or> typeCode = 0x00D2) \<and> 2 \<le> n
        then vm_NewInt vm (ucast (le_get (take 2 payload) :: u16))
      else if (typeCode = TypeUDINT \<or> typeCode = 0x00D3) \<and> 4 \<le> n
        then vm_NewInt vm (ucast (le_get (take 4 payload) :: u32))
      else if (typeCode = TypeULINT \<or> typeCode = 0x00D4) \<and> 8 \<le> n then vm_NewInt vm (le_get (take 8 payload))
      else if typeCode = TypeREAL \<and> 4 \<le> n then vm_NewFloat vm (widen (le_get (take 4 payload)))
      else if typeCode = TypeLREAL \<and> 8 \<le> n then vm_NewFloat vm (le_get (take 8 payload))
      else if typeCode = TypeSTRING \<and> 2 \<le> n \<and> 2 + unat (le16_at payload 0) \<le> n
        then vm_NewString vm (take (unat (le16_at payload 0)) (drop 2 payload))
      else vm_NewString vm (raw typeCode n))"

definition cipDataToLuaValue :: "('v, 't) vm \<Rightarrow> (u32 \<Rightarrow> u64) \<Rightarrow> (CipType \<Rightarrow> nat \<Rightarrow> byte list) \<Rightarrow> byte list \<Rightarrow> 'v" where
  "cipDataToLuaValue vm widen raw data =
     (if length data < 2 then vm_NewString vm data
      else let typeCode = le16_at data 0; hdrLen = (if typeCode \<ge> TypeSTRUCT then 4 else 2) in
        if length data < hdrLen then vm_NewString vm data
        else payload_value vm widen raw typeCode (drop hdrLen data))"

definition luaValueWithTypeHint :: "('v, 't) vm \<Rightarrow> (u64 \<Rightarrow> u32) \<Rightarrow> 'v \<Rightarrow> byte list \<Rightarrow> string + cip_value" where
  "luaValueWithTypeHint vm narrow val hint =
     (let h = ToUpper hint; n = vm_AsInt vm val in
      if h = bytes_of ''BOOL'' then Inr (GBool (if vm_IsBool vm val then vm_AsBool vm val else n \<noteq> 0))
      else if h = bytes_of ''SINT'' then Inr (GInt8 (ucast n))
      else if h = bytes_of ''INT'' then Inr (GInt16 (ucast n))
      else if h = bytes_of ''DINT'' then Inr (GInt32 (ucast n))
      else if h = bytes_of ''LINT'' then Inr (GInt64 n)
      else if h = bytes_of ''USINT'' then Inr (GUint8 (ucast n))
      else if h = bytes_of ''UINT'' then Inr (GUint16 (ucast n))
      else if h = bytes_of ''UDINT'' then Inr (GUint32 (ucast n))
      else if h = bytes_of ''ULINT'' then Inr (GUint64 n)
      else if h = bytes_of ''REAL'' then Inr (GFloat32 (narrow (vm_AsFloat vm val)))
      else if h = bytes_of ''LREAL'' then Inr (GFloat64 (vm_AsFloat vm val))
      else if h = bytes_of ''STRING'' then Inr (GString (vm_AsString vm val))
      else Inl ''write_tag: unknown CIP type'')"

definition luaValueToGoForWrite :: "('v, 't) vm \<Rightarrow> (u64 \<Rightarrow> u32) \<Rightarrow> 'v \<Rightarrow> byte list \<Rightarrow> string + cip_value" where
  "luaValueToGoForWrite vm narrow val typeHint =
     (if typeHint \<noteq> [] then luaValueWithTypeHint vm narrow val typeHint
      else if vm_IsBool vm val then Inr (GBool (vm_AsBool vm val))
      else if vm_IsInt vm val then Inr (GInt32 (ucast (vm_AsInt vm val)))
      else if vm_IsFloat vm val then Inr (GFloat32 (narrow (vm_AsFloat vm val)))
      else if vm_IsString vm val then Inr (GString (vm_AsString vm val))
      else Inl ''write_tag: unsupported Lua type'')"

text \<open>The operations of this client may not return.\<close>

definition invoke_eip :: "string + 'a \<Rightarrow> ('a \<Rightarrow> 'w \<Rightarrow> ((cerr + 'b) \<times> 'w) option) \<Rightarrow> ('b \<Rightarrow> string + 'r) \<Rightarrow> 'w \<Rightarrow>
    ((string + 'r) \<times> 'w) option" where
  "invoke_eip args oper result w =
     (case args of
        Inl err \<Rightarrow> Some (Inl err, w)
      | Inr x \<Rightarrow>
          (case oper x w of
             None \<Rightarrow> None
           | Some (Inl err, w') \<Rightarrow> Some (Inl ''error of the client'', w')
           | Some (Inr y, w') \<Rightarrow> Some (result y, w')))"

definition lua_read_tag :: "('v, 't) vm \<Rightarrow> (u32 \<Rightarrow> u64) \<Rightarrow> (CipType \<Rightarrow> nat \<Rightarrow> byte list) \<Rightarrow> EipClient \<Rightarrow> ('c, 'w) eip_env \<Rightarrow>
    'v stack \<Rightarrow> 'w \<Rightarrow> ((string + 'v) \<times> 'w) option" where
  "lua_read_tag vm widen raw client env v =
     invoke_eip (getString vm v 2) (ReadTag client env) (\<lambda>data. Inr (cipDataToLuaValue vm widen raw data))"

definition lua_read_tag_raw :: "('v, 't) vm \<Rightarrow> EipClient \<Rightarrow> ('c, 'w) eip_env \<Rightarrow> 'v stack \<Rightarrow> 'w \<Rightarrow>
    ((string + 'v) \<times> 'w) option" where
  "lua_read_tag_raw vm client env v =
     invoke_eip (getString vm v 2) (\<lambda>tagName. ReadTagElements client env tagName (ucast (getOptInt vm v 3 1)))
       (\<lambda>data. Inr (vm_NewString vm data))"

text \<open>\<^verbatim>\<open>read_tags\<close> stops at the first element that is not a string and at the first error.\<close>

fun read_tags_loop :: "('v, 't) vm \<Rightarrow> (byte list \<Rightarrow> 'v) \<Rightarrow> (byte list \<Rightarrow> 'w \<Rightarrow> ((cerr + byte list) \<times> 'w) option) \<Rightarrow> 't \<Rightarrow>
    nat \<Rightarrow> nat \<Rightarrow> 't \<Rightarrow> 'w \<Rightarrow> ((string + 't) \<times> 'w) option" where
  "read_tags_loop vm conv readTag tbl i 0 acc w = Some (Inr acc, w)"
| "read_tags_loop vm conv readTag tbl i (Suc n) acc w =
     (let key = vm_NewInt vm (word_of_nat i); tagVal = vm_Get vm tbl key in
      if \<not> vm_IsString vm tagVal then Some (Inl ''read_tags: element must be a string tag name'', w)
      else (case readTag (vm_AsString vm tagVal) w of
              None \<Rightarrow> None
            | Some (Inl err, w') \<Rightarrow> Some (Inl ''error of the client'', w')
            | Some (Inr data, w') \<Rightarrow>
                read_tags_loop vm conv readTag tbl (i + 1) n (vm_Set vm acc key (conv data)) w'))"

definition lua_read_tags :: "('v, 't) vm \<Rightarrow> (u32 \<Rightarrow> u64) \<Rightarrow> (CipType \<Rightarrow> nat \<Rightarrow> byte list) \<Rightarrow> EipClient \<Rightarrow> ('c, 'w) eip_env \<Rightarrow>
    'v stack \<Rightarrow> 'w \<Rightarrow> ((string + 'v) \<times> 'w) option" where
  "lua_read_tags vm widen raw client env v w =
     (case getTable vm v 2 of
        Inl err \<Rightarrow> Some (Inl err, w)
      | Inr tbl \<Rightarrow>
          map_option (\<lambda>(r, w). (res_bind r (\<lambda>t. Inr (vm_NewTable vm t)), w))
            (read_tags_loop vm (cipDataToLuaValue vm widen raw) (ReadTag client env) tbl 1 (nat (vm_Len vm tbl))
               (vm_EmptyTable vm) w))"

definition lua_write_tag :: "('v, 't) vm \<Rightarrow> (u64 \<Rightarrow> u32) \<Rightarrow> EipClient \<Rightarrow> ('c, 'w) eip_env \<Rightarrow> 'v stack \<Rightarrow> 'w \<Rightarrow>
    ((string + unit) \<times> 'w) option" where
  "lua_write_tag vm narrow client env v =
     invoke_eip
       (res_bind (getString vm v 2) (\<lambda>tagName.
          res_bind (luaValueToGoForWrite vm narrow (v 3) (getOptString vm v 4 [])) (\<lambda>goVal. Inr (tagName, goVal))))
       (\<lambda>(tagName, goVal). WriteTag_value client env tagName goVal) (\<lambda>_. Inr ())"

definition lua_read_timer :: "('v, 't) vm \<Rightarrow> EipClient \<Rightarrow> ('c, 'w) eip_env \<Rightarrow> 'v stack \<Rightarrow> 'w \<Rightarrow> ((string + 'v) \<times> 'w) option" where
  "lua_read_timer vm client env v =
     invoke_eip (getString vm v 2) (ReadTimer client env)
       (\<lambda>t. Inr (vm_NewTable vm (fields_table vm
          [(''pre'', vm_NewInt vm (scast (t_PRE t))), (''acc'', vm_NewInt vm (scast (t_ACC t))),
           (''en'', vm_NewBool vm (t_EN t)), (''tt'', vm_NewBool vm (t_TT t)), (''dn'', vm_NewBool vm (t_DN t))])))"

definition lua_read_counter :: "('v, 't) vm \<Rightarrow> EipClient \<Rightarrow> ('c, 'w) eip_env \<Rightarrow> 'v stack \<Rightarrow> 'w \<Rightarrow> ((string + 'v) \<times> 'w) option" where
  "lua_read_counter vm client env v =
     invoke_eip (getString vm v 2) (ReadTag client env)
       (\<lambda>data. case res_bind (strip_type data) DecodeCounter of
          Inl err \<Rightarrow> Inl ''read_counter''
        | Inr c \<Rightarrow> Inr (vm_NewTable vm (fields_table vm
            [(''pre'', vm_NewInt vm (scast (c_PRE c))), (''acc'', vm_NewInt vm (scast (c_ACC c))),
             (''cu'', vm_NewBool vm (c_CU c)), (''cd'', vm_NewBool vm (c_CD c)), (''dn'', vm_NewBool vm (c_DN c)),
             (''ov'', vm_NewBool vm (c_OV c)), (''un'', vm_NewBool vm (c_UN c))])))"

definition lua_list_tags :: "('v, 't) vm \<Rightarrow> EipClient \<Rightarrow> ('c, 'w) eip_env \<Rightarrow> 'w \<Rightarrow> ((string + 'v) \<times> 'w) option" where
  "lua_list_tags vm client env =
     invoke_eip (Inr ()) (\<lambda>_. ListTags client env)
       (\<lambda>tags. Inr (vm_NewTable vm (fill_table vm
          (\<lambda>tag. vm_NewTable vm (fields_table vm
             [(''id'', vm_NewInt vm (ucast (InstanceID tag))), (''name'', vm_NewString vm (SymName tag)),
              (''type'', vm_NewInt vm (ucast (SymType tag)))])) 0 tags (vm_EmptyTable vm))))"

section \<open>What the machine documents\<close>

text \<open>
  Constructors and accessors are inverse, the tests tell the types apart, a table returns what was
  last set under a key, and the length of a table whose keys are exactly \<^verbatim>\<open>1..n\<close> is \<^verbatim>\<open>n\<close>.
\<close>

definition vm_ok :: "('v, 't) vm \<Rightarrow> bool" where
  "vm_ok vm \<longleftrightarrow>
     (\<forall>n. vm_AsInt vm (vm_NewInt vm n) = n \<and> vm_IsInt vm (vm_NewInt vm n) \<and> vm_IsNumber vm (vm_NewInt vm n) \<and>
        \<not> vm_IsBool vm (vm_NewInt vm n) \<and> \<not> vm_IsNil vm (vm_NewInt vm n)) \<and>
     (\<forall>x. vm_AsFloat vm (vm_NewFloat vm x) = x \<and> vm_IsFloat vm (vm_NewFloat vm x) \<and>
        \<not> vm_IsInt vm (vm_NewFloat vm x) \<and> \<not> vm_IsBool vm (vm_NewFloat vm x)) \<and>
     (\<forall>b. vm_AsBool vm (vm_NewBool vm b) = b \<and> vm_IsBool vm (vm_NewBool vm b) \<and> \<not> vm_IsNil vm (vm_NewBool vm b)) \<and>
     (\<forall>s. vm_AsString vm (vm_NewString vm s) = s \<and> vm_IsString vm (vm_NewString vm s) \<and>
        \<not> vm_IsNil vm (vm_NewString vm s)) \<and>
     (\<forall>t. vm_AsTable vm (vm_NewTable vm t) = t \<and> vm_IsTable vm (vm_NewTable vm t)) \<and>
     (\<forall>t k x k'. vm_Get vm (vm_Set vm t k x) k' = (if k' = k then x else vm_Get vm t k')) \<and>
     (\<forall>k. vm_IsNil vm (vm_Get vm (vm_EmptyTable vm) k)) \<and>
     (\<forall>t n. n < 2 ^ 62 \<longrightarrow>
        (\<forall>i. 1 \<le> i \<longrightarrow> i \<le> n \<longrightarrow> \<not> vm_IsNil vm (vm_Get vm t (vm_NewInt vm (word_of_nat i)))) \<longrightarrow>
        vm_IsNil vm (vm_Get vm t (vm_NewInt vm (word_of_nat (Suc n)))) \<longrightarrow> vm_Len vm t = int n)"

lemma vm_okD:
  assumes "vm_ok vm"
  shows "vm_AsInt vm (vm_NewInt vm n) = n" "vm_IsInt vm (vm_NewInt vm n)" "vm_IsNumber vm (vm_NewInt vm n)"
    "\<not> vm_IsBool vm (vm_NewInt vm n)" "\<not> vm_IsNil vm (vm_NewInt vm n)"
    "vm_AsFloat vm (vm_NewFloat vm x) = x" "vm_IsFloat vm (vm_NewFloat vm x)" "\<not> vm_IsInt vm (vm_NewFloat vm x)"
    "\<not> vm_IsBool vm (vm_NewFloat vm x)" "vm_AsBool vm (vm_NewBool vm b) = b" "vm_IsBool vm (vm_NewBool vm b)"
    "\<not> vm_IsNil vm (vm_NewBool vm b)" "vm_AsString vm (vm_NewString vm s) = s" "vm_IsString vm (vm_NewString vm s)"
    "\<not> vm_IsNil vm (vm_NewString vm s)" "vm_AsTable vm (vm_NewTable vm t) = t" "vm_IsTable vm (vm_NewTable vm t)"
    "vm_Get vm (vm_Set vm t k y) k' = (if k' = k then y else vm_Get vm t k')"
    "vm_IsNil vm (vm_Get vm (vm_EmptyTable vm) k)"
  using assms unfolding vm_ok_def by blast+

lemma vm_Len_seq:
  assumes "vm_ok vm" "n < 2 ^ 62"
    "\<And>i. \<lbrakk>1 \<le> i; i \<le> n\<rbrakk> \<Longrightarrow> \<not> vm_IsNil vm (vm_Get vm t (vm_NewInt vm (word_of_nat i)))"
    "vm_IsNil vm (vm_Get vm t (vm_NewInt vm (word_of_nat (Suc n))))"
  shows "vm_Len vm t = int n"
  using assms unfolding vm_ok_def by blast

lemma vm_NewInt_inj: "vm_ok vm \<Longrightarrow> vm_NewInt vm a = vm_NewInt vm b \<longleftrightarrow> a = b"
  by (metis vm_okD(1))

section \<open>Tables\<close>

lemma of_nat_u64_inj: "\<lbrakk>i < 2 ^ 63; j < 2 ^ 63\<rbrakk> \<Longrightarrow> (word_of_nat i :: u64) = word_of_nat j \<longleftrightarrow> i = j"
  by (auto simp: word_of_nat_eq_iff take_bit_nat_eq_self)

lemma fill_table_get:
  assumes "vm_ok vm" "m + length xs < 2 ^ 62" "i < 2 ^ 62"
  shows "vm_Get vm (fill_table vm f m xs t) (vm_NewInt vm (word_of_nat i)) =
    (if m < i \<and> i \<le> m + length xs then f (xs ! (i - m - 1)) else vm_Get vm t (vm_NewInt vm (word_of_nat i)))"
  using assms(2)
proof (induction xs arbitrary: m t)
  case (Cons x xs)
  have "vm_NewInt vm (word_of_nat i) = vm_NewInt vm (word_of_nat (m + 1)) \<longleftrightarrow> i = m + 1"
    using Cons.prems assms(3) by (subst vm_NewInt_inj [OF assms(1)], subst of_nat_u64_inj) auto
  moreover have "i - m - 1 = Suc (i - (m + 1) - 1)" if "m + 1 < i" using that by simp
  ultimately show ?case using Cons by (auto simp: vm_okD(18) [OF assms(1)])
qed auto

lemma fill_table_Len:
  assumes "vm_ok vm" "length xs < 2 ^ 61" "\<And>x. \<not> vm_IsNil vm (f x)"
  shows "vm_Len vm (fill_table vm f 0 xs (vm_EmptyTable vm)) = int (length xs)"
proof (rule vm_Len_seq [OF assms(1)])
  fix i :: nat assume "1 \<le> i" "i \<le> length xs"
  then show "\<not> vm_IsNil vm (vm_Get vm (fill_table vm f 0 xs (vm_EmptyTable vm)) (vm_NewInt vm (word_of_nat i)))"
    using assms(2,3) by (subst fill_table_get [OF assms(1)]) auto
next
  show "vm_IsNil vm (vm_Get vm (fill_table vm f 0 xs (vm_EmptyTable vm)) (vm_NewInt vm (word_of_nat (Suc (length xs)))))"
    using assms(2) vm_okD(19) [OF assms(1)] by (subst fill_table_get [OF assms(1)]) auto
qed (use assms(2) in simp)

lemma read_table_fill:
  assumes "vm_ok vm" "length xs < 2 ^ 61" "\<And>x. ok (f x)" "\<And>x. get (f x) = x" "m + n = length xs"
  shows "read_table vm ok get (fill_table vm f 0 xs t) (Suc m) n = Inr (drop m xs)"
  using assms(5)
proof (induction n arbitrary: m)
  case (Suc n)
  have "vm_Get vm (fill_table vm f 0 xs t) (vm_NewInt vm (word_of_nat (Suc m))) = f (xs ! m)"
    using Suc.prems assms(2) by (subst fill_table_get [OF assms(1)]) auto
  moreover have "drop m xs = xs ! m # drop (Suc m) xs" using Suc.prems by (simp add: Cons_nth_drop_Suc)
  ultimately show ?case using Suc assms(3,4) by (simp add: res_simps)
qed simp

lemma ucast_back:
  "ucast (ucast (a :: byte) :: u64) = a" "ucast (ucast (b :: u16) :: u64) = b" "ucast (ucast (c :: u32) :: u64) = c"
  by (rule bit_word_eqI, simp add: bit_simps)+

lemma registers_table:
  assumes "vm_ok vm" "regs \<noteq> []" "length regs < 2 ^ 61"
  shows "luaTableToRegisters vm (registersToLuaTable vm regs) = Inr regs"
proof -
  have "read_table vm (vm_IsNumber vm) (\<lambda>val. ucast (vm_AsInt vm val)) (registersToLuaTable vm regs) (Suc 0)
      (length regs) = Inr (drop 0 regs)"
    unfolding registersToLuaTable_def
    by (rule read_table_fill [OF assms(1,3)]) (simp_all add: vm_okD [OF assms(1)] ucast_back)
  then show ?thesis using fill_table_Len [OF assms(1,3), of "\<lambda>r. vm_NewInt vm (ucast r)"] assms(2)
    by (simp add: luaTableToRegisters_def registersToLuaTable_def vm_okD [OF assms(1)])
qed

lemma coils_table:
  assumes "vm_ok vm" "vals \<noteq> []" "length vals < 2 ^ 61"
  shows "luaTableToCoils vm (boolsToLuaTable vm vals) = Inr vals"
proof -
  have "read_table vm (vm_IsBool vm) (vm_AsBool vm) (boolsToLuaTable vm vals) (Suc 0) (length vals) = Inr (drop 0 vals)"
    unfolding boolsToLuaTable_def
    by (rule read_table_fill [OF assms(1,3)]) (simp_all add: vm_okD [OF assms(1)])
  then show ?thesis using fill_table_Len [OF assms(1,3), of "vm_NewBool vm"] assms(2)
    by (simp add: luaTableToCoils_def boolsToLuaTable_def vm_okD [OF assms(1)])
qed

section \<open>A concrete machine\<close>

datatype lval = LNil | LBool bool | LInt u64 | LFloat u64 | LStr "byte list" | LTab "(lval \<times> lval) list"

definition lget :: "(lval \<times> lval) list \<Rightarrow> lval \<Rightarrow> lval" where
  "lget t k = (case map_of t k of Some v \<Rightarrow> v | None \<Rightarrow> LNil)"

definition simple_vm :: "(lval, (lval \<times> lval) list) vm" where
  "simple_vm =
     \<lparr>vm_NewInt = LInt, vm_NewFloat = LFloat, vm_NewBool = LBool, vm_NewString = LStr, vm_NewTable = LTab,
      vm_IsNil = (\<lambda>v. case v of LNil \<Rightarrow> True | _ \<Rightarrow> False), vm_IsInt = (\<lambda>v. case v of LInt _ \<Rightarrow> True | _ \<Rightarrow> False),
      vm_IsFloat = (\<lambda>v. case v of LFloat _ \<Rightarrow> True | _ \<Rightarrow> False),
      vm_IsNumber = (\<lambda>v. case v of LInt _ \<Rightarrow> True | LFloat _ \<Rightarrow> True | _ \<Rightarrow> False),
      vm_IsBool = (\<lambda>v. case v of LBool _ \<Rightarrow> True | _ \<Rightarrow> False),
      vm_IsString = (\<lambda>v. case v of LStr _ \<Rightarrow> True | _ \<Rightarrow> False),
      vm_IsTable = (\<lambda>v. case v of LTab _ \<Rightarrow> True | _ \<Rightarrow> False),
      vm_AsInt = (\<lambda>v. case v of LInt n \<Rightarrow> n | _ \<Rightarrow> 0), vm_AsFloat = (\<lambda>v. case v of LFloat x \<Rightarrow> x | _ \<Rightarrow> 0),
      vm_AsBool = (\<lambda>v. case v of LBool b \<Rightarrow> b | _ \<Rightarrow> False), vm_AsString = (\<lambda>v. case v of LStr s \<Rightarrow> s | _ \<Rightarrow> []),
      vm_AsTable = (\<lambda>v. case v of LTab t \<Rightarrow> t | _ \<Rightarrow> []), vm_EmptyTable = [],
      vm_Set = (\<lambda>t k v. (k, v) # t), vm_Get = lget,
      vm_Len = (\<lambda>t. int (length (takeWhile (\<lambda>i. lget t (LInt (word_of_nat i)) \<noteq> LNil) [1..<Suc (length t)])))\<rparr>"

lemma lval_nil: "(case v of LNil \<Rightarrow> True | _ \<Rightarrow> False) \<longleftrightarrow> v = LNil"
  by (cases v) simp_all

lemma seq_keys:
  assumes "n < 2 ^ 62" "\<And>i. \<lbrakk>1 \<le> i; i \<le> n\<rbrakk> \<Longrightarrow> lget t (LInt (word_of_nat i)) \<noteq> LNil"
  shows "n \<le> length t"
proof -
  let ?f = "\<lambda>i. LInt (word_of_nat i)"
  have "inj_on ?f {1..n}" using assms(1) of_nat_u64_inj by (auto simp: inj_on_def)
  then have "n = card (?f ` {1..n})" by (simp add: card_image)
  also have "?f ` {1..n} \<subseteq> fst ` set t"
  proof
    fix k assume "k \<in> ?f ` {1..n}"
    then obtain i where i: "k = ?f i" "1 \<le> i" "i \<le> n" by auto
    with assms(2) [of i] have "map_of t k \<noteq> None" by (auto simp: lget_def split: option.splits)
    then show "k \<in> fst ` set t" by (simp add: map_of_eq_None_iff)
  qed
  then have "card (?f ` {1..n}) \<le> card (fst ` set t)" by (intro card_mono) simp_all
  also have "\<dots> \<le> length t" by (metis card_length length_map set_map)
  finally show ?thesis .
qed

lemma simple_vm_Len:
  assumes "n < 2 ^ 62" "\<And>i. \<lbrakk>1 \<le> i; i \<le> n\<rbrakk> \<Longrightarrow> lget t (LInt (word_of_nat i)) \<noteq> LNil"
    "lget t (LInt (word_of_nat (Suc n))) = LNil"
  shows "length (takeWhile (\<lambda>i. lget t (LInt (word_of_nat i)) \<noteq> LNil) [1..<Suc (length t)]) = n"
proof -
  let ?P = "\<lambda>i. lget t (LInt (word_of_nat i)) \<noteq> LNil"
  have len: "n \<le> length t" using assms(1,2) by (rule seq_keys)
  then have "[1..<Suc (length t)] = [1..<Suc n] @ [Suc n..<Suc (length t)]"
    using upt_add_eq_append [of 1 "Suc n" "length t - n"] by (simp del: upt_Suc)
  moreover have "takeWhile ?P [Suc n..<Suc (length t)] = []"
    using assms(3) by (cases "n < length t") (simp_all add: upt_conv_Cons del: upt_Suc)
  moreover have "takeWhile ?P ([1..<Suc n] @ ys) = [1..<Suc n] @ takeWhile ?P ys" for ys
    using assms(2) by (intro takeWhile_append2) auto
  ultimately show ?thesis by (simp del: upt_Suc)
qed

lemma simple_vm_ok: "vm_ok simple_vm"
  unfolding vm_ok_def
proof (intro conjI allI impI)
  fix t n
  assume "n < 2 ^ 62"
    "\<forall>i. 1 \<le> i \<longrightarrow> i \<le> n \<longrightarrow> \<not> vm_IsNil simple_vm (vm_Get simple_vm t (vm_NewInt simple_vm (word_of_nat i)))"
    "vm_IsNil simple_vm (vm_Get simple_vm t (vm_NewInt simple_vm (word_of_nat (Suc n))))"
  then show "vm_Len simple_vm t = int n"
    using simple_vm_Len [of n t] by (simp add: simple_vm_def lval_nil del: upt_Suc)
qed (simp_all add: simple_vm_def lget_def)

section \<open>Properties\<close>

lemma Client_run_two:
  assumes "Client_run cl tp [x, y] w = (Inr [o1, o2], w2)"
  shows "\<exists>w1. Client_exec cl tp x w = (Inr o1, w1) \<and> Client_exec cl tp y w1 = (Inr o2, w2)"
  using assms by (auto simp: map_res_def res_simps split: prod.splits sum.splits)



text \<open>The integers the CIP type of a hint can hold; without a hint that is DINT.\<close>

definition int_fits :: "byte list \<Rightarrow> u64 \<Rightarrow> bool" where
  "int_fits hint n \<longleftrightarrow>
     (let h = ToUpper hint in
      (h = bytes_of ''SINT'' \<and> scast (ucast n :: byte) = n) \<or> (h = bytes_of ''INT'' \<and> scast (ucast n :: u16) = n) \<or>
      ((h = [] \<or> h = bytes_of ''DINT'') \<and> scast (ucast n :: u32) = n) \<or> h = bytes_of ''LINT'' \<or>
      (h = bytes_of ''USINT'' \<and> ucast (ucast n :: byte) = n) \<or> (h = bytes_of ''UINT'' \<and> ucast (ucast n :: u16) = n) \<or>
      (h = bytes_of ''UDINT'' \<and> ucast (ucast n :: u32) = n) \<or> h = bytes_of ''ULINT'')"

lemma cip_header:
  assumes "dt < TypeSTRUCT"
  shows "cipDataToLuaValue vm widen raw (le16 dt @ payload) = payload_value vm widen raw dt payload"
  using assms le16_at_append [of "[]" 0 dt payload] by (auto simp: cipDataToLuaValue_def Let_def)

lemma le_put_1: "le_put (Suc 0) (w :: byte) = [w]"
  by (simp add: le_put_Suc le_put_def)

lemma ToUpper_Nil: "ToUpper hint = [] \<longleftrightarrow> hint = []"
  by (cases hint rule: ToUpper.cases) auto

lemmas tag_simps = luaValueToGoForWrite_def luaValueWithTypeHint_def Let_def bytes_of_def cip_header payload_value_def
  le_get_put le_put_1 word_less_nat_alt

text \<open>Each integer type by itself: what the type code and the encoding give back.\<close>

lemma written_int:
  assumes "vm_ok vm" "luaValueToGoForWrite vm narrow (vm_NewInt vm n) hint = Inr gv" "int_fits hint n"
    "GoTypeToCIPType gv = Inr dt" "Marshal gv = Inr data"
  shows "cipDataToLuaValue vm widen raw (le16 dt @ data @ extra) = vm_NewInt vm n"
proof (cases "hint = []")
  case True
  with assms show ?thesis by (auto simp: tag_simps int_fits_def vm_okD [OF assms(1)])
next
  case False
  then have "ToUpper hint \<noteq> []" by (simp add: ToUpper_Nil)
  then show ?thesis using assms(2-5) False unfolding int_fits_def Let_def
    by (elim disjE conjE) (auto simp: tag_simps vm_okD [OF assms(1)])
qed

lemma written_bool:
  assumes "vm_ok vm" "luaValueToGoForWrite vm narrow (vm_NewBool vm b) hint = Inr gv"
    "ToUpper hint \<in> {[], bytes_of ''BOOL''}" "GoTypeToCIPType gv = Inr dt" "Marshal gv = Inr data"
  shows "cipDataToLuaValue vm widen raw (le16 dt @ data @ extra) = vm_NewBool vm b"
  using assms(2-5) by (cases "hint = []") (auto simp: tag_simps ToUpper_Nil vm_okD [OF assms(1)])

lemma written_float:
  assumes "vm_ok vm" "luaValueToGoForWrite vm narrow (vm_NewFloat vm x) hint = Inr gv"
    "ToUpper hint = bytes_of ''LREAL'' \<or> ToUpper hint \<in> {[], bytes_of ''REAL''} \<and> widen (narrow x) = x"
    "GoTypeToCIPType gv = Inr dt" "Marshal gv = Inr data"
  shows "cipDataToLuaValue vm widen raw (le16 dt @ data @ extra) = vm_NewFloat vm x"
  using assms(2-5) by (cases "hint = []") (auto simp: tag_simps ToUpper_Nil vm_okD [OF assms(1)])



text \<open>An integer no DINT can hold is cut, not refused, when the script gives no type.\<close>

lemma lua_int_truncated:
  "vm_ok vm \<Longrightarrow> luaValueToGoForWrite vm narrow (vm_NewInt vm 0x100000000) [] = Inr (GInt32 0)"
  by (simp add: luaValueToGoForWrite_def vm_okD)

end
