(* ===== verification/Spec2Isabelle.thy ===== *)
theory Spec2Isabelle
  imports Cluster Transport Eip_Io Monitor Modbus_Names Eip_Tools Pccc_Tools Lua_Scripts Lua
begin

text \<open>
  \<^bold>\<open>A verification library for goindustrial\<close>

  The program is a Go library of industrial protocols: Modbus TCP, and EtherNet/IP with CIP and
  PCCC on top of it.  A client builds requests, sends them over a transport that may reconnect,
  and parses replies; a server reads requests from connections, hands them to a data store or to
  CIP objects, and writes replies.  Above both stand a value type shared by the protocols
  (\<^verbatim>\<open>plc\<close>), a reader that merges neighbouring points into few requests and a monitor that polls
  points (\<^verbatim>\<open>monitor\<close>), bindings for Lua scripts (\<^verbatim>\<open>lua\<close>), and tracing (\<^verbatim>\<open>hexdump\<close>, \<^verbatim>\<open>logging\<close>).

  \<^bold>\<open>Conventions.\<close>  Source files are named below \<^verbatim>\<open>src/\<close>.  Go structs are records and keep their
  field names up to a prefix, enumerations and unions of types are datatypes, machine integers are
  words of their width, Go's signed integers are the words of their bits where only their bits
  matter and \<^typ>\<open>int\<close> where they are compared.  A function that returns an error gives a sum, with
  the error on the left; a panic is an error value of its own or \<^const>\<open>None\<close>.  Named constants are
  input abbreviations under their Go names.  State is passed explicitly: what a connection, a clock,
  a random source, a map iteration or a third-party machine does is an argument, so one theorem
  speaks of all of them.  Concurrent code is a step relation whose steps are the critical sections
  of the code, and its theorems hold for every interleaving.

  \<^bold>\<open>Prelude and streams.\<close>
  \<^item> \<^verbatim>\<open>Prelude\<close>: words, byte orders, packed bits, the result type and readers over byte lists, with
    the simp collections \<^verbatim>\<open>codec_simps\<close> and \<^verbatim>\<open>res_simps\<close>.
  \<^item> \<^verbatim>\<open>Byte_Stream\<close>: a socket as a list of events (data, deadline, end), and \<^verbatim>\<open>io.ReadFull\<close> on it.
  \<^item> \<^verbatim>\<open>Plc_Value\<close>: \<^verbatim>\<open>plc/plc.go\<close>, typed values in either byte order.

  \<^bold>\<open>Modbus\<close> (\<^verbatim>\<open>protocol/modbus\<close>).
  \<^item> \<^verbatim>\<open>Modbus_Types\<close>, \<^verbatim>\<open>Modbus_Frame\<close>, \<^verbatim>\<open>Modbus_Protocol\<close>: codes, errors, the MBAP header, frames,
    and the generation and parsing of every request (\<^verbatim>\<open>types.go\<close>, \<^verbatim>\<open>errors.go\<close>, \<^verbatim>\<open>mbap.go\<close>, \<^verbatim>\<open>pdu.go\<close>,
    \<^verbatim>\<open>request.go\<close>, \<^verbatim>\<open>response.go\<close>, \<^verbatim>\<open>protocol.go\<close>, \<^verbatim>\<open>device.go\<close>): decoding undoes encoding, and what
    the parser accepts is characterised.
  \<^item> \<^verbatim>\<open>Modbus_Names\<close>: the texts of codes and errors; each text belongs to one code.
  \<^item> \<^verbatim>\<open>Modbus_Store\<close>, \<^verbatim>\<open>Modbus_Handlers\<close>, \<^verbatim>\<open>Modbus_Server\<close>: the memory store, a handler per function
    code, and the loop of a connection (\<^verbatim>\<open>datastore.go\<close>, \<^verbatim>\<open>server_protocol.go\<close>, \<^verbatim>\<open>server.go\<close>), with the
    limit on clients as an invariant.
  \<^item> \<^verbatim>\<open>Modbus_Client\<close>: the client's operations and its retry loop, counted (\<^verbatim>\<open>client.go\<close>, \<^verbatim>\<open>datapoint.go\<close>).
  \<^item> \<^verbatim>\<open>Modbus_Pool\<close>, \<^verbatim>\<open>Modbus_Conn\<close>: the pool of transactions and the connection with its read and
    write loops, timeouts and generations, as a step relation (\<^verbatim>\<open>transaction.go\<close>, \<^verbatim>\<open>conn.go\<close>): one
    transaction per identifier, one teardown per connection, responses go to the request that has
    their identifier, a disconnect wakes every caller.
  \<^item> \<^verbatim>\<open>Modbus_System\<close>: client, connection and server joined by their bytes.  Every sequence of client
    calls acts as on an abstract device with four banks; the server answers every request.

  \<^bold>\<open>Transports and monitoring.\<close>
  \<^item> \<^verbatim>\<open>Transport\<close>: \<^verbatim>\<open>transport/\<close>.  Both transports satisfy one contract, a locale; the history of a
    reconnecting transport opens one connection at a time and closes each once.
  \<^item> \<^verbatim>\<open>Cluster\<close>: \<^verbatim>\<open>monitor/cluster_plan.go\<close> and \<^verbatim>\<open>cluster.go\<close>.  The plan partitions the points, and a
    clustered read returns what direct reads would.
  \<^item> \<^verbatim>\<open>Monitor\<close>: the rest of \<^verbatim>\<open>monitor/\<close>, as a transition system over goroutines, channels, locks and
    the wait group.  It never sends on a closed channel, \<^verbatim>\<open>Close\<close> can always finish unless a handler
    stops its own subscription, and the change flag equals a reference definition.

  \<^bold>\<open>EtherNet/IP\<close> (\<^verbatim>\<open>protocol/ethernetip\<close>).
  \<^item> \<^verbatim>\<open>Cip_Path\<close>, \<^verbatim>\<open>Cip_Message\<close>, \<^verbatim>\<open>Cip_Types\<close>: paths and tag names, messages and the router, values,
    the type registry and the Rockwell structures (\<^verbatim>\<open>cip/\<close>, \<^verbatim>\<open>vendor/rockwell\<close>).  Tag names mean their
    paths, messages round-trip, structures are codecs, a locale with five instances.
  \<^item> \<^verbatim>\<open>Eip_Packet\<close>: the encapsulation header, the common packet format and discovery (\<^verbatim>\<open>eip/\<close>, \<^verbatim>\<open>conn.go\<close>).
  \<^item> \<^verbatim>\<open>Cip_Objects\<close>: the assembly object and the connection manager (\<^verbatim>\<open>objects/\<close>).
  \<^item> \<^verbatim>\<open>Eip_Server\<close>, \<^verbatim>\<open>Eip_Client\<close>, \<^verbatim>\<open>Eip_System\<close>: the server's loop, sessions and the client with its
    retry loop, and both joined by their bytes (\<^verbatim>\<open>server.go\<close>, \<^verbatim>\<open>session.go\<close>, \<^verbatim>\<open>connector.go\<close>, \<^verbatim>\<open>client.go\<close>):
    a session's requests act on the objects as dispatching them does.
  \<^item> \<^verbatim>\<open>Eip_Io\<close>: cyclic data between the scanner (\<^verbatim>\<open>io.go\<close>) and an adapter's runtime (\<^verbatim>\<open>runtime/\<close>).
  \<^item> \<^verbatim>\<open>Pccc\<close>, \<^verbatim>\<open>Pccc_Client\<close>: addresses, frames and the client for SLC and MicroLogix files (\<^verbatim>\<open>pccc/\<close>).

  \<^bold>\<open>Around the protocols.\<close>
  \<^item> \<^verbatim>\<open>Diagnostics\<close>: hex dumps, from which the data can be read back, and the logger.
  \<^item> \<^verbatim>\<open>Lua\<close>: the methods scripts call and the conversion of values.  The Lua machine is third-party: a
    record of its operations with the laws it documents, which a small machine satisfies.
  \<^item> \<^verbatim>\<open>Tag_Server\<close>, \<^verbatim>\<open>Tag_Tools\<close>: the tag server of \<^verbatim>\<open>examples/ethernetip/server\<close> under the direct client,
    and the programs \<^verbatim>\<open>write_tag\<close> and \<^verbatim>\<open>custom_type\<close>.  With the tag object as symbolic handler the whole
    stack is a map from names to typed data; as the example registers it, no tag can be reached.

  \<^bold>\<open>Example programs\<close> (\<^verbatim>\<open>examples/\<close>).  A program is a function from its parsed flags and the client it
  uses to the report it prints, a value; a slice out of range is a panic of the report.
  \<^item> \<^verbatim>\<open>Modbus_Tools\<close>: the programs that write, read and poll tables, the demonstration of all data
    types, device identification and the store of the example server.  A locale states what they need
    of a link to a device, and client, connection and server of \<^verbatim>\<open>Modbus_System\<close> provide it: the
    writers verify every value they wrote, the display shows the bytes of the wire, no program
    panics.
  \<^item> \<^verbatim>\<open>Probe\<close>, \<^verbatim>\<open>Eip_Tools\<close>: the device probe, and the programs that read, list and poll tags, timers and
    counters.  For a scalar tag all programs show one value; the probe's scan of assemblies ends
    exactly when its bound is not the largest instance.
  \<^item> \<^verbatim>\<open>Pccc_Tools\<close>: reader, writer and monitor for SLC files; reader and monitor agree.
  \<^item> \<^verbatim>\<open>Lua_Scripts\<close>: the scripts of the Lua programs.  The condition monitor's conditions are active
    exactly when the history of its successful reads satisfies them, and its callbacks run on
    transitions only.

  \<^bold>\<open>Loops and bounds.\<close>  Loops over data are structural or have a measure.  The retry loops run
  until they settle: Modbus counts down its attempts, and the EtherNet/IP loop, which may run for
  ever with unlimited retries, is a partial function whose \<^const>\<open>None\<close> is not returning; that it
  returns is proved for bounded retries and for a peer that recovers, and that it does not is proved
  for a closed transport.  The probe's scan and the scan loop of the condition monitor are partial
  functions too, and when they return is characterised.  There is no fuel.  The search for a free transaction identifier makes as
  many attempts as the code does.  Hypotheses on lengths are those of the 16-bit length fields and
  the packet limits of the code; that a counter of sessions or connections has not wrapped is a
  hypothesis where the code relies on it.

  \<^bold>\<open>Not modelled.\<close>
  \<^item> Dialling, listening, deadlines and the accept loops beyond their effect on the tables: they are
    calls into \<^verbatim>\<open>net\<close>.  Contexts and clocks appear as the choices they lead to.
  \<^item> Floating-point arithmetic: floats are their bits, and conversions between formats and to text
    are arguments.
  \<^item> Log calls, and the texts of wrapped errors: an error keeps its kind, not its message.
  \<^item> Options that only store a setting, the logger that discards, and the connect functions of the
    Lua modules, which read a table of options and dial.
  \<^item> Flags, dialling, signals and the layout of the printout in the example programs; the programs
    that only wire library parts together (hexdump, monitor_polling, monitor_subscriber,
    plc_interface, adapter, io_scanner, the hosts of the Lua scripts), and the helpers of tests.
\<close>

end
